(* ===== verification/Prelude.thy ===== *)
theory Prelude
  imports Main "HOL-Library.AList" "HOL-Library.Sublist"
begin

text \<open>
  Shared vocabulary of the development: the parts of the JavaScript language and standard
  library that the services use (ordered maps, the nullish operators, whole numbers with NaN,
  decimal printing and \<open>parseInt\<close>, substring tests), the effect type of asynchronous code with
  its weakest-precondition rules, and the generic lemmas the component theories rest on.
\<close>

named_theorems js_simps \<open>definitions of the JavaScript primitives\<close>
named_theorems wp_simps \<open>weakest-precondition rules of the effect type\<close>

section \<open>Ordered maps\<close>

text \<open>
  A JavaScript \<open>Map\<close> iterates in insertion order, and \<open>set\<close> on a present key keeps its
  position. Association lists with \<open>AList.update\<close> and \<open>AList.delete\<close> behave the same way.
\<close>

type_synonym ('k, 'v) js_map = "('k \<times> 'v) list"

abbreviation js_get :: "('k, 'v) js_map \<Rightarrow> 'k \<Rightarrow> 'v option" where
  "js_get m k \<equiv> map_of m k"

abbreviation js_set :: "'k \<Rightarrow> 'v \<Rightarrow> ('k, 'v) js_map \<Rightarrow> ('k, 'v) js_map" where
  "js_set k v m \<equiv> AList.update k v m"

abbreviation js_del :: "'k \<Rightarrow> ('k, 'v) js_map \<Rightarrow> ('k, 'v) js_map" where
  "js_del k m \<equiv> AList.delete k m"

abbreviation js_keys :: "('k, 'v) js_map \<Rightarrow> 'k list" where
  "js_keys m \<equiv> map fst m"

definition js_map_ok :: "('k, 'v) js_map \<Rightarrow> bool" where
  "js_map_ok m \<longleftrightarrow> distinct (js_keys m)"

lemma js_get_set: "js_get (js_set k v m) k' = (if k' = k then Some v else js_get m k')"
  by (simp add: update_conv')

lemma js_get_del: "js_get (js_del k m) k' = (if k' = k then None else js_get m k')"
  by (simp add: delete_conv')

lemma js_map_ok_set [simp]: "js_map_ok m \<Longrightarrow> js_map_ok (js_set k v m)"
  by (simp add: js_map_ok_def distinct_update)

lemma js_map_ok_del [simp]: "js_map_ok m \<Longrightarrow> js_map_ok (js_del k m)"
  by (simp add: js_map_ok_def distinct_delete)

lemma js_map_ok_Nil [simp]: "js_map_ok []"
  by (simp add: js_map_ok_def)

lemma length_js_set:
  "length (js_set k v m) = (if k \<in> set (js_keys m) then length m else Suc (length m))"
  by (induction m) auto

lemma length_js_del_le: "length (js_del k m) \<le> length m"
  by (rule length_delete_le)

lemmas js_map_simps = js_get_set js_get_del

text \<open>Key-value storage, as an interface: what a client of a map-like store may rely on.\<close>

locale kv_store =
  fixes get :: "'m \<Rightarrow> 'k \<Rightarrow> 'v option"
    and put :: "'k \<Rightarrow> 'v \<Rightarrow> 'm \<Rightarrow> 'm"
    and del :: "'k \<Rightarrow> 'm \<Rightarrow> 'm"
  assumes get_put: "get (put k v m) k' = (if k' = k then Some v else get m k')"
    and get_del: "get (del k m) k' = (if k' = k then None else get m k')"
begin

lemma put_same: "get (put k v m) k = Some v"
  by (simp add: get_put)

lemma put_other: "k' \<noteq> k \<Longrightarrow> get (put k v m) k' = get m k'"
  by (simp add: get_put)

lemma del_same: "get (del k m) k = None"
  by (simp add: get_del)

lemma del_other: "k' \<noteq> k \<Longrightarrow> get (del k m) k' = get m k'"
  by (simp add: get_del)

end

interpretation js_map: kv_store map_of AList.update AList.delete
  by unfold_locales (simp_all add: js_map_simps)

text \<open>The first element that satisfies a predicate, in a list that is extended.\<close>

lemma find_append_Some: "find P xs = Some x \<Longrightarrow> find P (xs @ ys) = Some x"
  by (induction xs) auto

lemma find_append_None: "find P xs = None \<Longrightarrow> find P (xs @ ys) = find P ys"
  by (induction xs) (auto split: if_splits)

section \<open>Nullish values and whole numbers\<close>

text \<open>\<open>a ?? b\<close>: the right operand only when the left one is absent.\<close>

definition nullish :: "'a option \<Rightarrow> 'a \<Rightarrow> 'a" where
  "nullish a b = (case a of None \<Rightarrow> b | Some x \<Rightarrow> x)"

lemma nullish_simps [simp]: "nullish None b = b" "nullish (Some x) b = x"
  by (simp_all add: nullish_def)

text \<open>
  Numbers that the code uses as counters, limits and times: a whole number or \<open>NaN\<close> (the
  result of \<open>parseInt\<close> on text without a leading number). Every comparison with \<open>NaN\<close> is
  false and arithmetic propagates it. Magnitudes stay below 2 to the 53, where the language's
  numbers are exact.
\<close>

datatype jint = NaN | JInt int

fun jle :: "jint \<Rightarrow> jint \<Rightarrow> bool" where
  "jle (JInt a) (JInt b) = (a \<le> b)"
| "jle _ _ = False"

fun jlt :: "jint \<Rightarrow> jint \<Rightarrow> bool" where
  "jlt (JInt a) (JInt b) = (a < b)"
| "jlt _ _ = False"

fun jadd :: "jint \<Rightarrow> jint \<Rightarrow> jint" where
  "jadd (JInt a) (JInt b) = JInt (a + b)"
| "jadd _ _ = NaN"

fun jsub :: "jint \<Rightarrow> jint \<Rightarrow> jint" where
  "jsub (JInt a) (JInt b) = JInt (a - b)"
| "jsub _ _ = NaN"

fun jmax :: "jint \<Rightarrow> jint \<Rightarrow> jint" where
  "jmax (JInt a) (JInt b) = JInt (max a b)"
| "jmax _ _ = NaN"

fun jmin :: "jint \<Rightarrow> jint \<Rightarrow> jint" where
  "jmin (JInt a) (JInt b) = JInt (min a b)"
| "jmin _ _ = NaN"

section \<open>Text\<close>

definition is_digit :: "char \<Rightarrow> bool" where
  "is_digit c \<longleftrightarrow> 48 \<le> (of_char c :: nat) \<and> (of_char c :: nat) \<le> 57"

definition digit_val :: "char \<Rightarrow> int" where
  "digit_val c = int (of_char c) - 48"

definition is_space :: "char \<Rightarrow> bool" where
  "is_space c \<longleftrightarrow> c \<in> {CHR '' '', CHR 0x09, CHR 0x0A, CHR 0x0B, CHR 0x0C, CHR 0x0D, CHR 0xA0}"

fun digits_val :: "int \<Rightarrow> string \<Rightarrow> int" where
  "digits_val acc [] = acc"
| "digits_val acc (c # cs) = digits_val (10 * acc + digit_val c) cs"

text \<open>\<open>parseInt(s, 10)\<close>: blanks, a sign, and the longest run of digits; the rest is ignored.\<close>

definition parse_digits :: "string \<Rightarrow> jint" where
  "parse_digits s =
     (let ds = takeWhile is_digit s in if ds = [] then NaN else JInt (digits_val 0 ds))"

definition parse_int :: "string \<Rightarrow> jint" where
  "parse_int s =
     (case dropWhile is_space s of
        [] \<Rightarrow> NaN
      | c # cs \<Rightarrow>
          if c = CHR ''-'' then jsub (JInt 0) (parse_digits cs)
          else if c = CHR ''+'' then parse_digits cs
          else parse_digits (c # cs))"

definition str_includes :: "string \<Rightarrow> string \<Rightarrow> bool" where
  "str_includes s t \<longleftrightarrow> list_ex (prefix t) (suffixes s)"

lemma str_includes_sublist: "str_includes s t \<longleftrightarrow> sublist t s"
  by (auto simp: str_includes_def list_ex_iff sublist_altdef')

definition digit_char :: "int \<Rightarrow> char" where
  "digit_char n = char_of (48 + nat (n mod 10))"

function show_uint :: "int \<Rightarrow> string" where
  "show_uint n = (if n < 10 then [digit_char n] else show_uint (n div 10) @ [digit_char n])"
  by pat_completeness auto
termination
  by (relation "measure nat") auto

declare show_uint.simps [simp del]

definition show_int :: "int \<Rightarrow> string" where
  "show_int i = (if i < 0 then CHR ''-'' # show_uint (- i) else show_uint i)"

text \<open>\<open>v || d\<close> on an optional text, and the truth value of one: the empty text counts as absent.\<close>

definition env_or :: "string option \<Rightarrow> string \<Rightarrow> string" where
  "env_or v d = (case v of None \<Rightarrow> d | Some s \<Rightarrow> if s = [] then d else s)"

definition truthy :: "string option \<Rightarrow> bool" where
  "truthy v \<longleftrightarrow> v \<noteq> None \<and> v \<noteq> Some []"

text \<open>\<open>s.split(d)\<close> on one character.\<close>

fun split_on :: "char \<Rightarrow> string \<Rightarrow> string list" where
  "split_on d [] = [[]]"
| "split_on d (c # cs) =
     (if c = d then [] # split_on d cs
      else case split_on d cs of w # ws \<Rightarrow> (c # w) # ws | [] \<Rightarrow> [[c]])"

lemma split_on_last: "d \<notin> set x \<Longrightarrow> split_on d x = [x]"
  by (induction x) auto

lemma split_on_first: "d \<notin> set x \<Longrightarrow> split_on d (x @ d # y) = x # split_on d y"
  by (induction x) auto

lemma split_on_snoc: "c \<noteq> d \<Longrightarrow> split_on d (s @ [c]) = butlast (split_on d s) @ [last (split_on d s) @ [c]]"
proof (induction s)
  case (Cons a s)
  have "split_on d s \<noteq> []" by (cases s) (auto split: list.split)
  with Cons show ?case by (cases "split_on d s") (auto split: list.split)
qed simp

text \<open>A text between single quotation marks.\<close>

definition quoted :: "string \<Rightarrow> string" where
  "quoted s = CHR 0x27 # s @ [CHR 0x27]"

text \<open>
  The names an object literal inherits from \<open>Object.prototype\<close>: a property lookup with one of
  them finds a member that the literal does not list.
\<close>

definition proto_members :: "string list" where
  "proto_members =
     [''constructor'', ''toString'', ''toLocaleString'', ''valueOf'', ''hasOwnProperty'', ''isPrototypeOf'',
      ''propertyIsEnumerable'', ''__proto__'', ''__defineGetter__'', ''__defineSetter__'', ''__lookupGetter__'',
      ''__lookupSetter__'']"

section \<open>Effects\<close>

text \<open>
  An asynchronous function of the source reads and changes a state, and ends by returning a
  value or by rejecting with an error. Its model is a function from the state to the outcome
  and the new state; the state changes made before a rejection persist.
\<close>

type_synonym ('s, 'e, 'a) eff = "'s \<Rightarrow> ('e + 'a) \<times> 's"

definition ret :: "'a \<Rightarrow> ('s, 'e, 'a) eff" where
  "ret a = (\<lambda>s. (Inr a, s))"

definition throw :: "'e \<Rightarrow> ('s, 'e, 'a) eff" where
  "throw e = (\<lambda>s. (Inl e, s))"

definition bind :: "('s, 'e, 'a) eff \<Rightarrow> ('a \<Rightarrow> ('s, 'e, 'b) eff) \<Rightarrow> ('s, 'e, 'b) eff" where
  "bind m f = (\<lambda>s. case m s of (Inl e, s') \<Rightarrow> (Inl e, s') | (Inr a, s') \<Rightarrow> f a s')"

definition seq :: "('s, 'e, 'a) eff \<Rightarrow> ('s, 'e, 'b) eff \<Rightarrow> ('s, 'e, 'b) eff" where
  "seq m n = bind m (\<lambda>_. n)"

definition catch :: "('s, 'e, 'a) eff \<Rightarrow> ('e \<Rightarrow> ('s, 'e, 'a) eff) \<Rightarrow> ('s, 'e, 'a) eff" where
  "catch m h = (\<lambda>s. case m s of (Inl e, s') \<Rightarrow> h e s' | (Inr a, s') \<Rightarrow> (Inr a, s'))"

text \<open>\<open>try m finally f\<close>: the cleanup runs on both outcomes; its own rejection wins.\<close>

definition finally_do :: "('s, 'e, 'a) eff \<Rightarrow> ('s, 'e, unit) eff \<Rightarrow> ('s, 'e, 'a) eff" where
  "finally_do m f = (\<lambda>s. case m s of (r, s') \<Rightarrow>
     (case f s' of (Inl e, s'') \<Rightarrow> (Inl e, s'') | (Inr _, s'') \<Rightarrow> (r, s'')))"

definition gets :: "('s \<Rightarrow> 'a) \<Rightarrow> ('s, 'e, 'a) eff" where
  "gets f = (\<lambda>s. (Inr (f s), s))"

definition with_state :: "('s \<Rightarrow> ('s, 'e, 'a) eff) \<Rightarrow> ('s, 'e, 'a) eff" where
  "with_state f = (\<lambda>s. f s s)"

text \<open>\<open>try\<close> whose handler inspects the error: the outcome becomes a value.\<close>

definition attempt :: "('s, 'e, 'a) eff \<Rightarrow> ('s, 'f, 'e + 'a) eff" where
  "attempt m = (\<lambda>s. case m s of (r, s') \<Rightarrow> (Inr r, s'))"

definition modify :: "('s \<Rightarrow> 's) \<Rightarrow> ('s, 'e, unit) eff" where
  "modify f = (\<lambda>s. (Inr (), f s))"

text \<open>A block of statements.\<close>

fun stmts :: "('s, 'e, unit) eff list \<Rightarrow> ('s, 'e, unit) eff" where
  "stmts [] = ret ()"
| "stmts (m # ms) = seq m (stmts ms)"

text \<open>
  \<open>wp m Q E s\<close>: from \<open>s\<close>, a return of \<open>m\<close> satisfies \<open>Q\<close> and a rejection satisfies \<open>E\<close>. The
  effect type is total, so this is total correctness.
\<close>

definition wp :: "('s, 'e, 'a) eff \<Rightarrow> ('a \<Rightarrow> 's \<Rightarrow> bool) \<Rightarrow> ('e \<Rightarrow> 's \<Rightarrow> bool) \<Rightarrow> 's \<Rightarrow> bool" where
  "wp m Q E s = (case m s of (Inl e, s') \<Rightarrow> E e s' | (Inr a, s') \<Rightarrow> Q a s')"

text \<open>The rules are stated between predicates, so that they also rewrite under a continuation.\<close>

lemma wp_ret [wp_simps]: "wp (ret a) Q E = Q a"
  by (simp add: wp_def ret_def fun_eq_iff)

lemma wp_throw [wp_simps]: "wp (throw e) Q E = E e"
  by (simp add: wp_def throw_def fun_eq_iff)

lemma wp_bind [wp_simps]: "wp (bind m f) Q E = wp m (\<lambda>a. wp (f a) Q E) E"
  by (auto simp: wp_def bind_def fun_eq_iff split: prod.splits sum.splits)

lemma wp_seq [wp_simps]: "wp (seq m n) Q E = wp m (\<lambda>_. wp n Q E) E"
  by (simp add: seq_def wp_bind)

lemma wp_catch [wp_simps]: "wp (catch m h) Q E = wp m Q (\<lambda>e. wp (h e) Q E)"
  by (auto simp: wp_def catch_def fun_eq_iff split: prod.splits sum.splits)

lemma wp_finally_do [wp_simps]:
  "wp (finally_do m f) Q E = wp m (\<lambda>a. wp f (\<lambda>_. Q a) E) (\<lambda>e. wp f (\<lambda>_. E e) E)"
  by (auto simp: wp_def finally_do_def fun_eq_iff split: prod.splits sum.splits)

lemma wp_gets [wp_simps]: "wp (gets f) Q E = (\<lambda>s. Q (f s) s)"
  by (simp add: wp_def gets_def fun_eq_iff)

lemma wp_modify [wp_simps]: "wp (modify f) Q E = (\<lambda>s. Q () (f s))"
  by (simp add: wp_def modify_def fun_eq_iff)

lemma wp_with_state [wp_simps]: "wp (with_state f) Q E = (\<lambda>s. wp (f s) Q E s)"
  by (simp add: wp_def with_state_def fun_eq_iff)

lemma wp_attempt [wp_simps]: "wp (attempt m) Q E = wp m (\<lambda>a. Q (Inr a)) (\<lambda>e. Q (Inl e))"
  by (auto simp: wp_def attempt_def fun_eq_iff split: prod.splits sum.splits)

lemma wp_stmts [wp_simps]:
  "wp (stmts []) Q E = Q ()"
  "wp (stmts (m # ms)) Q E = wp m (\<lambda>_. wp (stmts ms) Q E) E"
  by (simp_all add: wp_simps)

lemma wp_case_sum [wp_simps]:
  "wp (case x of Inl e \<Rightarrow> m e | Inr y \<Rightarrow> f y) Q E =
     (case x of Inl e \<Rightarrow> wp (m e) Q E | Inr y \<Rightarrow> wp (f y) Q E)"
  by (simp split: sum.splits)

lemma wp_if [wp_simps]: "wp (if b then m else n) Q E = (if b then wp m Q E else wp n Q E)"
  by simp

lemma wp_case_option [wp_simps]:
  "wp (case x of None \<Rightarrow> m | Some y \<Rightarrow> f y) Q E =
     (case x of None \<Rightarrow> wp m Q E | Some y \<Rightarrow> wp (f y) Q E)"
  by (simp split: option.splits)

lemma wp_case_list [wp_simps]:
  "wp (case x of [] \<Rightarrow> m | y # ys \<Rightarrow> f y ys) Q E =
     (case x of [] \<Rightarrow> wp m Q E | y # ys \<Rightarrow> wp (f y ys) Q E)"
  by (simp split: list.splits)

lemma wp_True [simp]: "wp m (\<lambda>_ _. True) (\<lambda>_ _. True) s"
  by (simp add: wp_def split: prod.splits sum.splits)

lemma wp_mono:
  assumes "wp m Q E s"
    and "\<And>a s. Q a s \<Longrightarrow> Q' a s" and "\<And>e s. E e s \<Longrightarrow> E' e s"
  shows "wp m Q' E' s"
  using assms by (auto simp: wp_def split: prod.splits sum.splits)

lemma wp_conj: "wp m Q E s \<Longrightarrow> wp m Q' E' s \<Longrightarrow>
    wp m (\<lambda>a t. Q a t \<and> Q' a t) (\<lambda>e t. E e t \<and> E' e t) s"
  by (auto simp: wp_def split: prod.splits sum.splits)

lemma wp_return: "wp m Q E s \<Longrightarrow> m s = (Inr a, s') \<Longrightarrow> Q a s'"
  by (simp add: wp_def)

lemma wp_reject: "wp m Q E s \<Longrightarrow> m s = (Inl e, s') \<Longrightarrow> E e s'"
  by (simp add: wp_def)

text \<open>
  What every run of an effect does to the state, whatever its outcome: a preorder \<open>R\<close> between
  the state before and after. Each construct of the effect type keeps such a relation.
\<close>

definition always :: "('s \<Rightarrow> 's \<Rightarrow> bool) \<Rightarrow> ('s, 'e, 'a) eff \<Rightarrow> bool" where
  "always R m \<longleftrightarrow> (\<forall>s. R s (snd (m s)))"

lemma always_wp:
  assumes "always R m" and "\<And>a t. R s t \<Longrightarrow> Q a t" and "\<And>e t. R s t \<Longrightarrow> E e t"
  shows "wp m Q E s"
  using assms by (auto simp: always_def wp_def split: prod.splits sum.splits) (metis snd_conv)+

lemma always_mono: "always R m \<Longrightarrow> (\<And>s t. R s t \<Longrightarrow> R' s t) \<Longrightarrow> always R' m"
  by (simp add: always_def)

locale eff_preorder =
  fixes R :: "'s \<Rightarrow> 's \<Rightarrow> bool"
  assumes R_refl: "R s s" and R_trans: "R s t \<Longrightarrow> R t u \<Longrightarrow> R s u"
begin

lemma a_ret: "always R (ret a)"
  by (simp add: always_def ret_def R_refl)

lemma a_throw: "always R (throw e)"
  by (simp add: always_def throw_def R_refl)

lemma a_gets: "always R (gets f)"
  by (simp add: always_def gets_def R_refl)

lemma a_modify: "(\<And>s. R s (f s)) \<Longrightarrow> always R (modify f)"
  by (simp add: always_def modify_def)

lemma a_with_state: "(\<And>s. always R (f s)) \<Longrightarrow> always R (with_state f)"
  by (simp add: always_def with_state_def)

lemma a_bind: "always R m \<Longrightarrow> (\<And>a. always R (f a)) \<Longrightarrow> always R (bind m f)"
  by (auto simp: always_def bind_def split: prod.splits sum.splits) (metis R_trans snd_conv)+

lemma a_seq: "always R m \<Longrightarrow> always R n \<Longrightarrow> always R (seq m n)"
  unfolding seq_def by (rule a_bind)

lemma a_catch: "always R m \<Longrightarrow> (\<And>e. always R (h e)) \<Longrightarrow> always R (catch m h)"
  by (auto simp: always_def catch_def split: prod.splits sum.splits) (metis R_trans snd_conv)+

lemma a_finally: "always R m \<Longrightarrow> always R f \<Longrightarrow> always R (finally_do m f)"
  by (auto simp: always_def finally_do_def split: prod.splits sum.splits) (metis R_trans snd_conv)+

lemma a_attempt: "always R m \<Longrightarrow> always R (attempt m)"
  by (auto simp: always_def attempt_def split: prod.splits) (metis snd_conv)

lemma a_stmts: "(\<And>m. m \<in> set ms \<Longrightarrow> always R m) \<Longrightarrow> always R (stmts ms)"
  by (induction ms) (auto intro: a_ret a_seq)

lemma a_if: "always R m \<Longrightarrow> always R n \<Longrightarrow> always R (if b then m else n)"
  by simp

lemma a_case_sum: "(\<And>e. always R (m e)) \<Longrightarrow> (\<And>a. always R (f a)) \<Longrightarrow>
    always R (case x of Inl e \<Rightarrow> m e | Inr a \<Rightarrow> f a)"
  by (simp split: sum.splits)

lemma a_case_option: "always R m \<Longrightarrow> (\<And>a. always R (f a)) \<Longrightarrow>
    always R (case x of None \<Rightarrow> m | Some a \<Rightarrow> f a)"
  by (simp split: option.splits)

lemma a_case_list: "always R m \<Longrightarrow> (\<And>a as. always R (f a as)) \<Longrightarrow>
    always R (case x of [] \<Rightarrow> m | a # as \<Rightarrow> f a as)"
  by (simp split: list.splits)

lemma a_let: "always R (f x) \<Longrightarrow> always R (let y = x in f y)"
  by simp

lemmas always_rules = a_ret a_throw a_gets a_modify a_with_state a_bind a_seq a_catch a_finally
  a_attempt a_stmts a_if a_case_sum a_case_option a_case_list a_let

end

section \<open>Lists\<close>

lemma length_filter_sum:
  "length (filter P xs) = length (filter (\<lambda>x. P x \<and> Q x) xs) + length (filter (\<lambda>x. P x \<and> \<not> Q x) xs)"
  by (induction xs) auto

lemma filter_filter_imp:
  "(\<And>x. Q x \<Longrightarrow> P x) \<Longrightarrow> filter Q (filter P xs) = filter Q xs"
  by (induction xs) auto

lemma fold_inv: "(\<And>x s. P s \<Longrightarrow> P (f x s)) \<Longrightarrow> P s \<Longrightarrow> P (fold f xs s)"
  by (induction xs arbitrary: s) auto

end
