(* ===== verification/RateLimiter.thy ===== *)
theory RateLimiter
  imports Prelude
begin

text \<open>
  The sliding-window limiters: the class \<open>RateLimiter\<close> of \<open>packages/shared/src/rate-limiter.ts\<close>
  and the client interceptor \<open>rateLimitInterceptor\<close> of
  \<open>packages/shared/src/grpc/interceptors.ts\<close>. Both keep, per key, the log of granted request
  times; the locale \<open>sliding_log\<close> states that contract and carries the window bound, and both
  are interpretations of it.
\<close>

section \<open>The contract of a sliding log\<close>

definition live :: "int \<Rightarrow> int \<Rightarrow> int list \<Rightarrow> int list" where
  "live w now ts = filter (\<lambda>t. now - w < t) ts"

fun run_checks :: "('k \<Rightarrow> int \<Rightarrow> 's \<Rightarrow> bool \<times> 's) \<Rightarrow> 's \<Rightarrow> ('k \<times> int) list
    \<Rightarrow> ('k \<times> int \<times> bool) list" where
  "run_checks c s [] = []"
| "run_checks c s ((k, t) # es) =
     (let (b, s') = c k t s in (k, t, b) # run_checks c s' es)"

definition grants :: "'k \<Rightarrow> ('k \<times> int \<times> bool) list \<Rightarrow> int list" where
  "grants k ds = map (\<lambda>(_, t, _). t) (filter (\<lambda>(k', _, b). k' = k \<and> b) ds)"

definition in_window :: "int \<Rightarrow> int \<Rightarrow> int list \<Rightarrow> nat" where
  "in_window w T ts = length (filter (\<lambda>t. T - w < t \<and> t \<le> T) ts)"

lemma grants_Nil [simp]: "grants k [] = []"
  by (simp add: grants_def)

lemma grants_Cons [simp]:
  "grants k ((k', t, b) # ds) = (if k' = k \<and> b then t # grants k ds else grants k ds)"
  by (simp add: grants_def)

lemma live_live: "w \<le> w' + (now - now') \<Longrightarrow> live w now (live w' now' ts) = live w now ts"
  by (auto simp: live_def intro!: filter_cong)

lemma in_window_append: "in_window w T (xs @ ys) = in_window w T xs + in_window w T ys"
  by (simp add: in_window_def)

lemma in_window_le_live:
  assumes "t \<le> T" shows "in_window w T ts \<le> length (live w t ts)"
proof -
  have "filter (\<lambda>u. T - w < u \<and> u \<le> T) ts = filter (\<lambda>u. T - w < u \<and> u \<le> T) (live w t ts)"
    using assms by (auto simp: live_def intro!: filter_cong)
  then show ?thesis
    by (metis in_window_def length_filter_le)
qed

locale sliding_log =
  fixes chk :: "'k \<Rightarrow> int \<Rightarrow> 's \<Rightarrow> bool \<times> 's"
    and log :: "'s \<Rightarrow> 'k \<Rightarrow> int list"
    and lim :: "'s \<Rightarrow> int" and win :: "'s \<Rightarrow> int"
    and ok :: "'s \<Rightarrow> bool"
  assumes chk_allowed: "ok s \<Longrightarrow> fst (chk k t s) \<longleftrightarrow> int (length (live (win s) t (log s k))) < lim s"
    and chk_log: "ok s \<Longrightarrow> log (snd (chk k t s)) k' =
          (if k' = k then live (win s) t (log s k) @ (if fst (chk k t s) then [t] else [])
           else log s k')"
    and chk_lim: "ok s \<Longrightarrow> lim (snd (chk k t s)) = lim s"
    and chk_win: "ok s \<Longrightarrow> win (snd (chk k t s)) = win s"
    and chk_ok: "ok s \<Longrightarrow> ok (snd (chk k t s))"
begin

lemmas chk_simps = chk_log chk_lim chk_win chk_ok

lemma step_bound:
  assumes ok: "ok s" and G: "\<forall>g\<in>set G. g \<le> t" and bnd: "\<And>T. int (in_window (win s) T G) \<le> max 0 (lim s)"
    and log: "live (win s) t (log s k) = live (win s) t G" and al: "fst (chk k t s)"
  shows "int (in_window (win s) T (G @ [t])) \<le> max 0 (lim s)"
proof (cases "t \<le> T")
  case False
  then have "in_window (win s) T [t] = 0" by (simp add: in_window_def)
  with bnd show ?thesis by (simp add: in_window_append)
next
  case True
  have "int (in_window (win s) T (G @ [t])) \<le> int (length (live (win s) t (G @ [t])))"
    using in_window_le_live[OF True] by simp
  also have "\<dots> \<le> int (length (live (win s) t G)) + 1"
    by (simp add: live_def)
  also have "\<dots> \<le> lim s"
    using al log chk_allowed[OF ok, of k t] by simp
  finally show ?thesis by simp
qed

text \<open>
  The invariant of a run for one key: \<open>G\<close> are the grants so far, none later than \<open>t0\<close>, and
  the log still holds every grant that a window ending at \<open>t0\<close> or later can see.
\<close>

lemma window_bound_from:
  assumes "ok s" and "sorted (t0 # map snd es)" and "\<forall>g\<in>set G. g \<le> t0"
    and "\<And>T. int (in_window (win s) T G) \<le> max 0 (lim s)"
    and "\<And>t. t0 \<le> t \<Longrightarrow> live (win s) t (log s k) = live (win s) t G"
  shows "int (in_window (win s) T (G @ grants k (run_checks chk s es))) \<le> max 0 (lim s)"
  using assms
proof (induction es arbitrary: s t0 G)
  case Nil
  then show ?case by simp
next
  case (Cons e es)
  obtain k' t where e: "e = (k', t)" by (cases e)
  obtain b s' where s': "chk k' t s = (b, s')" by (cases "chk k' t s")
  have t: "t0 \<le> t" and srt: "sorted (t # map snd es)"
    using Cons.prems(2) by (auto simp: e)
  note keep = chk_simps[OF Cons.prems(1), of k' t, simplified s' snd_conv fst_conv]
  let ?G = "if k' = k \<and> b then G @ [t] else G"
  have lw: "lim s' = lim s" "win s' = win s" "ok s'"
    using keep by auto
  have G: "\<forall>g\<in>set G. g \<le> t" using Cons.prems(3) t by fastforce
  have "int (in_window (win s') T (?G @ grants k (run_checks chk s' es))) \<le> max 0 (lim s')"
  proof (rule Cons.IH)
    show "ok s'" by (rule lw)
    show "sorted (t # map snd es)" by (rule srt)
    show "\<forall>g\<in>set ?G. g \<le> t" using G by auto
    show "int (in_window (win s') T ?G) \<le> max 0 (lim s')" for T
      using step_bound[OF Cons.prems(1) G Cons.prems(4) Cons.prems(5)[OF t]] Cons.prems(4) s'
      by (auto simp: lw)
    show "live (win s') u (log s' k) = live (win s') u ?G" if "t \<le> u" for u
      using Cons.prems(5)[OF t] Cons.prems(5)[of u] t that live_live[of "win s" "win s" u t]
      by (auto simp: lw keep(1) live_def)
  qed
  with s' show ?case
    by (cases "k' = k \<and> b") (auto simp: e lw)
qed

lemma window_bound:
  assumes "ok s" and "sorted (map snd es)" and "log s k = []"
  shows "int (in_window (win s) T (grants k (run_checks chk s es))) \<le> max 0 (lim s)"
proof (cases es)
  case Nil
  then show ?thesis by (simp add: in_window_def)
next
  case (Cons e es')
  show ?thesis
    using window_bound_from[of s "snd e" es "[]" k T] assms
    by (simp add: Cons in_window_def live_def)
qed

text \<open>One key's grants depend on that key's requests only.\<close>

lemma isolation_from:
  assumes "ok s" "ok s'" "lim s = lim s'" "win s = win s'" "log s k = log s' k"
  shows "grants k (run_checks chk s es) =
         grants k (run_checks chk s' (filter (\<lambda>(k', _). k' = k) es))"
  using assms
proof (induction es arbitrary: s s')
  case Nil
  then show ?case by simp
next
  case (Cons e es)
  obtain k' t where e: "e = (k', t)" by (cases e)
  obtain b u where u: "chk k' t s = (b, u)" by (cases "chk k' t s")
  obtain b' u' where u': "chk k' t s' = (b', u')" by (cases "chk k' t s'")
  note k1 = chk_simps[OF Cons.prems(1), of k' t, simplified u snd_conv fst_conv]
  note k2 = chk_simps[OF Cons.prems(2), of k' t, simplified u' snd_conv fst_conv]
  show ?case
  proof (cases "k' = k")
    case False
    have "grants k (run_checks chk u es) = grants k (run_checks chk s' (filter (\<lambda>(k', _). k' = k) es))"
      by (rule Cons.IH) (use False k1 Cons.prems in auto)
    then show ?thesis using False by (simp add: e u)
  next
    case True
    have "b = b'"
      using chk_allowed[OF Cons.prems(1), of k' t] chk_allowed[OF Cons.prems(2), of k' t]
        Cons.prems True u u' by simp
    moreover have "grants k (run_checks chk u es) =
        grants k (run_checks chk u' (filter (\<lambda>(k', _). k' = k) es))"
      by (rule Cons.IH) (use True k1 k2 Cons.prems \<open>b = b'\<close> in auto)
    ultimately show ?thesis using True u u' by (simp add: e)
  qed
qed

end

text \<open>Two implementations of the contract with the same parameters take the same decisions.\<close>

locale two_logs = a: sliding_log chk log lim win ok + b: sliding_log chk' log' lim' win' ok'
  for chk :: "'k \<Rightarrow> int \<Rightarrow> 's \<Rightarrow> bool \<times> 's" and log lim win ok
    and chk' :: "'k \<Rightarrow> int \<Rightarrow> 't \<Rightarrow> bool \<times> 't" and log' lim' win' ok'
begin

lemma same_decisions:
  assumes "ok s" "ok' t" "lim s = lim' t" "win s = win' t" "\<And>k. log s k = log' t k"
  shows "run_checks chk s es = run_checks chk' t es"
  using assms
proof (induction es arbitrary: s t)
  case Nil
  then show ?case by simp
next
  case (Cons e es)
  obtain k now where e: "e = (k, now)" by (cases e)
  obtain b u where u: "chk k now s = (b, u)" by (cases "chk k now s")
  obtain b' u' where u': "chk' k now t = (b', u')" by (cases "chk' k now t")
  note k1 = a.chk_simps[OF Cons.prems(1), of k now, simplified u snd_conv fst_conv]
  note k2 = b.chk_simps[OF Cons.prems(2), of k now, simplified u' snd_conv fst_conv]
  have "b = b'"
    using a.chk_allowed[OF Cons.prems(1), of k now] b.chk_allowed[OF Cons.prems(2), of k now]
      Cons.prems u u' by simp
  moreover have "run_checks chk u es = run_checks chk' u' es"
    by (rule Cons.IH) (use k1 k2 Cons.prems \<open>b = b'\<close> in auto)
  ultimately show ?case by (simp add: e u u')
qed

end

section \<open>The class RateLimiter\<close>

record rate_limiter =
  buckets :: "(string, int list) js_map"
  maxRequests :: jint
  windowMs :: jint
  timer_on :: bool

record rl_result =
  rl_allowed :: bool
  retryAfterMs :: jint

text \<open>The constructor: an argument, or the environment variable, or its default text.\<close>

definition rl_new :: "jint option \<Rightarrow> jint option \<Rightarrow> string option \<Rightarrow> string option \<Rightarrow> rate_limiter" where
  "rl_new maxReq winMs env_rpm env_win =
     \<lparr>buckets = [], maxRequests = nullish maxReq (parse_int (env_or env_rpm ''60'')),
      windowMs = nullish winMs (parse_int (env_or env_win ''60000'')), timer_on = True\<rparr>"

definition rl_active :: "jint \<Rightarrow> int \<Rightarrow> int list \<Rightarrow> int list" where
  "rl_active w now ts = filter (\<lambda>t. jlt (jsub (JInt now) w) (JInt t)) ts"

text \<open>
  \<open>check(key)\<close> at time \<open>now\<close>. When the limit is not positive the log may be empty, and the
  oldest entry read from it is \<open>undefined\<close>: the retry delay is then \<open>NaN\<close>.
\<close>

definition rl_check :: "string \<Rightarrow> int \<Rightarrow> rate_limiter \<Rightarrow> rl_result \<times> rate_limiter" where
  "rl_check key now rl =
     (let bs = (case js_get (buckets rl) key of None \<Rightarrow> js_set key [] (buckets rl) | Some _ \<Rightarrow> buckets rl);
          timestamps = nullish (js_get bs key) [];
          active = rl_active (windowMs rl) now timestamps;
          bs = js_set key active bs
      in if jle (maxRequests rl) (JInt (int (length active)))
         then (let oldest = (case active of [] \<Rightarrow> NaN | t # _ \<Rightarrow> JInt t);
                   retry = jsub (jadd oldest (windowMs rl)) (JInt now)
               in (\<lparr>rl_allowed = False, retryAfterMs = jmax (JInt 1) retry\<rparr>, rl\<lparr>buckets := bs\<rparr>))
         else (\<lparr>rl_allowed = True, retryAfterMs = JInt 0\<rparr>,
               rl\<lparr>buckets := js_set key (active @ [now]) bs\<rparr>))"

text \<open>\<open>cleanup\<close>: the loop over the buckets, and its body.\<close>

definition rl_prune :: "jint \<Rightarrow> int \<Rightarrow> (string, int list) js_map \<Rightarrow> string \<times> int list
    \<Rightarrow> (string, int list) js_map" where
  "rl_prune w now bs entry =
     (case entry of (key, timestamps) \<Rightarrow>
        let active = rl_active w now timestamps
        in if active = [] then js_del key bs else js_set key active bs)"

definition rl_cleanup :: "int \<Rightarrow> rate_limiter \<Rightarrow> rate_limiter" where
  "rl_cleanup now rl =
     rl\<lparr>buckets := foldl (rl_prune (windowMs rl) now) (buckets rl) (buckets rl)\<rparr>"

definition rl_dispose :: "rate_limiter \<Rightarrow> rate_limiter" where
  "rl_dispose rl = rl\<lparr>timer_on := False, buckets := []\<rparr>"

section \<open>The client interceptor rateLimitInterceptor\<close>

record rate_interceptor =
  ri_buckets :: "(string, int list) js_map"
  ri_rpm :: jint

definition ri_new :: "jint option \<Rightarrow> string option \<Rightarrow> rate_interceptor" where
  "ri_new maxPerNamespace env_rpm =
     \<lparr>ri_buckets = [], ri_rpm = nullish maxPerNamespace (parse_int (nullish env_rpm ''60''))\<rparr>"

text \<open>
  \<open>start\<close>: the namespace header (absent: \<open>default\<close>), then the sliding log. The result is the
  status sent to the listener, if the call is refused.
\<close>

definition ri_start :: "string option \<Rightarrow> int \<Rightarrow> rate_interceptor \<Rightarrow> (int \<times> string) option \<times> rate_interceptor" where
  "ri_start header now ri =
     (let namespace = nullish header ''default'';
          bs = (case js_get (ri_buckets ri) namespace of
                  None \<Rightarrow> js_set namespace [] (ri_buckets ri) | Some _ \<Rightarrow> ri_buckets ri);
          timestamps = nullish (js_get bs namespace) [];
          active = filter (\<lambda>t. now - 60000 < t) timestamps;
          bs = js_set namespace active bs
      in if jle (ri_rpm ri) (JInt (int (length active)))
         then (Some (8, ''Rate limit exceeded''), ri\<lparr>ri_buckets := bs\<rparr>)
         else (None, ri\<lparr>ri_buckets := js_set namespace (active @ [now]) bs\<rparr>))"

section \<open>Both keep the contract\<close>

definition rl_log :: "rate_limiter \<Rightarrow> string \<Rightarrow> int list" where
  "rl_log rl k = nullish (js_get (buckets rl) k) []"

fun jint_val :: "jint \<Rightarrow> int" where
  "jint_val (JInt i) = i"
| "jint_val NaN = 0"

definition rl_step :: "string \<Rightarrow> int \<Rightarrow> rate_limiter \<Rightarrow> bool \<times> rate_limiter" where
  "rl_step k t rl = (rl_allowed (fst (rl_check k t rl)), snd (rl_check k t rl))"

definition rl_ok :: "rate_limiter \<Rightarrow> bool" where
  "rl_ok rl \<longleftrightarrow> maxRequests rl \<noteq> NaN \<and> windowMs rl \<noteq> NaN"

definition ri_step :: "string option \<Rightarrow> int \<Rightarrow> rate_interceptor \<Rightarrow> bool \<times> rate_interceptor" where
  "ri_step h t ri = (fst (ri_start h t ri) = None, snd (ri_start h t ri))"

definition ri_step_ns :: "string \<Rightarrow> int \<Rightarrow> rate_interceptor \<Rightarrow> bool \<times> rate_interceptor" where
  "ri_step_ns ns = ri_step (Some ns)"

definition ri_log :: "rate_interceptor \<Rightarrow> string \<Rightarrow> int list" where
  "ri_log ri k = nullish (js_get (ri_buckets ri) k) []"

lemma rl_active_live [simp]: "rl_active (JInt w) now ts = live w now ts"
  by (simp add: rl_active_def live_def)

lemma rl_active_Nil [simp]: "rl_active w now [] = []"
  by (simp add: rl_active_def)

lemma rl_active_idem [simp]: "rl_active w now (rl_active w now ts) = rl_active w now ts"
  by (simp add: rl_active_def)

lemma bucket_entry:
  "js_get (case js_get m k of None \<Rightarrow> js_set k [] m | Some _ \<Rightarrow> m) k' =
     (if k' = k then Some (nullish (js_get m k) []) else js_get m k')"
  by (auto simp: js_map_simps split: option.splits)

lemma rl_check_log:
  "rl_log (snd (rl_check k t rl)) k' =
     (if k' = k then rl_active (windowMs rl) t (rl_log rl k) @ (if rl_allowed (fst (rl_check k t rl)) then [t] else [])
      else rl_log rl k')"
  by (simp add: rl_check_def rl_log_def Let_def bucket_entry js_map_simps)

lemma rl_check_allowed:
  "rl_allowed (fst (rl_check k t rl)) \<longleftrightarrow>
     \<not> jle (maxRequests rl) (JInt (int (length (rl_active (windowMs rl) t (rl_log rl k)))))"
  by (simp add: rl_check_def rl_log_def Let_def bucket_entry)

lemma rl_check_frame:
  "maxRequests (snd (rl_check k t rl)) = maxRequests rl"
  "windowMs (snd (rl_check k t rl)) = windowMs rl"
  "timer_on (snd (rl_check k t rl)) = timer_on rl"
  by (simp_all add: rl_check_def Let_def)

lemma rl_okE:
  assumes "rl_ok rl" obtains m w where "maxRequests rl = JInt m" "windowMs rl = JInt w"
  using assms by (cases "maxRequests rl"; cases "windowMs rl") (auto simp: rl_ok_def)

interpretation rl: sliding_log rl_step rl_log "\<lambda>rl. jint_val (maxRequests rl)"
    "\<lambda>rl. jint_val (windowMs rl)" rl_ok
proof
  fix s k k' t
  assume ok: "rl_ok s"
  obtain m w where mw: "maxRequests s = JInt m" "windowMs s = JInt w"
    using ok by (rule rl_okE)
  show "fst (rl_step k t s) =
      (int (length (live (jint_val (windowMs s)) t (rl_log s k))) < jint_val (maxRequests s))"
    using rl_check_allowed[of k t s] by (auto simp: rl_step_def mw)
  show "rl_log (snd (rl_step k t s)) k' =
      (if k' = k then live (jint_val (windowMs s)) t (rl_log s k) @
         (if fst (rl_step k t s) then [t] else []) else rl_log s k')"
    using rl_check_log[of k t s k'] by (simp add: rl_step_def mw)
  show "jint_val (maxRequests (snd (rl_step k t s))) = jint_val (maxRequests s)"
    and "jint_val (windowMs (snd (rl_step k t s))) = jint_val (windowMs s)"
    and "rl_ok (snd (rl_step k t s))"
    using ok rl_check_frame[of k t s] by (auto simp: rl_step_def rl_ok_def)
qed

interpretation ri: sliding_log ri_step_ns ri_log "\<lambda>ri. jint_val (ri_rpm ri)" "\<lambda>_. 60000"
    "\<lambda>ri. ri_rpm ri \<noteq> NaN"
proof
  fix s :: rate_interceptor and k k' t
  assume ok: "ri_rpm s \<noteq> NaN"
  then obtain m where m: "ri_rpm s = JInt m" by (cases "ri_rpm s") auto
  show "fst (ri_step_ns k t s) = (int (length (live 60000 t (ri_log s k))) < jint_val (ri_rpm s))"
    by (auto simp: ri_step_ns_def ri_step_def ri_start_def ri_log_def Let_def bucket_entry live_def m)
  show "ri_log (snd (ri_step_ns k t s)) k' =
      (if k' = k then live 60000 t (ri_log s k) @ (if fst (ri_step_ns k t s) then [t] else [])
       else ri_log s k')"
    by (auto simp: ri_step_ns_def ri_step_def ri_start_def ri_log_def Let_def bucket_entry live_def
        js_map_simps)
  show "jint_val (ri_rpm (snd (ri_step_ns k t s))) = jint_val (ri_rpm s)"
    and "ri_rpm (snd (ri_step_ns k t s)) \<noteq> NaN"
    and "60000 = (60000::int)"
    using ok by (auto simp: ri_step_ns_def ri_step_def ri_start_def Let_def)
qed

interpretation rl_ri: two_logs rl_step rl_log "\<lambda>rl. jint_val (maxRequests rl)"
    "\<lambda>rl. jint_val (windowMs rl)" rl_ok
    ri_step_ns ri_log "\<lambda>ri. jint_val (ri_rpm ri)" "\<lambda>_. 60000" "\<lambda>ri. ri_rpm ri \<noteq> NaN"
  by unfold_locales

lemma rl_new_fields [simp]:
  "rl_log (rl_new m w e1 e2) k = []"
  "maxRequests (rl_new (Some m') w e1 e2) = m'"
  "windowMs (rl_new m (Some w') e1 e2) = w'"
  by (simp_all add: rl_new_def rl_log_def)

lemma rl_ok_new [simp]: "rl_ok (rl_new (Some (JInt m)) (Some (JInt w)) e1 e2)"
  by (simp add: rl_ok_def)

section \<open>Properties\<close>

text \<open>C39. However many requests arrive, a key is granted at most \<open>maxRequests\<close> of them in any
  window of \<open>windowMs\<close> milliseconds, as long as the clock does not run backwards.\<close>

theorem rate_limit_window_bound:
  assumes "sorted (map snd es)"
  shows "int (in_window w T (grants k
           (run_checks rl_step (rl_new (Some (JInt m)) (Some (JInt w)) e1 e2) es))) \<le> max 0 m"
  using rl.window_bound[of "rl_new (Some (JInt m)) (Some (JInt w)) e1 e2" es k T] assms by simp

theorem rate_limit_window_bound_witness:
  "sorted (map snd [(''a'', 1::int), (''b'', 1), (''a'', 2), (''a'', 3)])
   \<and> int (in_window 10 5 (grants ''a'' (run_checks rl_step
        (rl_new (Some (JInt 2)) (Some (JInt 10)) None None)
        [(''a'', 1), (''b'', 1), (''a'', 2), (''a'', 3)]))) \<le> max 0 2"
proof -
  have h: "sorted (map snd [(''a'', 1::int), (''b'', 1), (''a'', 2), (''a'', 3)])" by simp
  show ?thesis using h rate_limit_window_bound[OF h, of 10 5 "''a''" 2 None None] by simp
qed

text \<open>Keys do not share quota: the grants of a key are those of a limiter that saw this
  key's requests only.\<close>

theorem rate_limit_isolation:
  "grants k (run_checks rl_step (rl_new (Some (JInt m)) (Some (JInt w)) e1 e2) es) =
   grants k (run_checks rl_step (rl_new (Some (JInt m)) (Some (JInt w)) e1 e2)
     (filter (\<lambda>(k', _). k' = k) es))"
  by (rule rl.isolation_from) simp_all

text \<open>The gRPC client interceptor takes exactly the decisions of \<open>RateLimiter\<close> configured
  with the same limit and a window of one minute.\<close>

theorem interceptor_equals_rate_limiter:
  "run_checks ri_step_ns (ri_new (Some (JInt m)) env) es =
   run_checks rl_step (rl_new (Some (JInt m)) (Some (JInt 60000)) e1 e2) es"
  by (rule rl_ri.same_decisions[symmetric]) (simp_all add: ri_new_def ri_log_def)

lemma rl_prune_pair:
  "rl_prune w now bs (key, ts) =
     (if rl_active w now ts = [] then js_del key bs else js_set key (rl_active w now ts) bs)"
  by (simp add: rl_prune_def Let_def)

lemma rl_cleanup_get:
  assumes "distinct (map fst xs)"
  shows "js_get (foldl (rl_prune w now) bs xs) k =
         (case js_get xs k of None \<Rightarrow> js_get bs k
          | Some ts \<Rightarrow> if rl_active w now ts = [] then None else Some (rl_active w now ts))"
  using assms
proof (induction xs arbitrary: bs)
  case Nil
  then show ?case by simp
next
  case (Cons x xs)
  obtain key ts where x: "x = (key, ts)" by (cases x)
  have "js_get xs key = None" using Cons.prems by (auto simp: x map_of_eq_None_iff)
  then show ?case
    using Cons.prems by (auto simp: x rl_prune_pair Cons.IH js_map_simps split: option.splits)
qed

lemma rl_cleanup_log:
  assumes "js_map_ok (buckets rl)"
  shows "rl_log (rl_cleanup now rl) k = rl_active (windowMs rl) now (rl_log rl k)"
  using assms
  by (auto simp: rl_log_def rl_cleanup_def rl_cleanup_get js_map_ok_def rl_active_Nil
      split: option.splits)

lemma rl_active_later:
  "now \<le> t \<Longrightarrow> rl_active w t (rl_active w now ts) = rl_active w t ts"
  by (cases w) (auto simp: rl_active_def intro!: filter_cong)

text \<open>The periodic cleanup is invisible: a check made at or after it returns the same result
  and leaves the same log for every key as if it had not run, and no key with an empty log is
  left in the table.\<close>

theorem cleanup_invisible:
  assumes "js_map_ok (buckets rl)" and "now \<le> t"
  shows "fst (rl_check k t (rl_cleanup now rl)) = fst (rl_check k t rl)
    \<and> rl_log (snd (rl_check k t (rl_cleanup now rl))) k = rl_log (snd (rl_check k t rl)) k
    \<and> js_get (buckets (rl_cleanup now rl)) k' \<noteq> Some []"
proof -
  have frame: "maxRequests (rl_cleanup now rl) = maxRequests rl"
      "windowMs (rl_cleanup now rl) = windowMs rl"
    by (simp_all add: rl_cleanup_def)
  have act: "rl_active (windowMs rl) t (rl_log (rl_cleanup now rl) k) =
      rl_active (windowMs rl) t (rl_log rl k)"
    using assms by (simp add: rl_cleanup_log rl_active_later)
  have res: "fst (rl_check k t rl') =
      (let active = rl_active (windowMs rl') t (rl_log rl' k)
       in if jle (maxRequests rl') (JInt (int (length active)))
          then \<lparr>rl_allowed = False, retryAfterMs = jmax (JInt 1) (jsub (jadd
                (case active of [] \<Rightarrow> NaN | t # _ \<Rightarrow> JInt t) (windowMs rl')) (JInt t))\<rparr>
          else \<lparr>rl_allowed = True, retryAfterMs = JInt 0\<rparr>)" for rl'
    by (simp add: rl_check_def rl_log_def Let_def bucket_entry)
  have r: "fst (rl_check k t (rl_cleanup now rl)) = fst (rl_check k t rl)"
    by (simp only: res frame act)
  moreover have "rl_log (snd (rl_check k t (rl_cleanup now rl))) k = rl_log (snd (rl_check k t rl)) k"
    by (simp add: rl_check_log frame act r)
  moreover have "js_get (buckets (rl_cleanup now rl)) k' \<noteq> Some []"
    using assms(1)
    by (auto simp: rl_cleanup_def rl_cleanup_get js_map_ok_def split: option.splits)
  ultimately show ?thesis by blast
qed

theorem cleanup_invisible_witness:
  "let rl = \<lparr>buckets = [(''a'', [1, 50]), (''b'', [2])], maxRequests = JInt 2, windowMs = JInt 10,
             timer_on = True\<rparr>
   in js_map_ok (buckets rl) \<and> fst (rl_check ''a'' 55 (rl_cleanup 20 rl)) = fst (rl_check ''a'' 55 rl)"
proof -
  let ?rl = "\<lparr>buckets = [(''a'', [1, 50]), (''b'', [2])], maxRequests = JInt 2, windowMs = JInt 10,
             timer_on = True\<rparr>"
  have "js_map_ok (buckets ?rl)" by (simp add: js_map_ok_def)
  then show ?thesis
    using cleanup_invisible[of ?rl 20 55 "''a''"] by simp
qed

text \<open>A refused caller that waits for the announced \<open>retryAfterMs\<close>, and makes no other
  request in between, is granted: the delay is between 1 and the window length and suffices.\<close>

theorem retry_after_suffices:
  assumes m: "maxRequests rl = JInt m" and w: "windowMs rl = JInt w"
    and len: "int (length (rl_log rl k)) \<le> m" and pos: "0 < m" and past: "\<forall>t\<in>set (rl_log rl k). t \<le> now"
    and denied: "rl_check k now rl = (\<lparr>rl_allowed = False, retryAfterMs = JInt d\<rparr>, rl')"
  shows "1 \<le> d \<and> d \<le> max 1 w \<and> rl_allowed (fst (rl_check k (now + d) rl'))"
proof -
  let ?act = "live w now (rl_log rl k)"
  have "m \<le> int (length ?act)"
    using denied rl_check_allowed[of k now rl] by (simp add: m w)
  moreover have "length ?act \<le> length (rl_log rl k)" by (simp add: live_def)
  ultimately have len': "int (length ?act) = m" using len by linarith
  then obtain t ts where act: "?act = t # ts" using pos by (cases ?act) auto
  have d: "d = max 1 (t + w - now)"
    using denied act len' by (auto simp: rl_check_def rl_log_def Let_def bucket_entry m w split: if_splits)
  have "t \<in> set ?act" using act by simp
  then have t: "now - w < t" "t \<le> now" using past by (auto simp: live_def)
  have rl': "rl_log rl' k = ?act" "maxRequests rl' = JInt m" "windowMs rl' = JInt w"
    using denied rl_check_log[of k now rl k] rl_check_frame[of k now rl] by (simp_all add: m w)
  have "live w (now + d) ?act = live w (now + d) ts"
    unfolding act by (simp add: live_def d)
  then have "length (live w (now + d) ?act) \<le> length ts" by (simp add: live_def)
  then have "rl_allowed (fst (rl_check k (now + d) rl'))"
    using len' by (simp add: rl_check_allowed rl' act)
  then show ?thesis using t d by auto
qed

theorem retry_after_suffices_witness:
  "let rl = \<lparr>buckets = [(''a'', [1, 5])], maxRequests = JInt 2, windowMs = JInt 10, timer_on = True\<rparr>
   in rl_allowed (fst (rl_check ''a'' (6 + 5) (snd (rl_check ''a'' 6 rl))))"
proof -
  let ?rl = "\<lparr>buckets = [(''a'', [1, 5])], maxRequests = JInt 2, windowMs = JInt 10, timer_on = True\<rparr>"
  have "rl_check ''a'' 6 ?rl = (\<lparr>rl_allowed = False, retryAfterMs = JInt 5\<rparr>, snd (rl_check ''a'' 6 ?rl))"
    by (simp add: rl_check_def live_def)
  then show ?thesis
    using retry_after_suffices[of ?rl 2 10 "''a''" 6 5] by (simp add: rl_log_def)
qed

end
