(* ===== verification/JsNumber.thy ===== *)
theory JsNumber
  imports Prelude Complex_Main
begin

text \<open>
  The language's numbers: IEEE doubles as exact rationals that are rounded after every
  operation, with the infinities and \<open>NaN\<close>. The two zeros are one value; nothing in the
  modelled code tells them apart. \<open>parseFloat\<close>, \<open>toFixed\<close>, \<open>Math.round\<close> and the conversion to
  text follow the language definition.
\<close>

section \<open>Rounding to a double\<close>

datatype num = NNaN | NInf bool | Num rat

definition pow2 :: "int \<Rightarrow> rat" where
  "pow2 e = (if 0 \<le> e then 2 ^ nat e else 1 / 2 ^ nat (- e))"

definition pow10 :: "int \<Rightarrow> rat" where
  "pow10 e = (if 0 \<le> e then 10 ^ nat e else 1 / 10 ^ nat (- e))"

text \<open>\<open>ilog b n\<close>: how often \<open>n\<close> can be divided by \<open>b\<close> before it is below \<open>b\<close>.\<close>

function ilog :: "int \<Rightarrow> int \<Rightarrow> int" where
  "ilog b n = (if b < 2 \<or> n < b then 0 else 1 + ilog b (n div b))"
  by pat_completeness auto
termination
proof (relation "measure (nat \<circ> snd)")
  show "wf (measure (nat \<circ> snd))" by simp
next
  fix b n :: int
  assume a: "\<not> (b < 2 \<or> n < b)"
  then have "n div b < n" by (intro int_div_less_self) auto
  with a show "((b, n div b), (b, n)) \<in> measure (nat \<circ> snd)" by simp
qed

declare ilog.simps [simp del]

text \<open>\<open>floor_exp b p x\<close>: the exponent \<open>e\<close> with \<open>b^e \<le> x < b^(e+1)\<close>, for a positive \<open>x\<close>.\<close>

definition exp_guess :: "int \<Rightarrow> rat \<Rightarrow> int" where
  "exp_guess b x = (case quotient_of x of (p, q) \<Rightarrow> ilog b p - ilog b q)"

definition floor_exp :: "int \<Rightarrow> (int \<Rightarrow> rat) \<Rightarrow> rat \<Rightarrow> int" where
  "floor_exp b p x = (let e = exp_guess b x in
     if p (e + 1) \<le> x then e + 1 else if p e \<le> x then e else e - 1)"

definition round_half_even :: "rat \<Rightarrow> int" where
  "round_half_even x = (let f = \<lfloor>x\<rfloor>; d = x - of_int f in
     if d < 1/2 then f else if 1/2 < d then f + 1 else if even f then f else f + 1)"

definition rnd_pos :: "rat \<Rightarrow> num" where
  "rnd_pos x =
     (let ulp = pow2 (max (floor_exp 2 pow2 x - 52) (- 1074));
          y = of_int (round_half_even (x / ulp)) * ulp
      in if pow2 1024 \<le> y then NInf False else Num y)"

fun num_neg :: "num \<Rightarrow> num" where
  "num_neg NNaN = NNaN"
| "num_neg (NInf b) = NInf (\<not> b)"
| "num_neg (Num x) = Num (- x)"

definition rnd :: "rat \<Rightarrow> num" where
  "rnd x = (if x = 0 then Num 0 else if 0 < x then rnd_pos x else num_neg (rnd_pos (- x)))"

section \<open>Arithmetic and comparison\<close>

fun num_add :: "num \<Rightarrow> num \<Rightarrow> num" where
  "num_add (Num x) (Num y) = rnd (x + y)"
| "num_add (NInf a) (NInf b) = (if a = b then NInf a else NNaN)"
| "num_add (NInf a) (Num _) = NInf a"
| "num_add (Num _) (NInf b) = NInf b"
| "num_add _ _ = NNaN"

definition num_sub :: "num \<Rightarrow> num \<Rightarrow> num" where
  "num_sub x y = num_add x (num_neg y)"

fun num_mul :: "num \<Rightarrow> num \<Rightarrow> num" where
  "num_mul (Num x) (Num y) = rnd (x * y)"
| "num_mul (NInf a) (NInf b) = NInf (a \<noteq> b)"
| "num_mul (NInf a) (Num y) = (if y = 0 then NNaN else NInf (a \<noteq> (y < 0)))"
| "num_mul (Num x) (NInf b) = (if x = 0 then NNaN else NInf (b \<noteq> (x < 0)))"
| "num_mul _ _ = NNaN"

fun num_div :: "num \<Rightarrow> num \<Rightarrow> num" where
  "num_div (Num x) (Num y) =
     (if y = 0 then (if x = 0 then NNaN else NInf (x < 0)) else rnd (x / y))"
| "num_div (NInf a) (Num y) = NInf (a \<noteq> (y < 0))"
| "num_div (Num x) (NInf b) = Num 0"
| "num_div _ _ = NNaN"

fun num_lt :: "num \<Rightarrow> num \<Rightarrow> bool" where
  "num_lt (Num x) (Num y) = (x < y)"
| "num_lt (NInf a) (Num y) = a"
| "num_lt (Num x) (NInf b) = (\<not> b)"
| "num_lt (NInf a) (NInf b) = (a \<and> \<not> b)"
| "num_lt _ _ = False"

fun num_le :: "num \<Rightarrow> num \<Rightarrow> bool" where
  "num_le (Num x) (Num y) = (x \<le> y)"
| "num_le (NInf a) (Num y) = a"
| "num_le (Num x) (NInf b) = (\<not> b)"
| "num_le (NInf a) (NInf b) = (a \<or> \<not> b)"
| "num_le _ _ = False"

definition num_of_int :: "int \<Rightarrow> num" where
  "num_of_int i = rnd (of_int i)"

fun num_map_int :: "(rat \<Rightarrow> int) \<Rightarrow> num \<Rightarrow> num" where
  "num_map_int f (Num x) = Num (of_int (f x))"
| "num_map_int f x = x"

abbreviation math_floor :: "num \<Rightarrow> num" where "math_floor \<equiv> num_map_int floor"
abbreviation math_ceil :: "num \<Rightarrow> num" where "math_ceil \<equiv> num_map_int ceiling"
abbreviation math_round :: "num \<Rightarrow> num" where "math_round \<equiv> num_map_int (\<lambda>x. \<lfloor>x + 1/2\<rfloor>)"

definition num_max :: "num \<Rightarrow> num \<Rightarrow> num" where
  "num_max x y = (if x = NNaN \<or> y = NNaN then NNaN else if num_le x y then y else x)"

section \<open>Text\<close>

definition pad_zeros :: "nat \<Rightarrow> string \<Rightarrow> string" where
  "pad_zeros n s = replicate (n - length s) (CHR ''0'') @ s"

text \<open>\<open>toFixed(d)\<close> below 10 to the 21: the nearest multiple, the larger one on a tie.\<close>

definition to_fixed_pos :: "nat \<Rightarrow> rat \<Rightarrow> string" where
  "to_fixed_pos d x =
     (let s = pad_zeros (Suc d) (show_uint \<lfloor>x * 10 ^ d + 1/2\<rfloor>);
          k = length s - d
      in if d = 0 then s else take k s @ ''.'' @ drop k s)"

text \<open>The shortest digits that read back as the number, for its conversion to text.\<close>

definition shortest_try :: "rat \<Rightarrow> int \<Rightarrow> nat \<Rightarrow> int option" where
  "shortest_try x n k =
     (let q = pow10 (n - int k); f = \<lfloor>x / q\<rfloor>;
          ok = (\<lambda>s. 10 ^ (k - 1) \<le> s \<and> s < 10 ^ k \<and> rnd (of_int s * q) = Num x)
      in if ok f \<and> ok (f + 1) then Some (if x / q - of_int f \<le> 1/2 then f else f + 1)
         else if ok f then Some f else if ok (f + 1) then Some (f + 1) else None)"

fun shortest_from :: "nat \<Rightarrow> rat \<Rightarrow> int \<Rightarrow> nat \<Rightarrow> int \<times> nat" where
  "shortest_from 0 x n k = (\<lfloor>x / pow10 (n - int k)\<rfloor>, k)"
| "shortest_from (Suc fuel) x n k =
     (case shortest_try x n k of Some s \<Rightarrow> (s, k) | None \<Rightarrow> shortest_from fuel x n (Suc k))"

definition num_text_pos :: "rat \<Rightarrow> string" where
  "num_text_pos x =
     (let n = floor_exp 10 pow10 x + 1; (s, k) = shortest_from 16 x n 1; ds = show_uint s; ki = int k
      in if ki \<le> n \<and> n \<le> 21 then ds @ replicate (nat (n - ki)) (CHR ''0'')
         else if 0 < n \<and> n \<le> 21 then take (nat n) ds @ ''.'' @ drop (nat n) ds
         else if -6 < n \<and> n \<le> 0 then ''0.'' @ replicate (nat (- n)) (CHR ''0'') @ ds
         else take 1 ds @ (if k = 1 then [] else ''.'' @ drop 1 ds) @ ''e'' @
              (if n - 1 < 0 then ''-'' else ''+'') @ show_uint \<bar>n - 1\<bar>)"

fun num_text :: "num \<Rightarrow> string" where
  "num_text NNaN = ''NaN''"
| "num_text (NInf b) = (if b then ''-Infinity'' else ''Infinity'')"
| "num_text (Num x) =
     (if x = 0 then ''0'' else if x < 0 then CHR ''-'' # num_text_pos (- x) else num_text_pos x)"

fun to_fixed :: "nat \<Rightarrow> num \<Rightarrow> string" where
  "to_fixed d (Num x) =
     (if 10 ^ 21 \<le> \<bar>x\<bar> then num_text (Num x)
      else if x < 0 then CHR ''-'' # to_fixed_pos d (- x) else to_fixed_pos d x)"
| "to_fixed d x = num_text x"

text \<open>\<open>parseFloat\<close>: blanks, a sign, digits with an optional fraction and exponent.\<close>

definition parse_exp :: "string \<Rightarrow> int" where
  "parse_exp s =
     (case s of c # cs \<Rightarrow>
        if c \<in> {CHR ''e'', CHR ''E''} then
          (case cs of
             d # ds \<Rightarrow>
               if d = CHR ''-'' then - digits_val 0 (takeWhile is_digit ds)
               else if d = CHR ''+'' then digits_val 0 (takeWhile is_digit ds)
               else digits_val 0 (takeWhile is_digit (d # ds))
           | [] \<Rightarrow> 0)
        else 0
      | [] \<Rightarrow> 0)"

definition parse_decimal :: "string \<Rightarrow> num" where
  "parse_decimal s =
     (let ip = takeWhile is_digit s; r = dropWhile is_digit s;
          (fp, r') = (case r of c # cs \<Rightarrow>
              if c = CHR ''.'' \<and> (ip \<noteq> [] \<or> (takeWhile is_digit cs \<noteq> []))
              then (takeWhile is_digit cs, dropWhile is_digit cs) else ([], r)
            | [] \<Rightarrow> ([], r))
      in if ip = [] \<and> fp = [] then (if prefix ''Infinity'' s then NInf False else NNaN)
         else rnd (of_int (digits_val 0 (ip @ fp)) * pow10 (parse_exp r' - int (length fp))))"

definition parse_float :: "string \<Rightarrow> num" where
  "parse_float s =
     (case dropWhile is_space s of
        [] \<Rightarrow> NNaN
      | c # cs \<Rightarrow>
          if c = CHR ''-'' then num_neg (parse_decimal cs)
          else if c = CHR ''+'' then parse_decimal cs
          else parse_decimal (c # cs))"

section \<open>Facts\<close>

lemma num_lt_irrefl [simp]: "\<not> num_lt x x"
  by (cases x) auto

lemma num_lt_NaN [simp]: "\<not> num_lt NNaN x" "\<not> num_lt x NNaN"
  by (cases x; simp)+

lemma num_add_NaN [simp]: "num_add NNaN x = NNaN" "num_add x NNaN = NNaN"
  by (cases x; simp)+

lemma rnd_0 [simp]: "rnd 0 = Num 0"
  by (simp add: rnd_def)

lemma pow2_pos [simp]: "0 < pow2 e"
  by (simp add: pow2_def)

lemma round_half_even_nonneg: "0 \<le> x \<Longrightarrow> 0 \<le> round_half_even x"
  by (auto simp: round_half_even_def Let_def)

lemma rnd_nonneg: "0 \<le> x \<Longrightarrow> num_le (Num 0) (rnd x)"
  by (auto simp: rnd_def rnd_pos_def Let_def round_half_even_nonneg less_imp_le)

text \<open>Whole numbers below 2 to the 53 are represented exactly.\<close>

lemma ilog_nonneg: "0 \<le> ilog b n"
  by (induction b n rule: ilog.induct) (subst ilog.simps, simp)

lemma ilog_power: "1 \<le> n \<Longrightarrow> 2 ^ nat (ilog 2 n) \<le> n"
proof (induction n rule: measure_induct_rule[of nat])
  case (less n)
  show ?case
  proof (cases "n < 2")
    case True
    with less.prems show ?thesis by (simp add: ilog.simps[of 2 n])
  next
    case False
    then have "2 ^ nat (ilog 2 (n div 2)) \<le> n div 2" by (intro less.IH) auto
    then have "2 * 2 ^ nat (ilog 2 (n div 2)) \<le> n" by linarith
    with False show ?thesis
      by (subst ilog.simps) (simp add: nat_add_distrib ilog_nonneg)
  qed
qed

lemma pow2_le_exp: "pow2 e \<le> of_int n \<Longrightarrow> n < 2 ^ 53 \<Longrightarrow> e \<le> 52"
proof (rule ccontr)
  assume a: "pow2 e \<le> of_int n" "n < 2 ^ 53" "\<not> e \<le> 52"
  then have "(2::rat) ^ 53 \<le> 2 ^ nat e" by (intro power_increasing) auto
  also have "\<dots> \<le> of_int n" using a by (simp add: pow2_def)
  finally have "(2 ^ 53 :: int) \<le> n" by (metis of_int_le_iff of_int_numeral of_int_power)
  with a show False by simp
qed

lemma quotient_of_int: "quotient_of (of_int n) = (n, 1)"
  by (metis Rat.of_int_def quotient_of_int)

lemma floor_exp_int:
  assumes "1 \<le> n" and "n < 2 ^ 53"
  shows "floor_exp 2 pow2 (of_int n) \<le> 52"
proof -
  have "ilog 2 1 = 0" by (simp add: ilog.simps[of 2 1])
  then have g: "exp_guess 2 (of_int n) = ilog 2 n" by (simp add: exp_guess_def quotient_of_int)
  have "pow2 (ilog 2 n) \<le> of_int n"
    using ilog_power[OF assms(1)] ilog_nonneg[of 2 n] by (simp add: pow2_def)
  with g show ?thesis
    using pow2_le_exp[OF _ assms(2)] by (auto simp: floor_exp_def Let_def)
qed

lemma round_half_even_int [simp]: "round_half_even (of_int n) = n"
  by (simp add: round_half_even_def Let_def)

lemma rnd_pos_int:
  assumes "1 \<le> n" and "n < 2 ^ 53"
  shows "rnd_pos (of_int n) = Num (of_int n)"
proof -
  define e where "e = max (floor_exp 2 pow2 (of_int n) - 52) (- 1074)"
  have e: "e \<le> 0" using floor_exp_int[OF assms] by (simp add: e_def)
  have p: "of_int n / pow2 e = (of_int (n * 2 ^ nat (- e)) :: rat)" using e by (auto simp: pow2_def)
  have "(of_int n :: rat) < 2 ^ 53" using assms(2) by (metis of_int_less_iff of_int_numeral of_int_power)
  also have "\<dots> \<le> pow2 1024" by (simp add: pow2_def) 
  finally have "\<not> pow2 1024 \<le> (of_int n :: rat)" by simp
  moreover have "of_int (round_half_even (of_int n / pow2 e)) * pow2 e = (of_int n :: rat)"
    unfolding p round_half_even_int using p pow2_pos[of e] by (simp add: field_simps)
  ultimately show ?thesis by (simp add: rnd_pos_def Let_def e_def [symmetric])
qed

lemma rnd_of_int: "\<bar>n\<bar> < 2 ^ 53 \<Longrightarrow> rnd (of_int n) = Num (of_int n)"
  using rnd_pos_int[of n] rnd_pos_int[of "- n"] by (auto simp: rnd_def not_less)

lemma rnd_numeral: "numeral k < (2 ^ 53 :: int) \<Longrightarrow> rnd (numeral k) = Num (numeral k)"
  using rnd_of_int[of "numeral k"] by simp

lemma rnd_1: "rnd 1 = Num 1"
  using rnd_of_int[of 1] by simp

text \<open>A number of one digit prints as this digit.\<close>

lemma num_text_digit:
  assumes "1 \<le> d" and "d \<le> 9"
  shows "num_text (Num (of_int d)) = show_uint d"
proof -
  have "ilog 10 1 = 0" "ilog 10 d = 0" using assms by (simp_all add: ilog.simps)
  then have "exp_guess 10 (of_int d) = 0" by (simp add: exp_guess_def quotient_of_int)
  then have e: "floor_exp 10 pow10 (of_int d) = 0"
    using assms by (simp add: floor_exp_def Let_def pow10_def)
  have "rnd (of_int d) = Num (of_int d)" "rnd (1 + of_int d) = Num (of_int (d + 1))"
    using assms rnd_of_int[of d] rnd_of_int[of "d + 1"] by (simp_all add: add.commute)
  then have "shortest_try (of_int d) 1 1 = Some d"
    using assms by (simp add: shortest_try_def Let_def pow10_def add.commute)
  then have "shortest_from 16 (of_int d) 1 1 = (d, 1)"
    by (subst shortest_from.simps(2)[of 15, simplified]) simp
  then show ?thesis using assms e by (simp add: num_text_pos_def)
qed

text \<open>A faster equation for evaluation: whole numbers need no rounding.\<close>

lemma rnd_code [code]:
  "rnd x = (case quotient_of x of (p, q) \<Rightarrow>
     if q = 1 \<and> \<bar>p\<bar> < 9007199254740992 then Num x
     else if 0 < x then rnd_pos x else num_neg (rnd_pos (- x)))"
proof (cases "quotient_of x")
  case (Pair p q)
  have x: "x = of_int p / of_int q" by (rule quotient_of_div[OF Pair])
  show ?thesis
  proof (cases "q = 1 \<and> \<bar>p\<bar> < 9007199254740992")
    case True
    with x rnd_of_int[of p] Pair show ?thesis by simp
  next
    case False
    have "x \<noteq> 0"
    proof
      assume "x = 0"
      with Pair have "p = 0 \<and> q = 1" by simp
      with False show False by simp
    qed
    with False Pair show ?thesis by (auto simp: rnd_def)
  qed
qed

end
