(* ===== verification/Json.thy ===== *)
theory Json
  imports JsNumber
begin

text \<open>
  JSON values, \<open>JSON.stringify\<close> and \<open>JSON.parse\<close> as the language defines them, for text whose
  code units are below 256. An object is the list of its own properties in the language's order:
  array indices ascending, then the other keys in insertion order.
\<close>

datatype json =
    JNull
  | JBool bool
  | JNum num
  | JStr string
  | JArr "json list"
  | JObj "(string \<times> json) list"

definition jget :: "json \<Rightarrow> string \<Rightarrow> json option" where
  "jget j k = (case j of JObj ps \<Rightarrow> map_of ps k | _ \<Rightarrow> None)"

text \<open>\<open>v ?? d\<close> on a JSON value: \<open>null\<close> counts as absent.\<close>

definition jnullish :: "json option \<Rightarrow> json \<Rightarrow> json" where
  "jnullish v d = (case v of None \<Rightarrow> d | Some JNull \<Rightarrow> d | Some j \<Rightarrow> j)"

definition json_truthy :: "json option \<Rightarrow> bool" where
  "json_truthy v = (case v of None \<Rightarrow> False | Some JNull \<Rightarrow> False | Some (JBool b) \<Rightarrow> b
     | Some (JNum n) \<Rightarrow> n \<noteq> Num 0 \<and> n \<noteq> NNaN | Some (JStr s) \<Rightarrow> s \<noteq> [] | Some _ \<Rightarrow> True)"

text \<open>
  \<open>String(v)\<close> of a JSON value. An object that owns \<open>toString\<close> cannot be converted: its member is no
  function, and the conversion throws.
\<close>

fun json_texts :: "string option list \<Rightarrow> string option" where
  "json_texts [] = Some []"
| "json_texts [x] = x"
| "json_texts (x # xs) = (case (x, json_texts xs) of (Some t, Some u) \<Rightarrow> Some (t @ '','' @ u) | _ \<Rightarrow> None)"

fun json_text :: "json \<Rightarrow> string option" where
  "json_text JNull = Some ''null''"
| "json_text (JBool b) = Some (if b then ''true'' else ''false'')"
| "json_text (JNum n) = Some (num_text n)"
| "json_text (JStr s) = Some s"
| "json_text (JArr xs) = json_texts (map (\<lambda>x. if x = JNull then Some [] else json_text x) xs)"
| "json_text (JObj ps) = (if ''toString'' \<in> fst ` set ps then None else Some ''[object Object]'')"

section \<open>JSON.stringify\<close>

definition hex_char :: "nat \<Rightarrow> char" where
  "hex_char n = (if n < 10 then char_of (48 + n) else char_of (87 + n))"

definition escape_char :: "char \<Rightarrow> string" where
  "escape_char c =
     (if c = CHR 0x22 then [CHR 0x5C, CHR 0x22]
      else if c = CHR 0x5C then [CHR 0x5C, CHR 0x5C]
      else if c = CHR 0x08 then [CHR 0x5C, CHR ''b'']
      else if c = CHR 0x0C then [CHR 0x5C, CHR ''f'']
      else if c = CHR 0x0A then [CHR 0x5C, CHR ''n'']
      else if c = CHR 0x0D then [CHR 0x5C, CHR ''r'']
      else if c = CHR 0x09 then [CHR 0x5C, CHR ''t'']
      else if (of_char c :: nat) < 32
           then [CHR 0x5C, CHR ''u'', CHR ''0'', CHR ''0'', hex_char (of_char c div 16), hex_char (of_char c mod 16)]
      else [c])"

definition quote :: "string \<Rightarrow> string" where
  "quote s = [CHR 0x22] @ concat (map escape_char s) @ [CHR 0x22]"

fun commas :: "string list \<Rightarrow> string" where
  "commas [] = []"
| "commas [x] = x"
| "commas (x # xs) = x @ '','' @ commas xs"

fun stringify :: "json \<Rightarrow> string" where
  "stringify JNull = ''null''"
| "stringify (JBool b) = (if b then ''true'' else ''false'')"
| "stringify (JNum n) = (case n of Num x \<Rightarrow> num_text n | _ \<Rightarrow> ''null'')"
| "stringify (JStr s) = quote s"
| "stringify (JArr xs) = ''['' @ commas (map stringify xs) @ '']''"
| "stringify (JObj ps) = ''{'' @ commas (map (\<lambda>(k, v). quote k @ '':'' @ stringify v) ps) @ ''}''"

text \<open>
  \<open>JSON.stringify\<close> with an array of names: at every level an object keeps the listed members only,
  in the order of the list; arrays keep their elements.
\<close>

definition keep :: "string list \<Rightarrow> (string \<times> json) list \<Rightarrow> (string \<times> json) list" where
  "keep ks ps = concat (map (\<lambda>k. case map_of ps k of None \<Rightarrow> [] | Some v \<Rightarrow> [(k, v)]) ks)"

fun pick :: "string list \<Rightarrow> json \<Rightarrow> json" where
  "pick ks (JArr xs) = JArr (map (pick ks) xs)"
| "pick ks (JObj ps) = JObj (keep ks (map (\<lambda>(k, v). (k, pick ks v)) ps))"
| "pick ks j = j"

section \<open>JSON.parse\<close>

definition json_ws :: "char \<Rightarrow> bool" where
  "json_ws c \<longleftrightarrow> c \<in> {CHR '' '', CHR 0x09, CHR 0x0A, CHR 0x0D}"

definition hex_val :: "char \<Rightarrow> nat option" where
  "hex_val c = (let n = of_char c :: nat in
     if 48 \<le> n \<and> n \<le> 57 then Some (n - 48)
     else if 65 \<le> n \<and> n \<le> 70 then Some (n - 55)
     else if 97 \<le> n \<and> n \<le> 102 then Some (n - 87) else None)"

definition unescape :: "char \<Rightarrow> char option" where
  "unescape c =
     (if c \<in> {CHR 0x22, CHR 0x5C, CHR ''/''} then Some c
      else if c = CHR ''b'' then Some (CHR 0x08)
      else if c = CHR ''f'' then Some (CHR 0x0C)
      else if c = CHR ''n'' then Some (CHR 0x0A)
      else if c = CHR ''r'' then Some (CHR 0x0D)
      else if c = CHR ''t'' then Some (CHR 0x09) else None)"

text \<open>The rest of a string literal after its opening quote.\<close>

fun parse_string :: "string \<Rightarrow> (string \<times> string) option" where
  "parse_string [] = None"
| "parse_string (c # cs) =
     (if c = CHR 0x22 then Some ([], cs)
      else if (of_char c :: nat) < 32 then None
      else if c = CHR 0x5C then
        (case cs of
           [] \<Rightarrow> None
         | e # es \<Rightarrow>
             if e = CHR ''u'' then
               (case es of
                  a # b # x # y # zs \<Rightarrow>
                    (case (hex_val a, hex_val b, hex_val x, hex_val y) of
                       (Some 0, Some 0, Some h, Some l) \<Rightarrow>
                         map_option (\<lambda>(s, r). (char_of (16 * h + l) # s, r)) (parse_string zs)
                     | _ \<Rightarrow> None)
                | _ \<Rightarrow> None)
             else (case unescape e of None \<Rightarrow> None
                   | Some d \<Rightarrow> map_option (\<lambda>(s, r). (d # s, r)) (parse_string es)))
      else map_option (\<lambda>(s, r). (c # s, r)) (parse_string cs))"

definition number_lexeme :: "string \<Rightarrow> string \<times> string" where
  "number_lexeme s =
     (let (sg, r0) = (case s of c # cs \<Rightarrow> if c = CHR ''-'' then ([c], cs) else ([], s) | [] \<Rightarrow> ([], []));
          ip = takeWhile is_digit r0; r1 = dropWhile is_digit r0;
          (fr, r2) = (case r1 of c # cs \<Rightarrow>
             if c = CHR ''.'' \<and> takeWhile is_digit cs \<noteq> [] then (c # takeWhile is_digit cs, dropWhile is_digit cs)
             else ([], r1) | [] \<Rightarrow> ([], []));
          (ex, r3) = (case r2 of c # cs \<Rightarrow>
             if c \<in> {CHR ''e'', CHR ''E''} then
               (let (es, r) = (case cs of d # ds \<Rightarrow> if d \<in> {CHR ''+'', CHR ''-''} then ([d], ds) else ([], cs)
                               | [] \<Rightarrow> ([], []))
                in if takeWhile is_digit r \<noteq> [] then (c # es @ takeWhile is_digit r, dropWhile is_digit r)
                   else ([], r2))
             else ([], r2) | [] \<Rightarrow> ([], []))
      in if ip = [] \<or> (hd ip = CHR ''0'' \<and> length ip > 1) then ([], s) else (sg @ ip @ fr @ ex, r3))"

definition parse_number :: "string \<Rightarrow> (json \<times> string) option" where
  "parse_number s = (case number_lexeme s of (l, r) \<Rightarrow> if l = [] then None else Some (JNum (parse_float l), r))"

definition array_index :: "string \<Rightarrow> bool" where
  "array_index k \<longleftrightarrow> k \<noteq> [] \<and> list_all is_digit k \<and> (hd k = CHR ''0'' \<longrightarrow> length k = 1) \<and>
     length k \<le> 10 \<and> digits_val 0 k < 4294967295"

definition own_order :: "(string \<times> json) list \<Rightarrow> (string \<times> json) list" where
  "own_order ps = sort_key (\<lambda>(k, _). digits_val 0 k) (filter (\<lambda>(k, _). array_index k) ps)
     @ filter (\<lambda>(k, _). \<not> array_index k) ps"

text \<open>
  Recursive descent. The first argument bounds the depth of the calls; every call consumes a
  character, so the length of the text is enough.
\<close>

fun parse_value :: "nat \<Rightarrow> string \<Rightarrow> (json \<times> string) option"
  and parse_items :: "nat \<Rightarrow> string \<Rightarrow> (json list \<times> string) option"
  and parse_members :: "nat \<Rightarrow> string \<Rightarrow> ((string \<times> json) list \<times> string) option" where
  "parse_value 0 s = None"
| "parse_value (Suc n) s =
     (case dropWhile json_ws s of
        [] \<Rightarrow> None
      | c # cs \<Rightarrow>
          if c = CHR 0x22 then map_option (\<lambda>(t, r). (JStr t, r)) (parse_string cs)
          else if c = CHR ''['' then
            (case dropWhile json_ws cs of
               d # ds \<Rightarrow> if d = CHR '']'' then Some (JArr [], ds)
                         else map_option (\<lambda>(xs, r). (JArr xs, r)) (parse_items n (d # ds))
             | [] \<Rightarrow> None)
          else if c = CHR ''{'' then
            (case dropWhile json_ws cs of
               d # ds \<Rightarrow> if d = CHR ''}'' then Some (JObj [], ds)
                         else map_option (\<lambda>(ps, r). (JObj (own_order (foldl (\<lambda>m (k, v). js_set k v m) [] ps)), r))
                                (parse_members n (d # ds))
             | [] \<Rightarrow> None)
          else if prefix ''null'' (c # cs) then Some (JNull, drop 4 (c # cs))
          else if prefix ''true'' (c # cs) then Some (JBool True, drop 4 (c # cs))
          else if prefix ''false'' (c # cs) then Some (JBool False, drop 5 (c # cs))
          else parse_number (c # cs))"
| "parse_items 0 s = None"
| "parse_items (Suc n) s =
     (case parse_value n s of
        None \<Rightarrow> None
      | Some (v, r) \<Rightarrow>
          (case dropWhile json_ws r of
             c # cs \<Rightarrow> if c = CHR '']'' then Some ([v], cs)
                       else if c = CHR '','' then map_option (\<lambda>(vs, r'). (v # vs, r')) (parse_items n cs)
                       else None
           | [] \<Rightarrow> None))"
| "parse_members 0 s = None"
| "parse_members (Suc n) s =
     (case dropWhile json_ws s of
        q # qs \<Rightarrow>
          if q = CHR 0x22 then
            (case parse_string qs of
               None \<Rightarrow> None
             | Some (k, r) \<Rightarrow>
                 (case dropWhile json_ws r of
                    c # cs \<Rightarrow>
                      if c = CHR '':'' then
                        (case parse_value n cs of
                           None \<Rightarrow> None
                         | Some (v, r') \<Rightarrow>
                             (case dropWhile json_ws r' of
                                e # es \<Rightarrow> if e = CHR ''}'' then Some ([(k, v)], es)
                                          else if e = CHR '','' then
                                            map_option (\<lambda>(ps, r''). ((k, v) # ps, r'')) (parse_members n es)
                                          else None
                              | [] \<Rightarrow> None))
                      else None
                  | [] \<Rightarrow> None))
          else None
      | [] \<Rightarrow> None)"

text \<open>\<open>JSON.parse(s)\<close>: \<open>None\<close> where it throws a SyntaxError.\<close>

definition json_parse :: "string \<Rightarrow> json option" where
  "json_parse s = (case parse_value (2 * length s + 2) s of
     Some (v, r) \<Rightarrow> if dropWhile json_ws r = [] then Some v else None
   | None \<Rightarrow> None)"

end
