(* ===== verification/ReactWorkflow.thy ===== *)
theory ReactWorkflow
  imports Json
begin

text \<open>
  The agent execution workflow of
  \<open>control-plane/workflow-engine/src/temporal/workflows/react-workflow.ts\<close> over the types of
  \<open>types.ts\<close>. The workflow's local variables are the fields of the record \<open>wf\<close>. An activity
  (a proxy of the Temporal SDK over the functions of \<open>activities/index.ts\<close>) is a function of an
  environment of any type, given in the record \<open>activities\<close>: it returns a value or rejects
  with a message, and says whether the cancel signal was delivered while the workflow was
  suspended on it. Every activity call is appended to the trace.
\<close>

section \<open>Types\<close>

datatype role = RSystem | RUser | RAssistant | RTool

record llm_tool_call =
  tc_id :: string
  tc_name :: string
  tc_args :: string

record message =
  m_role :: role
  m_content :: string
  m_name :: "string option"
  m_toolCallId :: "string option"
  m_toolCalls :: "llm_tool_call list option"

record tool_definition =
  td_name :: string
  td_description :: string
  td_inputSchema :: "json option"

record exec_input =
  in_agentId :: string
  in_executionId :: string
  in_namespace :: string
  in_resourceNamespace :: "string option"
  in_callerRole :: "string option"
  in_systemPrompt :: "string option"
  in_model :: "string option"
  in_initialMessages :: "message list option"
  in_tools :: "tool_definition list option"
  in_maxIterations :: "int option"
  in_costBudgetUsd :: "num option"
  in_requiresApproval :: "bool option"

datatype llm_type = Final_answer | Tool_call

record llm_usage =
  promptTokens :: int
  completionTokens :: int
  totalTokens :: int

record llm_response =
  lr_type :: llm_type
  lr_content :: string
  lr_toolName :: "string option"
  lr_toolArgs :: "json option"
  lr_toolCallId :: "string option"
  lr_toolCalls :: "llm_tool_call list option"
  lr_modelUsed :: string
  lr_cost :: "string option"
  lr_usage :: llm_usage

datatype tool_status = Tool_succeeded | Tool_failed

record tool_result =
  tr_toolName :: string
  tr_status :: tool_status
  tr_result :: "json option"
  tr_errorMessage :: "string option"
  tr_latencyMs :: int

record tool_call_record =
  rc_iteration :: int
  rc_toolName :: string
  rc_args :: json
  rc_toolCallId :: "string option"
  rc_status :: tool_status
  rc_latencyMs :: int

datatype agent_status = SUCCEEDED | MAX_ITERATIONS_REACHED | CANCELLED | ERROR

record agent_result =
  ar_status :: agent_status
  ar_output :: string
  ar_totalCost :: string
  ar_iterations :: int
  ar_toolCalls :: "tool_call_record list"
  ar_error :: "string option"

record workflow_status =
  ws_iteration :: int
  ws_lastAction :: string
  ws_startTime :: string

record policy_decision =
  pd_allow :: bool
  pd_reason :: string

record sandbox_result =
  sr_id :: string
  sr_ipAddress :: "string option"

section \<open>Activities\<close>

record obs_args =
  ob_executionId :: string
  ob_step :: string
  ob_status :: string
  ob_attributes :: "(string \<times> string) list"

record policy_args =
  pa_agentId :: string
  pa_executionId :: string
  pa_namespace :: string
  pa_action :: string
  pa_resourceNamespace :: "string option"
  pa_callerRole :: "string option"

record create_args =
  ca_agentId :: string
  ca_executionId :: string
  ca_namespace :: string
  ca_isolationLevel :: string
  ca_initCommands :: "string list"

record llm_args =
  la_agentId :: string
  la_executionId :: string
  la_namespace :: string
  la_messages :: "message list"
  la_model :: "string option"
  la_toolDefinitions :: "tool_definition list"

record tool_args =
  ta_agentId :: string
  ta_executionId :: string
  ta_namespace :: string
  ta_toolName :: string
  ta_args :: json
  ta_sandboxIp :: string

record persist_args =
  pm_agentId :: string
  pm_namespace :: string
  pm_memoryType :: string
  pm_key :: string
  pm_data :: json

type_synonym ('w, 'a) reply = "'w \<Rightarrow> (string + 'a) \<times> bool \<times> 'w"

record 'w activities =
  act_observe :: "obs_args \<Rightarrow> ('w, unit) reply"
  act_admit :: "string \<times> string \<Rightarrow> ('w, bool) reply"
  act_policy :: "policy_args \<Rightarrow> ('w, policy_decision) reply"
  act_create :: "create_args \<Rightarrow> ('w, sandbox_result) reply"
  act_llm :: "llm_args \<Rightarrow> ('w, llm_response) reply"
  act_tool :: "tool_args \<Rightarrow> ('w, tool_result) reply"
  act_persist :: "persist_args \<Rightarrow> ('w, unit) reply"
  act_terminate :: "string \<times> string \<Rightarrow> ('w, unit) reply"
  act_report :: "agent_result \<Rightarrow> ('w, unit) reply"
  act_sleep :: "int \<Rightarrow> ('w, unit) reply"
  env_isolation :: "string option"
  env_defaultPrompt :: string

datatype wf_event =
    EvObserve obs_args
  | EvAdmit "string + bool"
  | EvPolicy policy_args "string + policy_decision"
  | EvCreate create_args "string + sandbox_result"
  | EvLLM llm_args "string + llm_response"
  | EvTool tool_args "string + tool_result"
  | EvPersist persist_args
  | EvTerminate string string
  | EvReport agent_result
  | EvSleep int

record 'w wf =
  cancellationRequested :: bool
  currentIteration :: int
  lastAction :: string
  messages :: "message list"
  toolCalls :: "tool_call_record list"
  seenToolCalls :: "string list"
  totalCost :: num
  output_text :: string
  sandboxId :: string
  sandboxIp :: string
  result :: "agent_result option"
  world :: 'w
  trace :: "wf_event list"

text \<open>The handlers of the cancel signal and of the status query.\<close>

definition on_cancel :: "'w wf \<Rightarrow> 'w wf" where
  "on_cancel s = s\<lparr>cancellationRequested := True, lastAction := ''cancellation_requested''\<rparr>"

definition on_status :: "string \<Rightarrow> 'w wf \<Rightarrow> workflow_status" where
  "on_status startTime s =
     \<lparr>ws_iteration = currentIteration s, ws_lastAction = lastAction s, ws_startTime = startTime\<rparr>"

text \<open>\<open>await\<close>: the activity runs, and a cancel signal delivered meanwhile is handled.\<close>

definition after_await :: "bool \<Rightarrow> 'w \<Rightarrow> wf_event \<Rightarrow> 'w wf \<Rightarrow> 'w wf" where
  "after_await c w e s =
     (let s' = s\<lparr>world := w, trace := trace s @ [e]\<rparr> in if c then on_cancel s' else s')"

definition await :: "('w, 'a) reply \<Rightarrow> (string + 'a \<Rightarrow> wf_event) \<Rightarrow> ('w wf, string, 'a) eff" where
  "await f ev = (\<lambda>s. case f (world s) of (r, c, w) \<Rightarrow> (r, after_await c w (ev r) s))"

type_synonym ('w, 'a) wfm = "('w wf, string, 'a) eff"

definition observe :: "'w activities \<Rightarrow> exec_input \<Rightarrow> string \<Rightarrow> string \<Rightarrow> (string \<times> string) list \<Rightarrow> ('w, unit) wfm" where
  "observe A inp step status attrs =
     (let a = \<lparr>ob_executionId = in_executionId inp, ob_step = step, ob_status = status, ob_attributes = attrs\<rparr>
      in await (act_observe A a) (\<lambda>_. EvObserve a))"

definition persist :: "'w activities \<Rightarrow> exec_input \<Rightarrow> string \<Rightarrow> string \<Rightarrow> json \<Rightarrow> ('w, unit) wfm" where
  "persist A inp mtype key data =
     (let a = \<lparr>pm_agentId = in_agentId inp, pm_namespace = in_namespace inp, pm_memoryType = mtype,
               pm_key = key, pm_data = data\<rparr>
      in await (act_persist A a) (\<lambda>_. EvPersist a))"

definition set_last :: "string \<Rightarrow> ('w, unit) wfm" where
  "set_last a = modify (\<lambda>s. s\<lparr>lastAction := a\<rparr>)"

definition ignore_error :: "('w, unit) wfm \<Rightarrow> ('w, unit) wfm" where
  "ignore_error m = seq (attempt m) (ret ())"

definition usd :: "num \<Rightarrow> string" where
  "usd c = ''$'' @ to_fixed 6 c"

definition zero_cost :: string where
  "zero_cost = ''$0.000000''"

definition early_error :: "string \<Rightarrow> string \<Rightarrow> agent_result" where
  "early_error out err =
     \<lparr>ar_status = ERROR, ar_output = out, ar_totalCost = zero_cost, ar_iterations = 0,
      ar_toolCalls = [], ar_error = Some err\<rparr>"

section \<open>The default tools\<close>

definition schema :: "(string \<times> string) list \<Rightarrow> json" where
  "schema fs =
     JObj [(''type'', JStr ''object''),
           (''properties'', JObj (map (\<lambda>(f, d). (f, JObj [(''type'', JStr ''string''), (''description'', JStr d)])) fs)),
           (''required'', JArr (map (\<lambda>(f, _). JStr f) fs))]"

definition TOOL_DEFINITIONS :: "tool_definition list" where
  "TOOL_DEFINITIONS =
    [\<lparr>td_name = ''code_interpreter'',
      td_description = ''Execute Python code in a sandboxed runtime. Returns stdout/stderr output.'',
      td_inputSchema = Some (schema [(''code'', ''Python code to execute'')])\<rparr>,
     \<lparr>td_name = ''file_read'',
      td_description = ''Read the contents of a file from the sandbox filesystem.'',
      td_inputSchema = Some (schema [(''path'', ''Absolute path to the file'')])\<rparr>,
     \<lparr>td_name = ''file_write'',
      td_description = ''Write content to a file in the sandbox filesystem.'',
      td_inputSchema = Some (schema [(''path'', ''Absolute path to the file''), (''content'', ''Content to write'')])\<rparr>,
     \<lparr>td_name = ''database_query'',
      td_description = ''Execute a SQL query against the sandbox SQLite database at /tmp/data.db.'',
      td_inputSchema = Some (schema [(''query'', ''SQL query to execute'')])\<rparr>]"

section \<open>One iteration of the ReAct loop\<close>

definition tool_definitions :: "exec_input \<Rightarrow> tool_definition list" where
  "tool_definitions inp =
     (case in_tools inp of None \<Rightarrow> TOOL_DEFINITIONS | Some ts \<Rightarrow> if ts = [] then TOOL_DEFINITIONS else ts)"

definition max_iterations :: "exec_input \<Rightarrow> int" where
  "max_iterations inp = min (nullish (in_maxIterations inp) 20) 100"

text \<open>\<open>break\<close>, \<open>continue\<close>, or the end of the body, where the workflow sleeps.\<close>

datatype ctl = Break | Continue | Fall

definition push_message :: "message \<Rightarrow> ('w, unit) wfm" where
  "push_message m = modify (\<lambda>s. s\<lparr>messages := messages s @ [m]\<rparr>)"

definition set_result :: "('w wf \<Rightarrow> agent_result) \<Rightarrow> ('w, unit) wfm" where
  "set_result f = modify (\<lambda>s. s\<lparr>result := Some (f s)\<rparr>)"

definition run_result :: "agent_status \<Rightarrow> string \<Rightarrow> string option \<Rightarrow> 'w wf \<Rightarrow> agent_result" where
  "run_result st out err s =
     \<lparr>ar_status = st, ar_output = out, ar_totalCost = usd (totalCost s),
      ar_iterations = currentIteration s, ar_toolCalls = toolCalls s, ar_error = err\<rparr>"

text \<open>Lines 321-337: cancellation is checked once, at the head of the iteration.\<close>

definition react_cancelled :: "'w activities \<Rightarrow> exec_input \<Rightarrow> ('w, ctl) wfm" where
  "react_cancelled A inp = seq (stmts [
     set_last ''cancelled'',
     with_state (\<lambda>s. observe A inp (''react_cancelled_'' @ show_int (currentIteration s)) ''cancelled'' []),
     set_result (run_result CANCELLED ''Execution cancelled by user'' None)]) (ret Break)"

definition call_llm :: "'w activities \<Rightarrow> exec_input \<Rightarrow> ('w, llm_response) wfm" where
  "call_llm A inp = with_state (\<lambda>s.
     let a = \<lparr>la_agentId = in_agentId inp, la_executionId = in_executionId inp, la_namespace = in_namespace inp,
              la_messages = map (\<lambda>m. m\<lparr>m_name := None\<rparr>) (messages s), la_model = in_model inp,
              la_toolDefinitions = tool_definitions inp\<rparr>
     in await (act_llm A a) (EvLLM a))"

definition react_llm_error :: "'w activities \<Rightarrow> exec_input \<Rightarrow> string \<Rightarrow> ('w, ctl) wfm" where
  "react_llm_error A inp errMsg = seq (stmts [
     with_state (\<lambda>s. set_last (''llm_error_'' @ show_int (currentIteration s))),
     with_state (\<lambda>s. observe A inp (''react_llm_error_'' @ show_int (currentIteration s)) ''failed'' [(''error'', errMsg)]),
     set_result (run_result ERROR (''LLM call failed: '' @ errMsg) (Some errMsg))]) (ret Break)"

definition cost_value :: "llm_response \<Rightarrow> num" where
  "cost_value r =
     (let c = (case lr_cost r of None \<Rightarrow> [] | Some t \<Rightarrow> remove1 (CHR ''$'') t)
      in parse_float (if c = [] then ''0'' else c))"

definition over_budget :: "exec_input \<Rightarrow> num \<Rightarrow> bool" where
  "over_budget inp c =
     (let b = nullish (in_costBudgetUsd inp) (Num 0) in num_lt (Num 0) b \<and> num_lt b c)"

definition react_over_budget :: "'w activities \<Rightarrow> exec_input \<Rightarrow> ('w, ctl) wfm" where
  "react_over_budget A inp = with_state (\<lambda>s.
     let b = nullish (in_costBudgetUsd inp) (Num 0);
         msg = ''Cost budget exceeded: '' @ usd (totalCost s) @ '' > '' @ usd b
     in seq (stmts [
       set_last ''cost_budget_exceeded'',
       observe A inp (''react_cost_budget_exceeded_'' @ show_int (currentIteration s)) ''failed''
         [(''totalCost'', usd (totalCost s)), (''budget'', usd b)],
       set_result (run_result ERROR msg (Some msg))]) (ret Break))"

definition assistant_message :: "llm_response \<Rightarrow> message" where
  "assistant_message r =
     \<lparr>m_role = RAssistant, m_content = lr_content r, m_name = None, m_toolCallId = None,
      m_toolCalls = (case lr_toolCalls r of
          None \<Rightarrow> None
        | Some tcs \<Rightarrow> if tcs = [] then None
            else Some (case lr_toolCallId r of
                None \<Rightarrow> tcs
              | Some i \<Rightarrow> if i = [] then tcs else filter (\<lambda>tc. tc_id tc = i) tcs))\<rparr>"

definition react_final :: "'w activities \<Rightarrow> exec_input \<Rightarrow> llm_response \<Rightarrow> ('w, ctl) wfm" where
  "react_final A inp r = seq (stmts [
     modify (\<lambda>s. s\<lparr>output_text := lr_content r\<rparr>),
     set_last ''final_answer'',
     with_state (\<lambda>s. ignore_error (persist A inp ''session'' (''execution_'' @ in_executionId inp @ ''_result'')
       (JObj [(''output'', JStr (output_text s)), (''totalCost'', JStr (usd (totalCost s))),
              (''iterations'', JNum (Num (of_int (currentIteration s))))]))),
     with_state (\<lambda>s. observe A inp (''react_completed_'' @ show_int (currentIteration s)) ''completed''
       [(''totalCost'', usd (totalCost s))]),
     with_state (\<lambda>s. set_result (run_result SUCCEEDED (output_text s) None))]) (ret Break)"

definition call_args :: "llm_response \<Rightarrow> json" where
  "call_args r = jnullish (lr_toolArgs r) (JObj [])"

definition call_key :: "string \<Rightarrow> json \<Rightarrow> string" where
  "call_key name args = name @ ''::'' @ stringify args"

definition repeat_message :: "string \<Rightarrow> message" where
  "repeat_message name =
     \<lparr>m_role = RUser,
      m_content = ''You already called '' @ name @ '' with those exact arguments. The result will not change. Use the previous result to produce your final answer now. Prefix your answer with [FINAL ANSWER].'',
      m_name = Some ''system'', m_toolCallId = None, m_toolCalls = None\<rparr>"

definition fatal_tool_error :: "string \<Rightarrow> bool" where
  "fatal_tool_error e \<longleftrightarrow> str_includes e ''PII_VIOLATION'' \<or> str_includes e ''POLICY_DENIED''"

definition react_tool_error :: "'w activities \<Rightarrow> exec_input \<Rightarrow> string \<Rightarrow> string \<Rightarrow> ('w, ctl) wfm" where
  "react_tool_error A inp name errMsg = seq (stmts [
     set_last (''tool_error_'' @ name),
     with_state (\<lambda>s. observe A inp (''react_tool_error_'' @ name @ ''_'' @ show_int (currentIteration s)) ''failed''
       [(''error'', errMsg)]),
     set_result (run_result ERROR (''Tool execution failed: '' @ errMsg) (Some errMsg))]) (ret Break)"

definition undefined_text :: "string option \<Rightarrow> string" where
  "undefined_text t = nullish t ''undefined''"

definition tool_message :: "llm_response \<Rightarrow> tool_result \<Rightarrow> message" where
  "tool_message r t =
     (case lr_toolCallId r of
        Some (c # cs) \<Rightarrow>
          \<lparr>m_role = RTool,
           m_content = (if tr_status t = Tool_succeeded then stringify (jnullish (tr_result t) (JStr []))
                        else ''Error: '' @ undefined_text (tr_errorMessage t)),
           m_name = None, m_toolCallId = Some (c # cs), m_toolCalls = None\<rparr>
      | _ \<Rightarrow>
          \<lparr>m_role = RUser,
           m_content = (if tr_status t = Tool_succeeded
              then ''Tool '' @ tr_toolName t @ '' executed successfully. Result: '' @
                   undefined_text (map_option stringify (tr_result t))
              else ''Tool '' @ tr_toolName t @ '' failed: '' @ undefined_text (tr_errorMessage t)),
           m_name = Some (tr_toolName t), m_toolCallId = None, m_toolCalls = None\<rparr>)"

definition status_text :: "tool_status \<Rightarrow> string" where
  "status_text t = (case t of Tool_succeeded \<Rightarrow> ''succeeded'' | Tool_failed \<Rightarrow> ''failed'')"

text \<open>Lines 549-606: the call is recorded, answered in the conversation, persisted and observed.\<close>

definition react_tool_record :: "'w activities \<Rightarrow> exec_input \<Rightarrow> llm_response \<Rightarrow> string \<Rightarrow> tool_result \<Rightarrow> ('w, ctl) wfm" where
  "react_tool_record A inp r name t = seq (stmts [
     modify (\<lambda>s. s\<lparr>toolCalls := toolCalls s @
       [\<lparr>rc_iteration = currentIteration s, rc_toolName = name, rc_args = call_args r,
         rc_toolCallId = lr_toolCallId r, rc_status = tr_status t, rc_latencyMs = tr_latencyMs t\<rparr>]\<rparr>),
     push_message (tool_message r t),
     with_state (\<lambda>s. ignore_error (persist A inp ''working'' (''iteration_'' @ show_int (currentIteration s))
       (JObj [(''toolName'', JStr (tr_toolName t)), (''status'', JStr (status_text (tr_status t))),
              (''iteration'', JNum (Num (of_int (currentIteration s))))]))),
     with_state (\<lambda>s. observe A inp (''react_tool_result_'' @ name @ ''_'' @ show_int (currentIteration s))
       (status_text (tr_status t)) [(''latencyMs'', show_int (tr_latencyMs t))])]) (ret Fall)"

definition call_tool :: "'w activities \<Rightarrow> exec_input \<Rightarrow> string \<Rightarrow> json \<Rightarrow> ('w, tool_result) wfm" where
  "call_tool A inp name args = with_state (\<lambda>s.
     let a = \<lparr>ta_agentId = in_agentId inp, ta_executionId = in_executionId inp, ta_namespace = in_namespace inp,
              ta_toolName = name, ta_args = args, ta_sandboxIp = sandboxIp s\<rparr>
     in await (act_tool A a) (EvTool a))"

definition react_tool :: "'w activities \<Rightarrow> exec_input \<Rightarrow> llm_response \<Rightarrow> string \<Rightarrow> ('w, ctl) wfm" where
  "react_tool A inp r name = seq (set_last (''tool_call_'' @ name)) (with_state (\<lambda>s.
     let key = call_key name (call_args r)
     in if key \<in> set (seenToolCalls s) then seq (push_message (repeat_message name)) (ret Continue)
        else seq (stmts [
            modify (\<lambda>s. s\<lparr>seenToolCalls := seenToolCalls s @ [key]\<rparr>),
            with_state (\<lambda>s. observe A inp (''react_tool_call_'' @ name @ ''_'' @ show_int (currentIteration s)) ''running''
              [(''toolName'', name), (''args'', stringify (call_args r))])])
          (bind (attempt (call_tool A inp name (call_args r))) (\<lambda>t.
            case t of
              Inr t \<Rightarrow> react_tool_record A inp r name t
            | Inl errMsg \<Rightarrow>
                if fatal_tool_error errMsg then react_tool_error A inp name errMsg
                else react_tool_record A inp r name
                  \<lparr>tr_toolName = name, tr_status = Tool_failed, tr_result = None,
                   tr_errorMessage = Some errMsg, tr_latencyMs = 0\<rparr>))))"

definition continue_message :: message where
  "continue_message =
     \<lparr>m_role = RUser, m_content = ''Continue. If you have a final answer, prefix it with [FINAL ANSWER].'',
      m_name = None, m_toolCallId = None, m_toolCalls = None\<rparr>"

definition react_response :: "'w activities \<Rightarrow> exec_input \<Rightarrow> llm_response \<Rightarrow> ('w, ctl) wfm" where
  "react_response A inp r = seq
     (modify (\<lambda>s. s\<lparr>totalCost := num_add (totalCost s) (cost_value r)\<rparr>))
     (with_state (\<lambda>s.
        if over_budget inp (totalCost s) then react_over_budget A inp
        else seq (push_message (assistant_message r))
          (if lr_type r = Final_answer then react_final A inp r
           else case lr_toolName r of
               Some (c # cs) \<Rightarrow> react_tool A inp r (c # cs)
             | _ \<Rightarrow> seq (push_message continue_message) (ret Fall))))"

text \<open>After the LLM answered: the response is handled, then the workflow sleeps or leaves.\<close>

definition iter_tail :: "'w activities \<Rightarrow> exec_input \<Rightarrow> string + llm_response \<Rightarrow> ('w, ctl) wfm" where
  "iter_tail A inp r =
     bind (case r of Inl errMsg \<Rightarrow> react_llm_error A inp errMsg | Inr resp \<Rightarrow> react_response A inp resp)
       (\<lambda>c. if c = Fall then seq (await (act_sleep A 100) (\<lambda>_. EvSleep 100)) (ret Fall) else ret c)"

definition react_iter :: "'w activities \<Rightarrow> exec_input \<Rightarrow> ('w, ctl) wfm" where
  "react_iter A inp = with_state (\<lambda>s.
     if cancellationRequested s then react_cancelled A inp
     else seq (stmts [
         modify (\<lambda>s. s\<lparr>currentIteration := currentIteration s + 1\<rparr>),
         with_state (\<lambda>s. set_last (''llm_call_'' @ show_int (currentIteration s))),
         with_state (\<lambda>s. observe A inp (''react_llm_'' @ show_int (currentIteration s)) ''running'' [])])
       (bind (attempt (call_llm A inp)) (iter_tail A inp)))"

section \<open>The pieces that only report\<close>

text \<open>Every event but an LLM call and a tool call.\<close>

fun neutral :: "wf_event \<Rightarrow> bool" where
  "neutral (EvLLM _ _) = False"
| "neutral (EvTool _ _) = False"
| "neutral (EvCreate _ _) = False"
| "neutral (EvTerminate _ _) = False"
| "neutral (EvReport _) = False"
| "neutral (EvAdmit _) = False"
| "neutral (EvPolicy _ _) = False"
| "neutral _ = True"

definition quiet :: "'w wf \<Rightarrow> 'w wf \<Rightarrow> bool" where
  "quiet s t \<longleftrightarrow> (\<exists>es. trace t = trace s @ es \<and> list_all neutral es) \<and>
     currentIteration t = currentIteration s \<and> seenToolCalls t = seenToolCalls s \<and>
     totalCost t = totalCost s \<and> sandboxId t = sandboxId s \<and> sandboxIp t = sandboxIp s"

interpretation quiet: eff_preorder quiet
proof
  show "quiet s s" for s :: "'a wf" by (auto simp: quiet_def)
  show "quiet s t \<Longrightarrow> quiet t u \<Longrightarrow> quiet s u" for s t u :: "'a wf"
    by (fastforce simp: quiet_def)
qed

lemma after_await_simps [simp]:
  "trace (after_await c w e s) = trace s @ [e]"
  "world (after_await c w e s) = w"
  "currentIteration (after_await c w e s) = currentIteration s"
  "seenToolCalls (after_await c w e s) = seenToolCalls s"
  "totalCost (after_await c w e s) = totalCost s"
  "sandboxId (after_await c w e s) = sandboxId s"
  "sandboxIp (after_await c w e s) = sandboxIp s"
  "toolCalls (after_await c w e s) = toolCalls s"
  "messages (after_await c w e s) = messages s"
  "output_text (after_await c w e s) = output_text s"
  "result (after_await c w e s) = result s"
  "cancellationRequested (after_await c w e s) = (c \<or> cancellationRequested s)"
  by (simp_all add: after_await_def Let_def on_cancel_def)

lemma wp_await:
  "wp (await f ev) Q E s \<longleftrightarrow> (\<forall>r c w. f (world s) = (r, c, w) \<longrightarrow>
     (case r of Inl e \<Rightarrow> E e (after_await c w (ev r) s) | Inr a \<Rightarrow> Q a (after_await c w (ev r) s)))"
  by (auto simp: wp_def await_def split: prod.splits sum.splits)

lemma await_quiet: "(\<And>r. neutral (ev r)) \<Longrightarrow> always quiet (await f ev)"
  by (auto simp: always_def quiet_def await_def split: prod.splits)

lemma observe_quiet: "always quiet (observe A inp st su attrs)"
  by (auto simp: observe_def Let_def intro: await_quiet)

lemma persist_quiet: "always quiet (persist A inp mt k d)"
  by (auto simp: persist_def Let_def intro: await_quiet)

lemma set_last_quiet: "always quiet (set_last a)"
  by (auto simp: set_last_def always_def modify_def quiet_def)

lemma set_result_quiet: "always quiet (set_result f)"
  by (auto simp: set_result_def always_def modify_def quiet_def)

lemma push_message_quiet: "always quiet (push_message m)"
  by (auto simp: push_message_def always_def modify_def quiet_def)

lemma ignore_error_quiet: "always quiet m \<Longrightarrow> always quiet (ignore_error m)"
  unfolding ignore_error_def by (intro quiet.always_rules)

lemmas quiet_rules = quiet.always_rules await_quiet observe_quiet persist_quiet set_last_quiet
  set_result_quiet push_message_quiet ignore_error_quiet

lemma react_cancelled_quiet: "always quiet (react_cancelled A inp)"
  unfolding react_cancelled_def by (intro quiet_rules) (auto intro!: quiet_rules)

lemma react_llm_error_quiet: "always quiet (react_llm_error A inp e)"
  unfolding react_llm_error_def by (intro quiet_rules) (auto intro!: quiet_rules)

lemma react_over_budget_quiet: "always quiet (react_over_budget A inp)"
  unfolding react_over_budget_def Let_def by (intro quiet_rules) (auto intro!: quiet_rules)

lemma react_final_quiet: "always quiet (react_final A inp r)"
  unfolding react_final_def
  by (intro quiet_rules) (auto intro!: quiet_rules simp: quiet_def)

lemma react_tool_error_quiet: "always quiet (react_tool_error A inp name e)"
  unfolding react_tool_error_def by (intro quiet_rules) (auto intro!: quiet_rules)

lemma react_tool_record_quiet: "always quiet (react_tool_record A inp r name t)"
  unfolding react_tool_record_def
  by (intro quiet_rules) (auto intro!: quiet_rules simp: quiet_def)

section \<open>What a trace says\<close>

definition llm_calls :: "wf_event list \<Rightarrow> nat" where
  "llm_calls tr = length (filter (\<lambda>e. case e of EvLLM _ _ \<Rightarrow> True | _ \<Rightarrow> False) tr)"

fun tool_keys :: "wf_event list \<Rightarrow> string list" where
  "tool_keys [] = []"
| "tool_keys (EvTool a _ # tr) = call_key (ta_toolName a) (ta_args a) # tool_keys tr"
| "tool_keys (_ # tr) = tool_keys tr"

text \<open>The cost accumulated by the LLM responses of a trace, from \<open>c\<close>.\<close>

fun spent :: "num \<Rightarrow> wf_event list \<Rightarrow> num" where
  "spent c [] = c"
| "spent c (EvLLM _ (Inr r) # tr) = spent (num_add c (cost_value r)) tr"
| "spent c (_ # tr) = spent c tr"

text \<open>Every tool call of a trace is made while the cost so far is within the budget.\<close>

fun tools_in_budget :: "exec_input \<Rightarrow> num \<Rightarrow> wf_event list \<Rightarrow> bool" where
  "tools_in_budget inp c [] = True"
| "tools_in_budget inp c (EvLLM _ (Inr r) # tr) = tools_in_budget inp (num_add c (cost_value r)) tr"
| "tools_in_budget inp c (EvTool _ _ # tr) = (\<not> over_budget inp c \<and> tools_in_budget inp c tr)"
| "tools_in_budget inp c (_ # tr) = tools_in_budget inp c tr"

lemma llm_calls_append [simp]: "llm_calls (xs @ ys) = llm_calls xs + llm_calls ys"
  by (simp add: llm_calls_def)

lemma tool_keys_append [simp]: "tool_keys (xs @ ys) = tool_keys xs @ tool_keys ys"
  by (induction xs rule: tool_keys.induct) auto

lemma spent_append [simp]: "spent c (xs @ ys) = spent (spent c xs) ys"
  by (induction c xs rule: spent.induct) auto

lemma tools_in_budget_append [simp]:
  "tools_in_budget inp c (xs @ ys) \<longleftrightarrow> tools_in_budget inp c xs \<and> tools_in_budget inp (spent c xs) ys"
  by (induction inp c xs rule: tools_in_budget.induct) auto

fun silent :: "wf_event \<Rightarrow> bool" where
  "silent (EvLLM _ _) = False"
| "silent (EvTool _ _) = False"
| "silent _ = True"

lemma neutral_silent: "neutral e \<Longrightarrow> silent e"
  by (cases e) auto

lemma silent_trace:
  assumes "list_all silent es"
  shows "llm_calls es = 0" "tool_keys es = []" "spent c es = c" "tools_in_budget inp c es"
  using assms
  by (induction es) (auto simp: llm_calls_def elim!: silent.elims split: wf_event.splits)

lemmas neutral_trace = silent_trace[OF list.pred_mono_strong[OF _ neutral_silent]]

section \<open>The loop invariant\<close>

text \<open>\<open>d\<close> is 1 between the increment of the iteration counter and the LLM call, else 0.\<close>

definition loop_inv :: "int \<Rightarrow> exec_input \<Rightarrow> 'w wf \<Rightarrow> bool" where
  "loop_inv d inp s \<longleftrightarrow>
     int (llm_calls (trace s)) + d = currentIteration s \<and>
     currentIteration s \<le> max 0 (max_iterations inp) \<and>
     distinct (tool_keys (trace s)) \<and> set (tool_keys (trace s)) \<subseteq> set (seenToolCalls s) \<and>
     totalCost s = spent (Num 0) (trace s) \<and> tools_in_budget inp (Num 0) (trace s)"

lemma loop_inv_quiet: "loop_inv d inp s \<Longrightarrow> quiet s t \<Longrightarrow> loop_inv d inp t"
  by (auto simp: loop_inv_def quiet_def neutral_trace)

lemma wp_quiet:
  assumes "always quiet m" and "loop_inv d inp s"
    and "\<And>a t. loop_inv d inp t \<Longrightarrow> quiet s t \<Longrightarrow> Q a t" and "\<And>e t. loop_inv d inp t \<Longrightarrow> quiet s t \<Longrightarrow> E e t"
  shows "wp m Q E s"
  by (rule always_wp[OF assms(1)]) (auto intro: assms(3,4) loop_inv_quiet[OF assms(2)])

text \<open>What one iteration leaves: the invariant, and the same sandbox.\<close>

definition kept :: "int \<Rightarrow> exec_input \<Rightarrow> 'w wf \<Rightarrow> 'w wf \<Rightarrow> bool" where
  "kept d inp s t \<longleftrightarrow> loop_inv d inp t \<and> currentIteration t = currentIteration s \<and>
     sandboxId t = sandboxId s \<and>
     (\<exists>es. trace t = trace s @ es \<and> list_all (\<lambda>e. neutral e \<or> \<not> silent e) es)"

lemma kept_quiet: "loop_inv d inp s \<Longrightarrow> quiet s t \<Longrightarrow> kept d inp s t"
  using loop_inv_quiet[of d inp s t] by (auto simp: kept_def quiet_def list_all_iff)

lemma kept_trans: "kept d inp s t \<Longrightarrow> kept d inp t u \<Longrightarrow> kept d inp s u"
  by (fastforce simp: kept_def)

lemma kept_inv: "kept d inp s t \<Longrightarrow> loop_inv d inp t"
  by (simp add: kept_def)

lemma wp_kept_quiet:
  assumes "always quiet m" and "kept d inp s u"
  shows "wp m (\<lambda>_. kept d inp s) (\<lambda>_. kept d inp s) u"
  by (rule wp_quiet[OF assms(1) kept_inv[OF assms(2)]])
     (auto intro: kept_trans[OF assms(2)] kept_quiet[OF kept_inv[OF assms(2)]])

lemma call_tool_kept:
  assumes inv: "loop_inv d inp s" and new: "call_key name args \<notin> set (tool_keys (trace s))"
    and seen: "call_key name args \<in> set (seenToolCalls s)" and bud: "\<not> over_budget inp (totalCost s)"
  shows "wp (call_tool A inp name args) (\<lambda>_. kept d inp s) (\<lambda>_. kept d inp s) s"
  using assms
  by (auto simp: call_tool_def wp_simps wp_await Let_def kept_def loop_inv_def llm_calls_def
      split: sum.splits)

lemma react_tool_kept:
  assumes inv: "loop_inv d inp s" and bud: "\<not> over_budget inp (totalCost s)"
  shows "wp (react_tool A inp r name) (\<lambda>_. kept d inp s) (\<lambda>_. kept d inp s) s"
proof -
  let ?key = "call_key name (call_args r)"
  have recorded: "wp (bind (attempt (call_tool A inp name (call_args r))) (\<lambda>t. case t of
        Inr t \<Rightarrow> react_tool_record A inp r name t
      | Inl errMsg \<Rightarrow> if fatal_tool_error errMsg then react_tool_error A inp name errMsg
          else react_tool_record A inp r name \<lparr>tr_toolName = name, tr_status = Tool_failed,
            tr_result = None, tr_errorMessage = Some errMsg, tr_latencyMs = 0\<rparr>))
      (\<lambda>_. kept d inp s) (\<lambda>_. kept d inp s) u" (is "wp ?m _ _ u")
    if u: "kept d inp s u" "?key \<notin> set (tool_keys (trace u))" "?key \<in> set (seenToolCalls u)"
      "\<not> over_budget inp (totalCost u)" for u
    unfolding wp_simps
    by (rule wp_mono[OF call_tool_kept[OF kept_inv[OF u(1)] u(2-4)]])
      (auto simp: wp_simps intro!: wp_kept_quiet react_tool_record_quiet react_tool_error_quiet
        intro: kept_trans[OF u(1)])
  show ?thesis
    unfolding react_tool_def wp_seq
  proof (rule wp_quiet[OF set_last_quiet inv])
    fix a :: unit and t assume t: "loop_inv d inp t" and q: "quiet s t"
    have st: "kept d inp s t" by (rule kept_quiet[OF inv q])
    show "wp (with_state (\<lambda>s. let key = ?key in
        if key \<in> set (seenToolCalls s) then seq (push_message (repeat_message name)) (ret Continue)
        else seq (stmts [modify (\<lambda>s. s\<lparr>seenToolCalls := seenToolCalls s @ [key]\<rparr>),
            with_state (\<lambda>s. observe A inp (''react_tool_call_'' @ name @ ''_'' @ show_int (currentIteration s)) ''running''
              [(''toolName'', name), (''args'', stringify (call_args r))])]) ?m))
        (\<lambda>_. kept d inp s) (\<lambda>_. kept d inp s) t"
    proof (cases "?key \<in> set (seenToolCalls t)")
      case True
      then show ?thesis
        by (simp add: wp_simps wp_kept_quiet[OF push_message_quiet st])
    next
      case False
      let ?t = "t\<lparr>seenToolCalls := seenToolCalls t @ [?key]\<rparr>"
      have inv': "loop_inv d inp ?t" using t by (auto simp: loop_inv_def)
      have st': "kept d inp s ?t" using st inv' by (simp add: kept_def)
      have new: "?key \<notin> set (tool_keys (trace ?t))" using t False by (auto simp: loop_inv_def)
      have "wp (observe A inp st su at') (\<lambda>_. wp ?m (\<lambda>_. kept d inp s) (\<lambda>_. kept d inp s)) (\<lambda>_. kept d inp s) ?t" for st su at'
      proof (rule wp_quiet[OF observe_quiet inv'])
        fix b :: unit and u assume u: "loop_inv d inp u" "quiet ?t u"
        have su: "kept d inp s u" by (rule kept_trans[OF st' kept_quiet[OF inv' u(2)]])
        show "wp ?m (\<lambda>_. kept d inp s) (\<lambda>_. kept d inp s) u"
          using u q new bud by (intro recorded[OF su]) (auto simp: quiet_def neutral_trace)
      qed (rule kept_trans[OF st' kept_quiet[OF inv']])
      then show ?thesis using False by (simp add: wp_simps)
    qed
  qed (rule kept_quiet[OF inv])
qed

lemma react_response_kept:
  fixes s :: "'w wf" and r :: llm_response
  defines "s' \<equiv> s\<lparr>totalCost := num_add (totalCost s) (cost_value r)\<rparr>"
  assumes inv: "loop_inv d inp s'"
  shows "wp (react_response A inp r) (\<lambda>_. kept d inp s') (\<lambda>_. kept d inp s') s"
proof -
  have refl: "kept d inp s' s'" using inv by (auto simp: kept_def)
  have push: "wp (push_message m) (\<lambda>_. wp n (\<lambda>_. kept d inp s') (\<lambda>_. kept d inp s')) (\<lambda>_. kept d inp s') t"
    if t: "kept d inp s' t" and n: "\<And>u. quiet t u \<Longrightarrow> loop_inv d inp u \<Longrightarrow> wp n (\<lambda>_. kept d inp u) (\<lambda>_. kept d inp u) u"
    for m t and n :: "('w, ctl) wfm"
  proof (rule wp_quiet[OF push_message_quiet kept_inv[OF t]])
    fix a :: unit and u assume u: "loop_inv d inp u" "quiet t u"
    have su: "kept d inp s' u" by (rule kept_trans[OF t kept_quiet[OF kept_inv[OF t] u(2)]])
    show "wp n (\<lambda>_. kept d inp s') (\<lambda>_. kept d inp s') u"
      by (rule wp_mono[OF n[OF u(2,1)]]) (auto intro: kept_trans[OF su])
  qed (auto intro: kept_trans[OF t] kept_quiet kept_inv[OF t])
  have quietly: "wp n (\<lambda>_. kept d inp u) (\<lambda>_. kept d inp u) u"
    if "always quiet n" "loop_inv d inp u" for n :: "('w, ctl) wfm" and u
    using that by (auto intro!: wp_kept_quiet simp: kept_def)
  have cont: "always quiet (seq (push_message continue_message) (ret Fall))"
    by (intro quiet_rules)
  show ?thesis
  proof (cases "over_budget inp (totalCost s')")
    case True
    then show ?thesis
      unfolding react_response_def wp_simps s'_def[symmetric]
      by (simp add: wp_kept_quiet[OF react_over_budget_quiet refl])
  next
    case False
    have "wp (if lr_type r = Final_answer then react_final A inp r
           else case lr_toolName r of
               Some (c # cs) \<Rightarrow> react_tool A inp r (c # cs)
             | _ \<Rightarrow> seq (push_message continue_message) (ret Fall))
        (\<lambda>_. kept d inp u) (\<lambda>_. kept d inp u) u" if "quiet s' u" "loop_inv d inp u" for u
      using that False react_tool_kept[of d inp u] quietly[OF cont] quietly[OF react_final_quiet]
      by (auto split: option.splits list.splits simp: quiet_def)
    from push[OF refl this] False show ?thesis
      unfolding react_response_def s'_def by (simp add: wp_modify wp_seq wp_with_state)
  qed
qed

text \<open>The outcome of an iteration, returned or rejected.\<close>

definition iter_post :: "exec_input \<Rightarrow> 'w wf \<Rightarrow> 'w wf \<Rightarrow> bool" where
  "iter_post inp s t \<longleftrightarrow> sandboxId t = sandboxId s \<and>
     (\<exists>es. trace t = trace s @ es \<and> list_all (\<lambda>e. neutral e \<or> \<not> silent e) es)"

lemma iter_post_kept: "kept d inp s t \<Longrightarrow> iter_post inp s t"
  by (auto simp: kept_def iter_post_def)

lemma iter_post_trans: "iter_post inp s t \<Longrightarrow> iter_post inp t u \<Longrightarrow> iter_post inp s u"
  by (fastforce simp: iter_post_def)

lemma react_cancelled_step:
  assumes inv: "loop_inv 0 inp s"
  shows "wp (react_cancelled A inp) (\<lambda>c t. kept 0 inp s t \<and> c = Break) (\<lambda>_. kept 0 inp s) s"
proof -
  let ?ms = "[set_last ''cancelled'',
     with_state (\<lambda>s. observe A inp (''react_cancelled_'' @ show_int (currentIteration s)) ''cancelled'' []),
     set_result (run_result CANCELLED ''Execution cancelled by user'' None)]"
  have "always quiet (stmts ?ms)" by (intro quiet_rules) (auto intro!: quiet_rules)
  from wp_kept_quiet[OF this, of 0 inp s s] inv show ?thesis
    by (simp add: react_cancelled_def wp_seq wp_ret kept_def)
qed

lemma call_llm_step:
  assumes inv: "loop_inv 1 inp s"
  shows "wp (call_llm A inp)
     (\<lambda>r t. loop_inv 0 inp (t\<lparr>totalCost := num_add (totalCost t) (cost_value r)\<rparr>) \<and> iter_post inp s t \<and>
        currentIteration t = currentIteration s)
     (\<lambda>_ t. loop_inv 0 inp t \<and> iter_post inp s t \<and> currentIteration t = currentIteration s) s"
  using inv
  by (auto simp: call_llm_def wp_simps wp_await Let_def loop_inv_def iter_post_def llm_calls_def
      split: sum.splits)

lemma sleep_kept:
  assumes "kept d inp s t"
  shows "wp (if c = Fall then seq (await (act_sleep A 100) (\<lambda>_. EvSleep 100)) (ret Fall) else ret c)
    (\<lambda>_. kept d inp s) (\<lambda>_. kept d inp s) t"
  by (rule wp_kept_quiet[OF _ assms]) (intro quiet_rules, simp)

lemma iter_tail_error:
  assumes "loop_inv d inp s"
  shows "wp (iter_tail A inp (Inl e)) (\<lambda>_. kept d inp s) (\<lambda>_. kept d inp s) s"
  using assms unfolding iter_tail_def wp_bind
  by (auto intro!: wp_mono[OF wp_kept_quiet[OF react_llm_error_quiet]] sleep_kept simp: kept_def)

lemma iter_tail_response:
  fixes s :: "'w wf" and r :: llm_response
  defines "s' \<equiv> s\<lparr>totalCost := num_add (totalCost s) (cost_value r)\<rparr>"
  assumes "loop_inv d inp s'"
  shows "wp (iter_tail A inp (Inr r)) (\<lambda>_. kept d inp s') (\<lambda>_. kept d inp s') s"
  unfolding iter_tail_def wp_bind s'_def
  by (auto intro!: wp_mono[OF react_response_kept] sleep_kept assms(2)[unfolded s'_def])

lemma react_iter_step:
  assumes inv: "loop_inv 0 inp s" and lt: "currentIteration s < max_iterations inp"
  shows "wp (react_iter A inp)
    (\<lambda>c t. loop_inv 0 inp t \<and> iter_post inp s t \<and> (c \<noteq> Break \<longrightarrow> currentIteration t = currentIteration s + 1))
    (\<lambda>_ t. (\<exists>d\<in>{0, 1}. loop_inv d inp t) \<and> iter_post inp s t) s" (is "wp _ ?Q ?E s")
proof (cases "cancellationRequested s")
  case True
  have "wp (react_cancelled A inp) ?Q ?E s"
    by (rule wp_mono[OF react_cancelled_step[OF inv]]) (auto dest: kept_inv iter_post_kept)
  with True show ?thesis by (simp add: react_iter_def wp_simps)
next
  case False
  let ?t = "s\<lparr>currentIteration := currentIteration s + 1\<rparr>"
  let ?head = "stmts [with_state (\<lambda>s. set_last (''llm_call_'' @ show_int (currentIteration s))),
         with_state (\<lambda>s. observe A inp (''react_llm_'' @ show_int (currentIteration s)) ''running'' [])]"
  have head: "always quiet ?head" by (intro quiet_rules) (auto intro!: quiet_rules)
  have inv': "loop_inv 1 inp ?t" using inv lt by (auto simp: loop_inv_def)
  have st: "iter_post inp s ?t" by (simp add: iter_post_def)
  have tail: "wp (bind (attempt (call_llm A inp)) (iter_tail A inp)) ?Q ?E u"
    if u: "loop_inv 1 inp u" "quiet ?t u" for u
  proof -
    have su: "iter_post inp s u" using u st iter_post_kept[OF kept_quiet[OF inv' u(2)]] by (blast intro: iter_post_trans)
    have cu: "currentIteration u = currentIteration s + 1" using u(2) by (simp add: quiet_def)
    have fin: "?Q c v \<and> ?E e v" if "kept 0 inp t v" "iter_post inp u t" "currentIteration t = currentIteration u"
      for c e and t v :: "'a wf"
      using that cu iter_post_trans[OF iter_post_trans[OF su that(2)] iter_post_kept[OF that(1)]]
      by (auto simp: kept_def)
    show ?thesis
      unfolding wp_bind wp_attempt
    proof (rule wp_mono[OF call_llm_step[OF u(1)]], goal_cases)
      case (1 r t)
      then show ?case
        by (intro wp_mono[OF iter_tail_response]) (auto dest: fin simp: iter_post_def)
    next
      case (2 e t)
      then show ?case by (intro wp_mono[OF iter_tail_error]) (auto dest: fin)
    qed
  qed
  have "wp ?head (\<lambda>_. wp (bind (attempt (call_llm A inp)) (iter_tail A inp)) ?Q ?E) ?E ?t"
  proof (rule wp_quiet[OF head inv'], goal_cases)
    case (1 a u)
    then show ?case by (rule tail)
  next
    case (2 e u)
    then show ?case using iter_post_trans[OF st iter_post_kept[OF kept_quiet[OF inv']]] by blast
  qed
  with False show ?thesis
    by (simp add: react_iter_def wp_modify wp_seq wp_stmts wp_with_state wp_ret)
qed

section \<open>The loop\<close>

definition same_iter :: "'w wf \<Rightarrow> 'w wf \<Rightarrow> bool" where
  "same_iter s t \<longleftrightarrow> currentIteration t = currentIteration s"

interpretation same_iter: eff_preorder same_iter
  by unfold_locales (simp_all add: same_iter_def)

lemma quiet_same_iter: "always quiet m \<Longrightarrow> always same_iter m"
  by (erule always_mono) (simp add: quiet_def same_iter_def)

lemma await_same_iter: "always same_iter (await f ev)"
  by (auto simp: always_def same_iter_def await_def split: prod.splits)

lemmas same_iter_rules = same_iter.always_rules await_same_iter quiet_same_iter[OF set_last_quiet]
  quiet_same_iter[OF observe_quiet] quiet_same_iter[OF push_message_quiet]
  quiet_same_iter[OF react_tool_record_quiet] quiet_same_iter[OF react_tool_error_quiet]
  quiet_same_iter[OF react_final_quiet] quiet_same_iter[OF react_over_budget_quiet]
  quiet_same_iter[OF react_llm_error_quiet]

lemma react_tool_same_iter: "always same_iter (react_tool A inp r name)"
  unfolding react_tool_def Let_def call_tool_def
  by (intro same_iter_rules) (auto intro!: same_iter_rules simp: same_iter_def)

lemma iter_tail_same_iter: "always same_iter (iter_tail A inp r)"
  unfolding iter_tail_def react_response_def
  by (intro same_iter_rules react_tool_same_iter) (auto simp: same_iter_def)

lemma call_llm_same_iter: "always same_iter (call_llm A inp)"
  unfolding call_llm_def Let_def by (intro same_iter_rules)

lemma react_iter_progress:
  assumes "react_iter A inp s = (Inr c, t)" and "c \<noteq> Break"
  shows "currentIteration t = currentIteration s + 1"
proof -
  have "always same_iter (seq (stmts [
         with_state (\<lambda>s. set_last (''llm_call_'' @ show_int (currentIteration s))),
         with_state (\<lambda>s. observe A inp (''react_llm_'' @ show_int (currentIteration s)) ''running'' [])])
       (bind (attempt (call_llm A inp)) (iter_tail A inp)))" (is "always _ ?m")
    by (intro same_iter_rules call_llm_same_iter iter_tail_same_iter) (auto intro!: same_iter_rules)
  then have "wp ?m (\<lambda>_ t. currentIteration t = currentIteration s + 1) (\<lambda>_ _. True)
      (s\<lparr>currentIteration := currentIteration s + 1\<rparr>)"
    by (rule always_wp) (simp_all add: same_iter_def)
  then have "\<not> cancellationRequested s \<Longrightarrow>
      wp (react_iter A inp) (\<lambda>_ t. currentIteration t = currentIteration s + 1) (\<lambda>_ _. True) s"
    by (simp add: react_iter_def wp_modify wp_seq wp_stmts wp_with_state wp_ret)
  moreover have "wp (react_cancelled A inp) (\<lambda>c _. c = Break) (\<lambda>_ _. True) s"
    by (auto simp: react_cancelled_def wp_seq wp_ret wp_def split: prod.splits sum.splits)
  ultimately show ?thesis
    using assms by (cases "cancellationRequested s") (auto simp: wp_def react_iter_def with_state_def)
qed

text \<open>\<open>while (currentIteration < maxIterations)\<close>: every iteration that does not leave advances.\<close>

function react_loop :: "'w activities \<Rightarrow> exec_input \<Rightarrow> ('w, unit) wfm" where
  "react_loop A inp s =
     (if currentIteration s < max_iterations inp then
        (case react_iter A inp s of
           (Inl e, t) \<Rightarrow> (Inl e, t)
         | (Inr c, t) \<Rightarrow> if c = Break then (Inr (), t) else react_loop A inp t)
      else (Inr (), s))"
  by pat_completeness auto
termination
  by (relation "measure (\<lambda>(A, inp, s). nat (max_iterations inp - currentIteration s))")
     (auto dest!: react_iter_progress[OF sym])

declare react_loop.simps [simp del]

section \<open>The workflow\<close>

definition status_name :: "agent_status \<Rightarrow> string" where
  "status_name st = (case st of SUCCEEDED \<Rightarrow> ''SUCCEEDED''
     | MAX_ITERATIONS_REACHED \<Rightarrow> ''MAX_ITERATIONS_REACHED''
     | CANCELLED \<Rightarrow> ''CANCELLED'' | ERROR \<Rightarrow> ''ERROR'')"

text \<open>Lines 308-317: the sandbox.\<close>

definition react_sandbox :: "'w activities \<Rightarrow> exec_input \<Rightarrow> ('w, unit) wfm" where
  "react_sandbox A inp =
     (let a = \<lparr>ca_agentId = in_agentId inp, ca_executionId = in_executionId inp, ca_namespace = in_namespace inp,
               ca_isolationLevel = (case env_isolation A of Some (c # cs) \<Rightarrow> c # cs | _ \<Rightarrow> ''Enhanced''),
               ca_initCommands = [''echo \"Sandbox '' @ in_executionId inp @ '' ready\"'']\<rparr>
      in bind (await (act_create A a) (EvCreate a)) (\<lambda>sb.
        modify (\<lambda>s. s\<lparr>sandboxId := sr_id sb, sandboxIp := nullish (sr_ipAddress sb) []\<rparr>)))"

definition react_max_iterations :: "'w activities \<Rightarrow> exec_input \<Rightarrow> ('w, unit) wfm" where
  "react_max_iterations A inp = with_state (\<lambda>s.
     if result s \<noteq> None then ret ()
     else stmts [
       set_last ''max_iterations'',
       observe A inp ''react_max_iterations'' ''completed'' [],
       set_result (\<lambda>s. run_result MAX_ITERATIONS_REACHED
         (if output_text s = [] then ''Execution stopped after '' @ show_int (max_iterations inp) @ '' iterations''
          else output_text s)
         (Some (''ReAct loop exceeded '' @ show_int (max_iterations inp) @ '' iterations'')) s)])"

text \<open>The body of the \<open>try\<close>, its \<open>catch\<close> and its \<open>finally\<close>.\<close>

definition react_body :: "'w activities \<Rightarrow> exec_input \<Rightarrow> ('w, unit) wfm" where
  "react_body A inp = stmts [
     react_sandbox A inp,
     with_state (\<lambda>s. observe A inp ''create_sandbox'' ''completed'' [(''sandboxId'', sandboxId s)]),
     react_loop A inp,
     react_max_iterations A inp]"

definition react_catch :: "'w activities \<Rightarrow> exec_input \<Rightarrow> string \<Rightarrow> ('w, unit) wfm" where
  "react_catch A inp errMsg = stmts [
     observe A inp ''create_sandbox'' ''failed'' [(''error'', errMsg)],
     set_result (\<lambda>_. early_error (''Sandbox creation failed: '' @ errMsg) errMsg)]"

definition react_cleanup :: "'w activities \<Rightarrow> ('w, unit) wfm" where
  "react_cleanup A = with_state (\<lambda>s.
     if sandboxId s = [] then ret ()
     else let reason = (case result s of None \<Rightarrow> ''unknown'' | Some r \<Rightarrow> status_name (ar_status r))
       in ignore_error (await (act_terminate A (sandboxId s, reason)) (\<lambda>_. EvTerminate (sandboxId s) reason)))"

text \<open>Lines 672-691: the outcome is reported to the dead-letter queue and returned.\<close>

definition react_report :: "'w activities \<Rightarrow> ('w, agent_result) wfm" where
  "react_report A = with_state (\<lambda>s.
     let r = (case result s of Some r \<Rightarrow> r
        | None \<Rightarrow> \<lparr>ar_status = ERROR, ar_output = ''Workflow exited unexpectedly'', ar_totalCost = zero_cost,
                   ar_iterations = currentIteration s, ar_toolCalls = [], ar_error = Some ''Unexpected exit''\<rparr>)
     in seq (ignore_error (await (act_report A r) (\<lambda>_. EvReport r))) (ret r))"

definition react_execute :: "'w activities \<Rightarrow> exec_input \<Rightarrow> ('w, agent_result) wfm" where
  "react_execute A inp = seq (stmts [
     set_last ''create_sandbox'',
     observe A inp ''create_sandbox'' ''running'' [],
     finally_do (catch (react_body A inp) (react_catch A inp)) (react_cleanup A)])
   (react_report A)"

text \<open>Steps 1 and 2: admission and policy. A rejection of the policy activity is not caught.\<close>

definition react_policy :: "'w activities \<Rightarrow> exec_input \<Rightarrow> ('w, agent_result) wfm" where
  "react_policy A inp =
     (let a = \<lparr>pa_agentId = in_agentId inp, pa_executionId = in_executionId inp, pa_namespace = in_namespace inp,
               pa_action = ''execute'', pa_resourceNamespace = in_resourceNamespace inp,
               pa_callerRole = in_callerRole inp\<rparr>
      in seq (stmts [set_last ''policy_evaluation'', observe A inp ''policy_evaluation'' ''running'' []])
        (bind (await (act_policy A a) (EvPolicy a)) (\<lambda>d.
          if \<not> pd_allow d
          then seq (observe A inp ''policy_evaluation'' ''denied'' [(''reason'', pd_reason d)])
                 (ret (early_error (''Policy denied: '' @ pd_reason d) (''Policy denied: '' @ pd_reason d)))
          else react_execute A inp)))"

definition react_admission :: "'w activities \<Rightarrow> exec_input \<Rightarrow> ('w, agent_result) wfm" where
  "react_admission A inp = seq (stmts [
     observe A inp ''react_workflow_started'' ''running'' [],
     set_last ''admission_check'',
     observe A inp ''admission_check'' ''running'' []])
   (bind (attempt (await (act_admit A (in_agentId inp, in_namespace inp)) EvAdmit)) (\<lambda>r.
      case r of
        Inl errMsg \<Rightarrow>
          seq (observe A inp ''admission_check'' ''failed'' [(''error'', errMsg)])
            (ret (early_error (''Agent admission failed: '' @ errMsg) errMsg))
      | Inr isAdmitted \<Rightarrow>
          if \<not> isAdmitted
          then seq (observe A inp ''admission_check'' ''denied'' [])
            (ret (early_error ''Agent failed admission policy'' ''Agent failed admission policy''))
          else react_policy A inp))"

definition system_message :: "'w activities \<Rightarrow> exec_input \<Rightarrow> message" where
  "system_message A inp =
     \<lparr>m_role = RSystem, m_content = nullish (in_systemPrompt inp) (env_defaultPrompt A), m_name = None,
      m_toolCallId = None, m_toolCalls = None\<rparr>"

definition init_wf :: "'w activities \<Rightarrow> exec_input \<Rightarrow> 'w \<Rightarrow> 'w wf" where
  "init_wf A inp w =
     \<lparr>cancellationRequested = False, currentIteration = 0, lastAction = ''starting'',
      messages = system_message A inp # nullish (in_initialMessages inp) [],
      toolCalls = [], seenToolCalls = [], totalCost = Num 0, output_text = [], sandboxId = [], sandboxIp = [],
      result = None, world = w, trace = []\<rparr>"

definition reactWorkflow :: "'w activities \<Rightarrow> exec_input \<Rightarrow> 'w \<Rightarrow> (string + agent_result) \<times> 'w wf" where
  "reactWorkflow A inp w = react_admission A inp (init_wf A inp w)"

section \<open>The loop and the body keep the invariant\<close>

lemma react_loop_step:
  assumes "loop_inv 0 inp s"
  shows "wp (react_loop A inp) (\<lambda>_ t. loop_inv 0 inp t \<and> iter_post inp s t)
      (\<lambda>_ t. (\<exists>d\<in>{0, 1}. loop_inv d inp t) \<and> iter_post inp s t) s"
  using assms
proof (induction A inp s rule: react_loop.induct)
  case (1 A inp s)
  show ?case
  proof (cases "currentIteration s < max_iterations inp")
    case False
    with "1.prems" show ?thesis by (simp add: wp_def react_loop.simps[of A inp s] iter_post_def)
  next
    case True
    note step = react_iter_step[OF "1.prems" True, of A]
    show ?thesis
    proof (cases "react_iter A inp s")
      case (Pair r t)
      show ?thesis
      proof (cases r)
        case (Inl e)
        with step Pair True show ?thesis by (simp add: wp_def react_loop.simps[of A inp s])
      next
        case (Inr c)
        with step Pair have t: "loop_inv 0 inp t" "iter_post inp s t" by (auto simp: wp_def)
        show ?thesis
        proof (cases "c = Break")
          case True
          with t Inr Pair \<open>currentIteration s < _\<close> show ?thesis
            by (simp add: wp_def react_loop.simps[of A inp s])
        next
          case False
          have "wp (react_loop A inp) (\<lambda>_ u. loop_inv 0 inp u \<and> iter_post inp t u)
              (\<lambda>_ u. (\<exists>d\<in>{0, 1}. loop_inv d inp u) \<and> iter_post inp t u) t"
            using "1.IH"[OF True] Pair Inr False t by simp
          then have "wp (react_loop A inp) (\<lambda>_ u. loop_inv 0 inp u \<and> iter_post inp s u)
              (\<lambda>_ u. (\<exists>d\<in>{0, 1}. loop_inv d inp u) \<and> iter_post inp s u) t"
            by (rule wp_mono) (auto intro: iter_post_trans[OF t(2)])
          then show ?thesis
            using Pair Inr False True by (simp add: wp_def react_loop.simps[of A inp s])
        qed
      qed
    qed
  qed
qed

text \<open>The part of a trace that starts with the creation of the sandbox.\<close>

definition created_id :: "string + sandbox_result \<Rightarrow> string" where
  "created_id r = (case r of Inl _ \<Rightarrow> [] | Inr sb \<Rightarrow> sr_id sb)"

definition some_inv :: "exec_input \<Rightarrow> 'w wf \<Rightarrow> bool" where
  "some_inv inp s \<longleftrightarrow> (\<exists>d\<in>{0, 1}. loop_inv d inp s)"

definition body_post :: "exec_input \<Rightarrow> 'w wf \<Rightarrow> 'w wf \<Rightarrow> bool" where
  "body_post inp s t \<longleftrightarrow> some_inv inp t \<and>
     (\<exists>a r es. trace t = trace s @ EvCreate a r # es \<and> list_all (\<lambda>e. neutral e \<or> \<not> silent e) es \<and>
        sandboxId t = created_id r)"

lemma body_post_iter: "body_post inp s t \<Longrightarrow> iter_post inp t u \<Longrightarrow> some_inv inp u \<Longrightarrow> body_post inp s u"
  by (fastforce simp: body_post_def iter_post_def)

lemma quiet_iter_post: "quiet s t \<Longrightarrow> iter_post inp s t"
  by (auto simp: quiet_def iter_post_def list_all_iff)

lemma some_inv_quiet: "some_inv inp s \<Longrightarrow> quiet s t \<Longrightarrow> some_inv inp t"
  by (auto simp: some_inv_def dest: loop_inv_quiet)

lemma body_post_quiet: "body_post inp s t \<Longrightarrow> quiet t u \<Longrightarrow> body_post inp s u"
  by (rule body_post_iter) (auto intro: quiet_iter_post some_inv_quiet simp: body_post_def)

lemma wp_body_quiet:
  assumes "always quiet m" and "body_post inp s t"
  shows "wp m (\<lambda>_. body_post inp s) (\<lambda>_. body_post inp s) t"
  by (rule always_wp[OF assms(1)]) (rule body_post_quiet[OF assms(2)], assumption)+

lemma react_sandbox_step:
  assumes "loop_inv 0 inp s" "sandboxId s = []"
  shows "wp (react_sandbox A inp) (\<lambda>_ t. loop_inv 0 inp t \<and> body_post inp s t) (\<lambda>_. body_post inp s) s"
  using assms
  by (auto simp: react_sandbox_def Let_def wp_bind wp_modify wp_await body_post_def some_inv_def
      loop_inv_def created_id_def silent_trace llm_calls_def split: sum.splits)

lemma react_max_iterations_quiet: "always quiet (react_max_iterations A inp)"
  unfolding react_max_iterations_def by (intro quiet_rules) (auto intro!: quiet_rules)

lemma react_catch_quiet: "always quiet (react_catch A inp e)"
  unfolding react_catch_def by (intro quiet_rules) (auto intro!: quiet_rules)

lemma react_body_step:
  assumes "loop_inv 0 inp s" "sandboxId s = []"
  shows "wp (react_body A inp) (\<lambda>_. body_post inp s) (\<lambda>_. body_post inp s) s"
proof -
  have loop: "wp (react_loop A inp) (\<lambda>_. wp (react_max_iterations A inp) (\<lambda>_. body_post inp s) (\<lambda>_. body_post inp s))
      (\<lambda>_. body_post inp s) t"
    if "loop_inv 0 inp t" "body_post inp s t" for t
    by (rule wp_mono[OF react_loop_step[OF that(1)]])
      (auto intro!: wp_body_quiet[OF react_max_iterations_quiet] body_post_iter[OF that(2)] simp: some_inv_def)
  have obs: "always quiet (with_state (\<lambda>s. observe A inp ''create_sandbox'' ''completed'' [(''sandboxId'', sandboxId s)]))"
    by (intro quiet_rules)
  show ?thesis
    unfolding react_body_def wp_stmts
  proof (rule wp_mono[OF react_sandbox_step[OF assms]], goal_cases)
    case (1 _ t)
    then show ?case
      by (intro always_wp[OF obs])
        (auto simp: wp_ret intro!: loop intro: loop_inv_quiet body_post_quiet)
  qed
qed

text \<open>Everything up to the report: the sandbox that was created is terminated, once, at the end.\<close>

definition sandbox_done :: "exec_input \<Rightarrow> 'w wf \<Rightarrow> 'w wf \<Rightarrow> bool" where
  "sandbox_done inp s t \<longleftrightarrow> some_inv inp t \<and>
     (\<exists>a r es reason. trace t = trace s @ EvCreate a r # es @
          (if created_id r = [] then [] else [EvTerminate (created_id r) reason]) \<and>
        list_all (\<lambda>e. neutral e \<or> \<not> silent e) es)"

lemma some_inv_silent:
  assumes "some_inv inp s" "trace t = trace s @ es" "list_all silent es" "currentIteration t = currentIteration s"
    "totalCost t = totalCost s" "seenToolCalls t = seenToolCalls s"
  shows "some_inv inp t"
  using assms by (auto simp: some_inv_def loop_inv_def silent_trace)

lemma react_cleanup_step:
  assumes "body_post inp s t"
  shows "wp (react_cleanup A) (\<lambda>_. sandbox_done inp s) (\<lambda>_. sandbox_done inp s) t"
proof -
  obtain a r es where t: "some_inv inp t" "trace t = trace s @ EvCreate a r # es"
      "list_all (\<lambda>e. neutral e \<or> \<not> silent e) es" "sandboxId t = created_id r"
    using assms by (auto simp: body_post_def)
  have "some_inv inp (after_await c w (EvTerminate i m) t)" for c w i m
    by (rule some_inv_silent[OF t(1), where es = "[EvTerminate i m]"]) simp_all
  with t show ?thesis
    by (auto simp: react_cleanup_def ignore_error_def wp_simps wp_await Let_def sandbox_done_def
        split: sum.splits)
qed

lemma react_protected_step:
  assumes "loop_inv 0 inp s" "sandboxId s = []"
  shows "wp (finally_do (catch (react_body A inp) (react_catch A inp)) (react_cleanup A))
    (\<lambda>_. sandbox_done inp s) (\<lambda>_. sandbox_done inp s) s"
  unfolding wp_finally_do wp_catch
  by (rule wp_mono[OF react_body_step[OF assms]])
    (auto intro!: react_cleanup_step wp_mono[OF wp_body_quiet[OF react_catch_quiet]])

section \<open>The shape of a run\<close>

fun preliminary :: "wf_event \<Rightarrow> bool" where
  "preliminary (EvAdmit _) = True"
| "preliminary (EvPolicy _ _) = True"
| "preliminary e = neutral e"

definition admitted :: "wf_event list \<Rightarrow> bool" where
  "admitted tr \<longleftrightarrow> EvAdmit (Inr True) \<in> set tr"

definition allowed :: "wf_event list \<Rightarrow> bool" where
  "allowed tr \<longleftrightarrow> (\<exists>a d. EvPolicy a (Inr d) \<in> set tr \<and> pd_allow d)"

definition front :: "exec_input \<Rightarrow> bool \<Rightarrow> bool \<Rightarrow> 'w wf \<Rightarrow> bool" where
  "front inp ad al s \<longleftrightarrow> loop_inv 0 inp s \<and> currentIteration s = 0 \<and> sandboxId s = [] \<and>
     list_all preliminary (trace s) \<and> (ad \<longrightarrow> admitted (trace s)) \<and> (al \<longrightarrow> allowed (trace s))"

text \<open>The outcome \<open>r\<close> of a run and its trace: refused in front, or executed.\<close>

definition executed :: "wf_event list \<Rightarrow> string + agent_result \<Rightarrow> bool" where
  "executed post r \<longleftrightarrow> (\<exists>a c es reason. list_all (\<lambda>e. neutral e \<or> \<not> silent e) es \<and>
     post = EvCreate a c # es @ (if created_id c = [] then [] else [EvTerminate (created_id c) reason]) @
       (case r of Inl _ \<Rightarrow> [] | Inr x \<Rightarrow> [EvReport x]))"

definition run_shape :: "exec_input \<Rightarrow> string + agent_result \<Rightarrow> 'w wf \<Rightarrow> bool" where
  "run_shape inp r t \<longleftrightarrow> some_inv inp t \<and>
     (\<exists>pre post. trace t = pre @ post \<and> list_all preliminary pre \<and>
        (post = [] \<and> (case r of Inl _ \<Rightarrow> True | Inr x \<Rightarrow>
             ar_status x = ERROR \<and> ar_iterations x = 0 \<and> ar_totalCost x = zero_cost \<and> ar_toolCalls x = [])
         \<or> admitted pre \<and> allowed pre \<and> executed post r))"

lemma preliminary_neutral: "neutral e \<Longrightarrow> preliminary e"
  by (cases e) auto

lemma preliminary_silent: "preliminary e \<Longrightarrow> silent e"
  by (cases e) auto

lemma admitted_append: "admitted xs \<Longrightarrow> admitted (xs @ ys)"
  by (simp add: admitted_def)

lemma allowed_append: "allowed xs \<Longrightarrow> allowed (xs @ ys)"
  by (auto simp: allowed_def)

lemma front_quiet: "front inp ad al s \<Longrightarrow> quiet s t \<Longrightarrow> front inp ad al t"
  using loop_inv_quiet[of 0 inp s t]
  by (auto simp: front_def quiet_def list_all_iff preliminary_neutral admitted_append allowed_append)

lemma run_shape_refused:
  assumes "some_inv inp t" "list_all preliminary (trace t)"
    and "case r of Inl _ \<Rightarrow> True | Inr x \<Rightarrow>
          ar_status x = ERROR \<and> ar_iterations x = 0 \<and> ar_totalCost x = zero_cost \<and> ar_toolCalls x = []"
  shows "run_shape inp r t"
  unfolding run_shape_def
  by (intro conjI exI[of _ "trace t"] exI[of _ "[]"]) (use assms in auto)

lemma run_shape_executed:
  assumes "some_inv inp t" "trace t = pre @ post" "list_all preliminary pre" "admitted pre" "allowed pre"
    "executed post r"
  shows "run_shape inp r t"
  unfolding run_shape_def using assms by blast

lemma executedI:
  "list_all (\<lambda>e. neutral e \<or> \<not> silent e) es \<Longrightarrow>
   executed (EvCreate a c # es @ (if created_id c = [] then [] else [EvTerminate (created_id c) reason]) @
       (case r of Inl _ \<Rightarrow> [] | Inr x \<Rightarrow> [EvReport x])) r"
  unfolding executed_def by blast

lemma front_shape: "front inp ad al s \<Longrightarrow> run_shape inp (Inl e) s"
  by (rule run_shape_refused) (auto simp: front_def some_inv_def)

lemma front_early: "front inp ad al s \<Longrightarrow> run_shape inp (Inr (early_error out err)) s"
  by (rule run_shape_refused) (auto simp: front_def some_inv_def early_error_def)

lemma wp_front:
  assumes "always quiet m" "front inp ad al s"
    and "\<And>a t. front inp ad al t \<Longrightarrow> Q a t" and "\<And>e t. front inp ad al t \<Longrightarrow> E e t"
  shows "wp m Q E s"
  by (rule always_wp[OF assms(1)]) (auto intro: assms(3,4) front_quiet[OF assms(2)])

lemma sandbox_done_shape:
  assumes s: "front inp True True s" and t: "sandbox_done inp s t" and u: "some_inv inp u"
    and tr: "trace u = trace t @ (case r of Inl _ \<Rightarrow> [] | Inr x \<Rightarrow> [EvReport x])"
  shows "run_shape inp r u"
proof -
  obtain a c es reason where e: "trace t = trace s @ EvCreate a c # es @
          (if created_id c = [] then [] else [EvTerminate (created_id c) reason])"
      "list_all (\<lambda>e. neutral e \<or> \<not> silent e) es"
    using t by (auto simp: sandbox_done_def)
  show ?thesis
  proof (rule run_shape_executed[OF u])
    show "trace u = trace s @ (EvCreate a c # es @
        (if created_id c = [] then [] else [EvTerminate (created_id c) reason]) @
        (case r of Inl _ \<Rightarrow> [] | Inr x \<Rightarrow> [EvReport x]))"
      by (simp add: tr e)
  qed (rule executedI[OF e(2)] | insert s, simp add: front_def)+
qed

lemma sandbox_done_rejected:
  assumes "front inp True True s" "sandbox_done inp s t"
  shows "run_shape inp (Inl e) t"
  using assms(2) by (intro sandbox_done_shape[OF assms]) (auto simp: sandbox_done_def)

lemma react_report_step:
  assumes s: "front inp True True s" and t: "sandbox_done inp s t"
  shows "wp (react_report A) (\<lambda>x. run_shape inp (Inr x)) (\<lambda>e. run_shape inp (Inl e)) t"
proof -
  have inv: "some_inv inp (after_await c w (EvReport x) t)" for c w x
    by (rule some_inv_silent[where s = t and es = "[EvReport x]"]) (use t in \<open>simp_all add: sandbox_done_def\<close>)
  have "run_shape inp (Inr x) (after_await c w (EvReport x) t)" for c w x
    by (rule sandbox_done_shape[OF s t inv]) simp
  then show ?thesis
    by (simp add: react_report_def ignore_error_def wp_simps wp_await Let_def split: sum.splits)
qed

lemma react_execute_step:
  assumes "front inp True True s"
  shows "wp (react_execute A inp) (\<lambda>x. run_shape inp (Inr x)) (\<lambda>e. run_shape inp (Inl e)) s"
proof -
  let ?m = "seq (set_last ''create_sandbox'') (observe A inp ''create_sandbox'' ''running'' [])"
  let ?Q = "\<lambda>x. run_shape inp (Inr x)" and ?E = "\<lambda>e. run_shape inp (Inl e)"
  have m: "always quiet ?m" by (intro quiet_rules)
  have prot: "wp (finally_do (catch (react_body A inp) (react_catch A inp)) (react_cleanup A))
      (\<lambda>_. wp (react_report A) ?Q ?E) ?E t" if t: "front inp True True t" for t
    using t by (intro wp_mono[OF react_protected_step])
      (auto intro!: react_report_step[OF t] sandbox_done_rejected[OF t] simp: front_def)
  have "wp ?m (\<lambda>_. wp (finally_do (catch (react_body A inp) (react_catch A inp)) (react_cleanup A))
      (\<lambda>_. wp (react_report A) ?Q ?E) ?E) ?E s"
    by (rule wp_front[OF m assms]) (auto intro!: prot front_shape)
  then show ?thesis
    by (simp add: react_execute_def wp_seq wp_stmts wp_ret)
qed

lemma front_event:
  assumes "front inp ad al s" "e = EvAdmit ra \<or> e = EvPolicy a rp"
    and "ad' \<longrightarrow> ad \<or> e = EvAdmit (Inr True)" "al' \<longrightarrow> al \<or> (\<exists>a d. e = EvPolicy a (Inr d) \<and> pd_allow d)"
  shows "front inp ad' al' (after_await c w e s)"
proof -
  have "loop_inv 0 inp (after_await c w e s)"
    using assms(1,2) by (auto simp: front_def loop_inv_def llm_calls_def)
  then show ?thesis
    using assms by (auto simp: front_def admitted_def allowed_def)
qed

lemma react_policy_step:
  assumes "front inp True False s"
  shows "wp (react_policy A inp) (\<lambda>x. run_shape inp (Inr x)) (\<lambda>e. run_shape inp (Inl e)) s"
proof -
  let ?m = "stmts [set_last ''policy_evaluation'', observe A inp ''policy_evaluation'' ''running'' []]"
  let ?Q = "\<lambda>x. run_shape inp (Inr x)" and ?E = "\<lambda>e. run_shape inp (Inl e)"
  have m: "always quiet ?m" by (intro quiet_rules) (auto intro!: quiet_rules)
  have "wp (await (act_policy A a) (EvPolicy a)) (\<lambda>d. wp (if \<not> pd_allow d
          then seq (observe A inp st su (ats d)) (ret (early_error (o1 d) (o2 d))) else react_execute A inp) ?Q ?E) ?E t"
    if t: "front inp True False t" for t a st su ats o1 o2
    unfolding wp_await
  proof (intro allI impI, goal_cases)
    case (1 r c w)
    show ?case
    proof (cases r)
      case (Inl e)
      have "front inp True False (after_await c w (EvPolicy a r) t)"
        by (rule front_event[OF t]) auto
      then show ?thesis using Inl by (auto intro: front_shape)
    next
      case (Inr d)
      have "front inp True (pd_allow d) (after_await c w (EvPolicy a r) t)"
        by (rule front_event[OF t]) (auto simp: Inr)
      then show ?thesis
        using Inr by (auto simp: wp_seq wp_ret intro!: react_execute_step wp_front[OF observe_quiet]
            intro: front_early front_shape)
    qed
  qed
  then show ?thesis
    unfolding react_policy_def Let_def wp_seq[where m = ?m] wp_bind
    by (intro wp_front[OF m assms]) (auto intro: front_shape)
qed

lemma react_admission_step:
  assumes "front inp False False s"
  shows "wp (react_admission A inp) (\<lambda>x. run_shape inp (Inr x)) (\<lambda>e. run_shape inp (Inl e)) s"
proof -
  let ?m = "stmts [observe A inp ''react_workflow_started'' ''running'' [], set_last ''admission_check'',
     observe A inp ''admission_check'' ''running'' []]"
  have m: "always quiet ?m" by (intro quiet_rules) (auto intro!: quiet_rules)
  have fr: "front inp (r = Inr True) False (after_await c w (EvAdmit r) t)"
    if "front inp False False t" for r c w t
    by (rule front_event[OF that]) auto
  show ?thesis
    unfolding react_admission_def wp_seq[where m = ?m]
  proof (rule wp_front[OF m assms], goal_cases)
    case (1 _ t)
    show ?case
      unfolding wp_bind wp_attempt wp_await
    proof (intro allI impI, goal_cases)
      case (1 r c w)
      show ?case
        using fr[OF \<open>front inp False False t\<close>, of r c w]
        by (cases r) (auto simp: wp_seq wp_ret intro!: react_policy_step wp_front[OF observe_quiet]
            intro: front_early front_shape)
    qed
  qed (auto intro: front_shape)
qed

lemma reactWorkflow_shape:
  assumes "reactWorkflow A inp w = (r, t)"
  shows "run_shape inp r t"
proof -
  have "front inp False False (init_wf A inp w)"
    by (simp add: front_def init_wf_def loop_inv_def llm_calls_def)
  from react_admission_step[OF this, of A] assms show ?thesis
    by (auto simp: reactWorkflow_def wp_def split: sum.splits)
qed

section \<open>The result agrees with the run\<close>

text \<open>The response of the last LLM call of a trace, if that call succeeded.\<close>

fun last_response :: "llm_response option \<Rightarrow> wf_event list \<Rightarrow> llm_response option" where
  "last_response r [] = r"
| "last_response r (EvLLM _ (Inr x) # tr) = last_response (Some x) tr"
| "last_response r (EvLLM _ (Inl _) # tr) = last_response None tr"
| "last_response r (_ # tr) = last_response r tr"

lemma last_response_append [simp]: "last_response r (xs @ ys) = last_response (last_response r xs) ys"
  by (induction r xs rule: last_response.induct) auto

lemma last_response_silent: "list_all silent es \<Longrightarrow> last_response r es = r"
  by (induction es) (auto elim!: silent.elims)

lemma last_response_neutral: "list_all neutral es \<Longrightarrow> last_response r es = r"
  by (rule last_response_silent) (auto simp: list_all_iff neutral_silent)

definition calm :: "'w wf \<Rightarrow> 'w wf \<Rightarrow> bool" where
  "calm s t \<longleftrightarrow> currentIteration t = currentIteration s \<and> totalCost t = totalCost s \<and>
     toolCalls t = toolCalls s \<and> result t = result s \<and> output_text t = output_text s \<and>
     last_response None (trace t) = last_response None (trace s) \<and>
     llm_calls (trace t) = llm_calls (trace s)"

interpretation calm: eff_preorder calm
  by unfold_locales (simp_all add: calm_def)

lemma llm_calls_neutral [simp]: "neutral e \<Longrightarrow> llm_calls [e] = 0"
  by (cases e) (auto simp: llm_calls_def)

lemma await_calm: "(\<And>r. neutral (ev r)) \<Longrightarrow> always calm (await f ev)"
  by (auto simp: always_def calm_def await_def last_response_neutral neutral_trace split: prod.splits)

lemma observe_calm: "always calm (observe A inp st su attrs)"
  by (auto simp: observe_def Let_def intro: await_calm)

lemma persist_calm: "always calm (persist A inp mt k d)"
  by (auto simp: persist_def Let_def intro: await_calm)

lemma ignore_error_calm: "always calm m \<Longrightarrow> always calm (ignore_error m)"
  unfolding ignore_error_def by (intro calm.always_rules)

lemma push_message_calm: "always calm (push_message m)"
  by (auto simp: push_message_def always_def modify_def calm_def)

lemma wp_observe_calm:
  assumes "\<And>a t. calm s t \<Longrightarrow> Q a t" "\<And>e t. E e t"
  shows "wp (observe A inp st su attrs) Q E s"
  by (rule always_wp[OF observe_calm]) (auto intro: assms)

lemma wp_persist_calm:
  assumes "\<And>a t. calm s t \<Longrightarrow> Q a t" "\<And>e t. E e t"
  shows "wp (ignore_error (persist A inp mt k d)) Q E s"
  by (rule always_wp[OF ignore_error_calm[OF persist_calm]]) (auto intro: assms)

text \<open>A result that was set matches the counters of the run and its last response.\<close>

definition counted :: "'w wf \<Rightarrow> bool" where
  "counted t \<longleftrightarrow> currentIteration t = int (llm_calls (trace t))"

definition coherent :: "exec_input \<Rightarrow> agent_result \<Rightarrow> 'w wf \<Rightarrow> bool" where
  "coherent inp x t \<longleftrightarrow> counted t \<and> ar_iterations x = currentIteration t \<and> ar_totalCost x = usd (totalCost t) \<and>
     ar_toolCalls x = toolCalls t \<and>
     (ar_status x = SUCCEEDED \<longrightarrow> (\<exists>r. last_response None (trace t) = Some r \<and>
        lr_type r = Final_answer \<and> ar_output x = lr_content r \<and> ar_error x = None)) \<and>
     (ar_status x = MAX_ITERATIONS_REACHED \<longrightarrow> max_iterations inp \<le> currentIteration t)"

definition settled :: "exec_input \<Rightarrow> 'w wf \<Rightarrow> bool" where
  "settled inp t \<longleftrightarrow> (\<exists>x. result t = Some x \<and> coherent inp x t)"

definition step_result :: "exec_input \<Rightarrow> ctl \<Rightarrow> 'w wf \<Rightarrow> bool" where
  "step_result inp c t \<longleftrightarrow> (if c = Break then settled inp t else result t = None \<and> counted t)"

lemmas settle_simps = wp_simps set_last_def set_result_def push_message_def step_result_def settled_def
  coherent_def run_result_def calm_def counted_def

lemma react_cancelled_result:
  "counted s \<Longrightarrow> wp (react_cancelled A inp) (step_result inp) (\<lambda>_ _. True) s"
  by (auto simp: react_cancelled_def settle_simps intro!: wp_observe_calm)

lemma react_llm_error_result:
  "counted s \<Longrightarrow> wp (react_llm_error A inp e) (step_result inp) (\<lambda>_ _. True) s"
  by (auto simp: react_llm_error_def settle_simps intro!: wp_observe_calm)

lemma react_over_budget_result:
  "counted s \<Longrightarrow> wp (react_over_budget A inp) (step_result inp) (\<lambda>_ _. True) s"
  by (auto simp: react_over_budget_def Let_def settle_simps intro!: wp_observe_calm)

lemma react_tool_error_result:
  "counted s \<Longrightarrow> wp (react_tool_error A inp name e) (step_result inp) (\<lambda>_ _. True) s"
  by (auto simp: react_tool_error_def settle_simps intro!: wp_observe_calm)

lemma react_final_result:
  assumes "counted s" "last_response None (trace s) = Some r" "lr_type r = Final_answer"
  shows "wp (react_final A inp r) (step_result inp) (\<lambda>_ _. True) s"
  using assms
  by (auto simp: react_final_def settle_simps intro!: wp_observe_calm wp_persist_calm)

lemma react_tool_record_result:
  "result s = None \<Longrightarrow> counted s \<Longrightarrow> wp (react_tool_record A inp r name t) (step_result inp) (\<lambda>_ _. True) s"
  by (auto simp: react_tool_record_def settle_simps intro!: wp_observe_calm wp_persist_calm)

lemma react_tool_result:
  assumes "result s = None" "counted s"
  shows "wp (react_tool A inp r name) (step_result inp) (\<lambda>_ _. True) s"
proof -
  have "wp (bind (attempt (call_tool A inp name (call_args r))) (\<lambda>t. case t of
        Inr t \<Rightarrow> react_tool_record A inp r name t
      | Inl errMsg \<Rightarrow> if fatal_tool_error errMsg then react_tool_error A inp name errMsg
          else react_tool_record A inp r name (f errMsg))) (step_result inp) (\<lambda>_ _. True) t"
    if "result t = None" "counted t" for t f
    using that
    by (auto simp: wp_bind wp_attempt call_tool_def wp_with_state Let_def wp_await counted_def llm_calls_def
        intro!: react_tool_record_result react_tool_error_result split: sum.splits)
  then show ?thesis
    using assms
    by (auto simp: react_tool_def Let_def wp_seq wp_with_state wp_stmts wp_modify set_last_def
        push_message_def wp_ret step_result_def[of _ Continue] calm_def counted_def intro!: wp_observe_calm)
qed

lemma react_response_result:
  assumes "result s = None" "counted s" "last_response None (trace s) = Some r"
  shows "wp (react_response A inp r) (step_result inp) (\<lambda>_ _. True) s"
  using assms
  by (auto simp: react_response_def wp_seq wp_modify wp_with_state push_message_def wp_ret
      step_result_def[of _ Fall] counted_def
      intro!: react_over_budget_result react_final_result react_tool_result split: option.splits list.splits)

lemma iter_tail_result:
  assumes "result s = None" "counted s" "\<And>x. r = Inr x \<Longrightarrow> last_response None (trace s) = Some x"
  shows "wp (iter_tail A inp r) (step_result inp) (\<lambda>_ _. True) s"
proof -
  have "wp (if c = Fall then seq (await (act_sleep A 100) (\<lambda>_. EvSleep 100)) (ret Fall) else ret c)
      (step_result inp) (\<lambda>_ _. True) t" if "step_result inp c t" for c t
    using that by (auto simp: wp_seq wp_ret wp_await step_result_def counted_def llm_calls_def split: sum.splits)
  moreover have "wp (case r of Inl errMsg \<Rightarrow> react_llm_error A inp errMsg | Inr resp \<Rightarrow> react_response A inp resp)
      (step_result inp) (\<lambda>_ _. True) s"
    using assms by (auto intro: react_llm_error_result react_response_result split: sum.splits)
  ultimately show ?thesis
    unfolding iter_tail_def wp_bind by (auto intro: wp_mono)
qed

lemma react_iter_result:
  assumes "result s = None" "counted s"
  shows "wp (react_iter A inp) (step_result inp) (\<lambda>_ _. True) s"
proof -
  have "wp (bind (attempt (call_llm A inp)) (iter_tail A inp)) (step_result inp) (\<lambda>_ _. True) t"
    if "result t = None" "currentIteration t = int (llm_calls (trace t)) + 1" for t
    using that
    by (auto simp: wp_bind wp_attempt call_llm_def wp_with_state Let_def wp_await counted_def llm_calls_def
        intro!: iter_tail_result split: sum.splits)
  then show ?thesis
    using assms
    by (auto simp: react_iter_def wp_with_state wp_seq wp_stmts wp_ret wp_modify set_last_def calm_def
        counted_def intro!: react_cancelled_result wp_observe_calm)
qed

lemma react_loop_result:
  assumes "result s = None" "counted s"
  shows "wp (react_loop A inp)
    (\<lambda>_ t. settled inp t \<or> result t = None \<and> counted t \<and> max_iterations inp \<le> currentIteration t) (\<lambda>_ _. True) s"
  using assms
proof (induction A inp s rule: react_loop.induct)
  case (1 A inp s)
  note it = react_iter_result[OF "1.prems", of A inp]
  show ?case
  proof (cases "currentIteration s < max_iterations inp")
    case False
    with "1.prems" show ?thesis by (simp add: wp_def react_loop.simps[of A inp s])
  next
    case True
    obtain r t where rt: "react_iter A inp s = (r, t)" by (cases "react_iter A inp s")
    show ?thesis
    proof (cases r)
      case (Inl e)
      with rt True show ?thesis by (simp add: wp_def react_loop.simps[of A inp s])
    next
      case (Inr c)
      with it rt have st: "step_result inp c t" by (simp add: wp_def)
      show ?thesis
      proof (cases "c = Break")
        case True
        with st rt Inr \<open>currentIteration s < _\<close> show ?thesis
          by (simp add: wp_def react_loop.simps[of A inp s] step_result_def)
      next
        case False
        have "wp (react_loop A inp)
          (\<lambda>_ t. settled inp t \<or> result t = None \<and> counted t \<and> max_iterations inp \<le> currentIteration t)
          (\<lambda>_ _. True) t"
        proof (rule "1.IH"[OF True])
          show "(r, t) = react_iter A inp s" by (simp add: rt)
          show "r = Inr c" by (rule Inr)
          show "c \<noteq> Break" by (rule False)
          show "result t = None" "counted t" using st False by (simp_all add: step_result_def)
        qed
        with rt Inr False True show ?thesis
          by (simp add: wp_def react_loop.simps[of A inp s])
      qed
    qed
  qed
qed

lemma react_body_result:
  assumes "result s = None" "counted s"
  shows "wp (react_body A inp) (\<lambda>_. settled inp) (\<lambda>_ _. True) s"
proof -
  have "wp (react_max_iterations A inp) (\<lambda>_. settled inp) (\<lambda>_ _. True) t"
    if "settled inp t \<or> result t = None \<and> counted t \<and> max_iterations inp \<le> currentIteration t" for t
    using that
    by (auto simp: react_max_iterations_def settle_simps intro!: wp_observe_calm)
  then have "wp (react_loop A inp) (\<lambda>_. wp (react_max_iterations A inp) (\<lambda>_. settled inp) (\<lambda>_ _. True)) (\<lambda>_ _. True) t"
    if "result t = None" "counted t" for t
    by (intro wp_mono[OF react_loop_result[OF that]]) simp_all
  then show ?thesis
    using assms
    by (auto simp: react_body_def react_sandbox_def Let_def wp_stmts wp_bind wp_seq wp_modify wp_ret wp_await
        wp_with_state calm_def counted_def llm_calls_def intro!: wp_observe_calm split: sum.splits)
qed

definition outcome_ok :: "exec_input \<Rightarrow> agent_result \<Rightarrow> 'w wf \<Rightarrow> bool" where
  "outcome_ok inp x t \<longleftrightarrow> ar_status x \<noteq> ERROR \<longrightarrow> coherent inp x t"

lemma coherent_after:
  "last_response None (trace t @ [e]) = last_response None (trace t) \<Longrightarrow> llm_calls [e] = 0 \<Longrightarrow>
   coherent inp x (after_await c w e t) = coherent inp x t"
  by (simp add: coherent_def counted_def)

lemma react_protected_result:
  assumes "result s = None" "counted s"
  shows "wp (finally_do (catch (react_body A inp) (react_catch A inp)) (react_cleanup A))
    (\<lambda>_ t. \<exists>x. result t = Some x \<and> outcome_ok inp x t) (\<lambda>_ _. True) s"
proof -
  let ?Q = "\<lambda>t. \<exists>x. result t = Some x \<and> outcome_ok inp x t"
  have clean: "wp (react_cleanup A) (\<lambda>_. ?Q) (\<lambda>_ _. True) t" if "?Q t" for t
    using that
    by (auto simp: react_cleanup_def ignore_error_def wp_with_state Let_def wp_seq wp_attempt wp_await wp_ret
        outcome_ok_def coherent_after llm_calls_def split: sum.splits)
  have "wp (react_catch A inp e) (\<lambda>_. ?Q) (\<lambda>_ _. True) t" for e t
    by (auto simp: react_catch_def wp_stmts wp_seq wp_ret wp_modify set_result_def early_error_def outcome_ok_def
        intro!: wp_observe_calm)
  then have caught: "wp (react_catch A inp e) (\<lambda>_. wp (react_cleanup A) (\<lambda>_. ?Q) (\<lambda>_ _. True))
      (\<lambda>e. wp (react_cleanup A) (\<lambda>_ _. True) (\<lambda>_ _. True)) t" for e t
    by (rule wp_mono) (auto intro: clean)
  show ?thesis
    unfolding wp_finally_do wp_catch
  proof (rule wp_mono[OF react_body_result[OF assms]], goal_cases)
    case (1 a s)
    then have "?Q s" by (auto simp: settled_def outcome_ok_def)
    then show ?case by (rule clean)
  next
    case 2
    show ?case by (rule caught)
  qed
qed

lemma react_execute_result:
  assumes "result s = None" "counted s"
  shows "wp (react_execute A inp) (outcome_ok inp) (\<lambda>_ _. True) s"
proof -
  have rep: "wp (react_report A) (outcome_ok inp) (\<lambda>_ _. True) t"
    if "\<exists>x. result t = Some x \<and> outcome_ok inp x t" for t
    using that
    by (auto simp: react_report_def ignore_error_def wp_with_state Let_def wp_seq wp_attempt wp_await wp_ret
        outcome_ok_def coherent_after llm_calls_def split: sum.splits)
  have "wp (finally_do (catch (react_body A inp) (react_catch A inp)) (react_cleanup A))
      (\<lambda>_. wp (react_report A) (outcome_ok inp) (\<lambda>_ _. True)) (\<lambda>_ _. True) t"
    if "result t = None" "counted t" for t
    by (intro wp_mono[OF react_protected_result[OF that]]) (auto intro: rep)
  then show ?thesis
    using assms
    by (auto simp: react_execute_def wp_seq wp_stmts wp_ret wp_modify set_last_def calm_def counted_def
        intro!: wp_observe_calm)
qed

lemma react_admission_result:
  assumes "result s = None" "counted s"
  shows "wp (react_admission A inp) (outcome_ok inp) (\<lambda>_ _. True) s"
proof -
  have early: "outcome_ok inp (early_error out err) t" for out err t
    by (simp add: outcome_ok_def early_error_def)
  have pol: "wp (react_policy A inp) (outcome_ok inp) (\<lambda>_ _. True) t" if "result t = None" "counted t" for t
    using that
    by (auto simp: react_policy_def Let_def wp_seq wp_stmts wp_bind wp_await wp_ret wp_modify set_last_def
        calm_def early counted_def llm_calls_def intro!: wp_observe_calm react_execute_result split: sum.splits)
  show ?thesis
    using assms
    by (auto simp: react_admission_def wp_seq wp_stmts wp_bind wp_attempt wp_await wp_ret wp_modify set_last_def
        calm_def early counted_def llm_calls_def intro!: wp_observe_calm pol split: sum.splits)
qed

lemma reactWorkflow_outcome:
  "reactWorkflow A inp w = (Inr x, t) \<Longrightarrow> outcome_ok inp x t"
  using react_admission_result[of "init_wf A inp w" A inp]
  by (simp add: reactWorkflow_def wp_def init_wf_def counted_def llm_calls_def)

section \<open>Properties of every run\<close>

fun terminated_ids :: "wf_event list \<Rightarrow> string list" where
  "terminated_ids [] = []"
| "terminated_ids (EvTerminate i _ # tr) = i # terminated_ids tr"
| "terminated_ids (_ # tr) = terminated_ids tr"

fun created_ids :: "wf_event list \<Rightarrow> string list" where
  "created_ids [] = []"
| "created_ids (EvCreate _ r # tr) = (if created_id r = [] then created_ids tr else created_id r # created_ids tr)"
| "created_ids (_ # tr) = created_ids tr"

fun reports :: "wf_event list \<Rightarrow> agent_result list" where
  "reports [] = []"
| "reports (EvReport r # tr) = r # reports tr"
| "reports (_ # tr) = reports tr"

text \<open>No LLM call and no tool call follows a termination.\<close>

fun nothing_after_termination :: "wf_event list \<Rightarrow> bool" where
  "nothing_after_termination [] = True"
| "nothing_after_termination (EvTerminate _ _ # tr) = (list_all silent tr \<and> nothing_after_termination tr)"
| "nothing_after_termination (_ # tr) = nothing_after_termination tr"

definition sandbox_creations :: "wf_event list \<Rightarrow> nat" where
  "sandbox_creations tr = length (filter (\<lambda>e. case e of EvCreate _ _ \<Rightarrow> True | _ \<Rightarrow> False) tr)"

lemma terminated_ids_append [simp]: "terminated_ids (xs @ ys) = terminated_ids xs @ terminated_ids ys"
  by (induction xs rule: terminated_ids.induct) auto

lemma created_ids_append [simp]: "created_ids (xs @ ys) = created_ids xs @ created_ids ys"
  by (induction xs rule: created_ids.induct) auto

lemma reports_append [simp]: "reports (xs @ ys) = reports xs @ reports ys"
  by (induction xs rule: reports.induct) auto

lemma sandbox_creations_simps [simp]:
  "sandbox_creations [] = 0"
  "sandbox_creations (xs @ ys) = sandbox_creations xs + sandbox_creations ys"
  "sandbox_creations (EvCreate a c # xs) = Suc (sandbox_creations xs)"
  "sandbox_creations (EvTerminate i m # xs) = sandbox_creations xs"
  "sandbox_creations (EvReport r # xs) = sandbox_creations xs"
  by (simp_all add: sandbox_creations_def)

lemma work_ids:
  assumes "list_all (\<lambda>e. preliminary e \<or> \<not> silent e) es"
  shows "terminated_ids es = []" "created_ids es = []" "reports es = []" "sandbox_creations es = 0"
  using assms by (induction es) (auto simp: sandbox_creations_def elim!: preliminary.elims silent.elims)

lemma work_nothing_after:
  "list_all (\<lambda>e. preliminary e \<or> \<not> silent e) xs \<Longrightarrow>
   nothing_after_termination (xs @ ys) = nothing_after_termination ys"
  by (induction xs) (auto elim!: preliminary.elims silent.elims)

lemma reactWorkflow_inv: "some_inv inp (snd (reactWorkflow A inp w))"
  using reactWorkflow_shape[of A inp w] by (cases "reactWorkflow A inp w") (auto simp: run_shape_def)

text \<open>
  The two forms of a run: refused before a sandbox is created, or executed.
\<close>

lemma reactWorkflow_cases:
  assumes "reactWorkflow A inp w = (r, t)"
  obtains (refused) "list_all preliminary (trace t)"
      "\<And>x. r = Inr x \<Longrightarrow> ar_status x = ERROR \<and> ar_iterations x = 0 \<and> ar_totalCost x = zero_cost \<and> ar_toolCalls x = []"
  | (executed) pre a c es reason where
      "trace t = pre @ EvCreate a c # es @ (if created_id c = [] then [] else [EvTerminate (created_id c) reason]) @
         (case r of Inl _ \<Rightarrow> [] | Inr x \<Rightarrow> [EvReport x])"
      "list_all preliminary pre" "admitted pre" "allowed pre"
      "list_all (\<lambda>e. preliminary e \<or> \<not> silent e) es"
proof -
  obtain pre post where s: "trace t = pre @ post" "list_all preliminary pre"
      and p: "post = [] \<and> (case r of Inl _ \<Rightarrow> True | Inr x \<Rightarrow>
             ar_status x = ERROR \<and> ar_iterations x = 0 \<and> ar_totalCost x = zero_cost \<and> ar_toolCalls x = [])
         \<or> admitted pre \<and> allowed pre \<and> executed post r"
    using reactWorkflow_shape[OF assms] by (auto simp: run_shape_def)
  from p show thesis
  proof
    assume "post = [] \<and> (case r of Inl _ \<Rightarrow> True | Inr x \<Rightarrow>
             ar_status x = ERROR \<and> ar_iterations x = 0 \<and> ar_totalCost x = zero_cost \<and> ar_toolCalls x = [])"
    with s show thesis by (intro refused) auto
  next
    assume e: "admitted pre \<and> allowed pre \<and> executed post r"
    then obtain a c es reason where es: "list_all (\<lambda>e. neutral e \<or> \<not> silent e) es"
        and post: "post = EvCreate a c # es @ (if created_id c = [] then [] else [EvTerminate (created_id c) reason]) @
           (case r of Inl _ \<Rightarrow> [] | Inr x \<Rightarrow> [EvReport x])"
      unfolding executed_def by blast
    have "list_all (\<lambda>e. preliminary e \<or> \<not> silent e) es"
      using es by (auto simp: list_all_iff preliminary_neutral)
    with s e post show thesis using executed by blast
  qed
qed

lemma preliminary_work: "list_all preliminary es \<Longrightarrow> list_all (\<lambda>e. preliminary e \<or> \<not> silent e) es"
  by (auto simp: list_all_iff)

text \<open>C1. Whatever the activities answer, a run makes at most \<open>min(maxIterations, 100)\<close> LLM calls
  (20 when the input names no limit).\<close>

theorem react_llm_calls_bounded:
  "int (llm_calls (trace (snd (reactWorkflow A inp w)))) \<le> max 0 (min (nullish (in_maxIterations inp) 20) 100)"
  using reactWorkflow_inv[of inp A w] by (auto simp: some_inv_def loop_inv_def max_iterations_def)

text \<open>C2. No run executes the same tool twice with the same arguments: the loop-detection keys of
  its tool calls are pairwise different.\<close>

theorem react_no_repeated_tool_call:
  "distinct (tool_keys (trace (snd (reactWorkflow A inp w))))"
  using reactWorkflow_inv[of inp A w] by (auto simp: some_inv_def loop_inv_def)

text \<open>C11. Every tool call is made while the cost of the LLM responses received so far, added in
  double arithmetic, does not exceed a positive budget.\<close>

theorem react_tools_within_budget:
  "tools_in_budget inp (Num 0) (trace (snd (reactWorkflow A inp w)))"
  using reactWorkflow_inv[of inp A w] by (auto simp: some_inv_def loop_inv_def)

text \<open>C19. Nothing is executed without clearance: a run either stops before creating a sandbox, with
  no LLM and no tool call, or its part before the creation contains a positive admission and a
  policy decision that allows.\<close>

theorem react_gated:
  "let tr = trace (snd (reactWorkflow A inp w)) in
   list_all preliminary tr \<or>
   (\<exists>pre a c post. tr = pre @ EvCreate a c # post \<and> list_all preliminary pre \<and> admitted pre \<and> allowed pre)"
proof (cases "reactWorkflow A inp w")
  case (Pair r t)
  then have tr: "trace (snd (reactWorkflow A inp w)) = trace t" by simp
  from Pair show ?thesis
    unfolding tr Let_def by (cases rule: reactWorkflow_cases) blast+
qed

text \<open>C24. On every path, rejections included, at most one sandbox is created, exactly the created
  sandbox is terminated, and no LLM or tool call follows its termination.\<close>

theorem react_sandbox_terminated:
  "let tr = trace (snd (reactWorkflow A inp w)) in
   sandbox_creations tr \<le> 1 \<and> terminated_ids tr = created_ids tr \<and> nothing_after_termination tr"
proof (cases "reactWorkflow A inp w")
  case (Pair r t)
  then show ?thesis
  proof (cases rule: reactWorkflow_cases)
    case refused
    then show ?thesis
      using Pair work_ids[OF preliminary_work] work_nothing_after[of _ "[]", OF preliminary_work] by (simp add: Let_def)
  next
    case (executed pre a c es reason)
    note p = work_ids[OF preliminary_work[OF executed(2)]] work_nothing_after[OF preliminary_work[OF executed(2)]]
    note e = work_ids[OF executed(5)] work_nothing_after[OF executed(5)]
    have "nothing_after_termination es" using work_nothing_after[OF executed(5), of "[]"] by simp
    then show ?thesis
      using Pair executed(1) by (simp add: Let_def p e split: sum.splits)
  qed
qed

text \<open>The result of a run that got as far as the sandbox is reported, once; a run that is
  refused by admission or policy returns its \<open>ERROR\<close> result without a report, and a rejected run
  reports nothing.\<close>

theorem react_reports:
  "case reactWorkflow A inp w of (r, t) \<Rightarrow>
     reports (trace t) = (case r of Inl _ \<Rightarrow> []
       | Inr x \<Rightarrow> if sandbox_creations (trace t) = 0 then [] else [x])"
proof (cases "reactWorkflow A inp w")
  case (Pair r t)
  then show ?thesis
  proof (cases rule: reactWorkflow_cases)
    case refused
    then show ?thesis using Pair work_ids[OF preliminary_work] by (auto split: sum.splits)
  next
    case (executed pre a c es reason)
    note p = work_ids[OF preliminary_work[OF executed(2)]] work_ids[OF executed(5)]
    show ?thesis
      using Pair executed(1) by (auto simp: p split: sum.splits)
  qed
qed

text \<open>A result that is not an error tells the truth about its run: its iterations are the LLM
  calls, its cost is what their responses cost, a success carries the text of the last response,
  which was a final answer, and \<open>MAX_ITERATIONS_REACHED\<close> means that no iteration was left.\<close>

theorem react_result_truthful:
  assumes "reactWorkflow A inp w = (Inr x, t)" and "ar_status x \<noteq> ERROR"
  shows "ar_iterations x = int (llm_calls (trace t))
    \<and> ar_totalCost x = usd (spent (Num 0) (trace t))
    \<and> (ar_status x = SUCCEEDED \<longrightarrow> (\<exists>r. last_response None (trace t) = Some r \<and>
          lr_type r = Final_answer \<and> ar_output x = lr_content r))
    \<and> (ar_status x = MAX_ITERATIONS_REACHED \<longrightarrow> ar_iterations x = max 0 (max_iterations inp))"
proof -
  have "some_inv inp t" using reactWorkflow_inv[of inp A w] assms(1) by simp
  moreover have "coherent inp x t" using reactWorkflow_outcome[OF assms(1)] assms(2) by (simp add: outcome_ok_def)
  ultimately show ?thesis by (auto simp: some_inv_def loop_inv_def coherent_def counted_def)
qed

text \<open>A run with activities that admit, allow, and answer at once.\<close>

definition demo_response :: llm_response where
  "demo_response = \<lparr>lr_type = Final_answer, lr_content = ''42'', lr_toolName = None, lr_toolArgs = None,
     lr_toolCallId = None, lr_toolCalls = None, lr_modelUsed = ''m'', lr_cost = None,
     lr_usage = \<lparr>promptTokens = 1, completionTokens = 1, totalTokens = 2\<rparr>\<rparr>"

definition demo_activities :: "unit activities" where
  "demo_activities =
     \<lparr>act_observe = (\<lambda>_ w. (Inr (), False, w)), act_admit = (\<lambda>_ w. (Inr True, False, w)),
      act_policy = (\<lambda>_ w. (Inr \<lparr>pd_allow = True, pd_reason = []\<rparr>, False, w)),
      act_create = (\<lambda>_ w. (Inr \<lparr>sr_id = ''sb'', sr_ipAddress = None\<rparr>, False, w)),
      act_llm = (\<lambda>_ w. (Inr demo_response, False, w)),
      act_tool = (\<lambda>_ w. (Inl ''none'', False, w)),
      act_persist = (\<lambda>_ w. (Inr (), False, w)), act_terminate = (\<lambda>_ w. (Inr (), False, w)),
      act_report = (\<lambda>_ w. (Inr (), False, w)), act_sleep = (\<lambda>_ w. (Inr (), False, w)),
      env_isolation = None, env_defaultPrompt = ''You are an agent''\<rparr>"

definition demo_input :: exec_input where
  "demo_input = \<lparr>in_agentId = ''a'', in_executionId = ''e'', in_namespace = ''n'',
     in_resourceNamespace = None, in_callerRole = None, in_systemPrompt = None, in_model = None,
     in_initialMessages = None, in_tools = None, in_maxIterations = None, in_costBudgetUsd = None,
     in_requiresApproval = None\<rparr>"

definition demo_run :: "(string + agent_result) \<times> unit wf" where
  "demo_run = reactWorkflow demo_activities demo_input ()"

lemmas run_eff = ret_def throw_def bind_def seq_def catch_def finally_do_def gets_def with_state_def attempt_def
  modify_def await_def after_await_def Let_def

lemma demo_run_succeeds:
  "\<exists>x t. demo_run = (Inr x, t) \<and> ar_status x = SUCCEEDED \<and> ar_output x = ''42''"
  by (simp add: demo_run_def reactWorkflow_def react_admission_def react_policy_def react_execute_def react_body_def
      react_sandbox_def react_loop.simps max_iterations_def react_iter_def call_llm_def
      iter_tail_def react_response_def over_budget_def react_final_def react_max_iterations_def react_cleanup_def
      react_report_def observe_def persist_def set_last_def ignore_error_def set_result_def push_message_def
      run_result_def init_wf_def demo_input_def demo_activities_def demo_response_def run_eff)

theorem react_result_truthful_witness:
  "\<exists>x t. reactWorkflow demo_activities demo_input () = (Inr x, t) \<and> ar_status x = SUCCEEDED \<and>
     ar_iterations x = int (llm_calls (trace t)) \<and> (\<exists>r. last_response None (trace t) = Some r \<and> ar_output x = lr_content r)"
proof -
  obtain x t where d: "demo_run = (Inr x, t)" and st: "ar_status x = SUCCEEDED"
    using demo_run_succeeds by blast
  then have run: "reactWorkflow demo_activities demo_input () = (Inr x, t)" by (simp add: demo_run_def)
  from react_result_truthful[OF run] st show ?thesis
    using run by auto
qed

end
