(* ===== verification/HitlGate.thy ===== *)
theory HitlGate
  imports ReactWorkflow
begin

text \<open>
  The human approval gate of
  \<open>control-plane/workflow-engine/src/temporal/workflows/hitl-gate.ts\<close>. The gate's local
  variables are the fields of \<open>gate\<close>. Each suspension point returns the approval signals that
  were delivered while the gate was suspended; the signal handler runs once for each of them.
\<close>

section \<open>Types and state\<close>

datatype verdict = Approve | Reject

record approval =
  ap_approver :: string
  ap_decision :: verdict
  ap_reason :: "string option"

record hitl_input =
  hi_agentId :: string
  hi_executionId :: string
  hi_namespace :: string
  hi_toolName :: string
  hi_toolArgs :: json
  hi_requesterNotes :: "string option"
  hi_timeoutMs :: "int option"

record hitl_result =
  hr_decision :: verdict
  hr_approver :: string
  hr_reason :: "string option"

type_synonym ('w, 'a) gate_reply = "'w \<Rightarrow> 'a \<times> approval list \<times> 'w"

text \<open>
  The activities answer or reject; waiting for the condition returns the signals that arrive
  before the timeout, or none at the timeout.
\<close>

record 'w gate_env =
  ge_observe :: "obs_args \<Rightarrow> ('w, string + unit) gate_reply"
  ge_persist :: "persist_args \<Rightarrow> ('w, string + unit) gate_reply"
  ge_wait :: "int \<Rightarrow> ('w, unit) gate_reply"

datatype gate_event =
    GSignal approval
  | GObserve obs_args
  | GPersist persist_args

record 'w gate =
  g_decision :: "approval option"
  g_received :: bool
  g_world :: 'w
  g_trace :: "gate_event list"

type_synonym ('w, 'a) gm = "('w gate, string, 'a) eff"

section \<open>The gate\<close>

definition on_approval :: "approval \<Rightarrow> 'w gate \<Rightarrow> 'w gate" where
  "on_approval d g = g\<lparr>g_decision := Some d, g_received := True, g_trace := g_trace g @ [GSignal d]\<rparr>"

definition deliver :: "approval list \<Rightarrow> 'w gate \<Rightarrow> 'w gate" where
  "deliver ds g = fold on_approval ds g"

definition gate_await :: "('w, string + 'a) gate_reply \<Rightarrow> gate_event \<Rightarrow> ('w, 'a) gm" where
  "gate_await f ev = (\<lambda>g. case f (g_world g) of (r, ds, w) \<Rightarrow>
     (r, deliver ds (g\<lparr>g_world := w, g_trace := g_trace g @ [ev]\<rparr>)))"

definition gate_observe :: "'w gate_env \<Rightarrow> hitl_input \<Rightarrow> string \<Rightarrow> string \<Rightarrow> (string \<times> string) list \<Rightarrow> ('w, unit) gm" where
  "gate_observe V inp step status attrs =
     (let a = \<lparr>ob_executionId = hi_executionId inp, ob_step = step, ob_status = status, ob_attributes = attrs\<rparr>
      in gate_await (ge_observe V a) (GObserve a))"

text \<open>\<open>try { await persistMemory(...) } catch { }\<close>\<close>

definition gate_persist :: "'w gate_env \<Rightarrow> hitl_input \<Rightarrow> string \<Rightarrow> json \<Rightarrow> ('w, unit) gm" where
  "gate_persist V inp key data =
     (let a = \<lparr>pm_agentId = hi_agentId inp, pm_namespace = hi_namespace inp, pm_memoryType = ''session'',
               pm_key = key, pm_data = data\<rparr>
      in seq (attempt (gate_await (ge_persist V a) (GPersist a)) :: ('w, string + unit) gm) (ret ()))"

definition timeout_ms :: "hitl_input \<Rightarrow> int" where
  "timeout_ms inp = nullish (hi_timeoutMs inp) (24 * 60 * 60 * 1000)"

definition timeout_sec :: "hitl_input \<Rightarrow> int" where
  "timeout_sec inp = timeout_ms inp div 1000"

text \<open>\<open>condition(() => decisionReceived, timeout)\<close>: true at once when the flag is already set.\<close>

definition gate_wait :: "'w gate_env \<Rightarrow> hitl_input \<Rightarrow> ('w, bool) gm" where
  "gate_wait V inp = (\<lambda>g.
     if g_received g then (Inr True, g)
     else (case ge_wait V (timeout_sec inp) (g_world g) of (_, ds, w) \<Rightarrow>
       let g' = deliver ds (g\<lparr>g_world := w\<rparr>) in (Inr (g_received g'), g')))"

text \<open>Absent properties of an object literal are not part of its JSON text.\<close>

definition opt_field :: "string \<Rightarrow> string option \<Rightarrow> (string \<times> json) list" where
  "opt_field k v = (case v of None \<Rightarrow> [] | Some t \<Rightarrow> [(k, JStr t)])"

definition gate_request :: "'w gate_env \<Rightarrow> hitl_input \<Rightarrow> ('w, unit) gm" where
  "gate_request V inp = seq
     (gate_observe V inp ''hitl_approval_requested'' ''pending''
        [(''toolName'', hi_toolName inp), (''toolArgs'', stringify (hi_toolArgs inp)),
         (''requesterNotes'', nullish (hi_requesterNotes inp) []), (''timeoutMs'', show_int (timeout_ms inp))])
     (gate_persist V inp (''approval_request_'' @ hi_executionId inp)
        (JObj ([(''toolName'', JStr (hi_toolName inp)), (''toolArgs'', hi_toolArgs inp)] @
               opt_field ''requesterNotes'' (hi_requesterNotes inp) @
               [(''requestedAt'', JStr ''1970-01-01T00:00:00.000Z'')])))"

definition timeout_decision :: approval where
  "timeout_decision = \<lparr>ap_approver = ''system'', ap_decision = Reject, ap_reason = Some ''Timeout''\<rparr>"

definition gate_settle :: "bool \<Rightarrow> ('w, approval) gm" where
  "gate_settle received = seq
     (if received then ret () else modify (\<lambda>g. g\<lparr>g_decision := Some timeout_decision\<rparr>))
     (with_state (\<lambda>g. case g_decision g of None \<Rightarrow> throw ''No decision received'' | Some d \<Rightarrow> ret d))"

definition verdict_text :: "verdict \<Rightarrow> string" where
  "verdict_text v = (case v of Approve \<Rightarrow> ''approve'' | Reject \<Rightarrow> ''reject'')"

text \<open>The variable \<open>decision\<close> is read again after each suspension.\<close>

definition current :: "(approval \<Rightarrow> ('w, 'a) gm) \<Rightarrow> ('w, 'a) gm" where
  "current f = with_state (\<lambda>g. case g_decision g of None \<Rightarrow> throw ''TypeError'' | Some d \<Rightarrow> f d)"

definition gate_record :: "'w gate_env \<Rightarrow> hitl_input \<Rightarrow> ('w, unit) gm" where
  "gate_record V inp = seq
     (current (\<lambda>d. gate_observe V inp (''hitl_approval_'' @ verdict_text (ap_decision d))
        (if ap_decision d = Approve then ''approved'' else ''rejected'')
        [(''approver'', ap_approver d), (''reason'', nullish (ap_reason d) [])]))
     (current (\<lambda>d. gate_persist V inp (''approval_decision_'' @ hi_executionId inp)
        (JObj ([(''decision'', JStr (verdict_text (ap_decision d))), (''approver'', JStr (ap_approver d))] @
               opt_field ''reason'' (ap_reason d)))))"

definition gate_conclude :: "('w, hitl_result) gm" where
  "gate_conclude = current (\<lambda>d.
     if ap_decision d = Reject
     then throw (''Human rejected execution: '' @ nullish (ap_reason d) ''No reason provided'')
     else ret \<lparr>hr_decision = ap_decision d, hr_approver = ap_approver d, hr_reason = ap_reason d\<rparr>)"

definition init_gate :: "'w \<Rightarrow> 'w gate" where
  "init_gate w = \<lparr>g_decision = None, g_received = False, g_world = w, g_trace = []\<rparr>"

definition hitl_body :: "'w gate_env \<Rightarrow> hitl_input \<Rightarrow> ('w, hitl_result) gm" where
  "hitl_body V inp = seq (gate_request V inp)
     (bind (gate_wait V inp) (\<lambda>received.
        bind (gate_settle received) (\<lambda>_. seq (gate_record V inp) gate_conclude)))"

definition hitlApprovalGate :: "'w gate_env \<Rightarrow> hitl_input \<Rightarrow> 'w \<Rightarrow> (string + hitl_result) \<times> 'w gate" where
  "hitlApprovalGate V inp w = hitl_body V inp (init_gate w)"

section \<open>Where a decision comes from\<close>

definition signals :: "gate_event list \<Rightarrow> approval list" where
  "signals tr = concat (map (\<lambda>e. case e of GSignal d \<Rightarrow> [d] | _ \<Rightarrow> []) tr)"

lemma signals_simps [simp]:
  "signals [] = []"
  "signals (xs @ ys) = signals xs @ signals ys"
  "signals [GSignal d] = [d]" "signals [GObserve a] = []" "signals [GPersist p] = []"
  by (simp_all add: signals_def)

text \<open>The decision held is the last signal delivered, or the timeout decision when there is none.\<close>

definition sourced :: "'w gate \<Rightarrow> bool" where
  "sourced g \<longleftrightarrow> (case g_decision g of
      None \<Rightarrow> signals (g_trace g) = [] \<and> \<not> g_received g
    | Some d \<Rightarrow> (if signals (g_trace g) = [] then d = timeout_decision \<and> \<not> g_received g
        else d = last (signals (g_trace g)) \<and> g_received g))"

lemma on_approval_sourced: "sourced (on_approval d g)"
  by (simp add: sourced_def on_approval_def)

lemma deliver_sourced: "sourced g \<Longrightarrow> sourced (deliver ds g)"
  by (induction ds arbitrary: g) (auto simp: deliver_def on_approval_sourced)

lemma sourced_other: "sourced g \<Longrightarrow> sourced (g\<lparr>g_world := w\<rparr>)"
  by (simp add: sourced_def split: option.splits)

lemma sourced_event:
  assumes "\<And>d. ev \<noteq> GSignal d" and "sourced g"
  shows "sourced (g\<lparr>g_world := w, g_trace := g_trace g @ [ev]\<rparr>)"
proof -
  have "signals [ev] = []" using assms(1) by (cases ev) auto
  with assms(2) show ?thesis by (simp add: sourced_def split: option.splits)
qed

lemma wp_gate_await:
  assumes "\<And>d. ev \<noteq> GSignal d" and "sourced g"
    and Q: "\<And>r g'. sourced g' \<Longrightarrow> Q r g'" and E: "\<And>e g'. sourced g' \<Longrightarrow> E e g'"
  shows "wp (gate_await f ev) Q E g"
  using deliver_sourced[OF sourced_event[OF assms(1,2)]]
  by (auto simp: wp_def gate_await_def Q E split: prod.splits sum.splits)

lemma wp_gate_observe:
  assumes "sourced g" and "\<And>r g'. sourced g' \<Longrightarrow> Q r g'" and "\<And>e g'. sourced g' \<Longrightarrow> E e g'"
  shows "wp (gate_observe V inp a b c) Q E g"
  unfolding gate_observe_def Let_def by (rule wp_gate_await) (simp_all add: assms)

lemma wp_gate_persist:
  assumes "sourced g" and "\<And>r g'. sourced g' \<Longrightarrow> Q r g'"
  shows "wp (gate_persist V inp k d) Q E g"
  unfolding gate_persist_def Let_def wp_seq wp_attempt wp_ret
  by (rule wp_gate_await) (simp_all add: assms)

definition from_signal :: "hitl_result \<Rightarrow> 'w gate \<Rightarrow> bool" where
  "from_signal x g \<longleftrightarrow> hr_decision x = Approve \<and>
     (\<exists>d. signals (g_trace g) \<noteq> [] \<and> d = last (signals (g_trace g)) \<and>
        ap_decision d = Approve \<and> ap_approver d = hr_approver x \<and> ap_reason d = hr_reason x)"

lemma conclude_from_signal: "sourced g \<Longrightarrow> wp gate_conclude from_signal (\<lambda>_ _. True) g"
  by (auto simp: gate_conclude_def current_def wp_with_state wp_throw wp_ret sourced_def from_signal_def
      timeout_decision_def split: option.splits if_splits verdict.splits)
    (meson verdict.exhaust)+

lemma record_sourced:
  "sourced g \<Longrightarrow> wp (gate_record V inp) (\<lambda>_. sourced) (\<lambda>_ _. True) g"
  unfolding gate_record_def current_def wp_seq wp_with_state
  by (auto simp: wp_throw split: option.splits intro!: wp_gate_observe wp_gate_persist)

lemma settle_sourced:
  "sourced g \<Longrightarrow> received = g_received g \<Longrightarrow> wp (gate_settle received) (\<lambda>_. sourced) (\<lambda>_ _. True) g"
  by (auto simp: gate_settle_def wp_seq wp_with_state wp_ret wp_modify wp_throw sourced_def split: option.splits if_splits)

lemma hitl_from_signal:
  "wp (hitl_body V inp) from_signal (\<lambda>_ _. True) (init_gate w)"
proof -
  have fin: "wp (gate_record V inp) (\<lambda>_. wp gate_conclude from_signal (\<lambda>_ _. True)) (\<lambda>_ _. True) g"
    if "sourced g" for g :: "'a gate"
    by (rule wp_mono[OF record_sourced[OF that]]) (auto intro: conclude_from_signal)
  have settled: "wp (gate_settle received) (\<lambda>_. wp (gate_record V inp) (\<lambda>_. wp gate_conclude from_signal (\<lambda>_ _. True)) (\<lambda>_ _. True))
      (\<lambda>_ _. True) g" if "sourced g" "received = g_received g" for g :: "'a gate" and received
    by (rule wp_mono[OF settle_sourced[OF that]]) (auto intro: fin)
  have waited: "wp (gate_wait V inp) (\<lambda>received. wp (gate_settle received)
      (\<lambda>_. wp (gate_record V inp) (\<lambda>_. wp gate_conclude from_signal (\<lambda>_ _. True)) (\<lambda>_ _. True)) (\<lambda>_ _. True))
      (\<lambda>_ _. True) g" if "sourced g" for g :: "'a gate"
  proof -
    have "sourced (deliver ds (g\<lparr>g_world := v\<rparr>))" for ds v
      using that by (intro deliver_sourced sourced_other)
    with settled[OF that refl] settled show ?thesis
      unfolding wp_def[of "gate_wait V inp"] unfolding gate_wait_def Let_def
      by (cases "g_received g") (auto split: prod.splits)
  qed
  have "sourced (init_gate w)" by (simp add: sourced_def init_gate_def)
  then show ?thesis
    unfolding hitl_body_def gate_request_def wp_seq wp_bind
    by (intro wp_gate_observe wp_gate_persist waited) simp_all
qed


definition demo_gate_env :: "approval list \<Rightarrow> approval list \<Rightarrow> unit gate_env" where
  "demo_gate_env waited late =
     \<lparr>ge_observe = (\<lambda>a w. (Inr (), if ob_step a = ''hitl_approval_reject'' then late else [], w)),
      ge_persist = (\<lambda>_ w. (Inr (), [], w)), ge_wait = (\<lambda>_ w. ((), waited, w))\<rparr>"

definition demo_gate_input :: hitl_input where
  "demo_gate_input = \<lparr>hi_agentId = ''a'', hi_executionId = ''e'', hi_namespace = ''n'', hi_toolName = ''t'',
     hi_toolArgs = JObj [], hi_requesterNotes = None, hi_timeoutMs = None\<rparr>"

definition demo_approve :: approval where
  "demo_approve = \<lparr>ap_approver = ''alice'', ap_decision = Approve, ap_reason = None\<rparr>"

definition demo_reject :: approval where
  "demo_reject = \<lparr>ap_approver = ''bob'', ap_decision = Reject, ap_reason = Some ''unsafe''\<rparr>"

lemmas gate_run = hitlApprovalGate_def hitl_body_def gate_request_def gate_wait_def gate_settle_def gate_record_def
  gate_conclude_def current_def gate_observe_def gate_persist_def gate_await_def deliver_def on_approval_def
  init_gate_def demo_gate_env_def demo_gate_input_def demo_approve_def demo_reject_def timeout_decision_def
  verdict_text_def opt_field_def
  bind_def seq_def ret_def throw_def attempt_def modify_def with_state_def Let_def


text \<open>Without any signal the gate rejects: when the activities succeed and nobody answers before
  the timeout, the error names the timeout and the rejection is what is recorded.\<close>

theorem hitl_timeout_rejects:
  "let V = \<lparr>ge_observe = (\<lambda>a w. (Inr (), [], obs a w)), ge_persist = (\<lambda>a w. (per_r a w, [], per a w)),
            ge_wait = (\<lambda>n w. ((), [], wait n w))\<rparr>;
       (r, g) = hitlApprovalGate V inp w
   in r = Inl ''Human rejected execution: Timeout'' \<and>
      map ob_step (concat (map (\<lambda>e. case e of GObserve a \<Rightarrow> [a] | _ \<Rightarrow> []) (g_trace g))) =
        [''hitl_approval_requested'', ''hitl_approval_reject'']"
  by (simp add: gate_run)

text \<open>The decision is not frozen when the gate stops waiting. A signal that arrives while the
  rejection is being recorded replaces it: the gate records and announces the rejection by one
  approver and then returns the approval of another.\<close>

theorem hitl_recorded_rejection_can_pass:
  "let (r, g) = hitlApprovalGate (demo_gate_env [demo_reject] [demo_approve]) demo_gate_input () in
     r = Inr \<lparr>hr_decision = Approve, hr_approver = ''alice'', hr_reason = None\<rparr> \<and>
     GObserve \<lparr>ob_executionId = ''e'', ob_step = ''hitl_approval_reject'', ob_status = ''rejected'',
        ob_attributes = [(''approver'', ''bob''), (''reason'', ''unsafe'')]\<rparr> \<in> set (g_trace g)"
  by (simp add: gate_run)

end
