(* ===== verification/Errors.thy ===== *)
theory Errors
  imports Json
begin

text \<open>
  The error classes of \<open>packages/shared/src/errors/index.ts\<close>, their translation to gRPC status
  codes and their structured log form. A class is a constructor; the constants a class fixes
  (its name, the code of an \<open>AgentError\<close> subclass, the default delay) are set by the
  constructor functions below, as in the source.
\<close>

section \<open>Classes\<close>

datatype svc_error =
    AgentErr (ae_name: string) (ae_message: string) (ae_code: string) (ae_ns: string) (ae_agent: string) (ae_trace: string)
  | NamespaceNotFound string
  | NamespaceSuspended string
  | CrossNamespace (cn_caller: string) (cn_target: string) (cn_role: string)
  | QuotaExceeded (qe_ns: string) (qe_resource: string) (qe_limit: int) (qe_current: jint) (qe_retryAfterMs: int)
  | LLM400 (l4_message: string) (l4_status: int) (l4_model: string)
  | LLMAuth (la_message: string) (la_failed_model: string)
  | LLMRateLimit (lr_message: string) (lr_model: string) (lr_retryAfterMs: int)
  | FatalConfig string
  | PIIViolation (pv_message: string) (pv_tool: string) (pv_patterns: "string list")
  | OtherError (oe_name: string) (oe_message: string)

definition AgentError :: "string \<Rightarrow> string \<Rightarrow> string \<Rightarrow> string \<Rightarrow> string \<Rightarrow> svc_error" where
  "AgentError msg code ns agent trace_id = AgentErr ''AgentError'' msg code ns agent trace_id"

definition PolicyDeniedError :: "string \<Rightarrow> string \<Rightarrow> string \<Rightarrow> string \<Rightarrow> svc_error" where
  "PolicyDeniedError msg ns agent trace_id = AgentErr ''PolicyDeniedError'' msg ''POLICY_DENIED'' ns agent trace_id"

definition PersistenceError :: "string \<Rightarrow> string \<Rightarrow> string \<Rightarrow> string \<Rightarrow> svc_error" where
  "PersistenceError msg ns agent trace_id = AgentErr ''PersistenceError'' msg ''PERSISTENCE_ERROR'' ns agent trace_id"

definition TimeoutError :: "string \<Rightarrow> string \<Rightarrow> string \<Rightarrow> string \<Rightarrow> svc_error" where
  "TimeoutError msg ns agent trace_id = AgentErr ''TimeoutError'' msg ''TIMEOUT'' ns agent trace_id"

definition QuotaExceededError :: "string \<Rightarrow> string \<Rightarrow> int \<Rightarrow> jint \<Rightarrow> int option \<Rightarrow> svc_error" where
  "QuotaExceededError ns resource limit cur retry = QuotaExceeded ns resource limit cur (nullish retry 60000)"

definition LLMRateLimitError :: "string \<Rightarrow> string \<Rightarrow> int option \<Rightarrow> svc_error" where
  "LLMRateLimitError msg model retry = LLMRateLimit msg model (nullish retry 60000)"

definition show_jint :: "jint \<Rightarrow> string" where
  "show_jint j = (case j of NaN \<Rightarrow> ''NaN'' | JInt i \<Rightarrow> show_int i)"

fun err_name :: "svc_error \<Rightarrow> string" where
  "err_name (AgentErr n _ _ _ _ _) = n"
| "err_name (NamespaceNotFound _) = ''NamespaceNotFoundError''"
| "err_name (NamespaceSuspended _) = ''NamespaceSuspendedError''"
| "err_name (CrossNamespace _ _ _) = ''CrossNamespaceError''"
| "err_name (QuotaExceeded _ _ _ _ _) = ''QuotaExceededError''"
| "err_name (LLM400 _ _ _) = ''LLM400Error''"
| "err_name (LLMAuth _ _) = ''LLMAuthError''"
| "err_name (LLMRateLimit _ _ _) = ''LLMRateLimitError''"
| "err_name (FatalConfig _) = ''FatalConfigError''"
| "err_name (PIIViolation _ _ _) = ''PIIViolationError''"
| "err_name (OtherError n _) = n"

fun err_message :: "svc_error \<Rightarrow> string" where
  "err_message (AgentErr _ m _ _ _ _) = m"
| "err_message (NamespaceNotFound ns) = ''Namespace not found: '' @ ns"
| "err_message (NamespaceSuspended ns) = ''Namespace is suspended: '' @ ns"
| "err_message (CrossNamespace c t r) =
     ''Cross-namespace operation denied: caller in '' @ quoted c @ '' cannot access '' @ quoted t @ '' (role: '' @ r @ '')''"
| "err_message (QuotaExceeded ns r l c _) =
     ''Quota exceeded for namespace '' @ quoted ns @ '': '' @ r @ '' limit '' @ show_int l @ '' (current: '' @ show_jint c @ '')''"
| "err_message (LLM400 m _ _) = m"
| "err_message (LLMAuth m _) = m"
| "err_message (LLMRateLimit m _ _) = m"
| "err_message (FatalConfig m) = m"
| "err_message (PIIViolation m _ _) = m"
| "err_message (OtherError _ m) = m"

section \<open>gRPC status and log form\<close>

datatype grpc_status =
    G_OK | G_CANCELLED | G_UNKNOWN | G_INVALID_ARGUMENT | G_DEADLINE_EXCEEDED | G_NOT_FOUND | G_ALREADY_EXISTS
  | G_PERMISSION_DENIED | G_RESOURCE_EXHAUSTED | G_FAILED_PRECONDITION | G_ABORTED | G_OUT_OF_RANGE
  | G_UNIMPLEMENTED | G_INTERNAL | G_UNAVAILABLE | G_DATA_LOSS | G_UNAUTHENTICATED

fun grpcStatusFromError :: "svc_error \<Rightarrow> grpc_status" where
  "grpcStatusFromError (AgentErr _ _ code _ _ _) =
     (if code = ''POLICY_DENIED'' then G_PERMISSION_DENIED
      else if code = ''PERSISTENCE_ERROR'' then G_INTERNAL
      else if code = ''TIMEOUT'' then G_DEADLINE_EXCEEDED
      else G_INTERNAL)"
| "grpcStatusFromError (NamespaceNotFound _) = G_NOT_FOUND"
| "grpcStatusFromError (NamespaceSuspended _) = G_UNAVAILABLE"
| "grpcStatusFromError (CrossNamespace _ _ _) = G_PERMISSION_DENIED"
| "grpcStatusFromError (QuotaExceeded _ _ _ _ _) = G_RESOURCE_EXHAUSTED"
| "grpcStatusFromError _ = G_INTERNAL"

definition jnum :: "jint \<Rightarrow> json" where
  "jnum j = JNum (case j of NaN \<Rightarrow> NNaN | JInt i \<Rightarrow> Num (of_int i))"

fun log_fields :: "svc_error \<Rightarrow> (string \<times> json) list" where
  "log_fields (AgentErr _ _ code ns agent tr) =
     [(''error_code'', JStr code), (''namespace'', JStr ns), (''agent_id'', JStr agent), (''trace_id'', JStr tr)]"
| "log_fields (NamespaceSuspended ns) = [(''namespace'', JStr ns)]"
| "log_fields (NamespaceNotFound ns) = [(''namespace'', JStr ns)]"
| "log_fields (CrossNamespace c t r) =
     [(''caller_namespace'', JStr c), (''target_namespace'', JStr t), (''caller_role'', JStr r)]"
| "log_fields (QuotaExceeded ns r l c _) =
     [(''namespace'', JStr ns), (''resource'', JStr r), (''limit'', jnum (JInt l)), (''current'', jnum c)]"
| "log_fields _ = []"

definition toStructuredLog :: "svc_error \<Rightarrow> (string \<times> json) list" where
  "toStructuredLog e =
     [(''error_name'', JStr (err_name e)), (''error_message'', JStr (err_message e))] @ log_fields e"

text \<open>The status codes that tell a caller more than \<open>INTERNAL\<close>, class by class.\<close>

lemma status_informative:
  "grpcStatusFromError e \<noteq> G_INTERNAL \<longleftrightarrow>
     (\<exists>n m ns a t. e = AgentErr n m ''POLICY_DENIED'' ns a t \<or> e = AgentErr n m ''TIMEOUT'' ns a t) \<or>
     (\<exists>ns. e = NamespaceNotFound ns \<or> e = NamespaceSuspended ns) \<or>
     (\<exists>c t r. e = CrossNamespace c t r) \<or> (\<exists>ns r l c x. e = QuotaExceeded ns r l c x)"
  by (cases e) auto

end
