(* ===== verification/Quota.thy ===== *)
theory Quota
  imports Errors
begin

text \<open>
  The quota enforcer of \<open>packages/shared/src/quotas/enforcer.ts\<close>. Redis is a parameter: a record
  of commands over a world of any type, which also holds the clock; \<open>redis_law\<close> states what the
  enforcer relies on. The client that \<open>getRedis\<close> obtains in a call (none when the connection
  failed) is an argument of the operations.
\<close>

section \<open>State and parameters\<close>

record fallback_entry =
  fe_count :: int
  fe_windowStart :: int

record 'w redis =
  rd_incr :: "string \<Rightarrow> 'w \<Rightarrow> (string + int) \<times> 'w"
  rd_decr :: "string \<Rightarrow> 'w \<Rightarrow> (string + int) \<times> 'w"
  rd_expire :: "string \<Rightarrow> int \<Rightarrow> 'w \<Rightarrow> (string + unit) \<times> 'w"
  rd_get :: "string \<Rightarrow> 'w \<Rightarrow> (string + string option) \<times> 'w"
  rd_del :: "string \<Rightarrow> 'w \<Rightarrow> (string + int) \<times> 'w"

record 'w enforcer =
  q_windowSeconds :: int
  q_fallback :: "(string, fallback_entry) js_map"
  q_world :: 'w

record quota_check_result =
  qr_allowed :: bool
  qr_current :: jint
  qr_limit :: int
  qr_retryAfterMs :: int

type_synonym ('w, 'a) qm = "('w enforcer, svc_error, 'a) eff"

definition enforcer_new :: "int option \<Rightarrow> 'w \<Rightarrow> 'w enforcer" where
  "enforcer_new ws w = \<lparr>q_windowSeconds = nullish ws 60, q_fallback = [], q_world = w\<rparr>"

definition redis_call :: "('w \<Rightarrow> (string + 'a) \<times> 'w) \<Rightarrow> ('w, 'a) qm" where
  "redis_call f = (\<lambda>q. case f (q_world q) of (r, w) \<Rightarrow>
     (map_sum (OtherError ''Error'') id r, q\<lparr>q_world := w\<rparr>))"

section \<open>The in-process fallback\<close>

definition fallback_key :: "string \<Rightarrow> string \<Rightarrow> string" where
  "fallback_key ns resource = ns @ '':'' @ resource"

definition check_fallback :: "int \<Rightarrow> string \<Rightarrow> string \<Rightarrow> int \<Rightarrow> bool \<Rightarrow> 'w enforcer \<Rightarrow> quota_check_result \<times> 'w enforcer" where
  "check_fallback now ns resource limit isConcurrent q =
     (let key = fallback_key ns resource; entry = js_get (q_fallback q) key
      in if isConcurrent then
           (let cur = (case entry of None \<Rightarrow> 0 | Some e \<Rightarrow> fe_count e)
            in if limit \<le> cur then
                 (\<lparr>qr_allowed = False, qr_current = JInt cur, qr_limit = limit, qr_retryAfterMs = 1000\<rparr>, q)
               else
                 (let e = (case entry of None \<Rightarrow> \<lparr>fe_count = 0, fe_windowStart = now\<rparr> | Some e \<Rightarrow> e);
                      e' = e\<lparr>fe_count := fe_count e + 1\<rparr>
                  in (\<lparr>qr_allowed = True, qr_current = JInt (fe_count e'), qr_limit = limit, qr_retryAfterMs = 0\<rparr>,
                      q\<lparr>q_fallback := js_set key e' (q_fallback q)\<rparr>)))
         else
           (let windowStart = now - q_windowSeconds q * 1000;
                fresh = \<lparr>fe_count = 0, fe_windowStart = now\<rparr>;
                e = (case entry of None \<Rightarrow> fresh | Some e \<Rightarrow> if fe_windowStart e < windowStart then fresh else e);
                cur = fe_count e + 1
            in if cur \<le> limit then
                 (\<lparr>qr_allowed = True, qr_current = JInt cur, qr_limit = limit, qr_retryAfterMs = 0\<rparr>,
                  q\<lparr>q_fallback := js_set key (e\<lparr>fe_count := cur\<rparr>) (q_fallback q)\<rparr>)
               else
                 (let e' = e\<lparr>fe_count := max 0 (cur - 1)\<rparr>;
                      retry = fe_windowStart e' + q_windowSeconds q * 1000 - now
                  in (\<lparr>qr_allowed = False, qr_current = JInt (fe_count e'), qr_limit = limit,
                        qr_retryAfterMs = max 0 retry\<rparr>,
                      q\<lparr>q_fallback := js_set key e' (q_fallback q)\<rparr>))))"

section \<open>Redis\<close>

definition quota_key :: "string \<Rightarrow> string \<Rightarrow> string" where
  "quota_key ns resource = ''quota:'' @ ns @ '':'' @ resource"

definition check_redis ::
  "'w redis option \<Rightarrow> ('w \<Rightarrow> int) \<Rightarrow> string \<Rightarrow> string \<Rightarrow> int \<Rightarrow> bool \<Rightarrow> ('w, quota_check_result) qm" where
  "check_redis cl clock ns resource limit isConcurrent =
     (case cl of
        None \<Rightarrow> (\<lambda>q. case check_fallback (clock (q_world q)) ns resource limit isConcurrent q of (r, q') \<Rightarrow> (Inr r, q'))
      | Some R \<Rightarrow>
          let key = quota_key ns resource in
          if isConcurrent then
            bind (redis_call (rd_get R key)) (\<lambda>raw.
              let cur = (case raw of None \<Rightarrow> JInt 0 | Some t \<Rightarrow> if t = [] then JInt 0 else parse_int t)
              in if jle (JInt limit) cur then
                   ret \<lparr>qr_allowed = False, qr_current = cur, qr_limit = limit, qr_retryAfterMs = 1000\<rparr>
                 else bind (redis_call (rd_incr R key)) (\<lambda>new.
                   seq (redis_call (rd_expire R key 30))
                     (ret \<lparr>qr_allowed = True, qr_current = JInt new, qr_limit = limit, qr_retryAfterMs = 0\<rparr>)))
          else
            bind (redis_call (rd_incr R key)) (\<lambda>cur. with_state (\<lambda>q.
              seq (redis_call (rd_expire R key (q_windowSeconds q)))
                (if cur \<le> limit then
                   ret \<lparr>qr_allowed = True, qr_current = JInt cur, qr_limit = limit, qr_retryAfterMs = 0\<rparr>
                 else seq (redis_call (rd_decr R key))
                   (ret \<lparr>qr_allowed = False, qr_current = JInt (cur - 1), qr_limit = limit,
                         qr_retryAfterMs = q_windowSeconds q * 1000\<rparr>)))))"

section \<open>The public operations\<close>

definition tier_limit :: "string \<Rightarrow> int" where
  "tier_limit resource =
     nullish (map_of [(''maxAgents'', 5), (''maxConcurrentExecutions'', 2), (''maxMemoryMB'', 512),
       (''maxToolCallsPerMinute'', 30)] resource) 100"

definition get_limits :: "string \<Rightarrow> (string \<times> int) list" where
  "get_limits ns =
     [(''agents'', tier_limit ''maxAgents''),
      (''concurrent_executions'', tier_limit ''maxConcurrentExecutions''),
      (''tool_calls_per_minute'', tier_limit ''maxToolCallsPerMinute'')]"

definition quota_check :: "'w redis option \<Rightarrow> ('w \<Rightarrow> int) \<Rightarrow> string \<Rightarrow> string \<Rightarrow> int \<Rightarrow> ('w, unit) qm" where
  "quota_check cl clock ns resource amount =
     (case map_of (get_limits ns) resource of
        None \<Rightarrow> ret ()
      | Some limit \<Rightarrow>
          bind (check_redis cl clock ns resource (limit * amount) (resource = ''concurrent_executions'')) (\<lambda>r.
            if qr_allowed r then ret ()
            else throw (QuotaExceededError ns resource (qr_limit r) (qr_current r) (Some (qr_retryAfterMs r)))))"

definition quota_reset :: "'w redis option \<Rightarrow> string \<Rightarrow> string \<Rightarrow> ('w, unit) qm" where
  "quota_reset cl ns resource =
     (case cl of
        Some R \<Rightarrow> seq (redis_call (rd_del R (quota_key ns resource))) (ret ())
      | None \<Rightarrow> modify (\<lambda>q. q\<lparr>q_fallback := js_del (fallback_key ns resource) (q_fallback q)\<rparr>))"

definition quota_release :: "'w redis option \<Rightarrow> string \<Rightarrow> string \<Rightarrow> int \<Rightarrow> ('w, unit) qm" where
  "quota_release cl ns resource amount =
     (case cl of
        Some R \<Rightarrow> stmts (replicate (nat amount) (seq (redis_call (rd_decr R (quota_key ns resource))) (ret ())))
      | None \<Rightarrow> modify (\<lambda>q. case js_get (q_fallback q) (fallback_key ns resource) of
            None \<Rightarrow> q
          | Some e \<Rightarrow> q\<lparr>q_fallback := js_set (fallback_key ns resource) (e\<lparr>fe_count := max 0 (fe_count e - amount)\<rparr>)
              (q_fallback q)\<rparr>))"

section \<open>Keys\<close>

lemma fallback_key_inj: "fallback_key ns r = fallback_key ns' r \<longleftrightarrow> ns = ns'"
  by (simp add: fallback_key_def)

lemma fallback_key_resources:
  "fallback_key ns ''concurrent_executions'' \<noteq> fallback_key ns' ''tool_calls_per_minute''"
proof
  assume "fallback_key ns ''concurrent_executions'' = fallback_key ns' ''tool_calls_per_minute''"
  then have "last (fallback_key ns ''concurrent_executions'') = last (fallback_key ns' ''tool_calls_per_minute'')" by simp
  then show False by (simp add: fallback_key_def)
qed

section \<open>Concurrent executions without Redis\<close>

text \<open>
  The callers' discipline of \<open>callLLM\<close>: an execution that was granted releases once. \<open>h\<close> counts
  the executions of each namespace that hold a grant; rate checks and time passing interfere.
\<close>

datatype quota_op = Acquire string | Release string | ToolCall string | Tick int

fun quota_step :: "quota_op \<Rightarrow> int enforcer \<times> (string \<Rightarrow> int) \<Rightarrow> int enforcer \<times> (string \<Rightarrow> int)" where
  "quota_step (Acquire ns) (q, h) =
     (case quota_check None id ns ''concurrent_executions'' 1 q of
        (Inr _, q') \<Rightarrow> (q', h(ns := h ns + 1)) | (Inl _, q') \<Rightarrow> (q', h))"
| "quota_step (Release ns) (q, h) =
     (if 0 < h ns then (snd (quota_release None ns ''concurrent_executions'' 1 q), h(ns := h ns - 1)) else (q, h))"
| "quota_step (ToolCall ns) (q, h) = (snd (quota_check None id ns ''tool_calls_per_minute'' 1 q), h)"
| "quota_step (Tick d) (q, h) = (q\<lparr>q_world := q_world q + d\<rparr>, h)"

definition quota_run :: "quota_op list \<Rightarrow> int enforcer \<times> (string \<Rightarrow> int)" where
  "quota_run ops = fold quota_step ops (enforcer_new None 0, \<lambda>_. 0)"

definition held_count :: "'w enforcer \<Rightarrow> string \<Rightarrow> int" where
  "held_count q ns =
     (case js_get (q_fallback q) (fallback_key ns ''concurrent_executions'') of None \<Rightarrow> 0 | Some e \<Rightarrow> fe_count e)"

definition quota_inv :: "int enforcer \<times> (string \<Rightarrow> int) \<Rightarrow> bool" where
  "quota_inv s \<longleftrightarrow> (case s of (q, h) \<Rightarrow> \<forall>ns. held_count q ns = h ns \<and> 0 \<le> h ns \<and> h ns \<le> 2)"

lemma held_count_set:
  "held_count (q\<lparr>q_fallback := js_set (fallback_key ns ''concurrent_executions'') e f\<rparr>) =
     (held_count (q\<lparr>q_fallback := f\<rparr>))(ns := fe_count e)"
  by (auto simp: held_count_def js_get_set fallback_key_inj fun_eq_iff)

lemma held_count_other:
  "held_count (q\<lparr>q_fallback := js_set (fallback_key ns ''tool_calls_per_minute'') e f\<rparr>) =
     held_count (q\<lparr>q_fallback := f\<rparr>)"
  by (auto simp: held_count_def js_get_set fallback_key_resources fun_eq_iff)

lemma held_count_same: "held_count (q\<lparr>q_fallback := q_fallback q\<rparr>) = held_count q"
  by simp

lemma tool_check_held:
  "held_count (snd (quota_check None clock ns ''tool_calls_per_minute'' 1 q)) = held_count q"
  by (simp add: quota_check_def get_limits_def tier_limit_def check_redis_def check_fallback_def bind_def ret_def
      throw_def held_count_other Let_def split: prod.splits)

lemma concurrent_check:
  "quota_check None clock ns ''concurrent_executions'' 1 q =
     (if 2 \<le> held_count q ns
      then (Inl (QuotaExceeded ns ''concurrent_executions'' 2 (JInt (held_count q ns)) 1000), q)
      else (Inr (), q\<lparr>q_fallback := js_set (fallback_key ns ''concurrent_executions'')
        ((case js_get (q_fallback q) (fallback_key ns ''concurrent_executions'') of
            None \<Rightarrow> \<lparr>fe_count = 0, fe_windowStart = clock (q_world q)\<rparr> | Some e \<Rightarrow> e)
         \<lparr>fe_count := held_count q ns + 1\<rparr>) (q_fallback q)\<rparr>))"
  by (simp add: quota_check_def get_limits_def tier_limit_def check_redis_def check_fallback_def bind_def ret_def
      throw_def Let_def held_count_def QuotaExceededError_def split: option.splits)

lemma concurrent_release:
  "held_count (snd (quota_release None ns ''concurrent_executions'' 1 q)) =
     (if held_count q ns = 0 then held_count q else (held_count q)(ns := max 0 (held_count q ns - 1)))"
  by (auto simp: quota_release_def modify_def held_count_set held_count_def[of q ns] fun_eq_iff split: option.splits)

lemma quota_step_inv: "quota_inv s \<Longrightarrow> quota_inv (quota_step p s)"
proof (induction p s rule: quota_step.induct)
  case (1 ns q h)
  then show ?case
    by (auto simp: quota_inv_def concurrent_check held_count_set split: if_splits option.splits)
next
  case (2 ns q h)
  then have A: "held_count q m = h m" "0 \<le> h m" "h m \<le> 2" for m by (auto simp: quota_inv_def)
  show ?case by (auto simp: quota_inv_def concurrent_release A intro: order_trans[OF A(3)])
next
  case (3 ns q h)
  then show ?case by (simp add: quota_inv_def tool_check_held)
next
  case (4 d q h)
  then show ?case by (simp add: quota_inv_def held_count_def)
qed

text \<open>C36. Without Redis at most two executions of a namespace hold a grant at any time, whatever the
  order of grants, releases, rate checks of any namespace and clock readings; and the enforcer's
  counter is exactly the number of holders.\<close>

theorem quota_concurrent_bound:
  "case quota_run ops of (q, h) \<Rightarrow> h ns \<le> 2 \<and> held_count q ns = h ns"
proof -
  have "quota_inv (enforcer_new None 0, \<lambda>_. 0)"
    by (simp add: quota_inv_def held_count_def enforcer_new_def)
  then have "quota_inv (quota_run ops)"
    unfolding quota_run_def by (intro fold_inv[of quota_inv quota_step, OF quota_step_inv])
  then show ?thesis by (auto simp: quota_inv_def)
qed

section \<open>Tool calls per minute without Redis\<close>

text \<open>The entry of one key alone decides the rate checks of that key.\<close>

definition rate_entry :: "int \<Rightarrow> int \<Rightarrow> fallback_entry option \<Rightarrow> fallback_entry" where
  "rate_entry W now e =
     (case e of None \<Rightarrow> \<lparr>fe_count = 0, fe_windowStart = now\<rparr>
      | Some e \<Rightarrow> if fe_windowStart e < now - W then \<lparr>fe_count = 0, fe_windowStart = now\<rparr> else e)"

fun rate_grants :: "int \<Rightarrow> int \<Rightarrow> fallback_entry option \<Rightarrow> int list \<Rightarrow> int" where
  "rate_grants W L e [] = 0"
| "rate_grants W L e (t # ts) =
     (let e' = rate_entry W t e
      in if fe_count e' + 1 \<le> L then 1 + rate_grants W L (Some (e'\<lparr>fe_count := fe_count e' + 1\<rparr>)) ts
         else rate_grants W L (Some (e'\<lparr>fe_count := max 0 (fe_count e')\<rparr>)) ts)"

definition key_entry :: "string \<Rightarrow> string \<Rightarrow> 'w enforcer \<Rightarrow> fallback_entry option" where
  "key_entry ns r q = js_get (q_fallback q) (fallback_key ns r)"

text \<open>The tool-call checks of a namespace at the given times, and the number of grants among them.\<close>

fun tool_checks :: "string \<Rightarrow> int list \<Rightarrow> int enforcer \<Rightarrow> int \<times> int enforcer" where
  "tool_checks ns [] q = (0, q)"
| "tool_checks ns (t # ts) q =
     (case quota_check None id ns ''tool_calls_per_minute'' 1 (q\<lparr>q_world := t\<rparr>) of
        (Inr _, q') \<Rightarrow> (case tool_checks ns ts q' of (n, q'') \<Rightarrow> (n + 1, q''))
      | (Inl _, q') \<Rightarrow> tool_checks ns ts q')"

lemma tool_check:
  fixes q :: "int enforcer" and ns :: string
  defines "W \<equiv> q_windowSeconds q * 1000"
  defines "e \<equiv> rate_entry W (q_world q) (key_entry ns ''tool_calls_per_minute'' q)"
  shows "quota_check None id ns ''tool_calls_per_minute'' 1 q =
    (if fe_count e + 1 \<le> 30
     then (Inr (), q\<lparr>q_fallback := js_set (fallback_key ns ''tool_calls_per_minute'')
            (e\<lparr>fe_count := fe_count e + 1\<rparr>) (q_fallback q)\<rparr>)
     else (Inl (QuotaExceeded ns ''tool_calls_per_minute'' 30 (JInt (max 0 (fe_count e)))
              (max 0 (fe_windowStart e + W - q_world q))),
           q\<lparr>q_fallback := js_set (fallback_key ns ''tool_calls_per_minute'')
            (e\<lparr>fe_count := max 0 (fe_count e)\<rparr>) (q_fallback q)\<rparr>))"
  unfolding e_def W_def
  by (simp add: quota_check_def get_limits_def tier_limit_def check_redis_def check_fallback_def bind_def ret_def
      throw_def Let_def QuotaExceededError_def rate_entry_def key_entry_def split: option.splits)

lemma tool_checks_grants:
  "fst (tool_checks ns ts q) =
     rate_grants (q_windowSeconds q * 1000) 30 (key_entry ns ''tool_calls_per_minute'' q) ts"
proof (induction ts arbitrary: q)
  case (Cons t ts)
  then show ?case
    by (simp add: tool_check key_entry_def js_get_set Let_def case_prod_unfold)
qed simp

lemma rate_grants_same_window:
  assumes "\<forall>t\<in>set ts. t \<le> fe_windowStart e + W"
  shows "rate_grants W L (Some e) ts \<le> max 0 (L - fe_count e)"
  using assms
proof (induction ts arbitrary: e)
  case (Cons t ts)
  then have e: "rate_entry W t (Some e) = e" by (simp add: rate_entry_def)
  show ?case
    using Cons.IH[of "e\<lparr>fe_count := fe_count e + 1\<rparr>"] Cons.IH[of "e\<lparr>fe_count := max 0 (fe_count e)\<rparr>"] Cons.prems
    by (auto simp: e Let_def)
qed simp

lemma rate_grants_window:
  assumes "\<forall>t\<in>set ts. a \<le> t \<and> t \<le> a + W" "sorted ts" "0 \<le> L"
    and "case e of None \<Rightarrow> True | Some e \<Rightarrow> 0 \<le> fe_count e"
  shows "rate_grants W L e ts \<le> L + max 0 (L - (case e of None \<Rightarrow> 0 | Some e \<Rightarrow> fe_count e))"
  using assms
proof (induction ts arbitrary: e)
  case (Cons t ts)
  define f where "f = rate_entry W t e"
  have later: "\<forall>u\<in>set ts. u \<le> t + W" using Cons.prems(1) by force
  have c0: "0 \<le> fe_count f" using Cons.prems(4) by (auto simp: f_def rate_entry_def split: option.splits)
  show ?case
  proof (cases "fe_windowStart f = t \<and> fe_count f = 0")
    case True
    note w = rate_grants_same_window[of ts "f\<lparr>fe_count := c\<rparr>" W L for c]
    have "rate_grants W L e (t # ts) \<le> L"
      using w[of 1] w[of 0] later True \<open>0 \<le> L\<close> by (auto simp: f_def[symmetric] Let_def)
    then show ?thesis by simp
  next
    case False
    then have ef: "e = Some f" by (auto simp: f_def rate_entry_def split: option.splits if_splits)
    have re: "rate_entry W t (Some f) = f" using f_def ef by simp
    have IH: "rate_grants W L (Some (f\<lparr>fe_count := c\<rparr>)) ts \<le> L + max 0 (L - c)" if "0 \<le> c" for c
      using Cons.IH[of "Some (f\<lparr>fe_count := c\<rparr>)"] Cons.prems(1-3) that by simp
    show ?thesis
      using IH[of "fe_count f + 1"] IH[of "fe_count f"] c0 \<open>0 \<le> L\<close>
      by (auto simp: ef re Let_def)
  qed
qed simp

text \<open>Without Redis, the tool-call checks of a namespace that fall into one window length grant at
  most twice the limit: the counter belongs to a fixed window that restarts after it has expired,
  not to a sliding one.\<close>

theorem quota_tool_window_bound:
  assumes "sorted ts" and "\<forall>t\<in>set ts. a \<le> t \<and> t \<le> a + 60000"
  shows "fst (tool_checks ns ts (enforcer_new None w)) \<le> 2 * 30"
proof -
  have "rate_grants 60000 30 None ts \<le> 30 + max 0 (30 - 0)"
    using rate_grants_window[OF assms(2,1), of 30 None] by simp
  then show ?thesis by (simp add: tool_checks_grants enforcer_new_def key_entry_def)
qed

theorem quota_tool_window_bound_witness:
  "sorted [0, 60000::int] \<and>
     fst (tool_checks ''n'' [0, 60000] (enforcer_new None 0)) \<le> 2 * 30"
  using quota_tool_window_bound[of "[0, 60000]" 0 "''n''" 0] by simp

text \<open>The bound is reached: with the comment's sliding window no more than 30 calls could pass in
  a minute, but 30 calls at the end of one fixed window and 30 just after it all pass, 60 calls
  within two milliseconds.\<close>

theorem quota_window_is_not_sliding:
  "fst (tool_checks ''n'' ([0] @ replicate 29 60000 @ replicate 30 60001) (enforcer_new None 0)) = 60"
  unfolding tool_checks_grants
  by (simp add: enforcer_new_def key_entry_def rate_entry_def numeral_eq_Suc)

text \<open>The announced delay is one millisecond short. A refused tool-call check that is repeated
  exactly \<open>retryAfterMs\<close> later, with no other check in between, is refused again and told to
  retry after 0 ms; one millisecond later still it is granted.\<close>

theorem quota_retry_after_off_by_one:
  assumes "quota_check None id ns ''tool_calls_per_minute'' 1 q = (Inl (QuotaExceeded ns' r l c d), q')"
    and "fe_windowStart e \<le> q_world q" and "key_entry ns ''tool_calls_per_minute'' q = Some e" and "0 < q_windowSeconds q"
  shows "(\<exists>c'' q''. quota_check None id ns ''tool_calls_per_minute'' 1 (q'\<lparr>q_world := q_world q + d\<rparr>) =
            (Inl (QuotaExceeded ns ''tool_calls_per_minute'' 30 c'' 0), q''))
    \<and> (\<exists>q''. quota_check None id ns ''tool_calls_per_minute'' 1 (q'\<lparr>q_world := q_world q + d + 1\<rparr>) = (Inr (), q''))"
proof -
  let ?W = "q_windowSeconds q * 1000"
  have f: "fe_windowStart e \<ge> q_world q - ?W"
  proof (rule ccontr)
    assume "\<not> ?thesis"
    then show False using assms(1,3) by (simp add: tool_check rate_entry_def)
  qed
  then have re: "rate_entry ?W (q_world q) (Some e) = e" by (simp add: rate_entry_def)
  have full: "\<not> fe_count e + 1 \<le> 30" and d: "d = fe_windowStart e + ?W - q_world q"
    and q': "q' = q\<lparr>q_fallback := js_set (fallback_key ns ''tool_calls_per_minute'')
        (e\<lparr>fe_count := max 0 (fe_count e)\<rparr>) (q_fallback q)\<rparr>"
    using assms(1,3) f by (auto simp: tool_check re split: if_splits)
  show ?thesis
    using full assms(4) by (simp add: tool_check q' d key_entry_def js_get_set rate_entry_def)
qed

definition full_enforcer :: "int enforcer" where
  "full_enforcer = \<lparr>q_windowSeconds = 60,
     q_fallback = [(''n:tool_calls_per_minute'', \<lparr>fe_count = 30, fe_windowStart = 1000\<rparr>)], q_world = 2000\<rparr>"

theorem quota_retry_after_off_by_one_witness:
  "\<exists>q'. quota_check None id ''n'' ''tool_calls_per_minute'' 1 full_enforcer =
      (Inl (QuotaExceeded ''n'' ''tool_calls_per_minute'' 30 (JInt 30) 59000), q') \<and>
    (\<exists>q''. quota_check None id ''n'' ''tool_calls_per_minute'' 1 (q'\<lparr>q_world := q_world full_enforcer + 59000 + 1\<rparr>) = (Inr (), q''))"
proof -
  obtain q' where q: "quota_check None id ''n'' ''tool_calls_per_minute'' 1 full_enforcer =
      (Inl (QuotaExceeded ''n'' ''tool_calls_per_minute'' 30 (JInt 30) 59000), q')"
    by (simp add: tool_check full_enforcer_def key_entry_def fallback_key_def rate_entry_def)
  have "(\<exists>q''. quota_check None id ''n'' ''tool_calls_per_minute'' 1 (q'\<lparr>q_world := q_world full_enforcer + 59000 + 1\<rparr>) = (Inr (), q''))"
    using quota_retry_after_off_by_one[OF q, of "\<lparr>fe_count = 30, fe_windowStart = 1000\<rparr>"]
    by (simp add: full_enforcer_def key_entry_def fallback_key_def)
  with q show ?thesis by blast
qed

section \<open>Redis: polling keeps a full window alive\<close>

text \<open>
  What the enforcer relies on, over an abstraction \<open>cell\<close> of the store (the value of a key and the
  time at which it expires): \<open>INCR\<close> and \<open>DECR\<close> change the value of a live key and keep its
  deadline, \<open>EXPIRE\<close> sets the deadline that many seconds from now, commands take no time, and
  \<open>wait\<close> lets time pass without touching the store.
\<close>

definition redis_law ::
  "'w redis \<Rightarrow> ('w \<Rightarrow> int) \<Rightarrow> ('w \<Rightarrow> string \<Rightarrow> (int \<times> int) option) \<Rightarrow> (int \<Rightarrow> 'w \<Rightarrow> 'w) \<Rightarrow> bool" where
  "redis_law R clock cell wait \<longleftrightarrow>
     (\<forall>k w v dl. cell w k = Some (v, dl) \<longrightarrow> clock w < dl \<longrightarrow>
        (\<exists>w'. rd_incr R k w = (Inr (v + 1), w') \<and> cell w' k = Some (v + 1, dl) \<and> clock w' = clock w) \<and>
        (\<exists>w'. rd_decr R k w = (Inr (v - 1), w') \<and> cell w' k = Some (v - 1, dl) \<and> clock w' = clock w) \<and>
        (\<forall>n. \<exists>w'. rd_expire R k n w = (Inr (), w') \<and> cell w' k = Some (v, clock w + n * 1000) \<and> clock w' = clock w)) \<and>
     (\<forall>k w n. 0 \<le> n \<longrightarrow> cell (wait n w) k = cell w k \<and> clock (wait n w) = clock w + n)"

text \<open>A caller that sleeps and checks again, as \<open>waitForQuota\<close> does; the outcomes of its checks.\<close>

fun poll :: "'w redis \<Rightarrow> ('w \<Rightarrow> int) \<Rightarrow> (int \<Rightarrow> 'w \<Rightarrow> 'w) \<Rightarrow> string \<Rightarrow> int list \<Rightarrow> 'w enforcer \<Rightarrow> (svc_error + unit) list" where
  "poll R clock wait ns [] q = []"
| "poll R clock wait ns (g # gs) q =
     (case quota_check (Some R) clock ns ''tool_calls_per_minute'' 1 (q\<lparr>q_world := wait g (q_world q)\<rparr>) of
        (r, q') \<Rightarrow> r # poll R clock wait ns gs q')"

lemma redis_refused:
  assumes "redis_law R clock cell wait" and "cell (q_world q) (quota_key ns ''tool_calls_per_minute'') = Some (v, dl)"
    and "clock (q_world q) < dl" and "30 \<le> v" and "0 < q_windowSeconds q"
  shows "\<exists>q'. quota_check (Some R) clock ns ''tool_calls_per_minute'' 1 q =
      (Inl (QuotaExceeded ns ''tool_calls_per_minute'' 30 (JInt v) (q_windowSeconds q * 1000)), q') \<and>
    cell (q_world q') (quota_key ns ''tool_calls_per_minute'') = Some (v, clock (q_world q') + q_windowSeconds q * 1000) \<and>
    q_windowSeconds q' = q_windowSeconds q"
proof -
  let ?k = "quota_key ns ''tool_calls_per_minute''" and ?n = "q_windowSeconds q"
  note law = assms(1)[unfolded redis_law_def, THEN conjunct1, rule_format]
  obtain w1 where i: "rd_incr R ?k (q_world q) = (Inr (v + 1), w1)" "cell w1 ?k = Some (v + 1, dl)"
      "clock w1 = clock (q_world q)"
    using law[OF assms(2,3)] by blast
  obtain w2 where e: "rd_expire R ?k ?n w1 = (Inr (), w2)" "cell w2 ?k = Some (v + 1, clock w1 + ?n * 1000)"
      "clock w2 = clock w1"
    using law[OF i(2)] i(3) assms(3) by auto
  obtain w3 where d: "rd_decr R ?k w2 = (Inr v, w3)" "cell w3 ?k = Some (v, clock w1 + ?n * 1000)" "clock w3 = clock w2"
    using law[OF e(2)] e(3) assms(5) by auto
  show ?thesis
    using i e d assms(4)
    by (simp add: quota_check_def get_limits_def tier_limit_def check_redis_def bind_def seq_def ret_def throw_def
        with_state_def redis_call_def Let_def QuotaExceededError_def)
qed

text \<open>With Redis a full tool-call window never ends for a caller that keeps asking. Every refused
  check has already renewed the key's expiry, so as long as the checks are less than one window
  length apart, all of them are refused, however long the caller goes on.\<close>

theorem quota_redis_polling_starves:
  assumes "redis_law R clock cell wait"
    and "cell (q_world q) (quota_key ns ''tool_calls_per_minute'') = Some (v, dl)" and "30 \<le> v"
    and "dl = clock (q_world q) + q_windowSeconds q * 1000"
    and "\<forall>g\<in>set gaps. 0 \<le> g \<and> g < q_windowSeconds q * 1000"
  shows "\<forall>r\<in>set (poll R clock wait ns gaps q). \<exists>e. r = Inl e"
  using assms(2-)
proof (induction gaps arbitrary: q dl)
  case (Cons g gs)
  let ?q = "q\<lparr>q_world := wait g (q_world q)\<rparr>" and ?k = "quota_key ns ''tool_calls_per_minute''"
  have g: "0 \<le> g" "g < q_windowSeconds q * 1000" using Cons.prems(4) by auto
  have w: "cell (q_world ?q) ?k = Some (v, dl)" "clock (q_world ?q) = clock (q_world q) + g"
    using assms(1) Cons.prems(1) g(1) by (auto simp: redis_law_def)
  obtain q' where q': "quota_check (Some R) clock ns ''tool_calls_per_minute'' 1 ?q =
      (Inl (QuotaExceeded ns ''tool_calls_per_minute'' 30 (JInt v) (q_windowSeconds q * 1000)), q')"
    "cell (q_world q') ?k = Some (v, clock (q_world q') + q_windowSeconds q * 1000)" "q_windowSeconds q' = q_windowSeconds q"
    using redis_refused[OF assms(1) w(1), of ] w(2) Cons.prems(2,3) g by auto
  have "\<forall>r\<in>set (poll R clock wait ns gs q'). \<exists>e. r = Inl e"
    using Cons.IH[OF q'(2)] Cons.prems(2,4) q'(3) by simp
  with q'(1) show ?case by simp
qed simp

text \<open>A store that satisfies the law: values with deadlines, and the time.\<close>

definition demo_redis :: "((string \<Rightarrow> (int \<times> int) option) \<times> int) redis" where
  "demo_redis =
     (let upd = (\<lambda>d k (m, t). case m k of
          Some (v, dl) \<Rightarrow> if t < dl then (Inr (v + d), (m(k \<mapsto> (v + d, dl)), t)) else (Inl ''expired'', (m, t))
        | None \<Rightarrow> (Inl ''absent'', (m, t)))
      in \<lparr>rd_incr = upd 1, rd_decr = upd (- 1),
          rd_expire = (\<lambda>k n (m, t). (Inr (), (m(k := map_option (\<lambda>(v, _). (v, t + n * 1000)) (m k)), t))),
          rd_get = (\<lambda>k (m, t). (Inr (map_option (\<lambda>(v, _). show_int v) (m k)), (m, t))),
          rd_del = (\<lambda>k (m, t). (Inr 1, (m(k := None), t)))\<rparr>)"

lemma demo_redis_law: "redis_law demo_redis snd (\<lambda>w. fst w) (\<lambda>n w. (fst w, snd w + n))"
  by (auto simp: redis_law_def demo_redis_def Let_def)

theorem quota_redis_polling_starves_witness:
  "list_all isl (poll demo_redis snd (\<lambda>n w. (fst w, snd w + n)) ''n'' [10000, 10000]
      \<lparr>q_windowSeconds = 60, q_fallback = [], q_world = ([quota_key ''n'' ''tool_calls_per_minute'' \<mapsto> (30, 60000)], 0)\<rparr>)"
proof -
  have "\<forall>r\<in>set (poll demo_redis snd (\<lambda>n w. (fst w, snd w + n)) ''n'' [10000, 10000]
      \<lparr>q_windowSeconds = 60, q_fallback = [], q_world = ([quota_key ''n'' ''tool_calls_per_minute'' \<mapsto> (30, 60000)], 0)\<rparr>).
     \<exists>e. r = Inl e"
    by (rule quota_redis_polling_starves[OF demo_redis_law, of _ _ 30 60000]) simp_all
  then show ?thesis by (auto simp: list_all_iff simp del: poll.simps)
qed

end
