(* ===== verification/JsRegex.thy ===== *)
theory JsRegex
  imports Prelude
begin

text \<open>
  Regular expressions as the language matches them: a backtracking matcher that yields the ends of
  all matches at a position in priority order. A subject is the character before the position
  (for \<open>\b\<close> and \<open>^\<close>) and the text from there on. \<open>Neg\<close> is the negative lookahead \<open>(?!r)\<close>. A pattern with the flag \<open>i\<close> is written in lower
  case and matched against the lower-cased subject.
\<close>

section \<open>Patterns and matching\<close>

datatype regex =
    Cls "char \<Rightarrow> bool"
  | Lit string
  | Cat "regex list"
  | Alt "regex list"
  | Rep nat "nat option" regex
  | WordB
  | Bol
  | Eol
  | Neg regex

type_synonym subject = "char option \<times> string"

definition is_word :: "char \<Rightarrow> bool" where
  "is_word c \<longleftrightarrow> (let n = (of_char c :: nat) in
     48 \<le> n \<and> n \<le> 57 \<or> 65 \<le> n \<and> n \<le> 90 \<or> n = 95 \<or> 97 \<le> n \<and> n \<le> 122)"

definition at_boundary :: "subject \<Rightarrow> bool" where
  "at_boundary p = (case p of (b, s) \<Rightarrow>
     (case b of None \<Rightarrow> False | Some c \<Rightarrow> is_word c) \<noteq> (case s of [] \<Rightarrow> False | c # _ \<Rightarrow> is_word c))"

fun advance :: "string \<Rightarrow> subject \<Rightarrow> subject list" where
  "advance [] p = [p]"
| "advance (c # cs) (b, []) = []"
| "advance (c # cs) (b, d # ds) = (if c = d then advance cs (Some d, ds) else [])"

text \<open>
  A greedy repetition tries one more round first. A round that consumes nothing ends it, so the
  number of rounds is bounded by the minimum and the length of the subject.
\<close>

fun rep_from :: "nat \<Rightarrow> (subject \<Rightarrow> subject list) \<Rightarrow> nat \<Rightarrow> nat option \<Rightarrow> subject \<Rightarrow> subject list" where
  "rep_from 0 f lo hi p = (if lo = 0 then [p] else [])"
| "rep_from (Suc n) f lo hi p =
     (if hi = Some 0 then [p]
      else concat (map (\<lambda>q. if lo = 0 \<and> snd q = snd p then []
             else rep_from n f (lo - 1) (map_option (\<lambda>h. h - 1) hi) q) (f p))
        @ (if lo = 0 then [p] else []))"

fun rx_ends :: "regex \<Rightarrow> subject \<Rightarrow> subject list"
and rx_ends_seq :: "regex list \<Rightarrow> subject \<Rightarrow> subject list"
and rx_ends_alt :: "regex list \<Rightarrow> subject \<Rightarrow> subject list" where
  "rx_ends (Cls P) p = (case snd p of [] \<Rightarrow> [] | c # cs \<Rightarrow> if P c then [(Some c, cs)] else [])"
| "rx_ends (Lit t) p = advance t p"
| "rx_ends (Cat rs) p = rx_ends_seq rs p"
| "rx_ends (Alt rs) p = rx_ends_alt rs p"
| "rx_ends (Rep lo hi r) p = rep_from (Suc (lo + length (snd p))) (rx_ends r) lo hi p"
| "rx_ends WordB p = (if at_boundary p then [p] else [])"
| "rx_ends Bol p = (if fst p = None then [p] else [])"
| "rx_ends Eol p = (if snd p = [] then [p] else [])"
| "rx_ends (Neg r) p = (if rx_ends r p = [] then [p] else [])"
| "rx_ends_seq [] p = [p]"
| "rx_ends_seq (r # rs) p = concat (map (rx_ends_seq rs) (rx_ends r p))"
| "rx_ends_alt [] p = []"
| "rx_ends_alt (r # rs) p = rx_ends r p @ rx_ends_alt rs p"

fun positions :: "char option \<Rightarrow> string \<Rightarrow> subject list" where
  "positions b [] = [(b, [])]"
| "positions b (c # cs) = (b, c # cs) # positions (Some c) cs"

text \<open>\<open>pattern.test(s)\<close>, and the leftmost match as the text before it, the match and the rest.\<close>

definition rx_test :: "regex \<Rightarrow> string \<Rightarrow> bool" where
  "rx_test r s \<longleftrightarrow> list_ex (\<lambda>p. rx_ends r p \<noteq> []) (positions None s)"

fun rx_find_from :: "regex \<Rightarrow> string \<Rightarrow> subject \<Rightarrow> (string \<times> string \<times> string) option" where
  "rx_find_from r pre (b, s) =
     (case rx_ends r (b, s) of
        (_, rest) # _ \<Rightarrow> Some (rev pre, take (length s - length rest) s, rest)
      | [] \<Rightarrow> (case s of [] \<Rightarrow> None | c # cs \<Rightarrow> rx_find_from r (c # pre) (Some c, cs)))"

definition rx_find :: "regex \<Rightarrow> string \<Rightarrow> (string \<times> string \<times> string) option" where
  "rx_find r s = rx_find_from r [] (None, s)"

definition lower_char :: "char \<Rightarrow> char" where
  "lower_char c = (let n = (of_char c :: nat) in if 65 \<le> n \<and> n \<le> 90 then char_of (n + 32) else c)"

definition lower :: "string \<Rightarrow> string" where
  "lower s = map lower_char s"

text \<open>\<open>s.replace(/pattern/g, t)\<close> for a pattern that never matches the empty text.\<close>

fun rx_replace_all :: "nat \<Rightarrow> regex \<Rightarrow> string \<Rightarrow> subject \<Rightarrow> string" where
  "rx_replace_all 0 r t p = snd p"
| "rx_replace_all (Suc n) r t (b, s) =
     (case rx_ends r (b, s) of
        q # _ \<Rightarrow> t @ rx_replace_all n r t q
      | [] \<Rightarrow> (case s of [] \<Rightarrow> [] | c # cs \<Rightarrow> c # rx_replace_all n r t (Some c, cs)))"

definition replace_all :: "regex \<Rightarrow> string \<Rightarrow> string \<Rightarrow> string" where
  "replace_all r t s = rx_replace_all (Suc (length s)) r t (None, s)"

section \<open>Pattern building blocks\<close>

definition opt :: "regex \<Rightarrow> regex" where "opt r = Rep 0 (Some 1) r"
definition alts :: "string list \<Rightarrow> regex" where "alts ts = Alt (map Lit ts)"

text \<open>The dot matches any character but a line terminator.\<close>

definition dot :: regex where "dot = Cls (\<lambda>c. c \<noteq> CHR 0x0A \<and> c \<noteq> CHR 0x0D)"
definition spaces :: regex where "spaces = Cls is_space"
definition word :: regex where "word = Cls is_word"
definition digit :: regex where "digit = Cls is_digit"
definition between :: "char \<Rightarrow> char \<Rightarrow> char \<Rightarrow> bool" where
  "between lo hi c \<longleftrightarrow> (of_char lo :: nat) \<le> of_char c \<and> (of_char c :: nat) \<le> of_char hi"
definition rng :: "char \<Rightarrow> char \<Rightarrow> regex" where "rng lo hi = Cls (between lo hi)"
definition digits :: "nat \<Rightarrow> regex" where "digits n = Rep n (Some n) digit"
definition one_of :: "string \<Rightarrow> regex" where "one_of cs = Cls (\<lambda>c. c \<in> set cs)"

section \<open>Facts\<close>

lemma advance_append: "advance t (b, t @ s) = [(if t = [] then b else Some (last t), s)]"
  by (induction t arbitrary: b) auto

lemma positions_append: "(if pre = [] then b else Some (last pre), s) \<in> set (positions b (pre @ s))"
  by (induction pre arbitrary: b) (cases s, auto)

text \<open>A literal pattern is a substring test.\<close>

lemma advance_prefix: "advance t (b, s) \<noteq> [] \<longleftrightarrow> prefix t s"
proof (induction t arbitrary: b s)
  case (Cons c t)
  then show ?case by (cases s) auto
qed simp

lemma positions_suffixes: "snd ` set (positions b s) = set (suffixes s)"
  by (induction s arbitrary: b) auto

lemma rx_test_lit: "rx_test (Lit t) s \<longleftrightarrow> sublist t s"
proof -
  have "rx_test (Lit t) s \<longleftrightarrow> (\<exists>u \<in> snd ` set (positions None s). prefix t u)"
    by (auto simp: rx_test_def list_ex_iff advance_prefix) (metis advance_prefix surj_pair snd_conv)+
  also have "\<dots> \<longleftrightarrow> sublist t s" by (auto simp: positions_suffixes sublist_altdef')
  finally show ?thesis .
qed

lemma rx_test_alt: "rx_test (Alt rs) s \<longleftrightarrow> (\<exists>r \<in> set rs. rx_test r s)"
proof -
  have "rx_ends_alt rs p \<noteq> [] \<longleftrightarrow> (\<exists>r \<in> set rs. rx_ends r p \<noteq> [])" for p
    by (induction rs) auto
  then show ?thesis by (auto simp: rx_test_def list_ex_iff)
qed

text \<open>A class of characters, repeated over the whole subject.\<close>

lemma positions_None: "p \<in> set (positions (Some c) s) \<Longrightarrow> fst p \<noteq> None"
  by (induction s arbitrary: c) auto

lemma positions_start: "p \<in> set (positions None s) \<Longrightarrow> fst p = None \<longleftrightarrow> p = (None, s)"
  by (cases s) (auto dest: positions_None)

lemma start_position: "(None, s) \<in> set (positions None s)"
  by (cases s) auto

lemma rx_test_bol: "rx_test (Cat (Bol # rs)) s \<longleftrightarrow> rx_ends_seq rs (None, s) \<noteq> []"
  using positions_start start_position[of s] by (auto simp: rx_test_def list_ex_iff split: if_splits)

text \<open>One round of a class consumes one character.\<close>

definition takes_one :: "(char \<Rightarrow> bool) \<Rightarrow> (subject \<Rightarrow> subject list) \<Rightarrow> bool" where
  "takes_one P f \<longleftrightarrow> (\<forall>b. f (b, []) = []) \<and> (\<forall>b c cs. f (b, c # cs) = (if P c then [(Some c, cs)] else []))"

lemma takes_one_Cls: "takes_one P (rx_ends (Cls P))"
  by (simp add: takes_one_def)

lemma takes_oneD:
  assumes "takes_one P f"
  shows "f (b, []) = []" and "f (b, c # cs) = (if P c then [(Some c, cs)] else [])"
  using assms by (simp_all add: takes_one_def)

lemma rep_class_ends:
  assumes f: "takes_one P f"
  shows "q \<in> set (rep_from n f lo None (b, s)) \<Longrightarrow> \<exists>u. s = u @ snd q \<and> list_all P u \<and> lo \<le> length u"
proof (induction n arbitrary: lo b s)
  case 0
  then show ?case by (auto split: if_splits)
next
  case (Suc n)
  show ?case
  proof (cases s)
    case Nil
    then show ?thesis using Suc.prems by (auto simp: takes_oneD[OF f] split: if_splits)
  next
    case (Cons c cs)
    with Suc.prems consider "lo = 0" "q = (b, s)" | "P c" "q \<in> set (rep_from n f (lo - 1) None (Some c, cs))"
      by (auto simp: takes_oneD[OF f] split: if_splits)
    then show ?thesis
    proof cases
      case 2
      then obtain u where "cs = u @ snd q" "list_all P u" "lo - 1 \<le> length u" using Suc.IH by blast
      then show ?thesis using 2(1) Cons by (intro exI[of _ "c # u"]) auto
    qed auto
  qed
qed

lemma rep_class_all:
  assumes f: "takes_one P f"
  shows "list_all P s \<Longrightarrow> lo \<le> length s \<Longrightarrow> length s < n \<Longrightarrow> \<exists>b'. (b', []) \<in> set (rep_from n f lo None (b, s))"
proof (induction n arbitrary: lo b s)
  case (Suc n)
  show ?case
  proof (cases s)
    case (Cons c cs)
    then have "\<exists>b'. (b', []) \<in> set (rep_from n f (lo - 1) None (Some c, cs))"
      using Suc by (intro Suc.IH) auto
    then show ?thesis using Suc.prems Cons by (auto simp: takes_oneD[OF f])
  qed (use Suc.prems in auto)
qed simp

lemma rx_test_class: "rx_test (Cat [Bol, Rep lo None (Cls P), Eol]) s \<longleftrightarrow> lo \<le> length s \<and> list_all P s"
proof -
  let ?ends = "rep_from (Suc (lo + length s)) (rx_ends (Cls P)) lo None (None, s)"
  have "rx_ends_seq [Rep lo None (Cls P), Eol] (None, s) = concat (map (\<lambda>q. if snd q = [] then [q] else []) ?ends)"
    unfolding rx_ends_seq.simps rx_ends.simps(5) snd_conv by (rule arg_cong[where f = concat], rule map_cong) auto
  then have "rx_test (Cat [Bol, Rep lo None (Cls P), Eol]) s \<longleftrightarrow> (\<exists>q \<in> set ?ends. snd q = [])"
    unfolding rx_test_bol by (auto simp del: rep_from.simps rx_ends.simps split: if_splits)
  also have "\<dots> \<longleftrightarrow> lo \<le> length s \<and> list_all P s"
  proof
    assume "\<exists>q \<in> set ?ends. snd q = []"
    then obtain q where q: "q \<in> set ?ends" "snd q = []" by blast
    from rep_class_ends[OF takes_one_Cls q(1)] q(2) show "lo \<le> length s \<and> list_all P s" by auto
  next
    assume "lo \<le> length s \<and> list_all P s"
    then obtain b' where "(b', []) \<in> set ?ends"
      using rep_class_all[OF takes_one_Cls, of P s lo "Suc (lo + length s)" None] by (auto simp del: rep_from.simps rx_ends.simps)
    then show "\<exists>q \<in> set ?ends. snd q = []" by (intro bexI[of _ "(b', [])"]) simp_all
  qed
  finally show ?thesis .
qed

lemma rx_test_Cls: "rx_test (Cls P) s \<longleftrightarrow> list_ex P s"
proof -
  have "list_ex (\<lambda>p. rx_ends (Cls P) p \<noteq> []) (positions b s) \<longleftrightarrow> list_ex P s" for b
    by (induction s arbitrary: b) auto
  then show ?thesis by (simp add: rx_test_def)
qed

lemma not_list_ex: "\<not> list_ex P xs \<longleftrightarrow> list_all (\<lambda>x. \<not> P x) xs"
  by (induction xs) auto

section \<open>What a match needs\<close>

text \<open>A match ends in a suffix of its subject, so a literal of a sequence occurs in every subject it matches.\<close>

lemma advance_suffix: "q \<in> set (advance t p) \<Longrightarrow> suffix (snd q) (snd p) \<and> sublist t (snd p)"
proof (induction t p rule: advance.induct)
  case (3 c cs b d ds)
  then have "q \<in> set (advance cs (Some d, ds))" "c = d" by (auto split: if_splits)
  moreover from this have "prefix cs ds" using advance_prefix[of cs "Some d" ds] by auto
  ultimately show ?case using 3 by (auto simp: suffix_Cons intro: prefix_imp_sublist)
qed auto

definition shrinks :: "(subject \<Rightarrow> subject list) \<Rightarrow> bool" where
  "shrinks f \<longleftrightarrow> (\<forall>p. \<forall>q \<in> set (f p). suffix (snd q) (snd p))"

lemma shrinksI: "(\<And>p q. q \<in> set (f p) \<Longrightarrow> suffix (snd q) (snd p)) \<Longrightarrow> shrinks f"
  unfolding shrinks_def by blast

lemma shrinksD: "shrinks f \<Longrightarrow> q \<in> set (f p) \<Longrightarrow> suffix (snd q) (snd p)"
  unfolding shrinks_def by blast

lemma rep_from_shrinks:
  assumes "shrinks f"
  shows "q \<in> set (rep_from n f lo hi p) \<Longrightarrow> suffix (snd q) (snd p)"
proof (induction n arbitrary: lo hi p)
  case (Suc n)
  then consider "q = p" | p' where "p' \<in> set (f p)" "q \<in> set (rep_from n f (lo - 1) (map_option (\<lambda>h. h - 1) hi) p')"
    by (fastforce split: if_splits)
  then show ?case
  proof cases
    case 2
    from suffix_order.trans[OF Suc.IH[OF 2(2)] shrinksD[OF assms 2(1)]] show ?thesis .
  qed simp
qed (auto split: if_splits)

lemma seq_shrinks: "(\<And>r. r \<in> set rs \<Longrightarrow> shrinks (rx_ends r)) \<Longrightarrow> shrinks (rx_ends_seq rs)"
proof (induction rs)
  case (Cons r rs)
  then have s: "shrinks (rx_ends r)" "shrinks (rx_ends_seq rs)" by auto
  show ?case
  proof (rule shrinksI)
    fix p q
    assume "q \<in> set (rx_ends_seq (r # rs) p)"
    then obtain p' where p': "p' \<in> set (rx_ends r p)" "q \<in> set (rx_ends_seq rs p')" by auto
    from suffix_order.trans[OF shrinksD[OF s(2) p'(2)] shrinksD[OF s(1) p'(1)]] show "suffix (snd q) (snd p)" .
  qed
qed (simp add: shrinks_def)

lemma alt_shrinks: "(\<And>r. r \<in> set rs \<Longrightarrow> shrinks (rx_ends r)) \<Longrightarrow> shrinks (rx_ends_alt rs)"
proof (induction rs)
  case (Cons r rs)
  then have "shrinks (rx_ends r)" "shrinks (rx_ends_alt rs)" by auto
  then show ?case unfolding shrinks_def by (simp add: ball_Un del: split_paired_All)
qed (simp add: shrinks_def)

lemma rx_ends_shrinks: "shrinks (rx_ends r)"
proof (induction r)
  case (Cls P)
  show ?case by (auto simp: shrinks_def suffix_Cons split: list.split)
next
  case (Lit t)
  show ?case by (rule shrinksI) (simp add: advance_suffix)
next
  case (Cat rs)
  then have "shrinks (rx_ends_seq rs)" by (rule seq_shrinks)
  then show ?case unfolding shrinks_def by simp
next
  case (Alt rs)
  then have "shrinks (rx_ends_alt rs)" by (rule alt_shrinks)
  then show ?case unfolding shrinks_def by simp
next
  case (Rep lo hi r)
  show ?case by (rule shrinksI) (simp add: rep_from_shrinks[OF Rep] del: rep_from.simps)
qed (auto simp: shrinks_def)

lemma seq_needs_literal: "rx_ends_seq rs p \<noteq> [] \<Longrightarrow> Lit t \<in> set rs \<Longrightarrow> sublist t (snd p)"
proof (induction rs arbitrary: p)
  case (Cons r rs)
  then obtain p' where p': "p' \<in> set (rx_ends r p)" "rx_ends_seq rs p' \<noteq> []" by fastforce
  have u: "suffix (snd p') (snd p)" using p'(1) by (rule shrinksD[OF rx_ends_shrinks])
  show ?case
  proof (cases "r = Lit t")
    case True
    then show ?thesis using p'(1) advance_suffix by simp
  next
    case False
    then have "sublist t (snd p')" using Cons.IH[OF p'(2)] Cons.prems(2) by simp
    then show ?thesis using u by (meson sublist_order.order.trans suffix_imp_sublist)
  qed
qed simp

lemma positions_sublist: "p \<in> set (positions b s) \<Longrightarrow> sublist (snd p) s"
  using positions_suffixes[of b s] by (metis image_eqI in_set_suffixes suffix_imp_sublist)

lemma rx_testE:
  assumes "rx_test r s"
  obtains p where "p \<in> set (positions None s)" "rx_ends r p \<noteq> []"
  using assms unfolding rx_test_def list_ex_iff by blast

lemma test_needs_literal: "rx_test (Cat rs) s \<Longrightarrow> Lit t \<in> set rs \<Longrightarrow> sublist t s"
  by (elim rx_testE) (simp, meson seq_needs_literal positions_sublist sublist_order.order.trans)

text \<open>A search that finds something passes the test.\<close>

lemma find_test: "rx_find_from r pre (b, s) = Some m \<Longrightarrow> list_ex (\<lambda>p. rx_ends r p \<noteq> []) (positions b s)"
proof (induction s arbitrary: pre b)
  case Nil
  then show ?case by (auto split: list.splits)
next
  case (Cons c s)
  then show ?case by (cases "rx_ends r (b, c # s)") (auto simp del: rx_ends.simps)
qed

lemma rx_find_test: "rx_find r s = Some m \<Longrightarrow> rx_test r s"
  unfolding rx_find_def rx_test_def by (rule find_test)

end
