(* ===== verification/Classification.thy ===== *)
theory Classification
  imports Json JsRegex
begin

text \<open>
  The textual tool-call convention of
  \<open>control-plane/workflow-engine/src/temporal/classification.ts\<close>. Its two patterns need no
  backtracking: the characters of \<open>\s*\<close>, \<open>\w+\<close> and the bracket are disjoint, and inside the braces
  each alternative is decided by its first character.
\<close>

section \<open>Patterns\<close>

text \<open>\<open>/\[tool:\s*(\w+)\]/\<close> at the start of a text: the name and what follows. \<open>ci\<close> is the flag \<open>i\<close>.\<close>

definition tag_at :: "bool \<Rightarrow> string \<Rightarrow> (string \<times> string) option" where
  "tag_at ci s =
     (if (if ci then lower (take 6 s) else take 6 s) = ''[tool:'' then
        (let r = dropWhile is_space (drop 6 s); name = takeWhile is_word r
         in case dropWhile is_word r of
              c # rest \<Rightarrow> if c = CHR '']'' \<and> name \<noteq> [] then Some (name, rest) else None
            | [] \<Rightarrow> None)
      else None)"

text \<open>\<open>(\{(?:[^{}]|(?:\{[^{}]*\}))*\})\<close> at the start of a text; \<open>inner\<close> holds inside a nested pair.\<close>

fun braces :: "bool \<Rightarrow> string \<Rightarrow> string \<Rightarrow> string option" where
  "braces inner acc [] = None"
| "braces inner acc (c # cs) =
     (if c = CHR ''}'' then (if inner then braces False (c # acc) cs else Some (rev (c # acc)))
      else if c = CHR ''{'' then (if inner then None else braces True (c # acc) cs)
      else braces inner (c # acc) cs)"

definition json_args_at :: "string \<Rightarrow> string option" where
  "json_args_at s =
     (case tag_at False s of
        None \<Rightarrow> None
      | Some (_, rest) \<Rightarrow> (case dropWhile is_space rest of c # cs \<Rightarrow> if c = CHR ''{'' then braces False [c] cs else None | [] \<Rightarrow> None))"

text \<open>The leftmost match.\<close>

fun first_match :: "(string \<Rightarrow> 'a option) \<Rightarrow> string \<Rightarrow> 'a option" where
  "first_match f [] = f []"
| "first_match f (c # cs) = (case f (c # cs) of Some x \<Rightarrow> Some x | None \<Rightarrow> first_match f cs)"

section \<open>classifyLLMResponse\<close>

definition trim :: "string \<Rightarrow> string" where
  "trim s = rev (dropWhile is_space (rev (dropWhile is_space s)))"

record classification =
  cl_tool_call :: bool
  cl_toolName :: "string option"
  cl_toolArgs :: "json option"

definition classifyLLMResponse :: "string \<Rightarrow> classification" where
  "classifyLLMResponse content =
     (case first_match (tag_at True) content of
        None \<Rightarrow> \<lparr>cl_tool_call = False, cl_toolName = None, cl_toolArgs = None\<rparr>
      | Some (name, rest) \<Rightarrow>
          \<lparr>cl_tool_call = True, cl_toolName = Some name,
           cl_toolArgs = (case first_match json_args_at content of
               Some t \<Rightarrow> Some (case json_parse t of Some j \<Rightarrow> j | None \<Rightarrow> JObj [])
             | None \<Rightarrow> if name = ''code_interpreter'' \<and> trim rest \<noteq> [] then Some (JObj [(''code'', JStr (trim rest))]) else None)\<rparr>)"

section \<open>Reading a tag back\<close>

lemma braces_flat:
  "list_all (\<lambda>c. c \<noteq> CHR ''{'' \<and> c \<noteq> CHR ''}'') body \<Longrightarrow>
   braces False acc (body @ CHR ''}'' # rest) = Some (rev acc @ body @ ''}'')"
  by (induction body arbitrary: acc) auto

lemma tag_at_tag:
  assumes "name \<noteq> []" "list_all is_word name"
  shows "tag_at ci (''[tool:'' @ name @ '']'' @ rest) = Some (name, rest)"
proof -
  have "\<not> is_space (hd name)"
    using assms by (cases name) (auto simp: is_word_def is_space_def Let_def)
  then have d: "dropWhile is_space (name @ u) = name @ u" for u using assms(1) by (cases name) auto
  have w: "\<not> is_word (CHR '']'')" by (simp add: is_word_def Let_def)
  have l: "lower ''[tool:'' = ''[tool:''" by (simp add: lower_def lower_char_def)
  have "takeWhile is_word (name @ CHR '']'' # rest) = name" "dropWhile is_word (name @ CHR '']'' # rest) = CHR '']'' # rest"
    using assms(2) w by (auto simp: list_all_iff takeWhile_append2 dropWhile_append2)
  then show ?thesis using assms(1) d[of "CHR '']'' # rest"] l by (simp add: tag_at_def Let_def)
qed

lemma first_match_skip:
  "list_all (\<lambda>c. c \<noteq> CHR ''['') pre \<Longrightarrow> (\<And>s. f s \<noteq> None \<Longrightarrow> s \<noteq> [] \<and> hd s = CHR ''['') \<Longrightarrow> f s = Some x \<Longrightarrow>
   first_match f (pre @ s) = Some x"
proof (induction pre)
  case Nil
  then show ?case by (cases s) auto
next
  case (Cons c pre)
  then have "f (c # pre @ s) = None" by force
  with Cons show ?case by simp
qed

lemma tag_at_starts: "tag_at ci s \<noteq> None \<Longrightarrow> s \<noteq> [] \<and> hd s = CHR ''[''"
proof -
  have "lower_char c = CHR ''['' \<longleftrightarrow> c = CHR ''[''" for c
  proof (cases "65 \<le> (of_char c :: nat) \<and> (of_char c :: nat) \<le> 90")
    case True
    then have "(of_char (lower_char c) :: nat) = of_char c + 32" by (simp add: lower_char_def Let_def)
    with True show ?thesis by auto
  next
    case False
    then show ?thesis by (auto simp: lower_char_def Let_def)
  qed
  then show "tag_at ci s \<noteq> None \<Longrightarrow> s \<noteq> [] \<and> hd s = CHR ''[''"
    by (cases s) (auto simp: tag_at_def lower_def split: if_splits)
qed

text \<open>The textual convention round-trips: whatever text without an opening bracket stands before it, a
  tag with a word as its name followed by one flat pair of braces is read as a call of that tool,
  with the parsed braces as arguments (or an empty object when they are not JSON).\<close>

theorem classify_tagged:
  assumes "list_all (\<lambda>c. c \<noteq> CHR ''['') pre" and "name \<noteq> []" and "list_all is_word name"
    and "list_all (\<lambda>c. c \<noteq> CHR ''{'' \<and> c \<noteq> CHR ''}'') body"
  shows "classifyLLMResponse (pre @ ''[tool:'' @ name @ '']'' @ '' {'' @ body @ ''}'' @ rest) =
    \<lparr>cl_tool_call = True, cl_toolName = Some name,
     cl_toolArgs = Some (case json_parse (''{'' @ body @ ''}'') of Some j \<Rightarrow> j | None \<Rightarrow> JObj [])\<rparr>"
proof -
  let ?s = "''[tool:'' @ name @ '']'' @ '' {'' @ body @ ''}'' @ rest"
  have t: "tag_at ci ?s = Some (name, '' {'' @ body @ ''}'' @ rest)" for ci
    using tag_at_tag[OF assms(2,3), of ci "'' {'' @ body @ ''}'' @ rest"] by simp
  have "json_args_at ?s = Some (''{'' @ body @ ''}'')"
    using braces_flat[OF assms(4), of "[CHR ''{'']" rest] t[of False]
    by (simp add: json_args_at_def is_space_def)
  moreover have "json_args_at u \<noteq> None \<Longrightarrow> u \<noteq> [] \<and> hd u = CHR ''[''" for u
    using tag_at_starts[of False u] by (auto simp: json_args_at_def split: option.splits)
  ultimately have j: "first_match json_args_at (pre @ ?s) = Some (''{'' @ body @ ''}'')"
    by (intro first_match_skip[OF assms(1)])
  have "first_match (tag_at True) (pre @ ?s) = Some (name, '' {'' @ body @ ''}'' @ rest)"
    by (intro first_match_skip[OF assms(1)] t) (rule tag_at_starts)
  with j show ?thesis by (simp add: classifyLLMResponse_def)
qed

theorem classify_tagged_witness:
  "cl_toolName (classifyLLMResponse (''Let me see. '' @ ''[tool:'' @ ''file_read'' @ '']'' @ '' {'' @ ''path'' @ ''}'' @ '' done'')) =
     Some ''file_read''"
  using classify_tagged[of "''Let me see. ''" "''file_read''" "''path''" "'' done''"] by (simp add: is_word_def Let_def)

text \<open>The arguments are searched in the whole text, not after the tag that named the tool: when the
  first tag has no arguments and a later one has, the first tool is called with the arguments of
  the second.\<close>

theorem classify_misattributes_args:
  "classifyLLMResponse ''[tool:code_interpreter] then [tool:file_read] {}'' =
     \<lparr>cl_tool_call = True, cl_toolName = Some ''code_interpreter'', cl_toolArgs = Some (JObj [])\<rparr>"
  by code_simp

end
