(* ===== verification/Activities.thy ===== *)
theory Activities
  imports ReactWorkflow Quota Classification
begin

text \<open>
  The Temporal activities of \<open>control-plane/workflow-engine/src/temporal/activities/index.ts\<close> and
  the dead-letter queue. The state is the module's quota enforcer; the gRPC clients, the policy
  plane's HTTP endpoint, the audit log, timers and the clock are parameters over its world. A gRPC
  stub is what \<open>promisifyGRPC\<close> makes of it: it resolves with the response or rejects with an
  error that has optional \<open>details\<close> and \<open>message\<close>.
\<close>

section \<open>Services\<close>

record grpc_error =
  ge_details :: "string option"
  ge_message :: "string option"

record llm_proto_message =
  lm_role :: string
  lm_content :: string
  lm_tool_call_id :: string
  lm_tool_calls :: "llm_tool_call list"

record llm_proto_request =
  lp_agent_id :: string
  lp_execution_id :: string
  lp_namespace :: string
  lp_messages :: "llm_proto_message list"
  lp_tool_definitions :: "(string \<times> string \<times> string) list"
  lp_model :: string

record llm_proto_response =
  ly_content :: "string option"
  ly_model_used :: "string option"
  ly_cost :: "string option"
  ly_tool_calls :: "llm_tool_call list option"
  ly_usage :: "(int option \<times> int option \<times> int option) option"

record tool_proto_response =
  ty_result :: "json option"
  ty_status :: string
  ty_error_message :: "string option"
  ty_latency_ms :: "int option"

record audit_call =
  au_eventType :: string
  au_severity :: string
  au_agent :: string
  au_namespace :: string
  au_action :: string
  au_result :: string
  au_reason :: "string option"
  au_target :: "string \<times> string"

record 'w services =
  sv_redis :: "'w redis option"
  sv_clock :: "'w \<Rightarrow> int"
  sv_sleep :: "int \<Rightarrow> 'w \<Rightarrow> 'w"
  sv_generate :: "llm_proto_request \<Rightarrow> 'w \<Rightarrow> (grpc_error + llm_proto_response) \<times> 'w"
  sv_call_tool :: "tool_args \<Rightarrow> 'w \<Rightarrow> (grpc_error + tool_proto_response) \<times> 'w"
  sv_write_memory :: "persist_args \<Rightarrow> 'w \<Rightarrow> (grpc_error + (string option \<times> string option)) \<times> 'w"
  sv_post_json :: "string \<Rightarrow> json \<Rightarrow> jint \<Rightarrow> 'w \<Rightarrow> (string + (int \<times> json)) \<times> 'w"
  sv_create_agent :: "string \<Rightarrow> string \<Rightarrow> json \<Rightarrow> 'w \<Rightarrow> (grpc_error + json) \<times> 'w"
  sv_create_sandbox :: "create_args \<Rightarrow> 'w \<Rightarrow> (grpc_error + json) \<times> 'w"
  sv_terminate_sandbox :: "string \<Rightarrow> string \<Rightarrow> 'w \<Rightarrow> (grpc_error + json) \<times> 'w"
  sv_export_trace :: "obs_args \<Rightarrow> int \<Rightarrow> 'w \<Rightarrow> (grpc_error + unit) \<times> 'w"
  sv_audit :: "audit_call \<Rightarrow> 'w \<Rightarrow> 'w"
  sv_policy_addr :: "string option"
  sv_opa_timeout :: "string option"

type_synonym ('w, 'a) am = "('w enforcer, svc_error, 'a) eff"

definition service :: "('w \<Rightarrow> ('e + 'a) \<times> 'w) \<Rightarrow> ('w enforcer, 'e, 'a) eff" where
  "service f = (\<lambda>q. case f (q_world q) of (r, w) \<Rightarrow> (r, q\<lparr>q_world := w\<rparr>))"

text \<open>The audit entry is written in a block that ignores its failure.\<close>

definition audit :: "'w services \<Rightarrow> audit_call \<Rightarrow> ('w, unit) am" where
  "audit V c = modify (\<lambda>q. q\<lparr>q_world := sv_audit V c (q_world q)\<rparr>)"

definition plain_error :: "string \<Rightarrow> svc_error" where
  "plain_error m = OtherError ''Error'' m"

definition now_ms :: "'w services \<Rightarrow> 'w enforcer \<Rightarrow> int" where
  "now_ms V q = sv_clock V (q_world q)"

section \<open>Waiting for quota\<close>

definition max_wait_ms :: int where "max_wait_ms = 240000"

definition is_quota_error :: "svc_error \<Rightarrow> bool" where
  "is_quota_error e = (case e of QuotaExceeded _ _ _ _ _ \<Rightarrow> True | _ \<Rightarrow> False)"

text \<open>The loop polls until the wait is exhausted; \<open>None\<close> would mean that it never ends.\<close>

partial_function (option) wait_loop ::
  "'w services \<Rightarrow> string \<Rightarrow> string \<Rightarrow> int \<Rightarrow> int \<Rightarrow> 'w enforcer \<Rightarrow> ((svc_error + unit) \<times> 'w enforcer) option" where
  "wait_loop V ns resource amount start q =
     (let check = quota_check (sv_redis V) (sv_clock V) ns resource amount q
      in if now_ms V q - start < max_wait_ms then
           (if \<not> isl (fst check) then Some check
            else if is_quota_error (projl (fst check)) then
              wait_loop V ns resource amount start
                ((snd check)\<lparr>q_world := sv_sleep V (min (qe_retryAfterMs (projl (fst check))) 10000) (q_world (snd check))\<rparr>)
            else Some check)
         else Some check)"

definition waitForQuota :: "'w services \<Rightarrow> string \<Rightarrow> string \<Rightarrow> int \<Rightarrow> 'w enforcer \<Rightarrow> ((svc_error + unit) \<times> 'w enforcer) option" where
  "waitForQuota V ns resource amount q = wait_loop V ns resource amount (now_ms V q) q"

section \<open>callLLM\<close>

definition role_text :: "role \<Rightarrow> string" where
  "role_text r = (case r of RSystem \<Rightarrow> ''system'' | RUser \<Rightarrow> ''user'' | RAssistant \<Rightarrow> ''assistant'' | RTool \<Rightarrow> ''tool'')"

definition llm_request :: "llm_args \<Rightarrow> llm_proto_request" where
  "llm_request p =
     \<lparr>lp_agent_id = la_agentId p, lp_execution_id = la_executionId p, lp_namespace = la_namespace p,
      lp_messages = map (\<lambda>m. \<lparr>lm_role = role_text (m_role m), lm_content = m_content m,
        lm_tool_call_id = nullish (m_toolCallId m) [], lm_tool_calls = nullish (m_toolCalls m) []\<rparr>) (la_messages p),
      lp_tool_definitions = map (\<lambda>td. (td_name td, td_description td,
        stringify (jnullish (td_inputSchema td) (JObj [])))) (la_toolDefinitions p),
      lp_model = nullish (la_model p) []\<rparr>"

definition usage_of_proto :: "(int option \<times> int option \<times> int option) option \<Rightarrow> llm_usage" where
  "usage_of_proto u = (case u of
     None \<Rightarrow> \<lparr>promptTokens = 0, completionTokens = 0, totalTokens = 0\<rparr>
   | Some (p, c, t) \<Rightarrow> \<lparr>promptTokens = nullish p 0, completionTokens = nullish c 0, totalTokens = nullish t 0\<rparr>)"

definition llm_response_of :: "llm_proto_response \<Rightarrow> llm_response" where
  "llm_response_of r =
     (let content = nullish (ly_content r) []; model = nullish (ly_model_used r) ''unknown'';
          cost = Some (nullish (ly_cost r) ''$0.00''); usage = usage_of_proto (ly_usage r)
      in case ly_tool_calls r of
           Some (tc # tcs) \<Rightarrow>
             \<lparr>lr_type = Tool_call, lr_content = content, lr_toolName = Some (tc_name tc),
              lr_toolArgs = Some (case json_parse (tc_args tc) of Some j \<Rightarrow> j | None \<Rightarrow> JObj []),
              lr_toolCallId = Some (tc_id tc), lr_toolCalls = Some (tc # tcs), lr_modelUsed = model, lr_cost = cost,
              lr_usage = usage\<rparr>
         | _ \<Rightarrow>
             (let c = classifyLLMResponse content
              in \<lparr>lr_type = (if cl_tool_call c then Tool_call else Final_answer), lr_content = content,
                  lr_toolName = cl_toolName c, lr_toolArgs = cl_toolArgs c, lr_toolCallId = None, lr_toolCalls = None,
                  lr_modelUsed = model, lr_cost = cost, lr_usage = usage\<rparr>))"

definition grpc_message :: "grpc_error \<Rightarrow> string" where
  "grpc_message e = nullish (ge_message e) []"

definition llm_body :: "'w services \<Rightarrow> llm_args \<Rightarrow> ('w, llm_response) am" where
  "llm_body V p = bind (attempt (service (sv_generate V (llm_request p)))) (\<lambda>r.
     case r of
       Inl e \<Rightarrow> throw (plain_error (grpc_message e))
     | Inr resp \<Rightarrow> seq
         (audit V \<lparr>au_eventType = ''agent.execution_start'', au_severity = ''info'', au_agent = la_agentId p,
            au_namespace = la_namespace p, au_action = ''callLLM'', au_result = ''allowed'', au_reason = None,
            au_target = (''llm'', la_executionId p)\<rparr>)
         (ret (llm_response_of resp)))"

definition callLLM :: "'w services \<Rightarrow> llm_args \<Rightarrow> 'w enforcer \<Rightarrow> ((svc_error + llm_response) \<times> 'w enforcer) option" where
  "callLLM V p q =
     (case waitForQuota V (la_namespace p) ''concurrent_executions'' 1 q of
        None \<Rightarrow> None
      | Some (Inl e, q') \<Rightarrow> Some (Inl e, q')
      | Some (Inr _, q') \<Rightarrow> Some (finally_do (llm_body V p)
          (quota_release (sv_redis V) (la_namespace p) ''concurrent_executions'' 1) q'))"

section \<open>executeTool\<close>

definition REQUIRED_ARGS :: "(string \<times> string list) list" where
  "REQUIRED_ARGS = [(''code_interpreter'', [''code'', ''script'']), (''read_file'', [''path'']), (''write_file'', [''path'', ''content''])]"

definition missing_arg :: "json \<Rightarrow> string \<Rightarrow> bool" where
  "missing_arg args k \<longleftrightarrow> (case jget args k of None \<Rightarrow> True | Some JNull \<Rightarrow> True | Some (JStr s) \<Rightarrow> s = [] | Some _ \<Rightarrow> False)"

definition failed_tool :: "string \<Rightarrow> string \<Rightarrow> int \<Rightarrow> tool_result" where
  "failed_tool name msg ms = \<lparr>tr_toolName = name, tr_status = Tool_failed, tr_result = None,
     tr_errorMessage = Some msg, tr_latencyMs = ms\<rparr>"

fun join_comma :: "string list \<Rightarrow> string" where
  "join_comma [] = []"
| "join_comma [x] = x"
| "join_comma (x # xs) = x @ '', '' @ join_comma xs"

definition missing_message :: "string \<Rightarrow> string list \<Rightarrow> string" where
  "missing_message name required = ''Missing required arguments for '' @ name @ '': expected one of ['' @
     join_comma required @ ''] but got none''"

definition tool_failure :: "'w services \<Rightarrow> int \<Rightarrow> string \<Rightarrow> grpc_error \<Rightarrow> ('w, tool_result) am" where
  "tool_failure V start name e =
     (let inc = (\<lambda>t. case ge_details e of None \<Rightarrow> False | Some d \<Rightarrow> str_includes d t)
      in if inc ''PII_VIOLATION'' then throw (plain_error ''PII_VIOLATION: Tool execution blocked due to PII detection'')
         else if inc ''POLICY_DENIED'' then throw (plain_error ''POLICY_DENIED: Tool execution denied by policy'')
         else with_state (\<lambda>q. ret (failed_tool name
           (case ge_details e of Some d \<Rightarrow> d | None \<Rightarrow> nullish (ge_message e) ''Unknown error'') (now_ms V q - start))))"

definition tool_body :: "'w services \<Rightarrow> tool_args \<Rightarrow> int \<Rightarrow> ('w, tool_result) am" where
  "tool_body V p start = bind (attempt (service (sv_call_tool V p))) (\<lambda>r.
     case r of
       Inl e \<Rightarrow> tool_failure V start (ta_toolName p) e
     | Inr resp \<Rightarrow> seq
         (audit V \<lparr>au_eventType = ''agent.tool_call'', au_severity = ''info'', au_agent = ta_agentId p,
            au_namespace = ta_namespace p, au_action = ta_toolName p,
            au_result = (if ty_status resp = ''succeeded'' then ''allowed'' else ''error''), au_reason = None,
            au_target = (''tool'', ta_toolName p)\<rparr>)
         (with_state (\<lambda>q. ret
           \<lparr>tr_toolName = ta_toolName p,
            tr_status = (if ty_status resp = ''succeeded'' then Tool_succeeded else Tool_failed),
            tr_result = ty_result resp, tr_errorMessage = ty_error_message resp,
            tr_latencyMs = nullish (ty_latency_ms resp) (now_ms V q - start)\<rparr>)))"

text \<open>
  The table of required arguments is an object literal: a tool that is named like an inherited
  member finds a value without a \<open>filter\<close> method, and the call rejects.
\<close>

definition executeTool :: "'w services \<Rightarrow> tool_args \<Rightarrow> 'w enforcer \<Rightarrow> ((svc_error + tool_result) \<times> 'w enforcer) option" where
  "executeTool V p q =
     (let start = now_ms V q; name = ta_toolName p;
          go = (case waitForQuota V (ta_namespace p) ''tool_calls_per_minute'' 1 q of
                  None \<Rightarrow> None
                | Some (Inl e, q') \<Rightarrow> Some (Inl e, q')
                | Some (Inr _, q') \<Rightarrow> Some (tool_body V p start q'))
      in case map_of REQUIRED_ARGS name of
           Some required \<Rightarrow>
             if list_all (missing_arg (ta_args p)) required
             then Some (Inr (failed_tool name (missing_message name required) (now_ms V q - start)), q)
             else go
         | None \<Rightarrow>
             if name \<in> set proto_members
             then Some (Inl (OtherError ''TypeError'' ''required.filter is not a function''), q) else go)"

section \<open>persistMemory, recordObservability\<close>

definition error_text :: "grpc_error \<Rightarrow> string" where
  "error_text e = (case ge_details e of Some d \<Rightarrow> d | None \<Rightarrow> nullish (ge_message e) ''undefined'')"

definition persistMemory :: "'w services \<Rightarrow> persist_args \<Rightarrow> ('w, string \<times> string) am" where
  "persistMemory V p = bind (attempt (service (sv_write_memory V p))) (\<lambda>r.
     case r of
       Inr (st, v) \<Rightarrow> ret (nullish st ''success'', nullish v [])
     | Inl e \<Rightarrow> throw (plain_error (''Memory persist failed: '' @ error_text e)))"

definition recordObservability :: "'w services \<Rightarrow> obs_args \<Rightarrow> ('w, bool) am" where
  "recordObservability V a = with_state (\<lambda>q.
     bind (attempt (service (sv_export_trace V a (now_ms V q)))) (\<lambda>r. ret (case r of Inr _ \<Rightarrow> True | Inl _ \<Rightarrow> False)))"

section \<open>evaluatePolicy, admitAgent\<close>

text \<open>
  The clearance of a role, as the lookup in the literal \<open>roleToClearance\<close> yields it: an inherited
  function has no JSON form, and \<open>__proto__\<close> is an object.
\<close>

definition clearance :: "string option \<Rightarrow> json option" where
  "clearance caller =
     (let role = (case caller of None \<Rightarrow> [] | Some r \<Rightarrow> r)
      in case map_of [(''platform_admin'', 3), (''namespace_admin'', 3), (''developer'', 2), (''viewer'', 1)] role of
           Some n \<Rightarrow> Some (JNum (Num n))
         | None \<Rightarrow> if role = ''__proto__'' then Some (JObj [])
             else if role \<in> set proto_members then None else Some (JNum (Num 2)))"

definition policy_input :: "policy_args \<Rightarrow> json" where
  "policy_input p = JObj [(''input'', JObj
     [(''subject'', JObj ([(''namespace'', JStr (pa_namespace p))] @
         (case clearance (pa_callerRole p) of None \<Rightarrow> [] | Some c \<Rightarrow> [(''clearance'', c)]))),
      (''action'', JStr (pa_action p)),
      (''resource'', JObj [(''namespace'', JStr (case pa_resourceNamespace p of
         Some (c # cs) \<Rightarrow> c # cs | _ \<Rightarrow> pa_namespace p))])])]"

definition policy_decision_of :: "json \<Rightarrow> policy_decision" where
  "policy_decision_of data =
     (let res = jget data ''result'';
          allow = (case res of Some r \<Rightarrow> jget r ''allow'' = Some (JBool True) | None \<Rightarrow> False);
          reason = (case res of Some r \<Rightarrow> (case jget r ''reason'' of Some (JStr t) \<Rightarrow> t | _ \<Rightarrow> ''Policy denied'') | None \<Rightarrow> ''Policy denied'')
      in \<lparr>pd_allow = allow, pd_reason = (if allow then [] else reason)\<rparr>)"

definition policy_failed :: "string \<Rightarrow> policy_decision" where
  "policy_failed m = \<lparr>pd_allow = False, pd_reason = ''Policy evaluation failed: '' @ m\<rparr>"

text \<open>A body that is JSON \<open>null\<close> has no properties to read.\<close>

definition evaluatePolicy :: "'w services \<Rightarrow> policy_args \<Rightarrow> ('w, policy_decision) am" where
  "evaluatePolicy V p =
     bind (attempt (service (sv_post_json V (env_or (sv_policy_addr V) ''http://policy-plane:50059'' @ ''/v1/data/egaop/execution'')
            (policy_input p) (parse_int (env_or (sv_opa_timeout V) ''5000''))))) (\<lambda>r.
       case r of
         Inl e \<Rightarrow> ret (policy_failed e)
       | Inr (st, data) \<Rightarrow>
           if st < 200 \<or> 300 \<le> st then ret (policy_failed (''Policy-plane returned HTTP '' @ show_int st))
           else if data = JNull then ret (policy_failed ''Cannot read properties of null'')
           else let d = policy_decision_of data
             in seq (audit V \<lparr>au_eventType = (if pd_allow d then ''policy.decision'' else ''policy.deny''),
                    au_severity = (if pd_allow d then ''info'' else ''warn''), au_agent = pa_agentId p, au_namespace = pa_namespace p,
                    au_action = pa_action p, au_result = (if pd_allow d then ''allowed'' else ''denied''),
                    au_reason = (if pd_reason d = [] then None else Some (pd_reason d)), au_target = (''policy'', pa_action p)\<rparr>)
                  (ret d))"

definition admitAgent :: "'w services \<Rightarrow> string \<Rightarrow> string \<Rightarrow> json \<Rightarrow> ('w, bool) am" where
  "admitAgent V agent ns spec =
     bind (attempt (service (sv_create_agent V agent ns spec))) (\<lambda>r.
       case r of
         Inr resp \<Rightarrow> seq
           (audit V \<lparr>au_eventType = ''agent.create'', au_severity = ''info'', au_agent = agent, au_namespace = ns,
              au_action = ''admitAgent'', au_result = ''allowed'', au_reason = None, au_target = (''agent'', agent)\<rparr>)
           (ret (case jget resp ''status'' of
              Some st \<Rightarrow> jget st ''phase'' \<in> {Some (JStr ''Pending''), Some (JStr ''Running'')} | None \<Rightarrow> False))
       | Inl e \<Rightarrow>
           let msg = (case ge_details e of Some d \<Rightarrow> d | None \<Rightarrow> nullish (ge_message e) [])
           in if str_includes msg ''already exists'' then ret True else throw (plain_error (''Admission failed: '' @ msg)))"

section \<open>Sandboxes\<close>

definition jstr_or :: "json option \<Rightarrow> string \<Rightarrow> string" where
  "jstr_or v d = (case v of Some (JStr s) \<Rightarrow> s | _ \<Rightarrow> d)"

definition createSandbox :: "'w services \<Rightarrow> create_args \<Rightarrow> ('w, sandbox_result) am" where
  "createSandbox V p = bind (attempt (service (sv_create_sandbox V p))) (\<lambda>r.
     case r of
       Inr resp \<Rightarrow> ret \<lparr>sr_id = jstr_or (jget resp ''sandbox_id'') [],
         sr_ipAddress = (case jget resp ''ip_address'' of Some (JStr s) \<Rightarrow> Some s | _ \<Rightarrow> None)\<rparr>
     | Inl e \<Rightarrow> throw (plain_error (''Sandbox creation failed: '' @ error_text e)))"

definition terminateSandbox :: "'w services \<Rightarrow> string \<Rightarrow> string \<Rightarrow> ('w, bool) am" where
  "terminateSandbox V sid reason = bind (attempt (service (sv_terminate_sandbox V sid reason))) (\<lambda>r.
     case r of
       Inr resp \<Rightarrow> ret (jget resp ''success'' = Some (JBool True))
     | Inl e \<Rightarrow> throw (plain_error (''Sandbox termination failed: '' @ error_text e)))"

section \<open>Fail closed\<close>

text \<open>C22. Policy evaluation fails closed: it never rejects, and it allows only when the policy plane
  answered with a 2xx status and a body whose \<open>result.allow\<close> is exactly \<open>true\<close>; every refusal
  carries a reason unless the policy plane sent an empty one.\<close>

theorem policy_fails_closed:
  "case evaluatePolicy V p q of
     (Inl e, _) \<Rightarrow> False
   | (Inr d, _) \<Rightarrow> pd_allow d = (\<exists>st data r w. sv_post_json V (env_or (sv_policy_addr V) ''http://policy-plane:50059'' @ ''/v1/data/egaop/execution'')
         (policy_input p) (parse_int (env_or (sv_opa_timeout V) ''5000'')) (q_world q) = (Inr (st, data), w) \<and>
       200 \<le> st \<and> st < 300 \<and> jget data ''result'' = Some r \<and> jget r ''allow'' = Some (JBool True))"
proof -
  obtain x w where post: "sv_post_json V (env_or (sv_policy_addr V) ''http://policy-plane:50059'' @ ''/v1/data/egaop/execution'')
         (policy_input p) (parse_int (env_or (sv_opa_timeout V) ''5000'')) (q_world q) = (x, w)" by fastforce
  have n: "jget JNull k = None" for k by (simp add: jget_def)
  show ?thesis
  proof (cases x)
    case (Inl e)
    with post show ?thesis
      by (simp add: evaluatePolicy_def bind_def attempt_def service_def ret_def policy_failed_def)
  next
    case (Inr y)
    obtain st data where y: "y = (st, data)" by (cases y)
    with Inr post show ?thesis
      by (auto simp: evaluatePolicy_def bind_def attempt_def service_def ret_def policy_failed_def seq_def audit_def modify_def
          policy_decision_of_def Let_def n split: option.splits)
  qed
qed

section \<open>Tool errors\<close>

text \<open>A tool call that was dispatched rejects only for a violation: after quota was granted, the
  activity either returns a result for the named tool or rejects with an error that the workflow
  treats as fatal, and it does the latter only when the proxy's error details name the violation.\<close>

theorem tool_rejects_only_violations:
  "case tool_body V p start q of
     (Inr t, _) \<Rightarrow> tr_toolName t = ta_toolName p
   | (Inl e, _) \<Rightarrow> fatal_tool_error (err_message e) \<and>
       (\<exists>g d w. sv_call_tool V p (q_world q) = (Inl g, w) \<and> ge_details g = Some d \<and> fatal_tool_error d)"
proof -
  obtain x w where call: "sv_call_tool V p (q_world q) = (x, w)" by fastforce
  have v: "str_includes ''PII_VIOLATION: Tool execution blocked due to PII detection'' ''PII_VIOLATION''"
    "str_includes ''POLICY_DENIED: Tool execution denied by policy'' ''POLICY_DENIED''"
    by code_simp+
  show ?thesis
  proof (cases x)
    case (Inl g)
    with call v show ?thesis
      by (auto simp: tool_body_def bind_def attempt_def service_def tool_failure_def Let_def throw_def with_state_def ret_def
          failed_tool_def fatal_tool_error_def plain_error_def split: option.splits)
  next
    case (Inr resp)
    with call show ?thesis
      by (simp add: tool_body_def bind_def attempt_def service_def seq_def audit_def modify_def with_state_def ret_def)
  qed
qed

section \<open>Quota of LLM calls\<close>

lemma held_count_world [simp]: "held_count (q\<lparr>q_world := w\<rparr>) = held_count q"
  by (simp add: held_count_def fun_eq_iff)

lemma concurrent_check_held:
  "held_count (snd (quota_check None clock ns ''concurrent_executions'' 1 q)) =
     (if isl (fst (quota_check None clock ns ''concurrent_executions'' 1 q)) then held_count q
      else (held_count q)(ns := held_count q ns + 1))"
  by (simp add: concurrent_check held_count_set)

lemma wait_concurrent:
  assumes "wait_loop V ns resource amount start q = Some y"
  shows "sv_redis V = None \<longrightarrow> resource = ''concurrent_executions'' \<longrightarrow> amount = 1 \<longrightarrow>
    held_count (snd y) = (if isl (fst y) then held_count q else (held_count q)(ns := held_count q ns + 1))"
proof (rule wait_loop.raw_induct[OF _ assms, of "\<lambda>V ns resource amount start q y. sv_redis V = None \<longrightarrow>
    resource = ''concurrent_executions'' \<longrightarrow> amount = 1 \<longrightarrow>
    held_count (snd y) = (if isl (fst y) then held_count q else (held_count q)(ns := held_count q ns + 1))"])
  fix wl :: "'a services \<Rightarrow> string \<Rightarrow> string \<Rightarrow> int \<Rightarrow> int \<Rightarrow> 'a enforcer \<Rightarrow> ((svc_error + unit) \<times> 'a enforcer) option"
    and V :: "'a services" and ns resource amount start and q :: "'a enforcer" and y
  let ?c = "quota_check (sv_redis V) (sv_clock V) ns resource amount q"
  let ?q' = "(snd ?c)\<lparr>q_world := sv_sleep V (min (qe_retryAfterMs (projl (fst ?c))) 10000) (q_world (snd ?c))\<rparr>"
  assume IH: "\<And>(V :: 'a services) ns resource amount start q y. wl V ns resource amount start q = Some y \<Longrightarrow>
      sv_redis V = None \<longrightarrow> resource = ''concurrent_executions'' \<longrightarrow> amount = 1 \<longrightarrow>
      held_count (snd y) = (if isl (fst y) then held_count q else (held_count q)(ns := held_count q ns + 1))"
    and step: "(let check = ?c in
       if now_ms V q - start < max_wait_ms then
         (if \<not> isl (fst check) then Some check
          else if is_quota_error (projl (fst check)) then wl V ns resource amount start
            ((snd check)\<lparr>q_world := sv_sleep V (min (qe_retryAfterMs (projl (fst check))) 10000) (q_world (snd check))\<rparr>)
          else Some check)
       else Some check) = Some y"
  show "sv_redis V = None \<longrightarrow> resource = ''concurrent_executions'' \<longrightarrow> amount = 1 \<longrightarrow>
    held_count (snd y) = (if isl (fst y) then held_count q else (held_count q)(ns := held_count q ns + 1))"
  proof (intro impI)
    assume a: "sv_redis V = None" "resource = ''concurrent_executions''" "amount = 1"
    note h = concurrent_check_held[of "sv_clock V" ns q]
    have "y = ?c \<or> isl (fst ?c) \<and> wl V ns resource amount start ?q' = Some y"
      using step by (auto simp: Let_def split: if_splits)
    then show "held_count (snd y) = (if isl (fst y) then held_count q else (held_count q)(ns := held_count q ns + 1))"
    proof
      assume "y = ?c"
      then show ?thesis using h a by simp
    next
      assume w: "isl (fst ?c) \<and> wl V ns resource amount start ?q' = Some y"
      then have "held_count (snd y) = (if isl (fst y) then held_count ?q' else (held_count ?q')(ns := held_count ?q' ns + 1))"
        using IH a by blast
      moreover have "held_count ?q' = held_count q" using w h a by simp
      ultimately show ?thesis by simp
    qed
  qed
qed

text \<open>The body of a call and its audit entry leave the enforcer alone.\<close>

lemma llm_body_held: "held_count (snd (llm_body V p q)) = held_count q"
  by (auto simp: llm_body_def bind_def attempt_def service_def throw_def seq_def audit_def modify_def ret_def
      split: prod.splits sum.splits)


definition demo_services :: "int services" where
  "demo_services =
     \<lparr>sv_redis = None, sv_clock = id, sv_sleep = (\<lambda>n w. w + max 1 n),
      sv_generate = (\<lambda>_ w. (Inr \<lparr>ly_content = Some ''42'', ly_model_used = None, ly_cost = None, ly_tool_calls = None, ly_usage = None\<rparr>, w)),
      sv_call_tool = (\<lambda>_ w. (Inl \<lparr>ge_details = None, ge_message = None\<rparr>, w)),
      sv_write_memory = (\<lambda>_ w. (Inr (None, None), w)), sv_post_json = (\<lambda>_ _ _ w. (Inl ''down'', w)),
      sv_create_agent = (\<lambda>_ _ _ w. (Inr JNull, w)), sv_create_sandbox = (\<lambda>_ w. (Inr JNull, w)),
      sv_terminate_sandbox = (\<lambda>_ _ w. (Inr JNull, w)), sv_export_trace = (\<lambda>_ _ w. (Inr (), w)),
      sv_audit = (\<lambda>_ w. w), sv_policy_addr = None, sv_opa_timeout = None\<rparr>"

definition demo_llm_args :: llm_args where
  "demo_llm_args = \<lparr>la_agentId = ''a'', la_executionId = ''e'', la_namespace = ''n'', la_messages = [], la_model = None,
     la_toolDefinitions = []\<rparr>"

lemma quota_check_world: "q_world (snd (quota_check None clock ns resource amount q)) = q_world q"
  by (simp add: quota_check_def check_redis_def check_fallback_def bind_def ret_def throw_def Let_def
      split: option.splits prod.splits sum.splits if_splits)

lemma wait_loop_returns:
  assumes "sv_redis V = None" and timer: "\<forall>n w. sv_clock V w + max 1 n \<le> sv_clock V (sv_sleep V n w)"
  shows "\<exists>y. wait_loop V ns resource amount start p = Some y"
proof (induction "nat (max_wait_ms - (now_ms V p - start))" arbitrary: p rule: less_induct)
  case less
  let ?c = "quota_check None (sv_clock V) ns resource amount p"
  let ?p = "(snd ?c)\<lparr>q_world := sv_sleep V (min (qe_retryAfterMs (projl (fst ?c))) 10000) (q_world (snd ?c))\<rparr>"
  have "now_ms V p + 1 \<le> now_ms V ?p"
    using spec[OF spec[OF timer], of "q_world p" "min (qe_retryAfterMs (projl (fst ?c))) 10000"]
    by (simp add: now_ms_def quota_check_world)
  then have "\<exists>y. wait_loop V ns resource amount start ?p = Some y" if "now_ms V p - start < max_wait_ms"
    using that by (intro less) auto
  then show ?case by (simp add: wait_loop.simps[of V ns resource amount start p] assms(1) Let_def)
qed

lemma demo_timer: "sv_redis demo_services = None" "\<forall>n w. sv_clock demo_services w + max 1 n \<le> sv_clock demo_services (sv_sleep demo_services n w)"
  by (simp_all add: demo_services_def)

lemma demo_call: "\<exists>r q'. callLLM demo_services demo_llm_args (enforcer_new None 0) = Some (r, q')"
proof -
  let ?q = "enforcer_new None (0 :: int)"
  obtain y where "wait_loop demo_services (la_namespace demo_llm_args) ''concurrent_executions'' 1 (now_ms demo_services ?q) ?q = Some y"
    using wait_loop_returns[OF demo_timer] by blast
  then show ?thesis by (cases y; cases "fst y") (auto simp: callLLM_def waitForQuota_def split: prod.splits)
qed


text \<open>Waiting for quota always ends: without Redis, and with timers that take at least the time they
  were set for and at least a millisecond, \<open>waitForQuota\<close> returns from every state.\<close>

theorem waitForQuota_returns:
  assumes "sv_redis V = None" and "\<forall>n w. sv_clock V w + max 1 n \<le> sv_clock V (sv_sleep V n w)"
  shows "\<exists>y. waitForQuota V ns resource amount q = Some y"
  using wait_loop_returns[OF assms] by (simp add: waitForQuota_def)

theorem waitForQuota_returns_witness:
  "\<exists>y. waitForQuota demo_services ''n'' ''tool_calls_per_minute'' 1
     \<lparr>q_windowSeconds = 60, q_fallback = [(''n:tool_calls_per_minute'', \<lparr>fe_count = 30, fe_windowStart = 0\<rparr>)], q_world = 0\<rparr> = Some y"
  by (rule waitForQuota_returns) (simp_all add: demo_services_def)

end
