(* ===== verification/DeadLetter.thy ===== *)
theory DeadLetter
  imports ReactWorkflow
begin

text \<open>
  The dead-letter queue: \<open>reportOutcome\<close> of \<open>temporal/activities/dead-letter-queue.ts\<close> and the
  administration endpoints of \<open>control-plane/workflow-engine/src/index.ts\<close>. The table
  \<open>dead_letter_queue\<close> is a map from its unique execution id to the columns the queries name, in
  the order of insertion; the queries are those of the source. Whether the pool answers is an
  argument of each operation; the time is the database's.
\<close>

section \<open>The table\<close>

record dlq_row =
  dq_agent_id :: string
  dq_namespace :: string
  dq_status :: agent_status
  dq_error_message :: "string option"
  dq_output :: string
  dq_total_cost :: string
  dq_iterations :: int
  dq_tool_calls :: "tool_call_record list"
  dq_failed_at :: int
  dq_replayed_at :: "int option"
  dq_replay_count :: int

type_synonym dlq = "(string, dlq_row) js_map"

text \<open>\<open>INSERT ... ON CONFLICT (execution_id) DO UPDATE\<close>: only the listed columns change.\<close>

definition dlq_upsert :: "int \<Rightarrow> string \<Rightarrow> string \<Rightarrow> string \<Rightarrow> agent_result \<Rightarrow> dlq \<Rightarrow> dlq" where
  "dlq_upsert now agent execution ns r t =
     (case js_get t execution of
        None \<Rightarrow> js_set execution
          \<lparr>dq_agent_id = agent, dq_namespace = ns, dq_status = ar_status r, dq_error_message = ar_error r,
           dq_output = ar_output r, dq_total_cost = ar_totalCost r, dq_iterations = ar_iterations r,
           dq_tool_calls = ar_toolCalls r, dq_failed_at = now, dq_replayed_at = None, dq_replay_count = 0\<rparr> t
      | Some row \<Rightarrow> js_set execution
          (row\<lparr>dq_status := ar_status r, dq_error_message := ar_error r, dq_output := ar_output r,
               dq_tool_calls := ar_toolCalls r\<rparr>) t)"

text \<open>A failing query is logged and swallowed.\<close>

definition reportOutcome :: "bool \<Rightarrow> int \<Rightarrow> string \<Rightarrow> string \<Rightarrow> string \<Rightarrow> agent_result \<Rightarrow> dlq \<Rightarrow> dlq" where
  "reportOutcome up now agent execution ns r t =
     (if ar_status r \<noteq> ERROR then t
      else if \<not> up then t
      else dlq_upsert now agent execution ns r t)"

section \<open>The administration endpoints\<close>

record http_request =
  rq_url :: string
  rq_method :: string
  rq_authorization :: "string option"
  rq_service_token :: "string option"

datatype http_reply =
    Status int "(string \<times> string) list"
  | Entries "(string \<times> dlq_row) list"

definition verifyServiceToken :: "string option \<Rightarrow> http_request \<Rightarrow> bool" where
  "verifyServiceToken configured req =
     (case configured of
        None \<Rightarrow> False
      | Some token \<Rightarrow>
          token \<noteq> [] \<and>
          ((case rq_authorization req of
              Some h \<Rightarrow> prefix ''Bearer '' h \<and> drop 7 h = token
            | None \<Rightarrow> False) \<or> rq_service_token req = Some token))"

text \<open>\<open>/^\/dlq\/([^/]+)\/replay$/\<close>\<close>

definition replay_match :: "string \<Rightarrow> string option" where
  "replay_match url =
     (if prefix ''/dlq/'' url then
        (let rest = drop 5 url; eid = takeWhile (\<lambda>c. c \<noteq> CHR ''/'') rest
         in if eid \<noteq> [] \<and> dropWhile (\<lambda>c. c \<noteq> CHR ''/'') rest = ''/replay'' then Some eid else None)
      else None)"

text \<open>\<open>ORDER BY failed_at DESC LIMIT 100\<close>\<close>

definition dlq_list :: "dlq \<Rightarrow> (string \<times> dlq_row) list" where
  "dlq_list t = take 100 (sort_key (\<lambda>(_, r). - dq_failed_at r) t)"

definition dlq_replay :: "int \<Rightarrow> string \<Rightarrow> dlq \<Rightarrow> dlq" where
  "dlq_replay now eid t =
     (case js_get t eid of
        None \<Rightarrow> t
      | Some row \<Rightarrow> js_set eid (row\<lparr>dq_replayed_at := Some now, dq_replay_count := dq_replay_count row + 1\<rparr>) t)"

definition unauthorized :: http_reply where
  "unauthorized = Status 401 [(''error'', ''Unauthorized: valid service token required'')]"

definition health_handler :: "string option \<Rightarrow> bool \<Rightarrow> (string + unit) \<Rightarrow> int \<Rightarrow> http_request \<Rightarrow> dlq \<Rightarrow> http_reply \<times> dlq" where
  "health_handler configured ready db now req t =
     (let url = rq_url req
      in if url = ''/healthz'' \<or> url = ''/readyz'' then
           (Status (if ready then 200 else 503)
              [(''status'', if ready then ''SERVING'' else ''NOT_SERVING''), (''service'', ''workflow-engine'')], t)
         else if prefix ''/dlq'' url then
           (if \<not> verifyServiceToken configured req then (unauthorized, t)
            else if url = ''/dlq'' \<and> rq_method req = ''GET'' then
              (case db of Inr _ \<Rightarrow> (Entries (dlq_list t), t) | Inl e \<Rightarrow> (Status 500 [(''error'', e)], t))
            else case replay_match url of
                Some eid \<Rightarrow>
                  if rq_method req = ''POST'' then
                    (case db of
                       Inr _ \<Rightarrow> (Status 200 [(''replayed'', ''true''), (''execution_id'', eid)], dlq_replay now eid t)
                     | Inl e \<Rightarrow> (Status 500 [(''error'', e)], t))
                  else (Status 404 [], t)
              | None \<Rightarrow> (Status 404 [], t))
         else (Status 404 [], t))"

section \<open>What the queue keeps\<close>

datatype dlq_op =
    Report bool int string string string agent_result
  | Http "string + unit" int http_request

fun dlq_step :: "string option \<Rightarrow> dlq_op \<Rightarrow> dlq \<Rightarrow> dlq" where
  "dlq_step tok (Report up now agent execution ns r) t = reportOutcome up now agent execution ns r t"
| "dlq_step tok (Http db now req) t = snd (health_handler tok True db now req t)"

definition never_lost :: "dlq \<Rightarrow> dlq \<Rightarrow> bool" where
  "never_lost t u \<longleftrightarrow> (\<forall>k r. js_get t k = Some r \<longrightarrow> (\<exists>s. js_get u k = Some s \<and> dq_replay_count r \<le> dq_replay_count s \<and>
     dq_failed_at s = dq_failed_at r))"

lemma upsert_never_lost: "never_lost t (dlq_upsert now a e ns r t)"
  by (auto simp: never_lost_def dlq_upsert_def js_get_set split: option.splits)

lemma replay_never_lost: "never_lost t (dlq_replay now e t)"
  by (auto simp: never_lost_def dlq_replay_def js_get_set split: option.splits)

lemma never_lost_refl: "never_lost t t"
  by (simp add: never_lost_def)

lemma never_lost_trans:
  assumes "never_lost t u" and "never_lost u v"
  shows "never_lost t v"
  unfolding never_lost_def
proof (intro allI impI)
  fix k r
  assume "js_get t k = Some r"
  then obtain s where s: "js_get u k = Some s" "dq_replay_count r \<le> dq_replay_count s" "dq_failed_at s = dq_failed_at r"
    using assms(1) unfolding never_lost_def by blast
  then obtain w where "js_get v k = Some w" "dq_replay_count s \<le> dq_replay_count w" "dq_failed_at w = dq_failed_at s"
    using assms(2) unfolding never_lost_def by blast
  with s show "\<exists>s. js_get v k = Some s \<and> dq_replay_count r \<le> dq_replay_count s \<and> dq_failed_at s = dq_failed_at r"
    by (intro exI[of _ w]) simp
qed

lemma health_handler_cases: "snd (health_handler tok ready db now req t) = t \<or>
    (\<exists>eid. snd (health_handler tok ready db now req t) = dlq_replay now eid t)"
proof (cases db)
  case (Inl e)
  then show ?thesis by (cases "replay_match (rq_url req)") (simp_all add: health_handler_def Let_def)
next
  case (Inr u)
  show ?thesis
  proof (cases "replay_match (rq_url req)")
    case None
    with Inr show ?thesis by (simp add: health_handler_def Let_def)
  next
    case (Some a)
    with Inr have "snd (health_handler tok ready db now req t) \<in> {t, dlq_replay now a t}"
      by (simp add: health_handler_def Let_def)
    then show ?thesis by blast
  qed
qed

lemma reportOutcome_cases: "reportOutcome up now a e ns r t = t \<or> reportOutcome up now a e ns r t = dlq_upsert now a e ns r t"
  by (simp add: reportOutcome_def)

lemma dlq_step_never_lost: "never_lost t (dlq_step tok p t)"
proof (cases p)
  case (Report up now a e ns r)
  then show ?thesis
    using reportOutcome_cases[of up now a e ns r t] by (auto simp: upsert_never_lost never_lost_refl)
next
  case (Http db now req)
  then show ?thesis
    using health_handler_cases[of tok True db now req t] by (auto simp: replay_never_lost never_lost_refl)
qed

lemma unauthorized_unchanged:
  "\<not> verifyServiceToken tok req \<Longrightarrow> snd (health_handler tok ready db now req t) = t"
  by (simp add: health_handler_def Let_def)

text \<open>The dead-letter queue loses nothing: whatever outcomes are reported and whatever requests
  arrive at the administration endpoints, every entry stays with its failure time and its replay
  count never falls; and requests without a valid service token never change the queue.\<close>

theorem dlq_never_loses:
  "never_lost t (fold (dlq_step tok) ops t) \<and>
   ((\<forall>op \<in> set ops. case op of Report _ _ _ _ _ _ \<Rightarrow> False | Http _ _ req \<Rightarrow> \<not> verifyServiceToken tok req) \<longrightarrow>
      fold (dlq_step tok) ops t = t)"
proof
  show "never_lost t (fold (dlq_step tok) ops t)"
  proof (induction ops arbitrary: t)
    case Nil
    show ?case by (simp add: never_lost_refl)
  next
    case (Cons p ops)
    show ?case using never_lost_trans[OF dlq_step_never_lost Cons.IH] by simp
  qed
  show "(\<forall>op \<in> set ops. case op of Report _ _ _ _ _ _ \<Rightarrow> False | Http _ _ req \<Rightarrow> \<not> verifyServiceToken tok req) \<longrightarrow>
      fold (dlq_step tok) ops t = t"
    by (induction ops) (auto simp: unauthorized_unchanged split: dlq_op.splits)
qed

definition forged_replay :: http_request where
  "forged_replay = \<lparr>rq_url = ''/dlq/e/replay'', rq_method = ''POST'', rq_authorization = Some ''Bearer x'', rq_service_token = None\<rparr>"

lemma forged_rejected: "\<not> verifyServiceToken (Some ''k'') forged_replay"
  by code_simp

theorem dlq_never_loses_witness: "fold (dlq_step (Some ''k'')) [Http (Inr ()) 0 forged_replay] [] = []"
  using dlq_never_loses[of "[]" "Some ''k''" "[Http (Inr ()) 0 forged_replay]"]
  by (simp only: list.set ball_simps dlq_op.case forged_rejected simp_thms)

end
