(* ===== verification/PolicyPlane.thy ===== *)
theory PolicyPlane
  imports Json "HOL-Library.Char_ord" "HOL-Library.List_Lexorder"
begin

text \<open>
  The policy plane of \<open>policy-plane/src/service.ts\<close>: the circuit breaker, the decision cache, the
  canonical hash of an input and the evaluation of a policy by the Open Policy Agent (OPA). An
  evaluation is two atomic steps around the HTTP call; between them other evaluations run on the
  same breaker and cache. SHA-256, the HTTP transport and the clock are parameters. Tracing and log
  lines are left out. A dash in a reason text is the byte sequence of its UTF-8 form.
\<close>

section \<open>Circuit breaker\<close>

datatype circuit_state = Circuit_Closed | Circuit_Open | Circuit_HalfOpen

record breaker =
  cb_state :: circuit_state
  cb_failureCount :: int
  cb_lastFailureTime :: int
  cb_failureThreshold :: jint
  cb_recoveryTimeMs :: jint

definition breaker_new :: "jint option \<Rightarrow> jint option \<Rightarrow> (string \<Rightarrow> string option) \<Rightarrow> breaker" where
  "breaker_new threshold recovery env =
     \<lparr>cb_state = Circuit_Closed, cb_failureCount = 0, cb_lastFailureTime = 0,
      cb_failureThreshold = nullish threshold (parse_int (env_or (env ''OPA_CIRCUIT_BREAKER_THRESHOLD'') ''5'')),
      cb_recoveryTimeMs = nullish recovery (parse_int (env_or (env ''OPA_CIRCUIT_BREAKER_RECOVERY_MS'') ''30000''))\<rparr>"

definition recordFailure :: "int \<Rightarrow> breaker \<Rightarrow> breaker" where
  "recordFailure now b =
     (let n = cb_failureCount b + 1; b = b\<lparr>cb_failureCount := n, cb_lastFailureTime := now\<rparr>
      in if jle (cb_failureThreshold b) (JInt n) then b\<lparr>cb_state := Circuit_Open\<rparr> else b)"

definition recordSuccess :: "breaker \<Rightarrow> breaker" where
  "recordSuccess b = b\<lparr>cb_failureCount := 0, cb_state := Circuit_Closed\<rparr>"

definition canExecute :: "int \<Rightarrow> breaker \<Rightarrow> bool \<times> breaker" where
  "canExecute now b =
     (case cb_state b of
        Circuit_Closed \<Rightarrow> (True, b)
      | Circuit_HalfOpen \<Rightarrow> (True, b)
      | Circuit_Open \<Rightarrow>
          if jle (cb_recoveryTimeMs b) (JInt (now - cb_lastFailureTime b))
          then (True, b\<lparr>cb_state := Circuit_HalfOpen\<rparr>) else (False, b))"

definition circuit_text :: "circuit_state \<Rightarrow> string" where
  "circuit_text s = (case s of Circuit_Closed \<Rightarrow> ''CLOSED'' | Circuit_Open \<Rightarrow> ''OPEN'' | Circuit_HalfOpen \<Rightarrow> ''HALF_OPEN'')"

section \<open>Decision cache\<close>

text \<open>The reason is whatever JSON value OPA answered; the type annotation is not checked.\<close>

record verdict =
  vd_allow :: bool
  vd_reason :: json

record cache_entry =
  ce_decision :: verdict
  ce_expiresAt :: jint

record cache =
  ca_store :: "(string, cache_entry) js_map"
  ca_maxSize :: jint
  ca_ttlMs :: jint
  ca_timer :: bool

definition cache_new :: "jint option \<Rightarrow> jint option \<Rightarrow> (string \<Rightarrow> string option) \<Rightarrow> cache" where
  "cache_new maxSize ttl env =
     \<lparr>ca_store = [], ca_maxSize = nullish maxSize (parse_int (env_or (env ''OPA_CACHE_MAX_SIZE'') ''500'')),
      ca_ttlMs = nullish ttl (parse_int (env_or (env ''OPA_CACHE_TTL_MS'') ''30000'')), ca_timer = True\<rparr>"

definition cleanup_interval :: "cache \<Rightarrow> jint" where
  "cleanup_interval c = jmax (ca_ttlMs c) (JInt 5000)"

definition cache_get :: "int \<Rightarrow> string \<Rightarrow> cache \<Rightarrow> verdict option \<times> cache" where
  "cache_get now key c =
     (case js_get (ca_store c) key of
        None \<Rightarrow> (None, c)
      | Some e \<Rightarrow>
          if jlt (ce_expiresAt e) (JInt now) then (None, c\<lparr>ca_store := js_del key (ca_store c)\<rparr>)
          else (Some (ce_decision e), c))"

definition cache_set :: "int \<Rightarrow> string \<Rightarrow> verdict \<Rightarrow> cache \<Rightarrow> cache" where
  "cache_set now key d c =
     (let store = (if jle (ca_maxSize c) (JInt (int (length (ca_store c))))
           then (case js_keys (ca_store c) of [] \<Rightarrow> ca_store c | oldest # _ \<Rightarrow> js_del oldest (ca_store c))
           else ca_store c)
      in c\<lparr>ca_store := js_set key \<lparr>ce_decision = d, ce_expiresAt = jadd (JInt now) (ca_ttlMs c)\<rparr> store\<rparr>)"

definition evictExpired :: "int \<Rightarrow> cache \<Rightarrow> cache" where
  "evictExpired now c = c\<lparr>ca_store := filter (\<lambda>(_, e). \<not> jlt (ce_expiresAt e) (JInt now)) (ca_store c)\<rparr>"

definition cache_dispose :: "cache \<Rightarrow> cache" where
  "cache_dispose c = c\<lparr>ca_timer := False, ca_store := []\<rparr>"

definition cache_size :: "cache \<Rightarrow> int" where
  "cache_size c = int (length (ca_store c))"

section \<open>The canonical hash\<close>

text \<open>An input as it is sent: the optional members of the subject and the resource are listed.\<close>

record policy_query =
  pq_subject :: "(string \<times> json) list"
  pq_action :: json
  pq_resource :: "(string \<times> json) list"
  pq_namespace :: json
  pq_agentId :: json
  pq_claims :: json

definition query_members :: "policy_query \<Rightarrow> (string \<times> json) list" where
  "query_members q =
     [(''subject'', JObj (pq_subject q)), (''action'', pq_action q), (''resource'', JObj (pq_resource q)),
      (''namespace'', pq_namespace q), (''agentId'', pq_agentId q), (''claims'', pq_claims q)]"

definition canonical :: "policy_query \<Rightarrow> string" where
  "canonical q = stringify (pick (sort (map fst (query_members q))) (JObj (query_members q)))"

definition hashInput :: "(string \<Rightarrow> string) \<Rightarrow> policy_query \<Rightarrow> string" where
  "hashInput H q = H (canonical q)"

section \<open>OPA over HTTP\<close>

datatype http_answer = Http_reply "int option" string | Http_timeout | Http_error string

definition opa_answer :: "http_answer \<Rightarrow> string + (int \<times> json)" where
  "opa_answer a =
     (case a of
        Http_reply status raw \<Rightarrow>
          (case json_parse raw of
             Some j \<Rightarrow> Inr (nullish status 0, j)
           | None \<Rightarrow> Inl (''OPA returned invalid JSON: '' @ take 200 raw))
      | Http_timeout \<Rightarrow> Inl ''OPA request timed out''
      | Http_error msg \<Rightarrow> Inl msg)"

definition opa_decision :: "int \<times> json \<Rightarrow> string + verdict" where
  "opa_decision r =
     (case r of (status, data) \<Rightarrow>
        if status < 200 \<or> 300 \<le> status then Inl (''OPA returned HTTP '' @ show_int status)
        else if data = JNull then Inl (''Cannot read properties of null (reading '' @ quoted ''result'' @ '')'')
        else let res = (case jget data ''result'' of None \<Rightarrow> JNull | Some j \<Rightarrow> j);
                 allow = (jget res ''allow'' = Some (JBool True))
             in Inr \<lparr>vd_allow = allow,
                     vd_reason = (if allow then JStr [] else jnullish (jget res ''reason'') (JStr ''Policy denied by OPA''))\<rparr>)"

section \<open>Evaluation\<close>

record plane =
  pp_opaUrl :: string
  pp_opaTimeoutMs :: jint
  pp_breaker :: breaker
  pp_cache :: cache

definition plane_new :: "(string \<Rightarrow> string option) \<Rightarrow> plane" where
  "plane_new env =
     \<lparr>pp_opaUrl = env_or (env ''OPA_URL'') ''http://localhost:8181'',
      pp_opaTimeoutMs = parse_int (env_or (env ''OPA_TIMEOUT_MS'') ''200''),
      pp_breaker = breaker_new None None env, pp_cache = cache_new None None env\<rparr>"

definition deny :: "string \<Rightarrow> verdict" where
  "deny reason = \<lparr>vd_allow = False, vd_reason = JStr reason\<rparr>"

definition dash :: string where "dash = [CHR 0xE2, CHR 0x80, CHR 0x94]"

definition open_reason :: "circuit_state \<Rightarrow> string" where
  "open_reason s = ''Circuit breaker OPEN '' @ dash @ '' OPA unreachable after '' @ circuit_text s"

datatype eval_start = Decided verdict | Calls_opa string json string

text \<open>
  Up to the HTTP call. The clock is read by the breaker and again by the cache; a call carries its
  URL, its body and the cache key.
\<close>

definition eval_start :: "(string \<Rightarrow> string) \<Rightarrow> int \<Rightarrow> int \<Rightarrow> string \<Rightarrow> policy_query \<Rightarrow> plane \<Rightarrow> eval_start \<times> plane" where
  "eval_start H t1 t2 policyPath q p =
     (case canExecute t1 (pp_breaker p) of
        (False, b) \<Rightarrow> (Decided (deny (open_reason (cb_state b))), p\<lparr>pp_breaker := b\<rparr>)
      | (True, b) \<Rightarrow>
          (let key = hashInput H q; p = p\<lparr>pp_breaker := b\<rparr>
           in case cache_get t2 key (pp_cache p) of
                (Some d, c) \<Rightarrow> (Decided d, p\<lparr>pp_cache := c\<rparr>)
              | (None, c) \<Rightarrow> (Calls_opa (pp_opaUrl p @ ''/v1/data/'' @ policyPath)
                  (JObj [(''input'', JObj (query_members q))]) key, p\<lparr>pp_cache := c\<rparr>)))"

text \<open>From the answer on. Any failure is recorded and denies.\<close>

definition eval_finish :: "int \<Rightarrow> string \<Rightarrow> http_answer \<Rightarrow> plane \<Rightarrow> verdict \<times> plane" where
  "eval_finish now key a p =
     (case (case opa_answer a of Inl e \<Rightarrow> Inl e | Inr r \<Rightarrow> opa_decision r) of
        Inr d \<Rightarrow> (d, p\<lparr>pp_breaker := recordSuccess (pp_breaker p), pp_cache := cache_set now key d (pp_cache p)\<rparr>)
      | Inl e \<Rightarrow> (deny (''OPA call failed: '' @ e), p\<lparr>pp_breaker := recordFailure now (pp_breaker p)\<rparr>))"

definition getStats :: "plane \<Rightarrow> string \<times> int" where
  "getStats p = (circuit_text (cb_state (pp_breaker p)), cache_size (pp_cache p))"

definition resetInstance :: "plane option \<Rightarrow> plane option \<times> cache option" where
  "resetInstance i = (None, map_option (cache_dispose \<circ> pp_cache) i)"

definition getInstance :: "(string \<Rightarrow> string option) \<Rightarrow> plane option \<Rightarrow> plane" where
  "getInstance env i = (case i of None \<Rightarrow> plane_new env | Some p \<Rightarrow> p)"

section \<open>Health endpoints\<close>

definition policy_check :: "plane \<Rightarrow> string" where
  "policy_check p = (if fst (getStats p) = ''OPEN'' then ''NOT_SERVING'' else ''SERVING'')"

definition policy_healthz :: "string \<Rightarrow> string \<Rightarrow> plane \<Rightarrow> int \<times> (string \<times> json) list" where
  "policy_healthz timestamp url p =
     (if url = ''/healthz'' \<or> url = ''/readyz'' then
        (if fst (getStats p) = ''OPEN'' then 503 else 200,
         [(''status'', JStr (policy_check p)), (''service'', JStr ''policy-plane''), (''circuit_breaker'', JStr (fst (getStats p))),
          (''cache_size'', JNum (num_of_int (snd (getStats p)))), (''timestamp'', JStr timestamp)])
      else (404, []))"

section \<open>The stubs of the observability service\<close>

definition plane_ExportTrace :: "int \<Rightarrow> json \<Rightarrow> json" where
  "plane_ExportTrace now req = JObj ([(''success'', JBool True)] @
     (case jget req ''span_id'' of None \<Rightarrow> [] | Some j \<Rightarrow> [(''span_id'', j)]) @
     [(''timestamp'', JObj [(''seconds'', JNum (num_of_int (now div 1000)))])])"

definition plane_GetExecutionReplay :: "json \<Rightarrow> json" where
  "plane_GetExecutionReplay req = JObj ((case jget req ''execution_id'' of None \<Rightarrow> [] | Some j \<Rightarrow> [(''execution_id'', j)]) @
     [(''spans'', JArr []), (''total_cost'', JStr ''$0.00''), (''status'', JStr ''NOT_FOUND'')])"

section \<open>The breaker against its specification\<close>

datatype breaker_event = Failed int | Succeeded | Asked int

fun breaker_step :: "breaker_event \<Rightarrow> breaker \<Rightarrow> breaker" where
  "breaker_step (Failed t) b = recordFailure t b"
| "breaker_step Succeeded b = recordSuccess b"
| "breaker_step (Asked t) b = snd (canExecute t b)"

text \<open>
  The specification looks at the history, latest event first: the failures since the last success,
  the time of the latest failure, and whether a question since then came late enough to probe.
\<close>

fun failures_since :: "breaker_event list \<Rightarrow> int" where
  "failures_since [] = 0"
| "failures_since (Succeeded # h) = 0"
| "failures_since (Failed t # h) = failures_since h + 1"
| "failures_since (Asked t # h) = failures_since h"

fun last_failure :: "breaker_event list \<Rightarrow> int" where
  "last_failure [] = 0"
| "last_failure (Failed t # h) = t"
| "last_failure (_ # h) = last_failure h"

fun probing :: "int \<Rightarrow> breaker_event list \<Rightarrow> bool" where
  "probing r (Asked t # h) = (r \<le> t - last_failure h \<or> probing r h)"
| "probing r _ = False"

definition refuses :: "int \<Rightarrow> int \<Rightarrow> breaker_event list \<Rightarrow> int \<Rightarrow> bool" where
  "refuses k r h t \<longleftrightarrow> max k 1 \<le> failures_since h \<and> \<not> probing r h \<and> t - last_failure h < r"

definition breaker_matches :: "int \<Rightarrow> int \<Rightarrow> breaker_event list \<Rightarrow> breaker \<Rightarrow> bool" where
  "breaker_matches k r h b \<longleftrightarrow>
     cb_failureThreshold b = JInt k \<and> cb_recoveryTimeMs b = JInt r \<and>
     cb_failureCount b = failures_since h \<and> cb_lastFailureTime b = last_failure h \<and>
     cb_state b = (if failures_since h < max k 1 then Circuit_Closed
                   else if probing r h then Circuit_HalfOpen else Circuit_Open)"

lemma failures_nonneg: "0 \<le> failures_since h"
  by (induction h rule: failures_since.induct) auto

lemma breaker_step_matches:
  "breaker_matches k r h b \<Longrightarrow> breaker_matches k r (e # h) (breaker_step e b)"
  using failures_nonneg[of h]
  by (cases e) (auto simp: breaker_matches_def recordFailure_def recordSuccess_def canExecute_def Let_def
      split: if_splits)

lemma breaker_history:
  "breaker_matches k r (rev es) (fold breaker_step es (breaker_new (Some (JInt k)) (Some (JInt r)) env))"
proof (induction es rule: rev_induct)
  case Nil
  then show ?case by (simp add: breaker_matches_def breaker_new_def)
next
  case (snoc e es)
  then show ?case using breaker_step_matches by simp
qed

text \<open>C32. The circuit breaker implements its specification: after any sequence of failures, successes
  and questions, a question is refused exactly when the calls since the last success have failed
  at least as often as the threshold says, no question has been admitted as a probe since the
  latest failure, and that failure is less than the recovery time ago.\<close>

theorem breaker_refines_history:
  "fst (canExecute t (fold breaker_step es (breaker_new (Some (JInt k)) (Some (JInt r)) env))) =
     (\<not> refuses k r (rev es) t)"
  using breaker_history[of k r es env]
  by (auto simp: breaker_matches_def refuses_def canExecute_def)

section \<open>The plane as a system of concurrent evaluations\<close>

text \<open>What OPA answered, when, for which key; and what was decided, when, for which key.\<close>

type_synonym opa_log = "(int \<times> string \<times> http_answer) list"
type_synonym decision_log = "(int \<times> string \<times> verdict) list"

inductive plane_reach :: "(string \<Rightarrow> string) \<Rightarrow> plane \<Rightarrow> plane \<Rightarrow> string list \<Rightarrow> opa_log \<Rightarrow> decision_log \<Rightarrow> bool"
  for H :: "string \<Rightarrow> string" and p0 :: plane where
  init: "plane_reach H p0 p0 [] [] []"
| calls: "plane_reach H p0 p pending answers decided \<Longrightarrow>
    eval_start H t1 t2 policyPath q p = (Calls_opa url body key, p') \<Longrightarrow>
    plane_reach H p0 p' (key # pending) answers decided"
| decides: "plane_reach H p0 p pending answers decided \<Longrightarrow>
    eval_start H t1 t2 policyPath q p = (Decided d, p') \<Longrightarrow>
    plane_reach H p0 p' pending answers ((t2, hashInput H q, d) # decided)"
| answers: "plane_reach H p0 p pending answers decided \<Longrightarrow> key \<in> set pending \<Longrightarrow>
    eval_finish now key a p = (d, p') \<Longrightarrow>
    plane_reach H p0 p' (remove1 key pending) ((now, key, a) # answers) ((now, key, d) # decided)"
| evicts: "plane_reach H p0 p pending answers decided \<Longrightarrow>
    plane_reach H p0 (p\<lparr>pp_cache := evictExpired now (pp_cache p)\<rparr>) pending answers decided"

text \<open>An answer that allows: a 2xx status and a body whose \<open>result.allow\<close> is exactly \<open>true\<close>.\<close>

definition allowing :: "http_answer \<Rightarrow> bool" where
  "allowing a \<longleftrightarrow> (\<exists>status raw data res. a = Http_reply (Some status) raw \<and> 200 \<le> status \<and> status < 300 \<and>
     json_parse raw = Some data \<and> jget data ''result'' = Some res \<and> jget res ''allow'' = Some (JBool True))"

definition allowed_at :: "opa_log \<Rightarrow> string \<Rightarrow> int \<Rightarrow> bool" where
  "allowed_at answers key t0 \<longleftrightarrow> (\<exists>a. (t0, key, a) \<in> set answers \<and> allowing a)"

definition cache_justified :: "opa_log \<Rightarrow> cache \<Rightarrow> bool" where
  "cache_justified answers c \<longleftrightarrow>
     (\<forall>(key, e) \<in> set (ca_store c). vd_allow (ce_decision e) \<longrightarrow>
        (\<exists>t0. allowed_at answers key t0 \<and> ce_expiresAt e = jadd (JInt t0) (ca_ttlMs c)))"

definition decisions_justified :: "jint \<Rightarrow> opa_log \<Rightarrow> decision_log \<Rightarrow> bool" where
  "decisions_justified ttl answers decided \<longleftrightarrow>
     (\<forall>(t, key, d) \<in> set decided. vd_allow d \<longrightarrow>
        (\<exists>t0. allowed_at answers key t0 \<and> (t = t0 \<or> \<not> jlt (jadd (JInt t0) ttl) (JInt t))))"

lemma finish_allows: "eval_finish now key a p = (d, p') \<Longrightarrow> vd_allow d \<Longrightarrow> allowing a"
  by (auto simp: eval_finish_def opa_answer_def opa_decision_def allowing_def deny_def Let_def nullish_def jget_def
      split: http_answer.splits option.splits if_splits sum.splits json.splits)

lemma set_js_del: "set (js_del k m) \<subseteq> set m"
  by (induction m) auto

lemma set_js_set: "x \<in> set (js_set k v m) \<Longrightarrow> x = (k, v) \<or> x \<in> set m"
  by (induction m) (auto split: if_splits)

lemma allowed_at_mono: "allowed_at answers key t0 \<Longrightarrow> allowed_at (x # answers) key t0"
  by (auto simp: allowed_at_def)

lemma cache_justified_mono: "cache_justified answers c \<Longrightarrow> cache_justified (x # answers) c"
  unfolding cache_justified_def by (blast intro: allowed_at_mono)

lemma decisions_justified_mono: "decisions_justified ttl answers ds \<Longrightarrow> decisions_justified ttl (x # answers) ds"
  unfolding decisions_justified_def by (blast intro: allowed_at_mono)

lemma decisions_justified_Cons:
  "decisions_justified ttl answers ((t, key, d) # ds) \<longleftrightarrow>
     (vd_allow d \<longrightarrow> (\<exists>t0. allowed_at answers key t0 \<and> (t = t0 \<or> \<not> jlt (jadd (JInt t0) ttl) (JInt t)))) \<and>
     decisions_justified ttl answers ds"
  by (simp add: decisions_justified_def)

text \<open>What each step does to the cache.\<close>

lemma cache_get_facts:
  assumes "cache_get now key c = (r, c')"
  shows "set (ca_store c') \<subseteq> set (ca_store c)" "ca_ttlMs c' = ca_ttlMs c" "ca_maxSize c' = ca_maxSize c"
    and "r = Some d \<Longrightarrow> \<exists>e. (key, e) \<in> set (ca_store c) \<and> d = ce_decision e \<and> \<not> jlt (ce_expiresAt e) (JInt now)"
  using assms set_js_del[of key "ca_store c"]
  by (auto simp: cache_get_def dest: map_of_SomeD split: option.splits if_splits)

lemma cache_set_facts:
  shows "x \<in> set (ca_store (cache_set now key d c)) \<Longrightarrow>
      x = (key, \<lparr>ce_decision = d, ce_expiresAt = jadd (JInt now) (ca_ttlMs c)\<rparr>) \<or> x \<in> set (ca_store c)"
    and "ca_ttlMs (cache_set now key d c) = ca_ttlMs c" and "ca_maxSize (cache_set now key d c) = ca_maxSize c"
  by (auto simp: cache_set_def Let_def dest!: set_js_set subsetD[OF set_js_del] split: list.splits if_splits)

lemma cache_justified_sub:
  "cache_justified answers c \<Longrightarrow> set (ca_store c') \<subseteq> set (ca_store c) \<Longrightarrow> ca_ttlMs c' = ca_ttlMs c \<Longrightarrow> cache_justified answers c'"
  unfolding cache_justified_def by auto

lemma cache_justified_set:
  assumes "cache_justified answers c" and "vd_allow d \<Longrightarrow> allowed_at answers key now"
  shows "cache_justified answers (cache_set now key d c)"
  unfolding cache_justified_def
proof (clarsimp simp: cache_set_facts(2))
  fix k e
  assume "(k, e) \<in> set (ca_store (cache_set now key d c))" and a: "vd_allow (ce_decision e)"
  from cache_set_facts(1)[OF this(1)]
  show "\<exists>t0. allowed_at answers k t0 \<and> ce_expiresAt e = jadd (JInt t0) (ca_ttlMs c)"
  proof
    assume "(k, e) = (key, \<lparr>ce_decision = d, ce_expiresAt = jadd (JInt now) (ca_ttlMs c)\<rparr>)"
    with assms(2) a show ?thesis by auto
  next
    assume "(k, e) \<in> set (ca_store c)"
    with assms(1) a show ?thesis unfolding cache_justified_def by blast
  qed
qed

definition plane_inv :: "jint \<Rightarrow> opa_log \<Rightarrow> decision_log \<Rightarrow> plane \<Rightarrow> bool" where
  "plane_inv ttl answers decided p \<longleftrightarrow> ca_ttlMs (pp_cache p) = ttl \<and> cache_justified answers (pp_cache p) \<and>
     decisions_justified ttl answers decided"

lemma start_inv:
  assumes "plane_inv ttl answers decided p" and "eval_start H t1 t2 policyPath q p = (r, p')"
  shows "plane_inv ttl answers (case r of Decided d \<Rightarrow> (t2, hashInput H q, d) # decided | _ \<Rightarrow> decided) p'"
proof -
  obtain ok b where b: "canExecute t1 (pp_breaker p) = (ok, b)" by fastforce
  obtain v c where c: "cache_get t2 (hashInput H q) (pp_cache p) = (v, c)" by fastforce
  note facts = cache_get_facts(1-3)[OF c] and hit = cache_get_facts(4)[OF c]
  have inv: "ca_ttlMs (pp_cache p) = ttl" "cache_justified answers (pp_cache p)" "decisions_justified ttl answers decided"
    using assms(1) by (simp_all add: plane_inv_def)
  have fresh: "\<exists>t0. allowed_at answers (hashInput H q) t0 \<and> (t2 = t0 \<or> \<not> jlt (jadd (JInt t0) ttl) (JInt t2))"
    if "v = Some d" "vd_allow d" for d
  proof -
    obtain e where "(hashInput H q, e) \<in> set (ca_store (pp_cache p))" "d = ce_decision e" "\<not> jlt (ce_expiresAt e) (JInt t2)"
      using hit \<open>v = Some d\<close> by blast
    with inv(1,2) \<open>vd_allow d\<close> show ?thesis unfolding cache_justified_def by fastforce
  qed
  have "cache_justified answers c" "ca_ttlMs c = ttl"
    using cache_justified_sub[OF inv(2) facts(1,2)] facts(2) inv(1) by simp_all
  then show ?thesis
    using assms(2) b c inv fresh
    by (auto simp: eval_start_def Let_def plane_inv_def decisions_justified_Cons deny_def split: bool.splits option.splits)
qed

lemma finish_inv:
  assumes "plane_inv ttl answers decided p" and f: "eval_finish now key a p = (d, p')"
  shows "plane_inv ttl ((now, key, a) # answers) ((now, key, d) # decided) p'"
proof -
  have inv: "ca_ttlMs (pp_cache p) = ttl" "cache_justified ((now, key, a) # answers) (pp_cache p)"
    "decisions_justified ttl ((now, key, a) # answers) decided"
    using assms(1) by (simp_all add: plane_inv_def cache_justified_mono decisions_justified_mono)
  have ok: "vd_allow d \<Longrightarrow> allowed_at ((now, key, a) # answers) key now"
    using finish_allows[OF f] by (auto simp: allowed_at_def)
  have "pp_cache p' = pp_cache p \<or> pp_cache p' = cache_set now key d (pp_cache p)"
    using f by (auto simp: eval_finish_def split: sum.splits)
  then have "cache_justified ((now, key, a) # answers) (pp_cache p') \<and> ca_ttlMs (pp_cache p') = ttl"
    using cache_justified_set[OF inv(2) ok] inv(1,2) by (auto simp: cache_set_facts(2))
  moreover have "decisions_justified ttl ((now, key, a) # answers) ((now, key, d) # decided)"
    using inv(3) ok by (auto simp: decisions_justified_Cons)
  ultimately show ?thesis by (simp add: plane_inv_def)
qed

lemma evict_inv: "plane_inv ttl answers decided p \<Longrightarrow> plane_inv ttl answers decided (p\<lparr>pp_cache := evictExpired now (pp_cache p)\<rparr>)"
  using cache_justified_sub[of answers "pp_cache p" "evictExpired now (pp_cache p)"]
  by (simp add: plane_inv_def evictExpired_def)

lemma plane_reach_inv:
  "plane_reach H (plane_new env) p pending answers decided \<Longrightarrow>
     plane_inv (ca_ttlMs (pp_cache (plane_new env))) answers decided p"
proof (induction rule: plane_reach.induct)
  case init
  show ?case by (simp add: plane_inv_def cache_justified_def decisions_justified_def plane_new_def cache_new_def)
next
  case (calls p pending answers decided t1 t2 policyPath q url body key p')
  then show ?case using start_inv[OF calls.IH calls.hyps(2)] by simp
next
  case (decides p pending answers decided t1 t2 policyPath q d p')
  then show ?case using start_inv[OF decides.IH decides.hyps(2)] by simp
next
  case (answers p pending answers decided key now a d p')
  show ?case by (rule finish_inv[OF answers.IH answers.hyps(3)])
next
  case (evicts p pending answers decided now)
  show ?case by (rule evict_inv[OF evicts.IH])
qed

text \<open>C17. The policy plane allows only on OPA's authority: however evaluations of any inputs interleave
  with the answers and the evictions, every decision that allows is for a key for which OPA had
  answered 2xx with \<open>result.allow\<close> exactly \<open>true\<close>, either just then or so recently that the cached
  answer had not expired; failures, other answers and an open breaker only deny.\<close>

theorem policy_plane_allows_on_authority:
  assumes "plane_reach H (plane_new env) p pending answers decided"
    and "(t, key, d) \<in> set decided" and "vd_allow d"
  shows "\<exists>t0. allowed_at answers key t0 \<and>
    (t = t0 \<or> \<not> jlt (jadd (JInt t0) (ca_ttlMs (pp_cache (plane_new env)))) (JInt t))"
proof -
  have "decisions_justified (ca_ttlMs (pp_cache (plane_new env))) answers decided"
    using plane_reach_inv[OF assms(1)] by (simp add: plane_inv_def)
  with assms(2,3) show ?thesis unfolding decisions_justified_def by fastforce
qed

definition demo_query :: policy_query where
  "demo_query = \<lparr>pq_subject = [(''namespace'', JStr ''n''), (''clearance'', JNum (Num 3))], pq_action = JStr ''execute'',
     pq_resource = [(''namespace'', JStr ''n'')], pq_namespace = JStr ''n'', pq_agentId = JStr ''a'', pq_claims = JObj []\<rparr>"

definition allow_text :: string where
  "allow_text = [CHR ''{'', CHR 0x22] @ ''result'' @ [CHR 0x22, CHR '':'', CHR ''{'', CHR 0x22] @ ''allow'' @ [CHR 0x22, CHR '':''] @ ''true}}''"

lemma allow_text_parsed: "json_parse allow_text = Some (JObj [(''result'', JObj [(''allow'', JBool True)])])"
  by code_simp

lemma allow_answer:
  "opa_answer (Http_reply (Some 200) allow_text) = Inr (200, JObj [(''result'', JObj [(''allow'', JBool True)])])"
  by (simp add: opa_answer_def allow_text_parsed)

lemma allow_decision:
  "opa_decision (200, JObj [(''result'', JObj [(''allow'', JBool True)])]) = Inr \<lparr>vd_allow = True, vd_reason = JStr []\<rparr>"
  by (simp add: opa_decision_def jget_def)

theorem policy_plane_allows_on_authority_witness:
  "\<exists>t0. allowed_at [(5, hashInput id demo_query, Http_reply (Some 200) allow_text)] (hashInput id demo_query) t0"
proof -
  let ?p = "plane_new (\<lambda>_. None)" and ?k = "hashInput id demo_query" and ?a = "Http_reply (Some 200) allow_text"
  let ?d = "\<lparr>vd_allow = True, vd_reason = JStr []\<rparr>"
  have "\<exists>url body p'. eval_start id 0 1 ''egaop/execution'' demo_query ?p = (Calls_opa url body ?k, p')"
    by (simp add: eval_start_def plane_new_def breaker_new_def cache_new_def canExecute_def cache_get_def)
  then obtain url body p' where s: "eval_start id 0 1 ''egaop/execution'' demo_query ?p = (Calls_opa url body ?k, p')" by blast
  have r: "plane_reach id ?p p' [?k] [] []"
    using plane_reach.calls[OF plane_reach.init s] by simp
  have "\<exists>p''. eval_finish 5 ?k ?a p' = (?d, p'')"
    by (simp add: eval_finish_def allow_answer allow_decision)
  then obtain p'' where f: "eval_finish 5 ?k ?a p' = (?d, p'')" by blast
  have "plane_reach id ?p p'' (remove1 ?k [?k]) [(5, ?k, ?a)] [(5, ?k, ?d)]"
    by (rule plane_reach.answers[OF r _ f]) simp
  from policy_plane_allows_on_authority[OF this, of 5 ?k ?d] show ?thesis by auto
qed

section \<open>What the cache key leaves out\<close>

text \<open>The same input with another clearance, in the subject and in the claims.\<close>

definition with_clearance :: "num \<Rightarrow> policy_query \<Rightarrow> policy_query" where
  "with_clearance c q =
     q\<lparr>pq_subject := js_set ''clearance'' (JNum c) (pq_subject q),
       pq_claims := (case pq_claims q of JObj ps \<Rightarrow> JObj (js_set ''clearance'' (JNum c) ps) | j \<Rightarrow> j)\<rparr>"

lemma hash_keys:
  "sort (map fst (query_members q)) = [''action'', ''agentId'', ''claims'', ''namespace'', ''resource'', ''subject'']"
proof -
  have "sort [''subject'', ''action'', ''resource'', ''namespace'', ''agentId'', ''claims''] =
      [''action'', ''agentId'', ''claims'', ''namespace'', ''resource'', ''subject'']" by code_simp
  then show ?thesis by (simp add: query_members_def)
qed

lemma keep_cong: "(\<And>k. k \<in> set ks \<Longrightarrow> map_of ps k = map_of rs k) \<Longrightarrow> keep ks ps = keep ks rs"
  unfolding keep_def by (rule arg_cong[where f = concat]) (rule map_cong, simp_all)

lemma map_of_pick: "map_of (map (\<lambda>(k, v). (k, pick ks v)) ps) k = map_option (pick ks) (map_of ps k)"
  by (induction ps) auto

lemma pick_js_set:
  assumes "x \<notin> set ks"
  shows "pick ks (JObj (js_set x v ps)) = pick ks (JObj ps)"
proof -
  have "map_of (map (\<lambda>(k, v). (k, pick ks v)) (js_set x v ps)) k = map_of (map (\<lambda>(k, v). (k, pick ks v)) ps) k"
    if "k \<in> set ks" for k
    using assms that by (auto simp: map_of_pick js_get_set)
  then show ?thesis by (auto intro!: keep_cong)
qed

lemma with_clearance_simps:
  "pq_subject (with_clearance c q) = js_set ''clearance'' (JNum c) (pq_subject q)"
  "pq_claims (with_clearance c q) = (case pq_claims q of JObj ps \<Rightarrow> JObj (js_set ''clearance'' (JNum c) ps) | j \<Rightarrow> j)"
  "pq_action (with_clearance c q) = pq_action q" "pq_resource (with_clearance c q) = pq_resource q"
  "pq_namespace (with_clearance c q) = pq_namespace q" "pq_agentId (with_clearance c q) = pq_agentId q"
  by (simp_all add: with_clearance_def)

lemma pick_members:
  assumes n: "''clearance'' \<notin> set ks"
  shows "map (\<lambda>(k, v). (k, pick ks v)) (query_members (with_clearance c q)) = map (\<lambda>(k, v). (k, pick ks v)) (query_members q)"
proof -
  have "pick ks (pq_claims (with_clearance c q)) = pick ks (pq_claims q)"
    unfolding with_clearance_simps by (cases "pq_claims q") (simp_all only: json.case pick_js_set[OF n])
  moreover have "pick ks (JObj (pq_subject (with_clearance c q))) = pick ks (JObj (pq_subject q))"
    unfolding with_clearance_simps by (rule pick_js_set[OF n])
  ultimately show ?thesis
    unfolding query_members_def with_clearance_simps(3-)
    by (simp only: list.map prod.case)
qed

lemma canonical_clearance: "canonical (with_clearance c q) = canonical q"
proof -
  have "''clearance'' \<notin> set [''action'', ''agentId'', ''claims'', ''namespace'', ''resource'', ''subject'']" by simp
  from pick_members[OF this, of c q] show ?thesis
    unfolding canonical_def hash_keys pick.simps(2) by (rule arg_cong)
qed

text \<open>The cache does not see the clearance: the array of names that \<open>JSON.stringify\<close> is given filters
  the nested objects as well, so \<open>subject.clearance\<close> (and every other member of the subject, the
  resource and the claims that is not named like a top-level one) is not hashed. Once OPA has
  decided for one clearance, an evaluation with any other clearance, under any policy path, gets
  that decision until it expires, without a call.\<close>

theorem cached_decision_ignores_clearance:
  assumes "opa_answer a = Inr r" and "opa_decision r = Inr d"
    and "\<not> jlt (jadd (JInt now) (ca_ttlMs (pp_cache p))) (JInt t2)"
  shows "fst (eval_start H t1 t2 policyPath (with_clearance c q) (snd (eval_finish now (hashInput H q) a p))) = Decided d"
proof -
  have key: "hashInput H (with_clearance c q) = hashInput H q"
    by (simp add: hashInput_def canonical_clearance)
  show ?thesis
    using assms
    by (simp add: eval_finish_def eval_start_def canExecute_def recordSuccess_def key cache_get_def cache_set_def Let_def js_get_set)
qed

theorem cached_decision_ignores_clearance_witness:
  "fst (eval_start id 0 30000 ''other/path'' (with_clearance (Num 0) demo_query)
     (snd (eval_finish 5 (hashInput id demo_query) (Http_reply (Some 200) allow_text) (plane_new (\<lambda>_. None))))) =
   Decided \<lparr>vd_allow = True, vd_reason = JStr []\<rparr>"
proof -
  have "parse_int ''30000'' = JInt 30000" by code_simp
  then have "\<not> jlt (jadd (JInt 5) (ca_ttlMs (pp_cache (plane_new (\<lambda>_. None))))) (JInt 30000)"
    by (simp add: plane_new_def cache_new_def env_or_def)
  then show ?thesis by (rule cached_decision_ignores_clearance[OF allow_answer allow_decision])
qed

section \<open>The size of the cache\<close>

datatype cache_op = Lookup int string | Insert int string verdict | Evict int

fun cache_step :: "cache_op \<Rightarrow> cache \<Rightarrow> cache" where
  "cache_step (Lookup now key) c = snd (cache_get now key c)"
| "cache_step (Insert now key d) c = cache_set now key d c"
| "cache_step (Evict now) c = evictExpired now c"

definition cache_ok :: "int \<Rightarrow> cache \<Rightarrow> bool" where
  "cache_ok n c \<longleftrightarrow> js_map_ok (ca_store c) \<and> ca_maxSize c = JInt n \<and> cache_size c \<le> max n 1"

lemma filter_map_ok: "js_map_ok m \<Longrightarrow> js_map_ok (filter P m)"
  unfolding js_map_ok_def by (rule distinct_map_filter)

lemma delete_oldest: "js_map_ok m \<Longrightarrow> js_keys m = k # ks \<Longrightarrow> length (js_del k m) = length m - 1"
proof (cases m)
  case (Cons e m')
  assume "js_map_ok m" "js_keys m = k # ks"
  with Cons have "k \<notin> set (js_keys m')" "fst e = k" by (auto simp: js_map_ok_def)
  moreover have "js_del k m' = m'" if "k \<notin> set (js_keys m')" using that by (induction m') auto
  ultimately show ?thesis using Cons by (cases e) simp
qed simp

lemma cache_set_ok:
  assumes "cache_ok n c"
  shows "cache_ok n (cache_set now key d c)"
proof -
  let ?e = "\<lparr>ce_decision = d, ce_expiresAt = jadd (JInt now) (ca_ttlMs c)\<rparr>"
  let ?room = "if n \<le> int (length (ca_store c)) then (case js_keys (ca_store c) of [] \<Rightarrow> ca_store c
     | oldest # _ \<Rightarrow> js_del oldest (ca_store c)) else ca_store c"
  have ok: "js_map_ok (ca_store c)" "ca_maxSize c = JInt n" "int (length (ca_store c)) \<le> max n 1"
    using assms by (simp_all add: cache_ok_def cache_size_def)
  obtain room where r: "room = ?room" by blast
  have room: "js_map_ok room" "int (length room) \<le> max n 1 - 1"
    using ok delete_oldest[OF ok(1)] by (auto simp: r split: list.splits)
  have "ca_store (cache_set now key d c) = js_set key ?e room"
    using ok(2) by (simp add: cache_set_def Let_def r)
  moreover have "int (length (js_set key ?e room)) \<le> max n 1"
    using room(2) by (simp add: length_js_set)
  ultimately show ?thesis
    using room(1) ok(2) by (simp add: cache_ok_def cache_size_def cache_set_facts(3))
qed

lemma cache_step_ok: "cache_ok n c \<Longrightarrow> cache_ok n (cache_step p c)"
proof (cases p)
  case (Lookup now key)
  assume "cache_ok n c"
  with Lookup show ?thesis
    using length_js_del_le[of key "ca_store c"]
    by (auto simp: cache_get_def cache_ok_def cache_size_def split: option.splits)
next
  case (Insert now key d)
  assume "cache_ok n c"
  with Insert show ?thesis by (simp add: cache_set_ok)
next
  case (Evict now)
  assume "cache_ok n c"
  with Evict show ?thesis
    using order_trans[OF of_nat_mono[OF length_filter_le], of "ca_store c" "max n 1"]
    by (simp add: evictExpired_def cache_ok_def cache_size_def filter_map_ok)
qed

text \<open>The cache stays bounded: after any lookups, insertions and evictions it holds at most
  \<open>maxSize\<close> entries (one where \<open>maxSize\<close> is below one), each key once.\<close>

theorem cache_bounded:
  "cache_ok n (fold cache_step ops (cache_new (Some (JInt n)) ttl env))"
proof (rule fold_inv[of "cache_ok n"])
  show "cache_ok n c \<Longrightarrow> cache_ok n (cache_step p c)" for p c by (rule cache_step_ok)
  show "cache_ok n (cache_new (Some (JInt n)) ttl env)" by (simp add: cache_ok_def cache_new_def cache_size_def)
qed

end
