(* ===== verification/PolicyMiddleware.thy ===== *)
theory PolicyMiddleware
  imports PolicyPlane JsRegex
begin

text \<open>
  The gRPC interceptor of \<open>policy-plane/src/middleware.ts\<close>: token verification, the identity of the
  peer, the claims, the query that is evaluated and what becomes of the call. Base64 decoding (with
  UTF-8) and the HMAC are parameters, and so is the check that \<open>Metadata.set\<close> makes of a value.
\<close>

section \<open>Token verification\<close>

record jwt_lib =
  jl_decode :: "string \<Rightarrow> string"
  jl_hmac :: "string \<Rightarrow> string \<Rightarrow> string"

record jwt_result =
  jr_valid :: bool
  jr_payload :: "json option"
  jr_error :: "string option"

definition url_to_base64 :: "string \<Rightarrow> string" where
  "url_to_base64 segment =
     (let b = map (\<lambda>c. if c = CHR ''-'' then CHR ''+'' else if c = CHR ''_'' then CHR ''/'' else c) segment
      in b @ (if length b mod 4 = 0 then [] else replicate (4 - length b mod 4) (CHR ''='')))"

definition base64UrlDecode :: "jwt_lib \<Rightarrow> string \<Rightarrow> string" where
  "base64UrlDecode L segment = jl_decode L (url_to_base64 segment)"

definition invalid_jwt :: "string \<Rightarrow> jwt_result" where
  "invalid_jwt e = \<lparr>jr_valid = False, jr_payload = None, jr_error = Some e\<rparr>"

text \<open>The check of the header: the error, if any.\<close>

definition header_error :: "string \<Rightarrow> string option" where
  "header_error text =
     (case json_parse text of
        None \<Rightarrow> Some ''Invalid JWT header''
      | Some JNull \<Rightarrow> Some ''Invalid JWT header''
      | Some h \<Rightarrow>
          if jget h ''alg'' = Some (JStr ''HS256'') then None
          else (case jget h ''alg'' of
                  None \<Rightarrow> Some ''Unsupported algorithm: undefined''
                | Some a \<Rightarrow> (case json_text a of
                    Some t \<Rightarrow> Some (''Unsupported algorithm: '' @ t)
                  | None \<Rightarrow> Some ''Invalid JWT header'')))"

definition num_claim :: "json \<Rightarrow> string \<Rightarrow> num option" where
  "num_claim p k = (case jget p k of Some (JNum n) \<Rightarrow> Some n | _ \<Rightarrow> None)"

definition check_payload :: "int \<Rightarrow> string \<Rightarrow> jwt_result" where
  "check_payload now text =
     (case json_parse text of
        None \<Rightarrow> invalid_jwt ''Invalid JWT payload''
      | Some JNull \<Rightarrow> invalid_jwt ''Invalid JWT payload''
      | Some p \<Rightarrow>
          (let nowSec = num_of_int (now div 1000)
           in if (case num_claim p ''exp'' of Some n \<Rightarrow> num_lt n nowSec | None \<Rightarrow> False) then invalid_jwt ''Token expired''
              else if (case num_claim p ''nbf'' of Some n \<Rightarrow> num_lt nowSec n | None \<Rightarrow> False)
                   then invalid_jwt ''Token not yet valid''
              else \<lparr>jr_valid = True, jr_payload = Some p, jr_error = None\<rparr>))"

definition verifyHS256JWT :: "jwt_lib \<Rightarrow> int \<Rightarrow> string \<Rightarrow> string \<Rightarrow> jwt_result" where
  "verifyHS256JWT L now token secret =
     (case split_on (CHR ''.'') token of
        [headerB64, payloadB64, signatureB64] \<Rightarrow>
          (case header_error (base64UrlDecode L headerB64) of
             Some e \<Rightarrow> invalid_jwt e
           | None \<Rightarrow>
               if signatureB64 \<noteq> jl_hmac L secret (headerB64 @ ''.'' @ payloadB64) then invalid_jwt ''Invalid signature''
               else check_payload now (base64UrlDecode L payloadB64))
      | _ \<Rightarrow> invalid_jwt ''Invalid JWT structure'')"

lemma invalid_jwt_not [simp]: "invalid_jwt e \<noteq> \<lparr>jr_valid = True, jr_payload = p, jr_error = x\<rparr>"
  by (simp add: invalid_jwt_def)

lemma header_ok: "header_error text = None \<longleftrightarrow> (\<exists>h. json_parse text = Some h \<and> jget h ''alg'' = Some (JStr ''HS256''))"
  by (auto simp: header_error_def jget_def split: option.splits json.splits)

lemma payload_ok: "check_payload now text = \<lparr>jr_valid = True, jr_payload = Some p, jr_error = None\<rparr> \<longleftrightarrow>
    json_parse text = Some p \<and> p \<noteq> JNull \<and>
    (\<nexists>n. num_claim p ''exp'' = Some n \<and> num_lt n (num_of_int (now div 1000))) \<and>
    (\<nexists>n. num_claim p ''nbf'' = Some n \<and> num_lt (num_of_int (now div 1000)) n)"
proof (cases "json_parse text")
  case None
  then show ?thesis by (simp add: check_payload_def)
next
  case (Some j)
  then show ?thesis
    by (cases "j = JNull"; cases "num_claim j ''exp''"; cases "num_claim j ''nbf''")
      (auto simp: check_payload_def Let_def split: json.splits)
qed

text \<open>A token is accepted exactly when it has three parts, its header names HS256, its third part is
  the HMAC of the first two under the secret, and its payload is a JSON value other than \<open>null\<close>
  that is neither expired nor not yet valid; the payload returned is that value.\<close>

theorem jwt_accepted_iff:
  "verifyHS256JWT L now token secret = \<lparr>jr_valid = True, jr_payload = Some p, jr_error = None\<rparr> \<longleftrightarrow>
     (\<exists>h b hdr. split_on (CHR ''.'') token = [h, b, jl_hmac L secret (h @ ''.'' @ b)] \<and>
        json_parse (base64UrlDecode L h) = Some hdr \<and> jget hdr ''alg'' = Some (JStr ''HS256'') \<and>
        json_parse (base64UrlDecode L b) = Some p \<and> p \<noteq> JNull \<and>
        (\<nexists>n. num_claim p ''exp'' = Some n \<and> num_lt n (num_of_int (now div 1000))) \<and>
        (\<nexists>n. num_claim p ''nbf'' = Some n \<and> num_lt (num_of_int (now div 1000)) n))"
proof -
  have "verifyHS256JWT L now token secret = \<lparr>jr_valid = True, jr_payload = Some p, jr_error = None\<rparr> \<longleftrightarrow>
    (\<exists>h b. split_on (CHR ''.'') token = [h, b, jl_hmac L secret (h @ ''.'' @ b)] \<and>
      header_error (base64UrlDecode L h) = None \<and>
      check_payload now (base64UrlDecode L b) = \<lparr>jr_valid = True, jr_payload = Some p, jr_error = None\<rparr>)"
    by (auto simp: verifyHS256JWT_def split: list.splits option.splits)
  then show ?thesis unfolding header_ok payload_ok by blast
qed

section \<open>Peer and claims\<close>

record peer_info =
  pi_CN :: string
  pi_organization :: "string option"

definition name_part :: "string \<Rightarrow> regex" where
  "name_part label = Cat [Lit label, Rep 1 None (Cls (\<lambda>c. c \<noteq> CHR '','' \<and> c \<noteq> CHR ''/''))]"

text \<open>The first group of the match: what follows the label.\<close>

definition captured :: "string \<Rightarrow> string \<Rightarrow> string option" where
  "captured label peer = map_option (\<lambda>(_, m, _). drop (length label) m) (rx_find (name_part label) peer)"

definition extractPeerInfo :: "string option \<Rightarrow> peer_info" where
  "extractPeerInfo peer =
     (if \<not> truthy peer then \<lparr>pi_CN = ''unknown'', pi_organization = None\<rparr>
      else \<lparr>pi_CN = nullish (captured ''CN='' (the peer)) ''unknown'', pi_organization = captured ''O='' (the peer)\<rparr>)"

definition extractNamespaceFromCN :: "string \<Rightarrow> string" where
  "extractNamespaceFromCN cn = (case split_on (CHR ''.'') cn of _ # ns # _ \<Rightarrow> ns | _ \<Rightarrow> ''default'')"

text \<open>Without a secret the header is trusted as it is.\<close>

definition extractClaims :: "jwt_lib \<Rightarrow> int \<Rightarrow> string list \<Rightarrow> string option \<Rightarrow> json" where
  "extractClaims L now claimsRaw jwtSecret =
     (case claimsRaw of
        [] \<Rightarrow> JObj []
      | claimsStr # _ \<Rightarrow>
          if truthy jwtSecret then
            (let r = verifyHS256JWT L now claimsStr (the jwtSecret)
             in if \<not> jr_valid r then JObj [] else jnullish (jr_payload r) (JObj []))
          else (case json_parse claimsStr of Some j \<Rightarrow> j | None \<Rightarrow> JObj []))"

section \<open>The query\<close>

text \<open>\<open>replace(/([a-z])([A-Z])/g, "$1_$2")\<close>\<close>

fun snake :: "string \<Rightarrow> string" where
  "snake (c # d # cs) =
     (if CHR ''a'' \<le> c \<and> c \<le> CHR ''z'' \<and> CHR ''A'' \<le> d \<and> d \<le> CHR ''Z'' then c # CHR ''_'' # d # snake cs
      else c # snake (d # cs))"
| "snake cs = cs"

definition method_action :: "string \<Rightarrow> string" where
  "method_action path = snake (lower (last (split_on (CHR ''/'') path)))"

text \<open>\<open>None\<close> where reading a member of the claims throws.\<close>

definition interceptor_query :: "peer_info \<Rightarrow> json \<Rightarrow> string \<Rightarrow> policy_query option" where
  "interceptor_query peer claims path =
     (if claims = JNull then None
      else let ns = jnullish (jget claims ''namespace'') (JStr (extractNamespaceFromCN (pi_CN peer)));
               action = method_action path
        in Some
          \<lparr>pq_subject = [(''namespace'', ns),
             (''clearance'', case jget claims ''clearance'' of Some (JNum n) \<Rightarrow> JNum n | _ \<Rightarrow> JNum (Num 0)),
             (''cn'', JStr (pi_CN peer))] @ (case pi_organization peer of None \<Rightarrow> [] | Some t \<Rightarrow> [(''organization'', JStr t)]),
           pq_action = JStr (if action = [] then ''unknown'' else action),
           pq_resource = [(''namespace'', ns)], pq_namespace = ns,
           pq_agentId = jnullish (jget claims ''agentId'') (JStr ''unknown''), pq_claims = claims\<rparr>)"

section \<open>The call\<close>

record service_error =
  se_message :: string
  se_code :: int
  se_details :: json
  se_metadata :: "(string \<times> json) list"

definition PERMISSION_DENIED :: int where "PERMISSION_DENIED = 7"

text \<open>\<open>set_value k v\<close> is the message with which \<open>Metadata.set\<close> refuses a value, if it does.\<close>

fun first_refusal :: "(string \<Rightarrow> json \<Rightarrow> string option) \<Rightarrow> (string \<times> json) list \<Rightarrow> string option" where
  "first_refusal set_value [] = None"
| "first_refusal set_value ((k, v) # kvs) = (case set_value k v of Some e \<Rightarrow> Some e | None \<Rightarrow> first_refusal set_value kvs)"

definition createServiceError ::
  "(string \<Rightarrow> json \<Rightarrow> string option) \<Rightarrow> string \<Rightarrow> int \<Rightarrow> json \<Rightarrow> json \<Rightarrow> json \<Rightarrow> string + service_error" where
  "createServiceError set_value message code details action agentId =
     (let md = [(''egaop-policy-reason'', details), (''egaop-policy-action'', action), (''egaop-agent-id'', agentId)]
      in case first_refusal set_value md of
           Some e \<Rightarrow> Inl e
         | None \<Rightarrow> Inr \<lparr>se_message = message, se_code = code, se_details = details, se_metadata = md\<rparr>)"

text \<open>
  What becomes of the call: the handler runs, the caller gets an error, or neither (the rejection
  of the promise is not handled).
\<close>

datatype call_fate = Passed | Answered service_error | Lost string

definition failed_call :: "(string \<Rightarrow> json \<Rightarrow> string option) \<Rightarrow> policy_query \<Rightarrow> string \<Rightarrow> call_fate" where
  "failed_call set_value q message =
     (case createServiceError set_value (''Policy evaluation failed: '' @ message) PERMISSION_DENIED (JStr message)
             (pq_action q) (pq_agentId q) of
        Inr e \<Rightarrow> Answered e
      | Inl e \<Rightarrow> Lost e)"

text \<open>\<open>next\<close> is what the rest of the chain throws synchronously: an error of gRPC or another one.\<close>

definition interceptor_settle ::
  "(string \<Rightarrow> json \<Rightarrow> string option) \<Rightarrow> (service_error + string) option \<Rightarrow> policy_query \<Rightarrow> verdict \<Rightarrow> call_fate" where
  "interceptor_settle set_value thrown q d =
     (if \<not> vd_allow d then
        (case json_text (vd_reason d) of
           None \<Rightarrow> failed_call set_value q ''Cannot convert object to primitive value''
         | Some t \<Rightarrow>
             (case createServiceError set_value (''Policy denied: '' @ t) PERMISSION_DENIED (vd_reason d) (pq_action q) (pq_agentId q) of
                Inr e \<Rightarrow> Answered e
              | Inl e \<Rightarrow> failed_call set_value q e))
      else (case thrown of
              None \<Rightarrow> Passed
            | Some (Inl e) \<Rightarrow> if se_code e = PERMISSION_DENIED then Answered e else failed_call set_value q (se_message e)
            | Some (Inr message) \<Rightarrow> failed_call set_value q message))"

text \<open>
  The interceptor up to the decision or the call of OPA. \<open>jwtSecret\<close> is the option, \<open>env_secret\<close> the
  environment's.
\<close>

datatype call_start = Crashed | Evaluating policy_query eval_start

definition policyInterceptor ::
  "jwt_lib \<Rightarrow> (string \<Rightarrow> string) \<Rightarrow> int \<Rightarrow> int \<Rightarrow> int \<Rightarrow> string \<Rightarrow> string option \<Rightarrow> string option \<Rightarrow>
     string option \<Rightarrow> string list \<Rightarrow> string option \<Rightarrow> plane \<Rightarrow> call_start \<times> plane" where
  "policyInterceptor L H now t1 t2 policyPath jwtSecret env_secret peer claimsRaw path p =
     (let peerInfo = extractPeerInfo peer;
          secret = (case jwtSecret of Some x \<Rightarrow> Some x | None \<Rightarrow> env_secret);
          claims = extractClaims L now claimsRaw secret
      in case interceptor_query peerInfo claims (nullish path []) of
           None \<Rightarrow> (Crashed, p)
         | Some q \<Rightarrow> (case eval_start H t1 t2 policyPath q p of (r, p') \<Rightarrow> (Evaluating q r, p')))"

section \<open>What passes\<close>

definition closed_fate :: "call_fate \<Rightarrow> bool" where
  "closed_fate f = (case f of Passed \<Rightarrow> False | Answered e \<Rightarrow> se_code e = PERMISSION_DENIED | Lost _ \<Rightarrow> True)"

lemma createServiceError_code: "createServiceError set_value m c x y z = Inr e \<Longrightarrow> se_code e = c"
  by (auto simp: createServiceError_def Let_def split: option.splits)

lemma failed_call_closed: "closed_fate (failed_call set_value q m)"
  by (auto simp: failed_call_def closed_fate_def dest: createServiceError_code split: sum.split)

lemma denied_closed:
  assumes "\<not> vd_allow d"
  shows "closed_fate (interceptor_settle set_value thrown q d)"
proof (cases "json_text (vd_reason d)")
  case None
  with assms show ?thesis by (simp add: interceptor_settle_def failed_call_closed)
next
  case (Some t)
  show ?thesis
  proof (cases "createServiceError set_value (''Policy denied: '' @ t) PERMISSION_DENIED (vd_reason d) (pq_action q) (pq_agentId q)")
    case (Inl e)
    with assms Some show ?thesis by (simp add: interceptor_settle_def failed_call_closed)
  next
    case (Inr e)
    with assms Some createServiceError_code[OF Inr] show ?thesis by (simp add: interceptor_settle_def closed_fate_def)
  qed
qed

lemma thrown_closed: "thrown \<noteq> None \<Longrightarrow> vd_allow d \<Longrightarrow> closed_fate (interceptor_settle set_value thrown q d)"
  by (auto simp: interceptor_settle_def failed_call_closed closed_fate_def[of "Answered _"] split: sum.split)

text \<open>Only an allowing decision lets a call through: a denial is answered with PERMISSION_DENIED or
  not at all, whatever the decision's reason is and whatever the metadata refuses.\<close>

theorem denied_call_never_passes:
  "case interceptor_settle set_value thrown q d of
     Passed \<Rightarrow> vd_allow d \<and> thrown = None
   | Answered e \<Rightarrow> se_code e = PERMISSION_DENIED
   | Lost _ \<Rightarrow> True"
proof (cases "vd_allow d \<and> thrown = None")
  case True
  then show ?thesis by (simp add: interceptor_settle_def)
next
  case False
  then have "closed_fate (interceptor_settle set_value thrown q d)" using denied_closed thrown_closed by blast
  then show ?thesis by (simp add: closed_fate_def split: call_fate.splits)
qed

text \<open>
  What \<open>Metadata.set\<close> of the gRPC library documents: a text value may hold printable ASCII only, and
  the refusal quotes the value.
\<close>

definition printable :: "char \<Rightarrow> bool" where
  "printable c \<longleftrightarrow> 32 \<le> (of_char c :: nat) \<and> (of_char c :: nat) \<le> 126"

definition metadata_law :: "(string \<Rightarrow> json \<Rightarrow> string option) \<Rightarrow> bool" where
  "metadata_law set_value \<longleftrightarrow> (\<forall>k v. list_all printable v = False \<longrightarrow>
     (\<exists>pre post. set_value k (JStr v) = Some (pre @ v @ post)))"

lemma open_reason_unprintable: "\<not> list_all printable (open_reason s)"
  by (simp add: open_reason_def dash_def printable_def)

lemma metadata_refuses:
  assumes "metadata_law set_value" and "\<not> list_all printable v"
  shows "\<exists>e. set_value k (JStr v) = Some e \<and> \<not> list_all printable e"
  using assms unfolding metadata_law_def by fastforce

lemma unprintable_lost:
  assumes "metadata_law set_value" and "\<not> list_all printable v"
  shows "\<exists>e. failed_call set_value q v = Lost e"
  using metadata_refuses[OF assms, of "''egaop-policy-reason''"]
  by (auto simp: failed_call_def createServiceError_def Let_def)

text \<open>While the breaker is open no call is answered: the reason of the denial contains a dash that is
  no ASCII character, the metadata refuses it, the handler for that failure quotes it in the
  metadata of its own error, and this refusal is handled by nobody. The caller waits for its
  deadline instead of seeing PERMISSION_DENIED.\<close>

theorem open_breaker_loses_calls:
  assumes "metadata_law set_value"
    and "cb_state (pp_breaker p) = Circuit_Open" and "cb_recoveryTimeMs (pp_breaker p) = JInt r"
    and "t1 - cb_lastFailureTime (pp_breaker p) < r"
  shows "\<exists>d p' e. eval_start H t1 t2 policyPath q p = (Decided d, p') \<and> interceptor_settle set_value thrown q d = Lost e"
proof -
  let ?d = "deny (open_reason Circuit_Open)"
  have start: "\<exists>p'. eval_start H t1 t2 policyPath q p = (Decided ?d, p')"
    using assms(2-4) by (simp add: eval_start_def canExecute_def)
  obtain e where e: "set_value ''egaop-policy-reason'' (JStr (open_reason Circuit_Open)) = Some e" "\<not> list_all printable e"
    using metadata_refuses[OF assms(1) open_reason_unprintable] by blast
  then have "interceptor_settle set_value thrown q ?d = failed_call set_value q e"
    by (simp add: interceptor_settle_def deny_def createServiceError_def Let_def)
  with start unprintable_lost[OF assms(1) e(2), of q] show ?thesis by fastforce
qed

definition grpc_metadata :: "string \<Rightarrow> json \<Rightarrow> string option" where
  "grpc_metadata k j = (case j of
     JStr v \<Rightarrow> if list_all printable v then None
       else Some ((''Metadata string value '' @ [CHR 0x22]) @ v @ ([CHR 0x22] @ '' contains illegal characters''))
   | _ \<Rightarrow> None)"

lemma grpc_metadata_law: "metadata_law grpc_metadata"
proof -
  have "grpc_metadata k (JStr v) = Some ((''Metadata string value '' @ [CHR 0x22]) @ v @ ([CHR 0x22] @ '' contains illegal characters''))"
    if "\<not> list_all printable v" for k v
    using that by (simp add: grpc_metadata_def)
  then show ?thesis unfolding metadata_law_def by blast
qed

theorem open_breaker_loses_calls_witness:
  "\<exists>d p' e. eval_start id 9 9 ''p'' demo_query ((plane_new (\<lambda>_. None))\<lparr>pp_breaker :=
      \<lparr>cb_state = Circuit_Open, cb_failureCount = 5, cb_lastFailureTime = 4, cb_failureThreshold = JInt 5, cb_recoveryTimeMs = JInt 30000\<rparr>\<rparr>) =
      (Decided d, p') \<and> interceptor_settle grpc_metadata None demo_query d = Lost e"
  by (rule open_breaker_loses_calls[OF grpc_metadata_law, where r = 30000]) simp_all

text \<open>The comment's example \<open>StartAgent\<close> does not become \<open>execute\<close>: after \<open>toLowerCase\<close> no capital is left
  for the replacement, so the action is the method's name in lower case.\<close>

lemma lower_no_capital: "c \<in> set (lower s) \<Longrightarrow> \<not> (CHR ''A'' \<le> c \<and> c \<le> CHR ''Z'')"
  by (auto simp: lower_def lower_char_def less_eq_char_def Let_def)

lemma snake_id: "\<forall>c \<in> set s. \<not> (CHR ''A'' \<le> c \<and> c \<le> CHR ''Z'') \<Longrightarrow> snake s = s"
  by (induction s rule: snake.induct) auto

lemma method_action_lower: "method_action path = lower (last (split_on (CHR ''/'') path))"
  unfolding method_action_def using lower_no_capital by (intro snake_id) blast

end
