(* ===== verification/Budget.thy ===== *)
theory Budget
  imports JsNumber
begin

text \<open>
  The per-namespace token budget of \<open>packages/shared/src/budget/tracker.ts\<close>. Token and cost
  amounts are the language's numbers; the request counter and the times are whole.
\<close>

section \<open>State\<close>

record allocation =
  al_maxTokensPerDay :: num
  al_maxCostPerDay :: num
  al_maxRequestsPerMinute :: num

record budget_state =
  bs_tokensUsed :: num
  bs_costUsed :: num
  bs_requestCount :: int
  bs_windowStart :: int
  bs_dayStart :: int

record token_budget =
  tb_allocations :: "(string, allocation) js_map"
  tb_states :: "(string, budget_state) js_map"
  tb_default :: allocation

text \<open>A partial allocation, as the spread \<open>{ ...existing, ...alloc }\<close> merges it.\<close>

type_synonym partial_allocation = "num option \<times> num option \<times> num option"

definition merge_allocation :: "allocation \<Rightarrow> partial_allocation \<Rightarrow> allocation" where
  "merge_allocation a p = (case p of (t, c, r) \<Rightarrow>
     \<lparr>al_maxTokensPerDay = nullish t (al_maxTokensPerDay a), al_maxCostPerDay = nullish c (al_maxCostPerDay a),
      al_maxRequestsPerMinute = nullish r (al_maxRequestsPerMinute a)\<rparr>)"

definition num_of_jint :: "jint \<Rightarrow> num" where
  "num_of_jint j = (case j of NaN \<Rightarrow> NNaN | JInt i \<Rightarrow> num_of_int i)"

text \<open>\<open>parseInt(process.env.X || d, 10)\<close>.\<close>

definition env_int :: "string option \<Rightarrow> string \<Rightarrow> num" where
  "env_int v d = num_of_jint (parse_int (case v of None \<Rightarrow> d | Some t \<Rightarrow> if t = [] then d else t))"

definition DEFAULT_BUDGET :: "(string \<Rightarrow> string option) \<Rightarrow> allocation" where
  "DEFAULT_BUDGET env =
     \<lparr>al_maxTokensPerDay = env_int (env ''LLM_BUDGET_TOKENS_PER_DAY'') ''1_000_000'',
      al_maxCostPerDay = env_int (env ''LLM_BUDGET_COST_CENTS_PER_DAY'') ''5000'',
      al_maxRequestsPerMinute = env_int (env ''LLM_BUDGET_RPM'') ''30''\<rparr>"

definition DAY_MS :: int where "DAY_MS = 86400000"
definition MINUTE_MS :: int where "MINUTE_MS = 60000"

definition extractNamespace :: "string \<Rightarrow> string" where
  "extractNamespace agentId =
     (if CHR ''/'' \<in> set agentId then takeWhile (\<lambda>c. c \<noteq> CHR ''/'') agentId else ''default'')"

section \<open>Operations\<close>

definition tb_new :: "(string \<Rightarrow> string option) \<Rightarrow> partial_allocation \<Rightarrow> token_budget" where
  "tb_new env p = \<lparr>tb_allocations = [], tb_states = [], tb_default = merge_allocation (DEFAULT_BUDGET env) p\<rparr>"

definition tb_allocation :: "string \<Rightarrow> token_budget \<Rightarrow> allocation" where
  "tb_allocation ns b = nullish (js_get (tb_allocations b) ns) (tb_default b)"

definition set_allocation :: "string \<Rightarrow> partial_allocation \<Rightarrow> token_budget \<Rightarrow> token_budget" where
  "set_allocation ns p b =
     b\<lparr>tb_allocations := js_set ns (merge_allocation (tb_allocation ns b) p) (tb_allocations b)\<rparr>"

definition roll_day :: "int \<Rightarrow> budget_state \<Rightarrow> budget_state" where
  "roll_day now s =
     (if DAY_MS \<le> now - bs_dayStart s
      then s\<lparr>bs_tokensUsed := Num 0, bs_costUsed := Num 0, bs_dayStart := now\<rparr> else s)"

definition roll_minute :: "int \<Rightarrow> budget_state \<Rightarrow> budget_state" where
  "roll_minute now s =
     (if MINUTE_MS \<le> now - bs_windowStart s then s\<lparr>bs_requestCount := 0, bs_windowStart := now\<rparr> else s)"

definition get_state :: "int \<Rightarrow> string \<Rightarrow> token_budget \<Rightarrow> budget_state \<times> token_budget" where
  "get_state now ns b =
     (let s = nullish (js_get (tb_states b) ns)
            \<lparr>bs_tokensUsed = Num 0, bs_costUsed = Num 0, bs_requestCount = 0, bs_windowStart = now, bs_dayStart = now\<rparr>;
          s' = roll_minute now (roll_day now s)
      in (s', b\<lparr>tb_states := js_set ns s' (tb_states b)\<rparr>))"

text \<open>\<open>None\<close>: allowed; otherwise the reason of the refusal.\<close>

definition tryConsume :: "int \<Rightarrow> string \<Rightarrow> num \<Rightarrow> num \<Rightarrow> token_budget \<Rightarrow> string option \<times> token_budget" where
  "tryConsume now ns tokens costCents b =
     (let a = tb_allocation ns b
      in case get_state now ns b of (s, b') \<Rightarrow>
        if num_le (al_maxRequestsPerMinute a) (num_of_int (bs_requestCount s)) then (Some ''RPM_EXCEEDED'', b')
        else if num_lt (al_maxTokensPerDay a) (num_add (bs_tokensUsed s) tokens) then (Some ''DAILY_TOKEN_BUDGET_EXCEEDED'', b')
        else if num_lt (al_maxCostPerDay a) (num_add (bs_costUsed s) costCents) then (Some ''DAILY_COST_BUDGET_EXCEEDED'', b')
        else (None, b'\<lparr>tb_states := js_set ns
          (s\<lparr>bs_requestCount := bs_requestCount s + 1, bs_tokensUsed := num_add (bs_tokensUsed s) tokens,
             bs_costUsed := num_add (bs_costUsed s) costCents\<rparr>) (tb_states b')\<rparr>))"

definition getUsage :: "int \<Rightarrow> string \<Rightarrow> token_budget \<Rightarrow> (num \<times> num \<times> int) \<times> token_budget" where
  "getUsage now ns b = (case get_state now ns b of (s, b') \<Rightarrow> ((bs_tokensUsed s, bs_costUsed s, bs_requestCount s), b'))"

definition tb_reset :: "string \<Rightarrow> token_budget \<Rightarrow> token_budget" where
  "tb_reset ns b = b\<lparr>tb_states := js_del ns (tb_states b)\<rparr>"

definition tb_resetAll :: "token_budget \<Rightarrow> token_budget" where
  "tb_resetAll b = b\<lparr>tb_states := []\<rparr>"

definition isExhausted :: "int \<Rightarrow> string \<Rightarrow> token_budget \<Rightarrow> bool \<times> token_budget" where
  "isExhausted now ns b =
     (let a = tb_allocation ns b
      in case get_state now ns b of (s, b') \<Rightarrow>
        (num_le (al_maxTokensPerDay a) (bs_tokensUsed s) \<or> num_le (al_maxCostPerDay a) (bs_costUsed s), b'))"

section \<open>Bounds\<close>

datatype budget_op =
    Consume int string num num
  | Usage int string
  | Exhausted int string
  | Reset string
  | ResetAll

fun budget_step :: "budget_op \<Rightarrow> token_budget \<Rightarrow> token_budget" where
  "budget_step (Consume now ns t c) b = snd (tryConsume now ns t c b)"
| "budget_step (Usage now ns) b = snd (getUsage now ns b)"
| "budget_step (Exhausted now ns) b = snd (isExhausted now ns b)"
| "budget_step (Reset ns) b = tb_reset ns b"
| "budget_step ResetAll b = tb_resetAll b"

definition within_alloc :: "allocation \<Rightarrow> budget_state \<Rightarrow> bool" where
  "within_alloc a s \<longleftrightarrow> (bs_tokensUsed s = Num 0 \<or> \<not> num_lt (al_maxTokensPerDay a) (bs_tokensUsed s)) \<and>
     (bs_costUsed s = Num 0 \<or> \<not> num_lt (al_maxCostPerDay a) (bs_costUsed s)) \<and>
     (bs_requestCount s = 0 \<or> \<not> num_le (al_maxRequestsPerMinute a) (num_of_int (bs_requestCount s - 1)))"

definition budget_inv :: "token_budget \<Rightarrow> bool" where
  "budget_inv b \<longleftrightarrow> (\<forall>ns s. js_get (tb_states b) ns = Some s \<longrightarrow> within_alloc (tb_allocation ns b) s)"

lemma within_rolled:
  "within_alloc a (nullish None \<lparr>bs_tokensUsed = Num 0, bs_costUsed = Num 0, bs_requestCount = 0, bs_windowStart = n, bs_dayStart = m\<rparr>)"
  "within_alloc a s \<Longrightarrow> within_alloc a (roll_minute now (roll_day now s))"
  by (simp_all add: within_alloc_def roll_minute_def roll_day_def)

lemma get_state_facts:
  assumes "get_state now ns b = (s, b')"
  shows "tb_allocations b' = tb_allocations b" "tb_default b' = tb_default b"
    "tb_states b' = js_set ns s (tb_states b)"
    "budget_inv b \<Longrightarrow> within_alloc (tb_allocation ns b) s"
proof -
  show "tb_allocations b' = tb_allocations b" "tb_default b' = tb_default b" "tb_states b' = js_set ns s (tb_states b)"
    using assms by (auto simp: get_state_def Let_def)
  show "within_alloc (tb_allocation ns b) s" if "budget_inv b"
    using assms that within_rolled[of "tb_allocation ns b"]
    by (cases "js_get (tb_states b) ns") (auto simp: get_state_def Let_def budget_inv_def)
qed

lemma budget_inv_put:
  assumes "budget_inv b" "within_alloc (tb_allocation ns b) s"
    "tb_allocations b' = tb_allocations b" "tb_default b' = tb_default b"
    "\<And>k. js_get (tb_states b') k = (if k = ns then Some s else js_get (tb_states b) k)"
  shows "budget_inv b'"
  using assms by (auto simp: budget_inv_def tb_allocation_def)

lemma tryConsume_inv:
  assumes "budget_inv b"
  shows "budget_inv (snd (tryConsume now ns t c b))"
proof (cases "get_state now ns b")
  case (Pair s b')
  note g = get_state_facts[OF Pair]
  have w: "within_alloc (tb_allocation ns b) s" using g(4) assms .
  have kept: "budget_inv b'" by (rule budget_inv_put[OF assms w g(1,2)]) (simp add: g(3) js_get_set)
  show ?thesis
  proof (cases "fst (tryConsume now ns t c b)")
    case None
    define s' where "s' = s\<lparr>bs_requestCount := bs_requestCount s + 1, bs_tokensUsed := num_add (bs_tokensUsed s) t,
             bs_costUsed := num_add (bs_costUsed s) c\<rparr>"
    have "within_alloc (tb_allocation ns b) s'"
      using None Pair by (auto simp: tryConsume_def Let_def within_alloc_def s'_def split: if_splits)
    moreover have "snd (tryConsume now ns t c b) = b'\<lparr>tb_states := js_set ns s' (tb_states b')\<rparr>"
      using None Pair by (auto simp: tryConsume_def Let_def s'_def split: if_splits)
    ultimately show ?thesis by (intro budget_inv_put[OF assms, of ns s']) (simp_all add: g js_get_set)
  next
    case (Some reason)
    then have "snd (tryConsume now ns t c b) = b'"
      using Pair by (auto simp: tryConsume_def Let_def split: if_splits)
    with kept show ?thesis by simp
  qed
qed

lemma query_inv: "budget_inv b \<Longrightarrow> budget_inv (snd (get_state now ns b))"
proof (cases "get_state now ns b")
  case (Pair s b')
  assume "budget_inv b"
  with Pair show ?thesis
    using budget_inv_put[of b ns s b'] get_state_facts[OF Pair] by (simp add: js_get_set)
qed

lemma budget_step_inv: "budget_inv b \<Longrightarrow> budget_inv (budget_step p b)"
proof (cases p)
  case (Consume now ns t c)
  assume "budget_inv b"
  then show ?thesis using Consume by (simp add: tryConsume_inv)
next
  case (Usage now ns)
  assume "budget_inv b"
  then show ?thesis using query_inv[of b now ns] Usage by (simp add: getUsage_def case_prod_unfold)
next
  case (Exhausted now ns)
  assume "budget_inv b"
  then show ?thesis using query_inv[of b now ns] Exhausted by (simp add: isExhausted_def Let_def case_prod_unfold)
qed (auto simp: budget_inv_def tb_reset_def tb_resetAll_def tb_allocation_def js_get_del split: if_splits)

lemma tryConsume_present: "js_get (tb_states (snd (tryConsume now ns t c b))) ns \<noteq> None"
proof (cases "get_state now ns b")
  case (Pair s b')
  then show ?thesis
    by (simp add: tryConsume_def Let_def get_state_facts(3)[OF Pair] js_get_set)
qed

text \<open>A namespace never uses more than its allocation: after any sequence of consumption attempts,
  queries and resets of any namespaces at any times, the tokens and the cost used since the start
  of its day are zero or at most its daily maxima (rounded sums included), and the requests of
  its minute are at most its limit.\<close>

theorem budget_never_exceeded:
  assumes "js_get (tb_states (fold budget_step ops (tb_new env p))) ns = Some s"
  shows "within_alloc (tb_allocation ns (fold budget_step ops (tb_new env p))) s"
proof -
  have "budget_inv (tb_new env p)" by (simp add: budget_inv_def tb_new_def)
  then have "budget_inv (fold budget_step ops (tb_new env p))"
    by (intro fold_inv[of budget_inv budget_step, OF budget_step_inv])
  with assms show ?thesis by (simp add: budget_inv_def)
qed

definition demo_allocation :: partial_allocation where
  "demo_allocation = (Some (Num 100), Some (Num 100), Some (Num 5))"

theorem budget_never_exceeded_witness:
  "\<exists>s. js_get (tb_states (fold budget_step [Consume 0 ''n'' (Num 7) (Num 0)] (tb_new (\<lambda>_. None) demo_allocation))) ''n'' = Some s \<and>
     within_alloc (tb_allocation ''n'' (fold budget_step [Consume 0 ''n'' (Num 7) (Num 0)] (tb_new (\<lambda>_. None) demo_allocation))) s"
proof -
  obtain s where "js_get (tb_states (fold budget_step [Consume 0 ''n'' (Num 7) (Num 0)] (tb_new (\<lambda>_. None) demo_allocation))) ''n'' = Some s"
    using tryConsume_present[of 0 "''n''" "Num 7" "Num 0" "tb_new (\<lambda>_. None) demo_allocation"] by auto
  from budget_never_exceeded[OF this] this show ?thesis by blast
qed

text \<open>The default daily token budget is 1 token, not a million: \<open>parseInt\<close> stops at the underscore
  of the default text. With no environment, a fresh tracker refuses any request of 2 tokens.\<close>

theorem default_token_budget_is_one:
  "al_maxTokensPerDay (DEFAULT_BUDGET (\<lambda>_. None)) = Num 1 \<and>
   fst (tryConsume now ns (Num 2) (Num 0) (tb_new (\<lambda>_. None) (None, None, None))) = Some ''DAILY_TOKEN_BUDGET_EXCEEDED''"
proof -
  have p: "parse_int ''1_000_000'' = JInt 1" "parse_int ''30'' = JInt 30" by code_simp+
  have r: "rnd 1 = Num 1" "rnd 2 = Num 2" "rnd 30 = Num 30" by (simp_all add: rnd_1 rnd_numeral)
  show ?thesis
    by (simp add: DEFAULT_BUDGET_def env_int_def p num_of_jint_def num_of_int_def r tryConsume_def tb_new_def get_state_def
        tb_allocation_def merge_allocation_def roll_day_def roll_minute_def DAY_MS_def MINUTE_MS_def Let_def)
qed

end
