(* ===== verification/ToolProxy.thy ===== *)
theory ToolProxy
  imports Activities Budget RateLimiter
begin

text \<open>
  The tool proxy of \<open>execution-plane/tool-proxy/src/index.ts\<close>: the scan of the arguments for
  personal data, the tool registry, the guards against requests to internal addresses, the
  validation of sandbox arguments, the HTTP call with its retries and the gRPC handler. The URL
  parser, the network, timers, the clock and the audit log are parameters; the requests sent are
  kept as a trace.
\<close>

section \<open>Personal data\<close>

definition separator :: regex where "separator = opt (one_of ''- '')"
definition phone_sep :: regex where "phone_sep = opt (one_of ''-. '')"

definition ssn_rx :: regex where
  "ssn_rx = Cat [WordB, Neg (Lit ''000''), Neg (Lit ''666''), Neg (Cat [Lit ''9'', digits 2]), digits 3, separator,
     Neg (Lit ''00''), digits 2, separator, Neg (Lit ''0000''), digits 4, WordB]"

definition is_alpha :: "char \<Rightarrow> bool" where
  "is_alpha c \<longleftrightarrow> between (CHR ''A'') (CHR ''Z'') c \<or> between (CHR ''a'') (CHR ''z'') c"

definition email_rx :: regex where
  "email_rx = Cat [WordB, Rep 1 None (Cls (\<lambda>c. is_alpha c \<or> is_digit c \<or> c \<in> set ''._%+-'')), Lit ''@'',
     Rep 1 None (Cls (\<lambda>c. is_alpha c \<or> is_digit c \<or> c \<in> set ''.-'')), Lit ''.'', Rep 2 None (Cls is_alpha), WordB]"

definition card_rx :: regex where
  "card_rx = Alt
     [Cat [WordB, Rep 3 (Some 3) (Cat [digits 4, separator]), digits 4, WordB],
      Cat [WordB, Lit ''3'', one_of ''47'', digits 2, separator, digits 6, separator, digits 5, WordB],
      Cat [WordB, Lit ''6'', Alt [Lit ''011'', Cat [Lit ''5'', digits 2]], digits 3, separator, digits 4, separator,
           digits 4, separator, digits 4, WordB]]"

definition phone_us_rx :: regex where
  "phone_us_rx = Cat [WordB, opt (Cat [opt (Lit ''+''), Lit ''1'', phone_sep]), opt (Lit ''(''), rng (CHR ''2'') (CHR ''9''),
     digits 2, opt (Lit '')''), phone_sep, digits 3, phone_sep, digits 4, WordB]"

definition e164_rx :: regex where
  "e164_rx = Cat [WordB, Lit ''+'', rng (CHR ''1'') (CHR ''9''), Rep 1 (Some 3) digit, phone_sep, Rep 4 (Some 14) digit, WordB]"

definition birth_year :: regex where "birth_year = Cat [alts [''19'', ''20''], digits 2]"
definition birth_month :: regex where "birth_month = Alt [Cat [Lit ''0'', rng (CHR ''1'') (CHR ''9'')], Cat [Lit ''1'', one_of ''012'']]"
definition birth_day :: regex where
  "birth_day = Alt [Cat [Lit ''0'', rng (CHR ''1'') (CHR ''9'')], Cat [one_of ''12'', digit], Cat [Lit ''3'', one_of ''01'']]"

definition birth_rx :: regex where
  "birth_rx = Alt
     [Cat [WordB, birth_year, one_of ''-/'', birth_month, one_of ''-/'', birth_day, WordB],
      Cat [WordB, birth_month, one_of ''-/'', birth_day, one_of ''-/'', birth_year, WordB]]"

definition octet :: regex where
  "octet = Alt [Cat [Lit ''25'', rng (CHR ''0'') (CHR ''5'')], Cat [Lit ''2'', rng (CHR ''0'') (CHR ''4''), digit],
     Cat [Lit ''1'', digit, digit], Cat [opt (rng (CHR ''1'') (CHR ''9'')), digit]]"

definition ip_rx :: regex where
  "ip_rx = Cat [WordB, Rep 3 (Some 3) (Cat [octet, Lit ''.'']), octet, WordB]"

definition PII_PATTERNS :: "(string \<times> regex) list" where
  "PII_PATTERNS = [(''SSN'', ssn_rx), (''email'', email_rx), (''credit_card'', card_rx), (''phone_us'', phone_us_rx),
     (''phone_e164'', e164_rx), (''date_of_birth'', birth_rx), (''ip_address'', ip_rx)]"

definition scanForPII :: "json \<Rightarrow> bool" where
  "scanForPII data = list_ex (\<lambda>(_, re). rx_test re (stringify data)) PII_PATTERNS"

definition detectedPIIPatterns :: "json \<Rightarrow> string list" where
  "detectedPIIPatterns data = map fst (filter (\<lambda>(_, re). rx_test re (stringify data)) PII_PATTERNS)"

section \<open>Registry and guards\<close>

record tool_config =
  tc_endpoint :: string
  tc_method :: string

definition TOOL_REGISTRY :: "(string \<times> tool_config) list" where
  "TOOL_REGISTRY =
     [(''google_search'', \<lparr>tc_endpoint = ''https://api.serpapi.com/search'', tc_method = ''GET''\<rparr>),
      (''web_fetch'', \<lparr>tc_endpoint = ''https://r.jina.ai/http://__URL__'', tc_method = ''GET''\<rparr>),
      (''code_interpreter'', \<lparr>tc_endpoint = ''http://localhost:8080/execute'', tc_method = ''POST''\<rparr>),
      (''file_read'', \<lparr>tc_endpoint = ''http://localhost:8080/read'', tc_method = ''GET''\<rparr>),
      (''file_write'', \<lparr>tc_endpoint = ''http://localhost:8080/write'', tc_method = ''POST''\<rparr>),
      (''database_query'', \<lparr>tc_endpoint = ''http://localhost:8080/query'', tc_method = ''POST''\<rparr>)]"

definition SANDBOX_TOOLS :: "string list" where
  "SANDBOX_TOOLS = [''code_interpreter'', ''file_read'', ''file_write'', ''database_query'']"

definition SAFE_PATH :: "string \<Rightarrow> bool" where
  "SAFE_PATH s \<longleftrightarrow> s \<noteq> [] \<and> list_all (\<lambda>c. is_alpha c \<or> is_digit c \<or> c \<in> set ''_/.-'') s"

definition ALLOWED_WEB_FETCH_HOSTS :: "string list" where
  "ALLOWED_WEB_FETCH_HOSTS = [''api.serpapi.com'', ''r.jina.ai'', ''api.openai.com'', ''api.anthropic.com'',
     ''en.wikipedia.org'', ''wiki.wikipedia.org'']"

definition private_rx :: regex where
  "private_rx = Cat [Bol, Alt
     [Lit ''127.'', Lit ''10.'',
      Cat [Lit ''172.'', Alt [Cat [Lit ''1'', rng (CHR ''6'') (CHR ''9'')], Cat [Lit ''2'', digit], Cat [Lit ''3'', one_of ''01'']], Lit ''.''],
      Lit ''192.168.'', Lit ''0.'', Lit ''localhost'', Lit ''::1'', Lit ''169.254.'', Lit ''100.64.'']]"

definition isPrivateIP :: "string \<Rightarrow> bool" where
  "isPrivateIP ip \<longleftrightarrow> rx_test private_rx ip \<or> prefix ''['' ip"

text \<open>The parser of the \<open>URL\<close> class gives protocol and host name, or throws.\<close>

type_synonym url_parser = "string \<Rightarrow> (string \<times> string) option"

definition isBlockedURL :: "url_parser \<Rightarrow> json \<Rightarrow> bool" where
  "isBlockedURL U urlStr =
     (case (case json_text urlStr of None \<Rightarrow> None | Some t \<Rightarrow> U t) of
        None \<Rightarrow> True
      | Some (protocol, hostname) \<Rightarrow>
          (protocol \<noteq> ''http:'' \<and> protocol \<noteq> ''https:'') \<or> isPrivateIP hostname \<or>
          suffix ''.internal'' (lower hostname) \<or> suffix ''.local'' (lower hostname) \<or>
          str_includes (lower hostname) ''metadata.google.internal'')"

definition isAllowedWebFetchHost :: "url_parser \<Rightarrow> json \<Rightarrow> bool" where
  "isAllowedWebFetchHost U urlStr =
     (case (case json_text urlStr of None \<Rightarrow> None | Some t \<Rightarrow> U t) of
        None \<Rightarrow> False
      | Some (_, hostname) \<Rightarrow> hostname \<in> set ALLOWED_WEB_FETCH_HOSTS)"

section \<open>Arguments of sandbox tools\<close>

text \<open>\<open>a || b || ""\<close>\<close>

fun first_truthy :: "json option list \<Rightarrow> json" where
  "first_truthy [] = JStr []"
| "first_truthy (v # vs) = (if json_truthy v then the v else first_truthy vs)"

definition check_path :: "json \<Rightarrow> string option" where
  "check_path p =
     (case p of
        JStr s \<Rightarrow> if s = [] then Some ''No path provided''
                  else if \<not> SAFE_PATH s \<or> str_includes s ''..'' then Some ''Invalid path'' else None
      | _ \<Rightarrow> Some ''No path provided'')"

definition validateSandboxArgs :: "string \<Rightarrow> json \<Rightarrow> string option" where
  "validateSandboxArgs toolName args =
     (if toolName = ''code_interpreter'' then
        (case first_truthy [jget args ''code'', jget args ''script''] of
           JStr code \<Rightarrow> if code = [] then Some ''No code provided''
             else if 10000 < length code then Some ''Code exceeds 10,000 character limit'' else None
         | _ \<Rightarrow> Some ''No code provided'')
      else if toolName = ''file_read'' then check_path (first_truthy [jget args ''path''])
      else if toolName = ''file_write'' then
        (case check_path (first_truthy [jget args ''path'']) of
           Some e \<Rightarrow> Some e
         | None \<Rightarrow> (case first_truthy [jget args ''content''] of
             JStr c \<Rightarrow> if 1000000 < length c then Some ''Content too large'' else None
           | _ \<Rightarrow> Some ''Content too large''))
      else if toolName = ''database_query'' then
        (case first_truthy [jget args ''query''] of
           JStr q \<Rightarrow> if q = [] then Some ''No query provided''
             else if 10000 < length q then Some ''Query too long''
             else if list_ex (\<lambda>c. c \<in> set (CHR 0x60 # '';&|$(){}!<>'')) q then Some ''Query contains blocked characters'' else None
         | _ \<Rightarrow> Some ''No query provided'')
      else Some (''Unknown tool: '' @ toolName))"

section \<open>The HTTP call\<close>

record fetch_opts =
  fo_method :: string
  fo_headers :: "(string \<times> string) list"
  fo_body :: "string option"

record fetch_error =
  fe_name :: string
  fe_message :: string

text \<open>A response: its status, and its text or the error of reading it.\<close>

type_synonym fetch_response = "int \<times> (fetch_error + string)"

datatype tool_audit = Tool_audit (tu_severity: string) (tu_agent: string) (tu_tool: string) (tu_result: string) (tu_reason: "string option")

record 'w tool_env =
  te_fetch :: "string \<Rightarrow> fetch_opts \<Rightarrow> 'w \<Rightarrow> (fetch_error + fetch_response) \<times> 'w"
  te_sleep :: "int \<Rightarrow> 'w \<Rightarrow> 'w"
  te_clock :: "'w \<Rightarrow> int"
  te_audit :: "tool_audit \<Rightarrow> 'w \<Rightarrow> 'w"
  te_url :: url_parser
  te_env :: "string \<Rightarrow> string option"

record 'w tool_proxy =
  tp_limiter :: rate_limiter
  tp_fetches :: "(string \<times> fetch_opts) list"
  tp_world :: 'w

definition do_fetch :: "'w tool_env \<Rightarrow> string \<Rightarrow> fetch_opts \<Rightarrow> 'w tool_proxy \<Rightarrow> (fetch_error + fetch_response) \<times> 'w tool_proxy" where
  "do_fetch E url opts s = (case te_fetch E url opts (tp_world s) of
     (r, w) \<Rightarrow> (r, s\<lparr>tp_fetches := tp_fetches s @ [(url, opts)], tp_world := w\<rparr>))"

definition do_sleep :: "'w tool_env \<Rightarrow> int \<Rightarrow> 'w tool_proxy \<Rightarrow> 'w tool_proxy" where
  "do_sleep E ms s = s\<lparr>tp_world := te_sleep E ms (tp_world s)\<rparr>"

text \<open>The loop with \<open>left\<close> retries left after \<open>att\<close> attempts.\<close>

fun fetch_from :: "'w tool_env \<Rightarrow> string \<Rightarrow> fetch_opts \<Rightarrow> nat \<Rightarrow> nat \<Rightarrow> 'w tool_proxy \<Rightarrow>
    (fetch_error + fetch_response) \<times> 'w tool_proxy" where
  "fetch_from E url opts att 0 s = do_fetch E url opts s"
| "fetch_from E url opts att (Suc left) s =
     (case do_fetch E url opts s of
        (Inr res, s') \<Rightarrow>
          if 500 \<le> fst res \<and> fst res \<le> 599
          then fetch_from E url opts (Suc att) left (do_sleep E (200 * 2 ^ att) s') else (Inr res, s')
      | (Inl e, s') \<Rightarrow>
          if fe_name e = ''AbortError'' then (Inl e, s')
          else fetch_from E url opts (Suc att) left (do_sleep E (200 * 2 ^ att) s'))"

definition fetchWithRetry :: "'w tool_env \<Rightarrow> string \<Rightarrow> fetch_opts \<Rightarrow> nat \<Rightarrow> 'w tool_proxy \<Rightarrow>
    (fetch_error + fetch_response) \<times> 'w tool_proxy" where
  "fetchWithRetry E url opts maxRetries = fetch_from E url opts 0 maxRetries"

section \<open>The handler\<close>

record tool_call =
  tq_agent_id :: string
  tq_execution_id :: string
  tq_tool_name :: string
  tq_args :: json
  tq_sandbox_ip :: "string option"
  tq_user_id :: "string option"

record tool_answer =
  tn_status :: string
  tn_result :: "(string \<times> string) option"
  tn_error_message :: "string option"
  tn_latency_ms :: int
  tn_cost :: "string option"

datatype tool_reply = Tool_rejected grpc_status string | Tool_blocked svc_error | Tool_answer tool_answer

definition tool_rate_key :: "tool_call \<Rightarrow> string" where
  "tool_rate_key q =
     (if truthy (tq_user_id q) then ''user:'' @ the (tq_user_id q) @ '':'' @ tq_tool_name q
      else extractNamespace (tq_agent_id q) @ '':'' @ tq_agent_id q @ '':'' @ tq_tool_name q)"

definition ceil_seconds :: "jint \<Rightarrow> string" where
  "ceil_seconds ms = (case ms of NaN \<Rightarrow> ''NaN'' | JInt n \<Rightarrow> show_int (- ((- n) div 1000)))"

definition upper :: "string \<Rightarrow> string" where
  "upper s = map (\<lambda>c. if between (CHR ''a'') (CHR ''z'') c then char_of (of_char c - (32 :: nat)) else c) s"

definition injectCredentials :: "(string \<Rightarrow> string option) \<Rightarrow> string \<Rightarrow> (string \<times> string) list" where
  "injectCredentials env toolName =
     (let key = env_or (env (''TOOL_'' @ upper toolName @ ''_API_KEY'')) (env_or (env ''TOOL_DEFAULT_API_KEY'') [])
      in if key = [] then [] else [(''Authorization'', ''Bearer '' @ key)])"

text \<open>\<open>encodeURIComponent\<close> over the UTF-8 form; characters from 128 on take two bytes.\<close>

definition hex_upper :: "nat \<Rightarrow> char" where
  "hex_upper n = (if n < 10 then char_of (48 + n) else char_of (55 + n))"

definition percent :: "nat \<Rightarrow> string" where
  "percent n = [CHR ''%'', hex_upper (n div 16), hex_upper (n mod 16)]"

definition encodeURIComponent :: "string \<Rightarrow> string" where
  "encodeURIComponent s = concat (map (\<lambda>c. let n = of_char c in
     if is_alpha c \<or> is_digit c \<or> c \<in> set (CHR 0x27 # ''-_.!~*()'') then [c]
     else if n < 128 then percent n else percent (192 + n div 64) @ percent (128 + n mod 64)) s)"

text \<open>\<open>url.replace("__URL__", t)\<close>\<close>

definition fill_url :: "string \<Rightarrow> string \<Rightarrow> string" where
  "fill_url url t = (case rx_find (Lit ''__URL__'') url of None \<Rightarrow> url | Some (pre, _, post) \<Rightarrow> pre @ t @ post)"

definition base_headers :: "(string \<times> string) list" where
  "base_headers = [(''Content-Type'', ''application/json''), (''User-Agent'', ''EGAOP-Tool-Proxy/1.0'')]"

text \<open>
  The checks before the call: a refusal with its message, a request, or an error that is thrown.
  \<open>None\<close> as the configuration is a member that the registry inherits: it has no endpoint.
\<close>

datatype tool_plan = Refuse string | Send string fetch_opts | Fail string

definition target_url :: "url_parser \<Rightarrow> tool_call \<Rightarrow> tool_config \<Rightarrow> string + string" where
  "target_url U q config =
     (let url = tc_endpoint config; argsUrl = jget (tq_args q) ''url''
      in if str_includes url ''__URL__'' \<and> json_truthy argsUrl then
           (if isBlockedURL U (the argsUrl) then Inl ''URL targets a private or internal network address''
            else if tq_tool_name q = ''web_fetch'' \<and> \<not> isAllowedWebFetchHost U (the argsUrl)
                 then Inl ''URL is not in the allowed hosts list for web_fetch''
            else Inr (fill_url url (encodeURIComponent (nullish (json_text (the argsUrl)) []))))
         else Inr url)"

definition sandbox_url :: "tool_call \<Rightarrow> string + string" where
  "sandbox_url q =
     (if \<not> truthy (tq_sandbox_ip q) then Inl (''Sandbox IP not provided for sandbox-execution tool: '' @ tq_tool_name q)
      else if isPrivateIP (the (tq_sandbox_ip q)) then Inl ''Sandbox IP resolves to a private network address''
      else Inr (''http://'' @ the (tq_sandbox_ip q) @ '':8080/exec''))"

definition tool_plan :: "'w tool_env \<Rightarrow> tool_call \<Rightarrow> tool_config option \<Rightarrow> tool_plan" where
  "tool_plan E q config =
     (case config of
        None \<Rightarrow> Fail (''Cannot read properties of undefined (reading '' @ quoted ''includes'' @ '')'')
      | Some c \<Rightarrow>
          (case target_url (te_url E) q c of
             Inl e \<Rightarrow> Refuse e
           | Inr url \<Rightarrow>
               (let name = tq_tool_name q; args = tq_args q;
                    headers = base_headers @ injectCredentials (te_env E) name;
                    body = (if tc_method c = ''POST'' then Some (stringify args) else None)
                in if name \<in> set SANDBOX_TOOLS then
                     (case sandbox_url q of
                        Inl e \<Rightarrow> Refuse e
                      | Inr url \<Rightarrow>
                          (case validateSandboxArgs name args of
                             Some e \<Rightarrow> Refuse (''Input validation failed: '' @ e)
                           | None \<Rightarrow> Send url \<lparr>fo_method = ''POST'', fo_headers = headers,
                               fo_body = Some (stringify (JObj [(''tool'', JStr name), (''args'', args)]))\<rparr>))
                   else Send url \<lparr>fo_method = tc_method c, fo_headers = headers, fo_body = body\<rparr>)))"

definition tool_failed_answer :: "string \<Rightarrow> int \<Rightarrow> tool_answer" where
  "tool_failed_answer msg ms = \<lparr>tn_status = ''failed'', tn_result = None, tn_error_message = Some msg, tn_latency_ms = ms, tn_cost = None\<rparr>"

definition audit_tool :: "'w tool_env \<Rightarrow> tool_audit \<Rightarrow> 'w tool_proxy \<Rightarrow> 'w tool_proxy" where
  "audit_tool E a s = s\<lparr>tp_world := te_audit E a (tp_world s)\<rparr>"

definition tool_time :: "'w tool_env \<Rightarrow> 'w tool_proxy \<Rightarrow> int" where
  "tool_time E s = te_clock E (tp_world s)"

text \<open>The handler of the \<open>catch\<close> block, and the answer to a response.\<close>

definition tool_caught :: "'w tool_env \<Rightarrow> tool_call \<Rightarrow> int \<Rightarrow> string \<Rightarrow> 'w tool_proxy \<Rightarrow> tool_reply \<times> 'w tool_proxy" where
  "tool_caught E q start msg s =
     (Tool_answer (tool_failed_answer (''Tool execution failed: '' @ tq_tool_name q) (tool_time E s - start)),
      audit_tool E (Tool_audit ''error'' (tq_agent_id q) (tq_tool_name q) ''error'' (Some msg)) s)"

definition tool_responded :: "'w tool_env \<Rightarrow> tool_call \<Rightarrow> int \<Rightarrow> fetch_response \<Rightarrow> 'w tool_proxy \<Rightarrow> tool_reply \<times> 'w tool_proxy" where
  "tool_responded E q start res s =
     (let ok = 200 \<le> fst res \<and> fst res \<le> 299
      in case (if ok then snd res else Inr (''HTTP '' @ show_int (fst res))) of
           Inl e \<Rightarrow> tool_caught E q start (fe_message e) s
         | Inr body \<Rightarrow>
             (Tool_answer \<lparr>tn_status = ''succeeded'', tn_result = Some (''SUCCESS'', take 10000 body), tn_error_message = None,
                tn_latency_ms = tool_time E s - start, tn_cost = Some ''$0.002''\<rparr>,
              audit_tool E (Tool_audit ''info'' (tq_agent_id q) (tq_tool_name q) (if ok then ''allowed'' else ''error'') None) s))"

definition tool_execute :: "'w tool_env \<Rightarrow> tool_call \<Rightarrow> int \<Rightarrow> tool_config option \<Rightarrow> 'w tool_proxy \<Rightarrow> tool_reply \<times> 'w tool_proxy" where
  "tool_execute E q start config s =
     (case tool_plan E q config of
        Refuse e \<Rightarrow> (Tool_answer (tool_failed_answer e (tool_time E s - start)), s)
      | Fail e \<Rightarrow> tool_caught E q start e s
      | Send url opts \<Rightarrow>
          (case fetchWithRetry E url opts 3 s of
             (Inl e, s') \<Rightarrow> tool_caught E q start (fe_message e) s'
           | (Inr res, s') \<Rightarrow> tool_responded E q start res s'))"

text \<open>\<open>None\<close> when the name is not in the registry; the inner option is \<open>None\<close> for an inherited member.\<close>

definition find_tool :: "string \<Rightarrow> tool_config option option" where
  "find_tool name = (case map_of TOOL_REGISTRY name of
     Some c \<Rightarrow> Some (Some c) | None \<Rightarrow> if name \<in> set proto_members then Some None else None)"

definition CallTool :: "'w tool_env \<Rightarrow> tool_call \<Rightarrow> 'w tool_proxy \<Rightarrow> tool_reply \<times> 'w tool_proxy" where
  "CallTool E q s =
     (let start = tool_time E s; check = rl_check (tool_rate_key q) start (tp_limiter s); s = s\<lparr>tp_limiter := snd check\<rparr>
      in if \<not> rl_allowed (fst check) then
           (Tool_rejected G_RESOURCE_EXHAUSTED (''Rate limit exceeded. Retry after '' @ ceil_seconds (retryAfterMs (fst check)) @ ''s.''), s)
         else case find_tool (tq_tool_name q) of
           None \<Rightarrow> (Tool_answer (tool_failed_answer (''Unknown tool: '' @ tq_tool_name q) (tool_time E s - start)), s)
         | Some config \<Rightarrow>
             if scanForPII (tq_args q) then
               (Tool_blocked (PIIViolation ''PII detected in tool arguments'' (tq_tool_name q) (detectedPIIPatterns (tq_args q))), s)
             else tool_execute E q start config s)"

section \<open>What is sent\<close>

text \<open>The calls of the network that a run made, and the requests that may be made for a call.\<close>

lemma fetch_from_trace:
  "fetch_from E url opts att left s = (r, s') \<Longrightarrow>
     \<exists>n. 1 \<le> n \<and> n \<le> Suc left \<and> tp_fetches s' = tp_fetches s @ replicate n (url, opts) \<and> tp_limiter s' = tp_limiter s"
proof (induction left arbitrary: att s r s')
  case 0
  then show ?case by (intro exI[of _ 1]) (auto simp: do_fetch_def split: prod.splits)
next
  case (Suc left)
  obtain r1 w where d: "te_fetch E url opts (tp_world s) = (r1, w)" by fastforce
  let ?s = "s\<lparr>tp_fetches := tp_fetches s @ [(url, opts)], tp_world := w\<rparr>"
  have step: "fetch_from E url opts att (Suc left) s \<in> {(r1, ?s), fetch_from E url opts (Suc att) left (do_sleep E (200 * 2 ^ att) ?s)}"
    using d by (cases r1) (auto simp: do_fetch_def)
  then show ?case
  proof
    assume "fetch_from E url opts att (Suc left) s = (r1, ?s)"
    with Suc.prems show ?case by (intro exI[of _ 1]) auto
  next
    assume "fetch_from E url opts att (Suc left) s \<in> {fetch_from E url opts (Suc att) left (do_sleep E (200 * 2 ^ att) ?s)}"
    with Suc.prems have "fetch_from E url opts (Suc att) left (do_sleep E (200 * 2 ^ att) ?s) = (r, s')" by simp
    from Suc.IH[OF this] obtain n where n: "1 \<le> n" "n \<le> Suc left"
      "tp_fetches s' = tp_fetches (do_sleep E (200 * 2 ^ att) ?s) @ replicate n (url, opts)" "tp_limiter s' = tp_limiter (do_sleep E (200 * 2 ^ att) ?s)"
      by blast
    then show ?case by (intro exI[of _ "Suc n"]) (simp add: do_sleep_def)
  qed
qed

definition may_send :: "'w tool_env \<Rightarrow> tool_call \<Rightarrow> string \<Rightarrow> bool" where
  "may_send E q url \<longleftrightarrow>
     tq_tool_name q \<in> fst ` set TOOL_REGISTRY \<and> \<not> scanForPII (tq_args q) \<and>
     (if tq_tool_name q \<in> set SANDBOX_TOOLS
      then \<exists>ip. tq_sandbox_ip q = Some ip \<and> \<not> isPrivateIP ip \<and> url = ''http://'' @ ip @ '':8080/exec'' \<and>
             validateSandboxArgs (tq_tool_name q) (tq_args q) = None
      else tq_tool_name q = ''web_fetch'' \<and> json_truthy (jget (tq_args q) ''url'') \<longrightarrow>
             \<not> isBlockedURL (te_url E) (the (jget (tq_args q) ''url'')) \<and>
             isAllowedWebFetchHost (te_url E) (the (jget (tq_args q) ''url'')))"

lemma web_fetch_endpoint: "map_of TOOL_REGISTRY ''web_fetch'' = Some \<lparr>tc_endpoint = ''https://r.jina.ai/http://__URL__'', tc_method = ''GET''\<rparr>"
  by (simp add: TOOL_REGISTRY_def)

lemma web_fetch_template: "str_includes ''https://r.jina.ai/http://__URL__'' ''__URL__''"
  by code_simp

lemma plan_may_send:
  assumes "tool_plan E q (Some c) = Send url opts" and c: "map_of TOOL_REGISTRY (tq_tool_name q) = Some c"
    and "\<not> scanForPII (tq_args q)"
  shows "may_send E q url"
proof -
  obtain u where u: "target_url (te_url E) q c = Inr u" using assms(1) by (auto simp: tool_plan_def split: sum.splits)
  have reg: "tq_tool_name q \<in> fst ` set TOOL_REGISTRY"
    using c by (metis domI dom_map_of_conv_image_fst)
  show ?thesis
  proof (cases "tq_tool_name q \<in> set SANDBOX_TOOLS")
    case True
    then obtain ip where "tq_sandbox_ip q = Some ip" "\<not> isPrivateIP ip" "url = ''http://'' @ ip @ '':8080/exec''"
      "validateSandboxArgs (tq_tool_name q) (tq_args q) = None"
      using assms(1) u by (auto simp: tool_plan_def Let_def sandbox_url_def truthy_def split: sum.splits option.splits if_splits)
    with True reg assms(3) show ?thesis by (simp add: may_send_def)
  next
    case False
    have "\<not> isBlockedURL (te_url E) (the (jget (tq_args q) ''url'')) \<and> isAllowedWebFetchHost (te_url E) (the (jget (tq_args q) ''url''))"
      if w: "tq_tool_name q = ''web_fetch''" "json_truthy (jget (tq_args q) ''url'')"
    proof -
      have "c = \<lparr>tc_endpoint = ''https://r.jina.ai/http://__URL__'', tc_method = ''GET''\<rparr>"
        using c w(1) web_fetch_endpoint by simp
      with u w show ?thesis
        by (simp add: target_url_def Let_def web_fetch_template split: if_splits)
    qed
    with False reg assms(3) show ?thesis by (simp add: may_send_def)
  qed
qed

lemma caught_trace: "tp_fetches (snd (tool_caught E q start e s)) = tp_fetches s"
  by (simp add: tool_caught_def audit_tool_def)

lemma responded_trace: "tp_fetches (snd (tool_responded E q start res s)) = tp_fetches s"
proof (cases "if 200 \<le> fst res \<and> fst res \<le> 299 then snd res else Inr (''HTTP '' @ show_int (fst res))")
  case (Inl e)
  then show ?thesis unfolding tool_responded_def Let_def by (simp only: sum.case caught_trace)
next
  case (Inr body)
  then show ?thesis unfolding tool_responded_def Let_def by (simp only: sum.case) (simp add: audit_tool_def)
qed

lemma execute_trace:
  "tp_fetches (snd (tool_execute E q start config s)) = tp_fetches s \<or>
   (\<exists>n url opts. 1 \<le> n \<and> n \<le> 4 \<and> tool_plan E q config = Send url opts \<and>
      tp_fetches (snd (tool_execute E q start config s)) = tp_fetches s @ replicate n (url, opts))"
proof (cases "tool_plan E q config")
  case (Refuse e)
  then show ?thesis by (simp add: tool_execute_def)
next
  case (Fail e)
  then show ?thesis by (simp add: tool_execute_def caught_trace)
next
  case (Send url opts)
  obtain r s' where f: "fetchWithRetry E url opts 3 s = (r, s')" by fastforce
  then obtain n where n: "1 \<le> n" "n \<le> Suc 3" "tp_fetches s' = tp_fetches s @ replicate n (url, opts)"
    using fetch_from_trace[of E url opts 0 3 s r s'] by (auto simp: fetchWithRetry_def)
  have "tp_fetches (snd (tool_execute E q start config s)) = tp_fetches s'"
    using Send f by (cases r) (simp_all add: tool_execute_def caught_trace responded_trace)
  with Send n show ?thesis by (intro disjI2 exI[of _ n] exI[of _ url] exI[of _ opts]) simp
qed

text \<open>C13. The proxy sends only what its guards allow: an invocation sends nothing, or one request at most
  four times, and then it passed the rate limit, the tool is registered, its arguments contain no
  personal data that the patterns know, a sandbox tool goes to the given address outside the
  private ranges with validated arguments, and \<open>web_fetch\<close> with a URL goes to an allowed public
  host.\<close>

theorem tool_requests_guarded:
  "tp_fetches (snd (CallTool E q s)) = tp_fetches s \<or>
   (\<exists>n url opts. 1 \<le> n \<and> n \<le> 4 \<and> tp_fetches (snd (CallTool E q s)) = tp_fetches s @ replicate n (url, opts) \<and>
      rl_allowed (fst (rl_check (tool_rate_key q) (tool_time E s) (tp_limiter s))) \<and> may_send E q url)"
proof -
  let ?c = "rl_check (tool_rate_key q) (tool_time E s) (tp_limiter s)"
  let ?s = "s\<lparr>tp_limiter := snd ?c\<rparr>"
  show ?thesis
  proof (cases "rl_allowed (fst ?c) \<and> \<not> scanForPII (tq_args q) \<and> find_tool (tq_tool_name q) \<noteq> None")
    case False
    then show ?thesis by (auto simp: CallTool_def Let_def split: option.splits)
  next
    case True
    then obtain config where config: "find_tool (tq_tool_name q) = Some config" by blast
    with True have call: "snd (CallTool E q s) = snd (tool_execute E q (tool_time E s) config ?s)"
      by (simp add: CallTool_def Let_def)
    from execute_trace[of E q "tool_time E s" config ?s] show ?thesis
    proof (elim disjE exE conjE)
      assume "tp_fetches (snd (tool_execute E q (tool_time E s) config ?s)) = tp_fetches ?s"
      with call show ?thesis by simp
    next
      fix n url opts
      assume n: "1 \<le> n" "n \<le> 4" and plan: "tool_plan E q config = Send url opts"
        and tr: "tp_fetches (snd (tool_execute E q (tool_time E s) config ?s)) = tp_fetches ?s @ replicate n (url, opts)"
      have "\<exists>c. config = Some c \<and> map_of TOOL_REGISTRY (tq_tool_name q) = Some c"
        using config plan by (auto simp: find_tool_def tool_plan_def split: option.splits if_splits)
      then have "may_send E q url" using plan plan_may_send True by blast
      with n tr True show ?thesis unfolding call by (intro disjI2 exI[of _ n] exI[of _ url] exI[of _ opts]) simp
    qed
  qed
qed

section \<open>What the guards refuse\<close>

lemma rx_test_start: "rx_ends r (None, s) \<noteq> [] \<Longrightarrow> r \<in> set rs \<Longrightarrow> rx_test (Cat [Bol, Alt rs]) s"
proof -
  assume r: "rx_ends r (None, s) \<noteq> []" "r \<in> set rs"
  then have "rx_ends (Alt rs) (None, s) \<noteq> []" by (induction rs) auto
  then obtain a b where "(a, b) \<in> set (rx_ends_alt rs (None, s))" by (cases "rx_ends_alt rs (None, s)") auto
  then have "rx_ends (Cat [Bol, Alt rs]) (None, s) \<noteq> []" by auto
  moreover have "(None, s) \<in> set (positions None s)" by (cases s) auto
  ultimately show ?thesis unfolding rx_test_def list_ex_iff by blast
qed

lemma private_prefix: "Lit p \<in> set rs \<Longrightarrow> rx_test (Cat [Bol, Alt rs]) (p @ s)"
  by (rule rx_test_start[where r = "Lit p"]) (simp_all add: advance_append)

lemma private_addresses: "p \<in> {''10.'', ''192.168.'', ''127.'', ''169.254.''} \<Longrightarrow> isPrivateIP (p @ s)"
  unfolding isPrivateIP_def private_rx_def by (intro disjI1 private_prefix) auto

lemma docker_bridge_private: "isPrivateIP (''172.17.'' @ s)"
proof -
  let ?r = "Cat [Lit ''172.'', Alt [Cat [Lit ''1'', rng (CHR ''6'') (CHR ''9'')], Cat [Lit ''2'', digit], Cat [Lit ''3'', one_of ''01'']], Lit ''.'']"
  have "rx_ends ?r (None, ''172.17.'' @ s) \<noteq> []"
    by (simp add: rng_def between_def digit_def one_of_def is_digit_def)
  then show ?thesis unfolding isPrivateIP_def private_rx_def by (intro disjI1 rx_test_start[of ?r]) simp_all
qed

text \<open>Sandbox tools cannot reach a sandbox on a container network: with an address in 10.0.0.0/8,
  192.168.0.0/16 or on the default bridge 172.17.0.0/16, every call of a sandbox tool is refused
  or blocked, and nothing is sent.\<close>

theorem private_sandbox_unreachable:
  assumes "tq_tool_name q \<in> set SANDBOX_TOOLS" and "tq_sandbox_ip q = Some (p @ rest)"
    and "p \<in> {''10.'', ''192.168.'', ''172.17.''}"
  shows "tp_fetches (snd (CallTool E q s)) = tp_fetches s"
proof -
  have "isPrivateIP (p @ rest)" using assms(3) private_addresses docker_bridge_private by blast
  then have n: "\<not> tool_plan E q config = Send url opts" for config url opts
    using assms(1,2) by (auto simp: tool_plan_def sandbox_url_def Let_def split: option.splits sum.splits)
  have "tp_fetches (snd (tool_execute E q start config u)) = tp_fetches u" for start config u
    using execute_trace[of E q start config u] n by blast
  then show ?thesis by (auto simp: CallTool_def Let_def split: option.splits)
qed

definition demo_tool_call :: tool_call where
  "demo_tool_call = \<lparr>tq_agent_id = ''n/a'', tq_execution_id = ''e'', tq_tool_name = ''code_interpreter'',
     tq_args = JObj [(''code'', JStr ''1'')], tq_sandbox_ip = Some ''172.17.0.2'', tq_user_id = None\<rparr>"

definition demo_tool_env :: "int tool_env" where
  "demo_tool_env = \<lparr>te_fetch = (\<lambda>_ _ w. (Inr (500, Inr ''down''), w)), te_sleep = (\<lambda>n w. w + n), te_clock = id,
     te_audit = (\<lambda>_ w. w), te_url = (\<lambda>_. None), te_env = (\<lambda>_. None)\<rparr>"

definition demo_proxy :: "int tool_proxy" where
  "demo_proxy = \<lparr>tp_limiter = rl_new None None None None, tp_fetches = [], tp_world = 0\<rparr>"

theorem private_sandbox_unreachable_witness:
  "tp_fetches (snd (CallTool demo_tool_env demo_tool_call demo_proxy)) = []"
  using private_sandbox_unreachable[of demo_tool_call "''172.17.''" "''0.2''" demo_tool_env demo_proxy]
  by (simp add: demo_tool_call_def demo_proxy_def SANDBOX_TOOLS_def)

text \<open>A failed HTTP call is reported as a success: whatever the status outside 2xx is, the answer says
  \<open>succeeded\<close> and carries the text \<open>HTTP <status>\<close> as its result.\<close>

theorem http_failure_succeeds:
  assumes "fst res < 200 \<or> 299 < fst res"
  shows "fst (tool_responded E q start res s) =
    Tool_answer \<lparr>tn_status = ''succeeded'', tn_result = Some (''SUCCESS'', take 10000 (''HTTP '' @ show_int (fst res))),
      tn_error_message = None, tn_latency_ms = tool_time E s - start, tn_cost = Some ''$0.002''\<rparr>"
proof -
  have "\<not> (200 \<le> fst res \<and> fst res \<le> 299)" using assms by auto
  then show ?thesis unfolding tool_responded_def Let_def by (simp only: if_False sum.case) simp
qed

theorem http_failure_succeeds_witness:
  "fst (tool_responded demo_tool_env demo_tool_call 0 (500, Inr ''down'') demo_proxy) =
    Tool_answer \<lparr>tn_status = ''succeeded'', tn_result = Some (''SUCCESS'', take 10000 (''HTTP '' @ show_int 500)),
      tn_error_message = None, tn_latency_ms = 0, tn_cost = Some ''$0.002''\<rparr>"
  using http_failure_succeeds[of "(500, Inr ''down'')" demo_tool_env demo_tool_call 0 demo_proxy]
  by (simp add: tool_time_def demo_tool_env_def demo_proxy_def)

text \<open>The arguments of a search are never sent: the method is GET and the URL has no place for them.\<close>

lemma search_ignores_arguments:
  assumes "tq_tool_name q = ''google_search''"
  shows "tool_plan E (q\<lparr>tq_args := a\<rparr>) (map_of TOOL_REGISTRY ''google_search'') = tool_plan E q (map_of TOOL_REGISTRY ''google_search'')"
proof -
  have "\<not> str_includes ''https://api.serpapi.com/search'' ''__URL__''" by code_simp
  then show ?thesis using assms by (simp add: tool_plan_def target_url_def TOOL_REGISTRY_def SANDBOX_TOOLS_def Let_def)
qed

section \<open>Blocked arguments and the workflow\<close>

text \<open>C38. A blocked invocation does not stop the workflow: the proxy answers personal data with an error
  whose message reaches the activity as the details of the gRPC error, but the activity looks for
  \<open>PII_VIOLATION\<close> there, which the message does not contain; it returns an ordinary failed result
  instead of the error that the workflow treats as fatal.\<close>

theorem pii_block_not_fatal:
  assumes "fst (CallTool E q s) = Tool_blocked e" and "ge_details g = Some (err_message e)"
  shows "tool_failure V start (tq_tool_name q) g p =
    (Inr (failed_tool (tq_tool_name q) ''PII detected in tool arguments'' (now_ms V p - start)), p)"
proof -
  have "fst (CallTool E q s) = Tool_blocked e \<Longrightarrow> \<exists>ps. e = PIIViolation ''PII detected in tool arguments'' (tq_tool_name q) ps"
    by (auto simp: CallTool_def tool_execute_def tool_caught_def tool_responded_def Let_def
        split: if_splits option.splits tool_plan.splits sum.splits prod.splits)
  then have d: "ge_details g = Some ''PII detected in tool arguments''" using assms by auto
  have "\<not> str_includes ''PII detected in tool arguments'' ''PII_VIOLATION''"
    "\<not> str_includes ''PII detected in tool arguments'' ''POLICY_DENIED''"
    by code_simp+
  with d show ?thesis by (simp add: tool_failure_def with_state_def ret_def)
qed

definition demo_pii_call :: tool_call where
  "demo_pii_call = demo_tool_call\<lparr>tq_args := JObj [(''q'', JStr ''123-45-6789'')]\<rparr>"

lemma demo_pii_found: "scanForPII (JObj [(''q'', JStr ''123-45-6789'')])"
proof -
  have "rx_test ssn_rx (stringify (JObj [(''q'', JStr ''123-45-6789'')]))" by code_simp
  then show ?thesis by (simp add: scanForPII_def PII_PATTERNS_def)
qed

theorem pii_block_not_fatal_witness:
  "tool_failure demo_services 0 ''code_interpreter'' \<lparr>ge_details = Some ''PII detected in tool arguments'', ge_message = None\<rparr>
     (enforcer_new None 0) =
   (Inr (failed_tool ''code_interpreter'' ''PII detected in tool arguments'' 0), enforcer_new None 0)"
proof -
  have ok: "rl_allowed (fst (rl_check k t (rl_new (Some (JInt 5)) None None None)))" for k t
    by (simp add: rl_check_def rl_new_def rl_active_def Let_def)
  have "fst (CallTool demo_tool_env demo_pii_call (demo_proxy\<lparr>tp_limiter := rl_new (Some (JInt 5)) None None None\<rparr>)) =
      Tool_blocked (PIIViolation ''PII detected in tool arguments'' ''code_interpreter'' (detectedPIIPatterns (tq_args demo_pii_call)))"
    using demo_pii_found ok
    by (simp add: CallTool_def Let_def demo_pii_call_def demo_tool_call_def find_tool_def TOOL_REGISTRY_def)
  from pii_block_not_fatal[OF this, of "\<lparr>ge_details = Some ''PII detected in tool arguments'', ge_message = None\<rparr>" demo_services 0 "enforcer_new None 0"]
  show ?thesis by (simp add: demo_pii_call_def demo_tool_call_def now_ms_def demo_services_def enforcer_new_def)
qed

end
