(* ===== verification/Semaphore.thy ===== *)
theory Semaphore
  imports Prelude
begin

text \<open>
  The counting semaphore of \<open>packages/shared/src/grpc/async-semaphore.ts\<close>. A pending promise is
  a waiter with an identity; the promises that were resolved are logged with their value. The
  callers of the semaphore are modelled by a step relation: a caller acquires, a caller that was
  granted a slot releases it, and a timer fires for a waiter that has one.
\<close>

section \<open>Operations\<close>

record waiter =
  w_id :: nat
  w_timer :: bool

record semaphore =
  s_max :: int
  s_current :: int
  s_waiters :: "waiter list"
  s_resolved :: "(nat \<times> bool) list"

definition sem_new :: "int \<Rightarrow> string + semaphore" where
  "sem_new mx =
     (if mx < 1 then Inl ''Semaphore max must be >= 1''
      else Inr \<lparr>s_max = mx, s_current = 0, s_waiters = [], s_resolved = []\<rparr>)"

text \<open>\<open>timeoutMs && timeoutMs > 0\<close>: only a positive timeout arms a timer.\<close>

definition sem_acquire :: "nat \<Rightarrow> int option \<Rightarrow> semaphore \<Rightarrow> semaphore" where
  "sem_acquire i timeout s =
     (if s_current s < s_max s
      then s\<lparr>s_current := s_current s + 1, s_resolved := s_resolved s @ [(i, True)]\<rparr>
      else s\<lparr>s_waiters := s_waiters s @ [\<lparr>w_id = i, w_timer = (case timeout of None \<Rightarrow> False | Some t \<Rightarrow> 0 < t)\<rparr>]\<rparr>)"

definition sem_timeout :: "nat \<Rightarrow> semaphore \<Rightarrow> semaphore" where
  "sem_timeout i s =
     (if i \<in> w_id ` set (s_waiters s)
      then s\<lparr>s_waiters := filter (\<lambda>w. w_id w \<noteq> i) (s_waiters s), s_resolved := s_resolved s @ [(i, False)]\<rparr>
      else s)"

definition sem_release :: "semaphore \<Rightarrow> semaphore" where
  "sem_release s =
     (case s_waiters s of
        w # ws \<Rightarrow> s\<lparr>s_waiters := ws, s_resolved := s_resolved s @ [(w_id w, True)]\<rparr>
      | [] \<Rightarrow> if 0 < s_current s then s\<lparr>s_current := s_current s - 1\<rparr> else s)"

definition sem_pending :: "semaphore \<Rightarrow> nat" where
  "sem_pending s = length (s_waiters s)"

definition sem_running :: "semaphore \<Rightarrow> int" where
  "sem_running s = s_current s"

section \<open>Callers\<close>

text \<open>
  A system is the semaphore, the identities used so far, and the identities that hold a slot. A
  caller holds its slot from the moment its promise is resolved with \<open>true\<close>.
\<close>

type_synonym sem_sys = "semaphore \<times> nat set \<times> nat set"

definition granted :: "semaphore \<Rightarrow> semaphore \<Rightarrow> nat set" where
  "granted s t = {i. (i, True) \<in> set (drop (length (s_resolved s)) (s_resolved t))}"

inductive sem_step :: "sem_sys \<Rightarrow> sem_sys \<Rightarrow> bool" where
  acquire: "i \<notin> used \<Longrightarrow> t = sem_acquire i timeout s \<Longrightarrow>
    sem_step (s, used, holds) (t, insert i used, holds \<union> granted s t)"
| release: "i \<in> holds \<Longrightarrow> t = sem_release s \<Longrightarrow>
    sem_step (s, used, holds) (t, used, (holds - {i}) \<union> granted s t)"
| timeout: "w \<in> set (s_waiters s) \<Longrightarrow> w_timer w \<Longrightarrow> t = sem_timeout (w_id w) s \<Longrightarrow>
    sem_step (s, used, holds) (t, used, holds \<union> granted s t)"

inductive_cases sem_stepE: "sem_step (s, used, holds) q"

inductive sem_reach :: "int \<Rightarrow> sem_sys \<Rightarrow> bool" where
  init: "sem_new mx = Inr s \<Longrightarrow> sem_reach mx (s, {}, {})"
| step: "sem_reach mx p \<Longrightarrow> sem_step p q \<Longrightarrow> sem_reach mx q"

definition sem_inv :: "int \<Rightarrow> sem_sys \<Rightarrow> bool" where
  "sem_inv mx p \<longleftrightarrow> (case p of (s, used, holds) \<Rightarrow>
     1 \<le> mx \<and> s_max s = mx \<and> finite holds \<and> s_current s = int (card holds) \<and> s_current s \<le> mx \<and>
     (s_waiters s \<noteq> [] \<longrightarrow> s_current s = mx) \<and>
     distinct (map w_id (s_waiters s)) \<and> w_id ` set (s_waiters s) \<subseteq> used \<and> holds \<subseteq> used \<and>
     holds \<inter> w_id ` set (s_waiters s) = {} \<and>
     distinct (map fst (s_resolved s)) \<and> fst ` set (s_resolved s) \<subseteq> used \<and>
     fst ` set (s_resolved s) \<inter> w_id ` set (s_waiters s) = {})"

lemma granted_simps:
  "s_resolved t = s_resolved s @ r \<Longrightarrow> granted s t = {i. (i, True) \<in> set r}"
  by (simp add: granted_def)

lemma sem_step_inv: "sem_step p q \<Longrightarrow> sem_inv mx p \<Longrightarrow> sem_inv mx q"
proof (induction rule: sem_step.induct)
  case (acquire i used t timeout s holds)
  show ?case
  proof (cases "s_current s < s_max s")
    case True
    then have "granted s t = {i}" using acquire(2) by (simp add: granted_simps[of _ _ "[(i, True)]"] sem_acquire_def)
    with True acquire show ?thesis by (force simp: sem_inv_def sem_acquire_def card_insert_if)
  next
    case False
    then have "granted s t = {}" using acquire(2) by (simp add: granted_simps[of _ _ "[]"] sem_acquire_def)
    with False acquire show ?thesis by (force simp: sem_inv_def sem_acquire_def)
  qed
next
  case (release i holds t s used)
  note inv = release(3)[unfolded sem_inv_def, simplified]
  have pos: "0 < card holds" using release(1) inv by (auto simp: card_gt_0_iff)
  then have c: "card (holds - {i}) = card holds - 1" using release(1) by simp
  show ?case
  proof (cases "s_waiters s")
    case Nil
    then have "granted s t = {}" using release(2) by (simp add: granted_simps[of _ _ "[]"] sem_release_def)
    with Nil release(2) inv c pos show ?thesis by (auto simp: sem_inv_def sem_release_def)
  next
    case (Cons w ws)
    then have g: "granted s t = {w_id w}"
      using release(2) by (simp add: granted_simps[of _ _ "[(w_id w, True)]"] sem_release_def)
    have w: "w_id w \<notin> holds" using inv Cons by auto
    then have "card (insert (w_id w) (holds - {i})) = card holds" using c pos inv by (subst card_insert_disjoint) auto
    with Cons g release(2) inv w show ?thesis by (auto simp: sem_inv_def sem_release_def)
  qed
next
  case (timeout w s t used holds)
  then have t: "t = s\<lparr>s_waiters := filter (\<lambda>v. w_id v \<noteq> w_id w) (s_waiters s), s_resolved := s_resolved s @ [(w_id w, False)]\<rparr>"
    by (auto simp: sem_timeout_def)
  then have "granted s t = {}" by (simp add: granted_simps[of _ _ "[(w_id w, False)]"])
  with t timeout(1,4) show ?case
    by (auto simp: sem_inv_def distinct_map_filter)
qed

lemma sem_reach_inv: "sem_reach mx p \<Longrightarrow> sem_inv mx p"
proof (induction rule: sem_reach.induct)
  case (init mx s)
  then show ?case by (auto simp: sem_inv_def sem_new_def split: if_splits)
next
  case (step mx p q)
  then show ?case by (blast intro: sem_step_inv)
qed

text \<open>In every reachable state at most \<open>max\<close> callers hold a slot, the counter is the number of
  holders, callers wait only when all slots are held, and every promise is resolved at most once.\<close>

theorem semaphore_safe:
  assumes "sem_reach mx (s, used, holds)"
  shows "int (card holds) \<le> mx \<and> sem_running s = int (card holds) \<and>
    (0 < sem_pending s \<longrightarrow> int (card holds) = mx) \<and> distinct (map fst (s_resolved s))"
  using sem_reach_inv[OF assms] by (auto simp: sem_inv_def sem_running_def sem_pending_def)

definition demo_sem :: semaphore where
  "demo_sem = \<lparr>s_max = 1, s_current = 0, s_waiters = [], s_resolved = []\<rparr>"

theorem semaphore_safe_witness:
  "\<exists>s used holds. sem_reach 1 (s, used, holds) \<and> holds = {0} \<and> sem_pending s = 1 \<and> int (card holds) \<le> 1"
proof -
  have r0: "sem_reach 1 (demo_sem, {}, {})" by (rule sem_reach.init) (simp add: sem_new_def demo_sem_def)
  have r1: "sem_reach 1 (sem_acquire 0 None demo_sem, {0}, {0})"
    using sem_reach.step[OF r0 sem_step.acquire[of 0 "{}" _ None demo_sem "{}"]]
    by (simp add: sem_acquire_def demo_sem_def granted_def)
  have r2: "sem_reach 1 (sem_acquire 1 None (sem_acquire 0 None demo_sem), {1, 0}, {0})"
    using sem_reach.step[OF r1 sem_step.acquire[of 1 "{0}" _ None _ "{0}"]]
    by (simp add: sem_acquire_def demo_sem_def granted_def)
  have "int (card {0::nat}) \<le> 1" using semaphore_safe[OF r2] by blast
  moreover have "sem_pending (sem_acquire 1 None (sem_acquire 0 None demo_sem)) = 1"
    by (simp add: sem_pending_def sem_acquire_def demo_sem_def)
  ultimately show ?thesis using r2 by blast
qed

text \<open>Waiters are served in order: while slots are only released, the waiters are granted exactly
  in the order in which they queued, and every one of them is served once enough slots came back.\<close>

theorem semaphore_fifo:
  "n \<le> length (s_waiters s) \<Longrightarrow>
   s_resolved ((sem_release ^^ n) s) = s_resolved s @ map (\<lambda>w. (w_id w, True)) (take n (s_waiters s)) \<and>
   s_waiters ((sem_release ^^ n) s) = drop n (s_waiters s)"
proof (induction n)
  case (Suc n)
  then have "drop n (s_waiters s) = s_waiters s ! n # drop (Suc n) (s_waiters s)"
    by (simp add: Cons_nth_drop_Suc)
  with Suc show ?case by (simp add: sem_release_def take_Suc_conv_app_nth)
qed simp

theorem semaphore_fifo_witness:
  "s_resolved ((sem_release ^^ 2) (demo_sem\<lparr>s_waiters := [\<lparr>w_id = 7, w_timer = False\<rparr>, \<lparr>w_id = 8, w_timer = True\<rparr>]\<rparr>)) =
     [(7, True), (8, True)]"
  using semaphore_fifo[of 2 "demo_sem\<lparr>s_waiters := [\<lparr>w_id = 7, w_timer = False\<rparr>, \<lparr>w_id = 8, w_timer = True\<rparr>]\<rparr>"]
  by (simp add: demo_sem_def)

end
