(* ===== verification/AuditChain.thy ===== *)
theory AuditChain
  imports Json
begin

text \<open>
  The audit chain of \<open>packages/shared/src/audit/index.ts\<close>. The hash function and the store are
  parameters (\<open>sha256\<close> in hexadecimal, PostgreSQL); the two readings of the clock, the random event identity
  and the environment of a call are its arguments. What is written to the output streams and, outside
  tests, handed to the store is logged in order.
\<close>

section \<open>Entries\<close>

datatype audit_severity = Sev_info | Sev_warn | Sev_error | Sev_critical

record audit_actor =
  aa_type :: string
  aa_id :: string
  aa_namespace :: "string option"
  aa_authMethod :: "string option"
  aa_spiffeId :: "string option"

record audit_target =
  at_type :: string
  at_id :: string
  at_namespace :: "string option"

record audit_action =
  an_name :: string
  an_parameters :: "json option"
  an_result :: string
  an_reason :: "string option"

record audit_context =
  ac_requestId :: "string option"
  ac_sessionId :: "string option"
  ac_ipAddress :: "string option"
  ac_userAgent :: "string option"

text \<open>An entry without its \<open>integrity\<close> part, which the hash covers.\<close>

record audit_body =
  ab_timestamp :: string
  ab_eventId :: string
  ab_eventType :: string
  ab_severity :: audit_severity
  ab_actor :: audit_actor
  ab_target :: "audit_target option"
  ab_action :: audit_action
  ab_context :: audit_context

record audit_entry = audit_body +
  ai_previousHash :: string
  ai_chainId :: string

text \<open>The JSON form; absent properties are left out.\<close>

definition str_fields :: "(string \<times> string option) list \<Rightarrow> (string \<times> json) list" where
  "str_fields ps = concat (map (\<lambda>(k, v). case v of None \<Rightarrow> [] | Some t \<Rightarrow> [(k, JStr t)]) ps)"

definition severity_text :: "audit_severity \<Rightarrow> string" where
  "severity_text s = (case s of Sev_info \<Rightarrow> ''info'' | Sev_warn \<Rightarrow> ''warn'' | Sev_error \<Rightarrow> ''error'' | Sev_critical \<Rightarrow> ''critical'')"

definition actor_json :: "audit_actor \<Rightarrow> json" where
  "actor_json a = JObj (str_fields [(''type'', Some (aa_type a)), (''id'', Some (aa_id a)),
     (''namespace'', aa_namespace a), (''authMethod'', aa_authMethod a), (''spiffeId'', aa_spiffeId a)])"

definition target_json :: "audit_target \<Rightarrow> json" where
  "target_json t = JObj (str_fields [(''type'', Some (at_type t)), (''id'', Some (at_id t)), (''namespace'', at_namespace t)])"

definition action_json :: "audit_action \<Rightarrow> json" where
  "action_json a = JObj (str_fields [(''name'', Some (an_name a))] @
     (case an_parameters a of None \<Rightarrow> [] | Some p \<Rightarrow> [(''parameters'', p)]) @
     str_fields [(''result'', Some (an_result a)), (''reason'', an_reason a)])"

definition context_json :: "audit_context \<Rightarrow> json" where
  "context_json c = JObj (str_fields [(''requestId'', ac_requestId c), (''sessionId'', ac_sessionId c),
     (''ipAddress'', ac_ipAddress c), (''userAgent'', ac_userAgent c)])"

definition body_json :: "'a audit_body_scheme \<Rightarrow> json" where
  "body_json b = JObj ([(''version'', JStr ''egaop-audit/1.0''), (''timestamp'', JStr (ab_timestamp b)),
     (''eventId'', JStr (ab_eventId b)), (''eventType'', JStr (ab_eventType b)),
     (''severity'', JStr (severity_text (ab_severity b))), (''actor'', actor_json (ab_actor b))] @
     (case ab_target b of None \<Rightarrow> [] | Some t \<Rightarrow> [(''target'', target_json t)]) @
     [(''action'', action_json (ab_action b)), (''context'', context_json (ab_context b))])"

section \<open>Chains\<close>

record chain_state =
  ch_entries :: "audit_entry list"
  ch_lastHash :: string

datatype audit_output = Stdout audit_entry | Stderr audit_entry | Persist audit_entry

record audit_state =
  as_chains :: "(string, chain_state) js_map"
  as_output :: "audit_output list"

definition genesis :: string where
  "genesis = replicate 64 (CHR ''0'')"

definition get_chain :: "string \<Rightarrow> audit_state \<Rightarrow> chain_state" where
  "get_chain cid s = nullish (js_get (as_chains s) cid) \<lparr>ch_entries = [], ch_lastHash = genesis\<rparr>"

definition hash_entry :: "(string \<Rightarrow> string) \<Rightarrow> 'a audit_body_scheme \<Rightarrow> string \<Rightarrow> string" where
  "hash_entry H b prev = H (stringify (body_json b) @ prev)"

definition chain_id :: "(string \<Rightarrow> string option) \<Rightarrow> string \<Rightarrow> string" where
  "chain_id env t =
     (let truthy = (\<lambda>v d. case v of None \<Rightarrow> d | Some t \<Rightarrow> if t = [] then d else t)
      in truthy (env ''AUDIT_CHAIN_ID'')
        (''egaop-'' @ truthy (env ''NODE_ENV'') ''development'' @ ''-'' @ take 10 t))"

definition max_entries :: nat where "max_entries = 10000"

text \<open>\<open>splice(0, length - 10000)\<close> when there are more.\<close>

definition evict :: "audit_entry list \<Rightarrow> audit_entry list" where
  "evict es = drop (length es - max_entries) es"

lemma evict_snoc: "evict (evict es @ [e]) = evict (es @ [e])"
  by (cases "length es < max_entries") (simp_all add: evict_def Suc_diff_le)

definition createAuditEntry ::
  "(string \<Rightarrow> string) \<Rightarrow> (string \<Rightarrow> string option) \<Rightarrow> string \<Rightarrow> audit_body \<Rightarrow> audit_state \<Rightarrow> audit_entry \<times> audit_state" where
  "createAuditEntry H env t0 b s =
     (let cid = chain_id env t0;
          chain = get_chain cid s;
          h = hash_entry H b (ch_lastHash chain);
          entry = audit_body.extend b (audit_entry.fields h cid);
          entries = ch_entries chain @ [entry];
          kept = evict entries;
          out = (if ab_severity b \<in> {Sev_critical, Sev_error} then [Stderr entry] else [Stdout entry]);
          per = (if env ''NODE_ENV'' = Some ''test'' then [] else [Persist entry])
      in (entry, s\<lparr>as_chains := js_set cid \<lparr>ch_entries = kept, ch_lastHash = h\<rparr> (as_chains s),
                    as_output := as_output s @ out @ per\<rparr>))"

definition getAuditChain :: "string \<Rightarrow> audit_state \<Rightarrow> audit_entry list" where
  "getAuditChain cid s = ch_entries (get_chain cid s)"

fun verify_from :: "(string \<Rightarrow> string) \<Rightarrow> string \<Rightarrow> audit_entry list \<Rightarrow> bool" where
  "verify_from H prev [] = True"
| "verify_from H prev (e # es) =
     (if ai_previousHash e \<noteq> hash_entry H e prev then False else verify_from H (ai_previousHash e) es)"

definition verifyAuditChain :: "(string \<Rightarrow> string) \<Rightarrow> audit_entry list \<Rightarrow> bool" where
  "verifyAuditChain H es = verify_from H genesis es"

text \<open>
  \<open>INSERT ... ON CONFLICT (event_id) DO NOTHING\<close>; a failing store changes nothing and the failure
  is only logged.
\<close>

definition persist_entry :: "bool \<Rightarrow> audit_entry \<Rightarrow> (string, audit_entry) js_map \<Rightarrow> (string, audit_entry) js_map" where
  "persist_entry up e rows =
     (if \<not> up then rows
      else case js_get rows (ab_eventId e) of None \<Rightarrow> rows @ [(ab_eventId e, e)] | Some _ \<Rightarrow> rows)"

section \<open>Linked entries\<close>

text \<open>A chain as a function of the recorded bodies, each entry hashed over the one before.\<close>

fun link :: "(string \<Rightarrow> string) \<Rightarrow> string \<Rightarrow> string \<Rightarrow> audit_body list \<Rightarrow> audit_entry list" where
  "link H cid prev [] = []"
| "link H cid prev (b # bs) =
     (let h = hash_entry H b prev in audit_body.extend b (audit_entry.fields h cid) # link H cid h bs)"

definition last_hash :: "string \<Rightarrow> audit_entry list \<Rightarrow> string" where
  "last_hash p es = (if es = [] then p else ai_previousHash (last es))"

lemma last_hash_simps [simp]:
  "last_hash p [] = p" "last_hash p (e # es) = last_hash (ai_previousHash e) es"
  by (simp_all add: last_hash_def)

lemma body_json_extend [simp]: "body_json (audit_body.extend b m) = body_json b"
  by (simp add: body_json_def audit_body.defs)

lemma hash_entry_extend [simp]: "hash_entry H (audit_body.extend b m) p = hash_entry H b p"
  by (simp add: hash_entry_def)

lemma entry_fields [simp]: "ai_previousHash (audit_body.extend b (audit_entry.fields h c)) = h"
  by (simp add: audit_body.defs audit_entry.defs)

lemma link_length [simp]: "length (link H cid p bs) = length bs"
  by (induction bs arbitrary: p) (simp_all add: Let_def)

lemma link_snoc:
  "link H cid p (bs @ [b]) = link H cid p bs @
     [audit_body.extend b (audit_entry.fields (hash_entry H b (last_hash p (link H cid p bs))) cid)]"
  by (induction bs arbitrary: p) (simp_all add: Let_def)

lemma link_verifies: "verify_from H p (link H cid p bs)"
  by (induction bs arbitrary: p) (simp_all add: Let_def)

text \<open>Recording a list of bodies in one environment, that is, in one chain.\<close>

definition record_all :: "(string \<Rightarrow> string) \<Rightarrow> (string \<Rightarrow> string option) \<Rightarrow> string \<Rightarrow> audit_body list \<Rightarrow> audit_state \<Rightarrow> audit_state" where
  "record_all H env t0 bs s = fold (\<lambda>b s. snd (createAuditEntry H env t0 b s)) bs s"

lemma record_all_chain:
  assumes "js_get (as_chains s) (chain_id env t0) = None"
  shows "get_chain (chain_id env t0) (record_all H env t0 bs s) =
    \<lparr>ch_entries = evict (link H (chain_id env t0) genesis bs),
     ch_lastHash = last_hash genesis (link H (chain_id env t0) genesis bs)\<rparr>"
proof (induction bs rule: rev_induct)
  case Nil
  then show ?case using assms by (simp add: record_all_def get_chain_def evict_def)
next
  case (snoc b bs)
  have "record_all H env t0 (bs @ [b]) s = snd (createAuditEntry H env t0 b (record_all H env t0 bs s))"
    by (simp add: record_all_def)
  then show ?case
    using snoc
    by (simp add: createAuditEntry_def Let_def get_chain_def js_get_set link_snoc last_hash_def[of _ "_ @ [_]"] evict_snoc)
qed

text \<open>Recording is verifiable: as long as a chain received at most 10000 entries, what
  \<open>getAuditChain\<close> returns passes \<open>verifyAuditChain\<close> and contains exactly the recorded entries.\<close>

theorem audit_chain_verifies:
  assumes "length bs \<le> 10000" and "js_get (as_chains s) (chain_id env t0) = None"
  shows "verifyAuditChain H (getAuditChain (chain_id env t0) (record_all H env t0 bs s)) \<and>
    map audit_body.truncate (getAuditChain (chain_id env t0) (record_all H env t0 bs s)) = bs"
proof -
  have "map audit_body.truncate (link H cid p bs) = bs" for cid p
    by (induction bs arbitrary: p) (simp_all add: Let_def audit_body.defs)
  then show ?thesis
    using record_all_chain[OF assms(2), of H bs] assms(1)
    by (simp add: getAuditChain_def evict_def verifyAuditChain_def link_verifies max_entries_def)
qed

definition demo_body :: audit_body where
  "demo_body = \<lparr>ab_timestamp = ''2025-01-01T00:00:00.000Z'', ab_eventId = ''1'', ab_eventType = ''auth.login'',
     ab_severity = Sev_info, ab_actor = \<lparr>aa_type = ''user'', aa_id = ''u'', aa_namespace = None, aa_authMethod = None, aa_spiffeId = None\<rparr>,
     ab_target = None, ab_action = \<lparr>an_name = ''login'', an_parameters = None, an_result = ''allowed'', an_reason = None\<rparr>,
     ab_context = \<lparr>ac_requestId = None, ac_sessionId = None, ac_ipAddress = None, ac_userAgent = None\<rparr>\<rparr>"

definition no_audit :: audit_state where
  "no_audit = \<lparr>as_chains = [], as_output = []\<rparr>"

theorem audit_chain_verifies_witness:
  "verifyAuditChain (Cons (CHR ''h'')) (getAuditChain (chain_id (\<lambda>_. None) ''2025'')
     (record_all (Cons (CHR ''h'')) (\<lambda>_. None) ''2025'' [demo_body, demo_body] no_audit))"
  using audit_chain_verifies[of "[demo_body, demo_body]" no_audit "\<lambda>_. None" "''2025''" "Cons (CHR ''h'')"]
  by (simp add: no_audit_def)



text \<open>Eviction breaks verification: once a chain has received more than 10000 entries, what
  \<open>getAuditChain\<close> returns no longer passes \<open>verifyAuditChain\<close> (for a hash function without
  collisions that never yields the genesis value): the first kept entry was hashed over an entry
  that is gone, and the verification starts from the genesis value.\<close>

theorem audit_eviction_breaks_verification:
  assumes "inj H" and "genesis \<notin> range H"
    and "10000 < length bs" and "js_get (as_chains s) (chain_id env t0) = None"
  shows "\<not> verifyAuditChain H (getAuditChain (chain_id env t0) (record_all H env t0 bs s))"
proof -
  let ?c = "chain_id env t0"
  have range: "last_hash p (link H ?c p (b # as)) \<in> range H" for p b as
    by (induction as arbitrary: p b) (simp_all add: Let_def hash_entry_def)
  have split: "drop n (link H ?c p bs) = link H ?c (last_hash p (link H ?c p (take n bs))) (drop n bs)" for n p
    by (induction n arbitrary: bs p) (simp, case_tac bs, simp_all add: Let_def)
  define n where "n = length bs - 10000"
  then have n: "0 < n" "n < length bs" using assms(3) by auto
  obtain b as c cs where b: "take n bs = b # as" and c: "drop n bs = c # cs"
    using n by (metis Cons_nth_drop_Suc append_take_drop_id drop_eq_Nil length_0_conv length_take list.exhaust
        min.absorb4 not_less_iff_gr_or_eq take_eq_Nil2)
  let ?h = "last_hash genesis (link H ?c genesis (take n bs))"
  have "?h \<noteq> genesis" using range[of genesis b as] assms(2) unfolding b by metis
  then have "hash_entry H c ?h \<noteq> hash_entry H c genesis"
    using assms(1) by (simp add: hash_entry_def inj_eq)
  then have "\<not> verify_from H genesis (link H ?c ?h (drop n bs))" unfolding c by (simp add: Let_def)
  then show ?thesis
    using record_all_chain[OF assms(4), of H bs] split[of n genesis]
    by (simp add: getAuditChain_def evict_def verifyAuditChain_def max_entries_def n_def)
qed

theorem audit_eviction_breaks_verification_witness:
  "\<not> verifyAuditChain (Cons (CHR ''h'')) (getAuditChain (chain_id (\<lambda>_. None) ''2025'')
     (record_all (Cons (CHR ''h'')) (\<lambda>_. None) ''2025'' (replicate 10001 demo_body) no_audit))"
proof (rule audit_eviction_breaks_verification)
  have g: "hd genesis = CHR ''0''" by (simp add: genesis_def)
  show "genesis \<notin> range (Cons (CHR ''h''))"
  proof
    assume "genesis \<in> range (Cons (CHR ''h''))"
    then obtain x where "genesis = CHR ''h'' # x" by blast
    then have "hd genesis = hd (CHR ''h'' # x)" by (rule arg_cong)
    then have "hd genesis = CHR ''h''" by simp
    with g show False by simp
  qed
qed (simp_all add: no_audit_def)

end
