(* ===== verification/PromptInjection.thy ===== *)
theory PromptInjection
  imports JsRegex JsNumber Json
begin

text \<open>
  The prompt-injection scan of \<open>execution-plane/llm-router/src/prompt-injection.ts\<close>. The patterns
  carry the flag \<open>i\<close>; they are written in lower case and tested against the lower-cased text.
\<close>

section \<open>Patterns\<close>

datatype severity = Low | Medium | High | Critical

record injection_result =
  ir_detected :: bool
  ir_severity :: severity
  ir_confidence :: num
  ir_indicators :: "string list"

definition dots :: "nat \<Rightarrow> regex" where "dots n = Rep 0 (Some n) dot"

definition INJECTION_PATTERNS :: "(regex \<times> severity \<times> string) list" where
  "INJECTION_PATTERNS =
    [(Cat [Lit ''ignore '', opt (alts [''all '', ''any '']), alts [''previous'', ''prior'', ''above'', ''earlier''], Lit '' '',
           alts [''instructions'', ''messages'', ''prompts'', ''text'']], Critical, ''instruction_override''),
     (Cat [Lit ''disregard '', opt (alts [''all '', ''any '']), alts [''previous'', ''prior'', ''above''], Lit '' '',
           alts [''instructions'', ''rules'', ''prompts'']], Critical, ''instruction_override''),
     (Cat [Lit ''forget '', opt (alts [''all '', ''any '']), alts [''previous'', ''prior'', ''above''], Lit '' '',
           alts [''instructions'', ''rules'', ''prompts'']], Critical, ''instruction_override''),
     (alts [''you are now '', ''you are no longer '', ''act as if '', ''pretend that you are ''], High, ''role_reassignment''),
     (Cat [Alt [Cat [Lit ''you'', opt (Lit [CHR 0x27]), Lit ''re now''], Lit ''you are now''], Lit '' '',
           opt (alts [''a '', ''an '']), alts [''different'', ''new''], Lit '' '',
           alts [''assistant'', ''model'', ''bot'', ''ai'']], High, ''role_reassignment''),
     (Cat [alts [''reveal'', ''show'', ''print'', ''display'', ''output'', ''repeat''], Lit '' '', alts [''your'', ''the'', ''this''],
           Lit '' '', alts [''system'', ''initial'', ''base''], Lit '' '',
           Alt [Lit ''prompt'', Lit ''instructions'', Cat [Lit ''message'', opt (Lit ''s'')]]], Critical, ''system_prompt_exfiltration''),
     (Cat [alts [''what'', ''tell me''], Lit '' '', alts [''is'', ''are''], Lit '' '', alts [''your'', ''the''], Lit '' '',
           alts [''system'', ''base'', ''initial''], Lit '' '', alts [''prompt'', ''instructions'', ''role'']],
      Critical, ''system_prompt_exfiltration''),
     (Cat [alts [''ignore'', ''disregard'', ''forget''], dots 40, alts [''instructions'', ''prompt''], dots 40,
           opt (alts [''and '', ''then '']), alts [''say'', ''output'', ''respond'', ''do'']], High, ''instruction_splitting''),
     (Rep 5 None (one_of ''=#''), Medium, ''delimiter_injection''),
     (Alt [Cat [WordB, Lit ''dan'', WordB], Lit ''jailbreak'', Cat [Lit ''jail'', opt dot, Lit ''break''], Lit ''do anything now'',
           Cat [Lit ''security'', opt dot, Lit ''bypass''], Lit ''unfiltered mode''], Critical, ''jailbreak''),
     (Alt [Cat [Lit ''dev'', opt dot, Lit ''mode''], Lit ''developer mode'', Cat [Lit ''god'', opt dot, Lit ''mode''],
           Cat [Lit ''super'', opt dot, Lit ''mode'']], High, ''jailbreak''),
     (Cat [Alt [Lit ''secret'', Lit ''password'', Cat [Lit ''api'', opt (one_of '' _-''), Lit ''key''], Lit ''token'', Lit ''credential'',
                Lit ''private key''], dots 60,
           alts [''leak'', ''output'', ''reveal'', ''send'', ''post'', ''transmit'', ''extract'']], Critical, ''secret_exfiltration''),
     (Cat [Lit ''base64'', dots 40, alts [''decode'', ''encode'']], Medium, ''encoded_payload''),
     (Cat [alts [''hex'', ''binary'', ''rot13'', ''morse''], dots 30, alts [''decode'', ''encode'']], Medium, ''encoded_payload''),
     (Cat [alts [''call'', ''invoke'', ''execute'', ''run''], Lit '' '', opt (Lit ''the ''), alts [''tool'', ''function'', ''command''],
           dots 40, alts [''shell'', ''bash'', ''rm '', ''sudo'', ''chmod'', ''curl'', ''wget'']], High, ''tool_abuse''),
     (Alt [Cat [Lit ''you '', alts [''must'', ''have to'', ''need to'', ''will''], Lit '' '', alts [''obey'', ''do'', ''follow''], Lit '' me''],
           Cat [Lit ''i '', Alt [Lit ''am'', Lit (CHR 0x27 # ''m'')], Lit '' your '', alts [''master'', ''creator'', ''owner'', ''admin'']]],
      High, ''authority_override''),
     (Cat [Lit ''it'', opt (Lit [CHR 0x27]), Lit ''s '', alts [''for'', ''about''], Lit '' '',
           alts [''a test'', ''testing'', ''research'', ''security'', ''legal'']], Medium, ''social_engineering''),
     (Alt [Lit ''hypothetical'', Lit ''simulation'', Cat [Lit ''pretend'', dots 40, alts [''ignore'', ''bypass'', ''violate'']]],
      Medium, ''framing'')]"

section \<open>Scan\<close>

definition severity_rank :: "severity \<Rightarrow> nat" where
  "severity_rank s = (case s of Low \<Rightarrow> 0 | Medium \<Rightarrow> 1 | High \<Rightarrow> 2 | Critical \<Rightarrow> 3)"

definition no_injection :: injection_result where
  "no_injection = \<lparr>ir_detected = False, ir_severity = Low, ir_confidence = Num 0, ir_indicators = []\<rparr>"

text \<open>\<open>Math.min(0.5 + n * 0.15, 0.98)\<close> in double arithmetic.\<close>

definition confidence :: "nat \<Rightarrow> num" where
  "confidence n =
     (let c = num_add (rnd (1 / 2)) (num_mul (num_of_int (int n)) (rnd (15 / 100))); m = rnd (98 / 100)
      in if num_lt m c then m else c)"

definition pattern_hits :: "(regex \<times> severity \<times> string) list \<Rightarrow> string \<Rightarrow> (severity \<times> string) list" where
  "pattern_hits ps text = map snd (filter (\<lambda>(r, _). rx_test r (lower text)) ps)"

definition max_severity :: "severity list \<Rightarrow> severity" where
  "max_severity ss = fold (\<lambda>s m. if severity_rank m < severity_rank s then s else m) ss Low"

definition detectPromptInjection :: "string \<Rightarrow> injection_result" where
  "detectPromptInjection text =
     (if text = [] then no_injection
      else let hits = pattern_hits INJECTION_PATTERNS text
        in if hits = [] then no_injection
           else \<lparr>ir_detected = True, ir_severity = max_severity (map fst hits),
                 ir_confidence = confidence (length hits), ir_indicators = map snd hits\<rparr>)"

text \<open>The content of a message is a string, another JSON value, or absent.\<close>

record scan_message =
  sm_role :: "string option"
  sm_content :: "json option"

definition scan_text :: "scan_message \<Rightarrow> string" where
  "scan_text m = (case sm_content m of Some (JStr t) \<Rightarrow> t | c \<Rightarrow> stringify (jnullish c (JStr [])))"

record injection_scan =
  sc_detected :: bool
  sc_worst :: injection_result
  sc_violations :: "(string \<times> injection_result) list"

fun scan_from :: "injection_result \<Rightarrow> (string \<times> injection_result) list \<Rightarrow> scan_message list \<Rightarrow> injection_scan" where
  "scan_from worst vs [] = \<lparr>sc_detected = vs \<noteq> [], sc_worst = worst, sc_violations = vs\<rparr>"
| "scan_from worst vs (m # ms) =
     (let role = nullish (sm_role m) ''unknown''
      in if role = ''system'' then scan_from worst vs ms
         else let r = detectPromptInjection (scan_text m)
           in if ir_detected r then
                scan_from (if ir_detected worst \<and> ir_severity r = Critical \<or> \<not> ir_detected worst then r else worst)
                  (vs @ [(role, r)]) ms
              else scan_from worst vs ms)"

definition scanMessagesForInjection :: "scan_message list \<Rightarrow> injection_scan" where
  "scanMessagesForInjection ms = scan_from no_injection [] ms"

text \<open>The router blocks a request whose worst finding is critical or high.\<close>

definition scan_rejects :: "injection_scan \<Rightarrow> bool" where
  "scan_rejects s \<longleftrightarrow> sc_detected s \<and> (ir_severity (sc_worst s) = Critical \<or> ir_severity (sc_worst s) = High)"

section \<open>What the scan promises\<close>

definition critical_finding :: "injection_result \<Rightarrow> bool" where
  "critical_finding r \<longleftrightarrow> ir_detected r \<and> ir_severity r = Critical"

lemma scan_keeps:
  "vs \<noteq> [] \<Longrightarrow> sc_detected (scan_from w vs ms)"
  "critical_finding w \<Longrightarrow> vs \<noteq> [] \<Longrightarrow> critical_finding (sc_worst (scan_from w vs ms))"
  by (induction w vs ms rule: scan_from.induct) (auto simp: critical_finding_def Let_def)

lemma scan_finds_critical:
  assumes "m \<in> set ms" "nullish (sm_role m) ''unknown'' \<noteq> ''system''"
    and "critical_finding (detectPromptInjection (scan_text m))"
  shows "sc_detected (scan_from w vs ms) \<and> critical_finding (sc_worst (scan_from w vs ms))"
  using assms
proof (induction w vs ms rule: scan_from.induct)
  case (2 worst vs k ms)
  show ?case
  proof (cases "k = m")
    case True
    then show ?thesis using 2(5,6) scan_keeps by (auto simp: critical_finding_def Let_def)
  next
    case False
    then have "m \<in> set ms" using 2(4) by simp
    then show ?thesis using 2(1-3,5,6) by (auto simp: Let_def)
  qed
qed simp

lemma rank_max: "severity_rank (max_severity ss) = fold (\<lambda>s m. max m (severity_rank s)) ss 0"
proof -
  have "severity_rank (fold (\<lambda>s m. if severity_rank m < severity_rank s then s else m) ss m) =
      fold (\<lambda>s m. max m (severity_rank s)) ss (severity_rank m)" for m
    by (induction ss arbitrary: m) (auto simp: max_def)
  from this[of Low] show ?thesis by (simp add: max_severity_def severity_rank_def)
qed

lemma max_severity_critical: "Critical \<in> set ss \<Longrightarrow> max_severity ss = Critical"
proof -
  have le: "s \<in> set ss \<Longrightarrow> severity_rank s \<le> fold (\<lambda>s m. max m (severity_rank s)) ss m" for s m
  proof (induction ss arbitrary: m)
    case (Cons a ss)
    have "x \<le> fold (\<lambda>s m. max m (severity_rank s)) ss x" for x
      by (induction ss arbitrary: x) (auto intro: order_trans[OF max.cobounded1])
    then show ?case using Cons by (auto intro: order_trans[OF max.cobounded2])
  qed simp
  assume "Critical \<in> set ss"
  then have "3 \<le> severity_rank (max_severity ss)"
    using le[of Critical 0] by (simp add: rank_max severity_rank_def[of Critical])
  then show ?thesis by (cases "max_severity ss") (auto simp: severity_rank_def)
qed

lemma detect_critical:
  assumes "(r, Critical, l) \<in> set INJECTION_PATTERNS" "rx_test r (lower t)" "t \<noteq> []"
  shows "critical_finding (detectPromptInjection t)"
proof -
  have h: "(Critical, l) \<in> set (pattern_hits INJECTION_PATTERNS t)"
    using assms(1,2) by (force simp: pattern_hits_def)
  then have "Critical \<in> set (map fst (pattern_hits INJECTION_PATTERNS t))" by force
  with h assms(3) show ?thesis
    by (auto simp: detectPromptInjection_def Let_def critical_finding_def max_severity_critical)
qed

text \<open>A request is blocked whenever any of its messages, the system prompt excepted, matches any
  pattern of critical severity, whatever the other messages contain and in whatever order.\<close>

theorem critical_injection_blocked:
  assumes "m \<in> set ms" and "nullish (sm_role m) ''unknown'' \<noteq> ''system''"
    and "(r, Critical, l) \<in> set INJECTION_PATTERNS" and "rx_test r (lower (scan_text m))" and "scan_text m \<noteq> []"
  shows "scan_rejects (scanMessagesForInjection ms)"
  using scan_finds_critical[OF assms(1,2) detect_critical[OF assms(3-5)], of no_injection "[]"]
  by (simp add: scan_rejects_def scanMessagesForInjection_def critical_finding_def)

definition demo_msg :: "string \<Rightarrow> string \<Rightarrow> scan_message" where
  "demo_msg role t = \<lparr>sm_role = Some role, sm_content = Some (JStr t)\<rparr>"

theorem critical_injection_blocked_witness:
  "scan_rejects (scanMessagesForInjection [demo_msg ''user'' ''hello'', demo_msg ''user'' ''try a JailBreak''])"
proof (rule critical_injection_blocked[where m = "demo_msg ''user'' ''try a JailBreak''" and l = "''jailbreak''"])
  show "(Alt [Cat [WordB, Lit ''dan'', WordB], Lit ''jailbreak'', Cat [Lit ''jail'', opt dot, Lit ''break''], Lit ''do anything now'',
           Cat [Lit ''security'', opt dot, Lit ''bypass''], Lit ''unfiltered mode''], Critical, ''jailbreak'') \<in> set INJECTION_PATTERNS"
    by (simp add: INJECTION_PATTERNS_def)
  have "rx_test (Lit ''jailbreak'') (lower ''try a JailBreak'')" by code_simp
  then show "rx_test (Alt [Cat [WordB, Lit ''dan'', WordB], Lit ''jailbreak'', Cat [Lit ''jail'', opt dot, Lit ''break''], Lit ''do anything now'',
           Cat [Lit ''security'', opt dot, Lit ''bypass''], Lit ''unfiltered mode'']) (lower (scan_text (demo_msg ''user'' ''try a JailBreak'')))"
    by (auto simp: rx_test_alt demo_msg_def scan_text_def)
qed (simp_all add: demo_msg_def scan_text_def)

text \<open>A finding of high severity does not block when an earlier message has a finding of medium
  severity: the worst finding stays the first one unless a critical one follows. The same message
  alone is blocked.\<close>

theorem high_injection_masked:
  "let medium = demo_msg ''user'' ''=====''; high = demo_msg ''user'' ''god mode''
   in scan_rejects (scanMessagesForInjection [high]) \<and>
      \<not> scan_rejects (scanMessagesForInjection [medium, high]) \<and>
      map (\<lambda>v. ir_severity (snd v)) (sc_violations (scanMessagesForInjection [medium, high])) = [Medium, High]"
proof -
  have hits: "pattern_hits INJECTION_PATTERNS ''====='' = [(Medium, ''delimiter_injection'')]"
    "pattern_hits INJECTION_PATTERNS ''god mode'' = [(High, ''jailbreak'')]"
    by code_simp+
  show ?thesis
    by (simp add: Let_def scan_rejects_def scanMessagesForInjection_def demo_msg_def scan_text_def
        detectPromptInjection_def hits max_severity_def severity_rank_def no_injection_def)
qed

end
