(* ===== verification/LlmProviders.thy ===== *)
theory LlmProviders
  imports Errors Budget RateLimiter PromptInjection
begin

text \<open>
  The model providers of \<open>execution-plane/llm-router/src/index.ts\<close>: provider detection, pricing,
  retry with backoff, the request and response translation of the three providers, and their
  streaming variants. The network (\<open>fetch\<close>), the OpenAI client, the clock, random numbers and
  timers are parameters over a world of any type.
\<close>

section \<open>Types\<close>

datatype provider = OpenAI | Anthropic | Ollama

record llm_err =
  le_name :: string
  le_message :: string
  le_status :: "int option"
  le_statusCode :: "int option"
  le_rateLimit :: bool
  le_grpcStatus :: "grpc_status option"
  le_details :: "string option"

definition js_error :: "string \<Rightarrow> llm_err" where
  "js_error m = \<lparr>le_name = ''Error'', le_message = m, le_status = None, le_statusCode = None, le_rateLimit = False,
     le_grpcStatus = None, le_details = None\<rparr>"

record router_tool_call =
  tk_id :: string
  tk_name :: string
  tk_args :: json

record router_message =
  rm_role :: string
  rm_content :: string
  rm_tool_call_id :: "string option"
  rm_name :: "string option"
  rm_tool_calls :: "(string \<times> string \<times> string) list option"

record tool_def =
  tf_name :: string
  tf_description :: string
  tf_input_schema :: "json option"

record tool_call_result =
  tq_id :: string
  tq_name :: string
  tq_arguments :: "string option"

record completion_usage =
  cu_prompt :: num
  cu_completion :: num
  cu_total :: num

record completion =
  co_content :: "string option"
  co_toolCalls :: "tool_call_result list"
  co_model :: string
  co_usage :: completion_usage

record stream_chunk =
  sk_content :: string
  sk_model :: string
  sk_usage :: "completion_usage option"
  sk_finishReason :: "string option"

record http_response =
  hp_status :: int
  hp_text :: string

text \<open>A streamed body: the decoded pieces in order, and the error that cut it off, if any.\<close>

record stream_response =
  sp_status :: int
  sp_text :: string
  sp_pieces :: "string list option"
  sp_error :: "llm_err option"

record openai_choice =
  oc_content :: "string option"
  oc_tool_calls :: "tool_call_result list"

record openai_response =
  or_choices :: "openai_choice list"
  or_usage :: "completion_usage option"

record openai_chunk =
  ok_delta :: "string option"
  ok_usage :: "(num option \<times> num option \<times> num option) option"
  ok_finish_reason :: "string option"

record 'w llm_env =
  ev_openai_key :: "string option"
  ev_openai_base :: "string option"
  ev_anthropic_key :: "string option"
  ev_anthropic_base :: "string option"
  ev_ollama_base :: "string option"
  ev_fallback_chain :: "string option"
  ev_fetch :: "string \<Rightarrow> (string \<times> string) list \<Rightarrow> json \<Rightarrow> ('w, llm_err, http_response) eff"
  ev_fetch_stream :: "string \<Rightarrow> (string \<times> string) list \<Rightarrow> json \<Rightarrow> ('w, llm_err, stream_response) eff"
  ev_openai_create :: "json \<Rightarrow> ('w, llm_err, openai_response) eff"
  ev_openai_stream :: "json \<Rightarrow> ('w, llm_err, openai_chunk list \<times> llm_err option) eff"
  ev_sleep :: "num \<Rightarrow> 'w \<Rightarrow> 'w"
  ev_random :: "'w \<Rightarrow> num \<times> 'w"
  ev_fresh_id :: "'w \<Rightarrow> string \<times> 'w"
  ev_fire :: "provider \<Rightarrow> ('w, llm_err, completion) eff \<Rightarrow> ('w, llm_err, completion) eff"
  ev_now :: "'w \<Rightarrow> int"
  ev_acquire :: "int \<Rightarrow> 'w \<Rightarrow> bool \<times> 'w"

section \<open>Detection, pricing\<close>

definition dec :: "rat \<Rightarrow> num" where "dec r = rnd r"

definition PRICING :: "(string \<times> num \<times> num) list" where
  "PRICING =
    [(''gpt-4o'', dec (25/10000), dec (1/100)), (''gpt-4o-mini'', dec (15/100000), dec (6/10000)),
     (''gpt-3.5-turbo'', dec (5/10000), dec (15/10000)),
     (''claude-3-5-sonnet-20241022'', dec (3/1000), dec (15/1000)), (''claude-3-5-haiku-20241022'', dec (1/1000), dec (5/1000)),
     (''claude-3-opus-20240229'', dec (15/1000), dec (75/1000)),
     (''llama3-8b-8192'', Num 0, Num 0), (''llama3-70b-8192'', dec (59/100000), dec (79/100000)),
     (''mixtral-8x7b-32768'', dec (24/100000), dec (24/100000))]"

definition detectProvider :: "string \<Rightarrow> provider" where
  "detectProvider model =
     (if prefix ''claude-'' model then Anthropic
      else if list_ex (\<lambda>p. prefix p model) [''llama'', ''mixtral'', ''mistral'', ''codellama'', ''phi-'', ''deepseek'']
      then Ollama else OpenAI)"

definition fallback_chain :: "'w llm_env \<Rightarrow> string list" where
  "fallback_chain E =
     (case ev_fallback_chain E of
        Some (c # cs) \<Rightarrow> split_on (CHR '','') (c # cs)
      | _ \<Rightarrow> [''gpt-4o'', ''gpt-4o-mini'', ''gpt-3.5-turbo''])"

definition safe_tokens :: "num \<Rightarrow> num" where
  "safe_tokens n = (case n of Num x \<Rightarrow> if 0 < x then Num x else Num 0 | _ \<Rightarrow> Num 0)"

text \<open>An inherited name finds a function, whose \<open>input\<close> and \<open>output\<close> are undefined.\<close>

definition pricing :: "string \<Rightarrow> num \<times> num" where
  "pricing model =
     (case map_of PRICING model of
        Some p \<Rightarrow> p
      | None \<Rightarrow> if model \<in> set proto_members then (NNaN, NNaN) else (dec (25/10000), dec (1/100)))"

definition calculateCost :: "num \<Rightarrow> num \<Rightarrow> string \<Rightarrow> string" where
  "calculateCost promptTokens completionTokens model =
     (let (i, q) = pricing model;
          cost = num_add (num_mul (num_div (safe_tokens promptTokens) (Num 1000)) i)
                   (num_mul (num_div (safe_tokens completionTokens) (Num 1000)) q)
      in CHR ''$'' # to_fixed 6 cost)"

section \<open>Retry with exponential backoff\<close>

definition retryable :: "llm_err \<Rightarrow> bool" where
  "retryable e \<longleftrightarrow> le_rateLimit e \<or> le_status e = Some 429"

definition backoff :: "int \<Rightarrow> nat \<Rightarrow> num \<Rightarrow> num" where
  "backoff base att r = num_add (num_mul (num_of_int base) (num_of_int (2 ^ att))) (num_mul r (Num 500))"

text \<open>\<open>left\<close> is \<open>maxRetries - attempt\<close>.\<close>

fun retry_from :: "'w llm_env \<Rightarrow> int \<Rightarrow> ('w, llm_err, 'a) eff \<Rightarrow> nat \<Rightarrow> nat \<Rightarrow> ('w, llm_err, 'a) eff" where
  "retry_from E base fn att left =
     catch fn (\<lambda>err.
       case left of
         0 \<Rightarrow> throw err
       | Suc n \<Rightarrow>
           if retryable err then
             (\<lambda>w. case ev_random E w of (r, w') \<Rightarrow>
                retry_from E base fn (Suc att) n (ev_sleep E (backoff base att r) w'))
           else throw err)"

definition retryWithBackoff :: "'w llm_env \<Rightarrow> ('w, llm_err, 'a) eff \<Rightarrow> nat \<Rightarrow> int \<Rightarrow> ('w, llm_err, 'a) eff" where
  "retryWithBackoff E fn maxRetries base = retry_from E base fn 0 maxRetries"

section \<open>Anthropic\<close>

definition min_tokens :: "num option \<Rightarrow> num" where
  "min_tokens m =
     (let n = (case m of None \<Rightarrow> Num 4096 | Some x \<Rightarrow> if x = Num 0 \<or> x = NNaN then Num 4096 else x)
      in if num_lt (Num 16384) n then Num 16384 else n)"

definition empty_schema :: json where
  "empty_schema = JObj [(''type'', JStr ''object''), (''properties'', JObj [])]"

definition schema_or_empty :: "json option \<Rightarrow> json" where
  "schema_or_empty v = (if json_truthy v then the v else empty_schema)"

definition opt_field_json :: "string \<Rightarrow> json option \<Rightarrow> (string \<times> json) list" where
  "opt_field_json k v = (case v of None \<Rightarrow> [] | Some j \<Rightarrow> [(k, j)])"

definition simple_message :: "router_message \<Rightarrow> json" where
  "simple_message m = JObj [(''role'', JStr (rm_role m)), (''content'', JStr (rm_content m))]"

definition anthropic_body :: "router_message list \<Rightarrow> string \<Rightarrow> num option \<Rightarrow> num option \<Rightarrow> tool_def list option \<Rightarrow> bool \<Rightarrow> json" where
  "anthropic_body msgs model temperature maxTokens tools stream = JObj (
     [(''model'', JStr model), (''max_tokens'', JNum (min_tokens maxTokens)),
      (''messages'', JArr (map simple_message (filter (\<lambda>m. rm_role m \<noteq> ''system'') msgs)))] @
     (if stream then [(''stream'', JBool True)] else []) @
     opt_field_json ''system'' (map_option (\<lambda>m. JStr (rm_content m)) (find (\<lambda>m. rm_role m = ''system'') msgs)) @
     opt_field_json ''temperature'' (map_option JNum temperature) @
     (case tools of
        Some (t # ts) \<Rightarrow> [(''tools'', JArr (map (\<lambda>td. JObj [(''name'', JStr (tf_name td)),
          (''description'', JStr (tf_description td)), (''input_schema'', schema_or_empty (tf_input_schema td))]) (t # ts)))]
      | _ \<Rightarrow> []))"

definition anthropic_url :: "'w llm_env \<Rightarrow> string" where
  "anthropic_url E = env_or (ev_anthropic_base E) ''https://api.anthropic.com'' @ ''/v1/messages''"

definition anthropic_headers :: "string \<Rightarrow> (string \<times> string) list" where
  "anthropic_headers key = [(''Content-Type'', ''application/json''), (''x-api-key'', key), (''anthropic-version'', ''2023-06-01'')]"

definition api_error :: "string \<Rightarrow> int \<Rightarrow> string \<Rightarrow> llm_err" where
  "api_error name st body = (js_error (name @ '' API error '' @ show_int st @ '': '' @ body))\<lparr>le_status := Some st\<rparr>"

definition http_ok :: "int \<Rightarrow> bool" where
  "http_ok st \<longleftrightarrow> 200 \<le> st \<and> st \<le> 299"

text \<open>A numeric field that may be absent: \<open>x ?? 0\<close>.\<close>

definition num_field :: "json option \<Rightarrow> num" where
  "num_field v = (case v of None \<Rightarrow> Num 0 | Some JNull \<Rightarrow> Num 0 | Some (JNum n) \<Rightarrow> n | Some _ \<Rightarrow> NNaN)"

definition jget2 :: "json \<Rightarrow> string \<Rightarrow> string \<Rightarrow> json option" where
  "jget2 j k l = (case jget j k of None \<Rightarrow> None | Some v \<Rightarrow> jget v l)"

definition str_field :: "json option \<Rightarrow> string option" where
  "str_field v = (case v of Some (JStr s) \<Rightarrow> Some s | _ \<Rightarrow> None)"

definition items :: "json option \<Rightarrow> json list" where
  "items v = (case v of Some (JArr js) \<Rightarrow> js | _ \<Rightarrow> [])"

definition usage_of :: "num \<Rightarrow> num \<Rightarrow> completion_usage" where
  "usage_of p c = \<lparr>cu_prompt = p, cu_completion = c, cu_total = num_add p c\<rparr>"

definition has_type :: "string \<Rightarrow> json \<Rightarrow> bool" where
  "has_type t j \<longleftrightarrow> jget j ''type'' = Some (JStr t)"

definition anthropic_completion :: "string \<Rightarrow> json \<Rightarrow> completion" where
  "anthropic_completion model data =
     (let blocks = items (jget data ''content'')
      in \<lparr>co_content = (case find (has_type ''text'') blocks of None \<Rightarrow> None | Some b \<Rightarrow> str_field (jget b ''text'')),
          co_toolCalls = map (\<lambda>b. \<lparr>tq_id = nullish (str_field (jget b ''id'')) [], tq_name = nullish (str_field (jget b ''name'')) [],
             tq_arguments = map_option stringify (jget b ''input'')\<rparr>) (filter (has_type ''tool_use'') blocks),
          co_model = model,
          co_usage = usage_of (num_field (jget2 data ''usage'' ''input_tokens'')) (num_field (jget2 data ''usage'' ''output_tokens''))\<rparr>)"

definition json_body :: "string \<Rightarrow> ('w, llm_err, json) eff" where
  "json_body t = (case json_parse t of Some j \<Rightarrow> ret j | None \<Rightarrow> throw ((js_error ''Unexpected token'')\<lparr>le_name := ''SyntaxError''\<rparr>))"

definition callAnthropic ::
  "'w llm_env \<Rightarrow> router_message list \<Rightarrow> string \<Rightarrow> num option \<Rightarrow> num option \<Rightarrow> tool_def list option \<Rightarrow> ('w, llm_err, completion) eff" where
  "callAnthropic E msgs model temperature maxTokens tools =
     (if \<not> truthy (ev_anthropic_key E) then throw (js_error ''ANTHROPIC_API_KEY not configured'')
      else bind (ev_fetch E (anthropic_url E) (anthropic_headers (the (ev_anthropic_key E)))
             (anthropic_body msgs model temperature maxTokens tools False)) (\<lambda>resp.
        if \<not> http_ok (hp_status resp) then throw (api_error ''Anthropic'' (hp_status resp) (hp_text resp))
        else bind (json_body (hp_text resp)) (\<lambda>data. ret (anthropic_completion model data))))"

section \<open>Ollama\<close>

definition ollama_body :: "router_message list \<Rightarrow> string \<Rightarrow> num option \<Rightarrow> num option \<Rightarrow> tool_def list option \<Rightarrow> bool \<Rightarrow> json" where
  "ollama_body msgs model temperature maxTokens tools stream = JObj (
     [(''model'', JStr model), (''messages'', JArr (map simple_message msgs)), (''stream'', JBool stream),
      (''options'', JObj (opt_field_json ''temperature'' (map_option JNum temperature) @
         [(''num_predict'', JNum (min_tokens maxTokens))]))] @
     (case tools of
        Some (t # ts) \<Rightarrow> [(''tools'', JArr (map (\<lambda>td. JObj [(''type'', JStr ''function''),
          (''function'', JObj [(''name'', JStr (tf_name td)), (''description'', JStr (tf_description td)),
             (''parameters'', schema_or_empty (tf_input_schema td))])]) (t # ts)))]
      | _ \<Rightarrow> []))"

definition ollama_url :: "'w llm_env \<Rightarrow> string" where
  "ollama_url E = env_or (ev_ollama_base E) ''http://localhost:11434'' @ ''/api/chat''"

fun ollama_calls :: "'w llm_env \<Rightarrow> json list \<Rightarrow> 'w \<Rightarrow> tool_call_result list \<times> 'w" where
  "ollama_calls E [] w = ([], w)"
| "ollama_calls E (tc # tcs) w =
     (case ev_fresh_id E w of (i, w') \<Rightarrow>
        (let f = nullish (jget tc ''function'') JNull;
             name = (case str_field (jget f ''name'') of Some n \<Rightarrow> n | None \<Rightarrow> nullish (str_field (jget tc ''name'')) ''unknown'');
             args = jnullish (Some (jnullish (jget f ''arguments'') (jnullish (jget tc ''arguments'') JNull))) (JObj [])
         in case ollama_calls E tcs w' of (rs, w'') \<Rightarrow>
           (\<lparr>tq_id = ''ollama-'' @ i, tq_name = name, tq_arguments = Some (stringify args)\<rparr> # rs, w'')))"

definition callOllama ::
  "'w llm_env \<Rightarrow> router_message list \<Rightarrow> string \<Rightarrow> num option \<Rightarrow> num option \<Rightarrow> tool_def list option \<Rightarrow> ('w, llm_err, completion) eff" where
  "callOllama E msgs model temperature maxTokens tools =
     bind (ev_fetch E (ollama_url E) [(''Content-Type'', ''application/json'')]
            (ollama_body msgs model temperature maxTokens tools False)) (\<lambda>resp.
       if \<not> http_ok (hp_status resp) then throw (api_error ''Ollama'' (hp_status resp) (hp_text resp))
       else bind (json_body (hp_text resp)) (\<lambda>data.
         let msg = nullish (jget data ''message'') JNull
         in (\<lambda>w. case ollama_calls E (items (jget msg ''tool_calls'')) w of (tcs, w') \<Rightarrow>
              (Inr \<lparr>co_content = str_field (jget msg ''content''), co_toolCalls = tcs, co_model = model,
                    co_usage = usage_of (num_field (jget data ''prompt_eval_count'')) (num_field (jget data ''eval_count''))\<rparr>, w'))))"

section \<open>Streams\<close>

definition js_trim :: "string \<Rightarrow> string" where
  "js_trim s = rev (dropWhile is_space (rev (dropWhile is_space s)))"

text \<open>
  The inner loop of \<open>streamLines\<close> takes the complete lines out of the buffer; the outer one appends
  the pieces of the body. The result is the trimmed non-empty lines, with the remainder at the end
  unless reading failed.
\<close>

fun take_lines :: "string \<Rightarrow> string list \<times> string" where
  "take_lines [] = ([], [])"
| "take_lines (c # cs) =
     (case take_lines cs of (ls, rest) \<Rightarrow>
        if c = CHR 0x0A then ([] # ls, rest)
        else (case ls of [] \<Rightarrow> ([], c # rest) | l # ls' \<Rightarrow> ((c # l) # ls', rest)))"

definition nonblank :: "string list \<Rightarrow> string list" where
  "nonblank ls = filter (\<lambda>l. l \<noteq> []) (map js_trim ls)"

fun stream_lines :: "string \<Rightarrow> string list \<Rightarrow> bool \<Rightarrow> string list" where
  "stream_lines buffer [] failed = (if failed then [] else nonblank [buffer])"
| "stream_lines buffer (p # ps) failed =
     (case take_lines (buffer @ p) of (ls, rest) \<Rightarrow> nonblank ls @ stream_lines rest ps failed)"

definition streamLines :: "stream_response \<Rightarrow> string list" where
  "streamLines r = (case sp_pieces r of None \<Rightarrow> [] | Some ps \<Rightarrow> stream_lines [] ps (sp_error r \<noteq> None))"

definition text_chunk :: "string \<Rightarrow> string \<Rightarrow> stream_chunk" where
  "text_chunk model t = \<lparr>sk_content = t, sk_model = model, sk_usage = None, sk_finishReason = None\<rparr>"

definition usage_chunk :: "string \<Rightarrow> completion_usage \<Rightarrow> string \<Rightarrow> stream_chunk" where
  "usage_chunk model u fin = \<lparr>sk_content = [], sk_model = model, sk_usage = Some u, sk_finishReason = Some fin\<rparr>"

text \<open>One frame: the prompt tokens so far go in and out.\<close>

definition anthropic_frame :: "string \<Rightarrow> num \<Rightarrow> string \<Rightarrow> num \<times> stream_chunk list" where
  "anthropic_frame model pt line =
     (if \<not> prefix ''data:'' line then (pt, [])
      else let payload = js_trim (drop 5 line)
        in if payload = [] \<or> payload = ''[DONE]'' then (pt, [])
           else case json_parse payload of
               None \<Rightarrow> (pt, [])
             | Some evt \<Rightarrow>
                 if has_type ''message_start'' evt then
                   (num_field (case jget evt ''message'' of None \<Rightarrow> None | Some m \<Rightarrow> jget2 m ''usage'' ''input_tokens''), [])
                 else if has_type ''content_block_delta'' evt \<and> jget2 evt ''delta'' ''type'' = Some (JStr ''text_delta'') then
                   (pt, [text_chunk model (nullish (str_field (jget2 evt ''delta'' ''text'')) [])])
                 else if has_type ''message_delta'' evt then
                   (pt, [usage_chunk model (usage_of pt (num_field (jget2 evt ''usage'' ''output_tokens'')))
                      (nullish (str_field (jget2 evt ''delta'' ''stop_reason'')) ''stop'')])
                 else (pt, []))"

fun anthropic_frames :: "string \<Rightarrow> num \<Rightarrow> string list \<Rightarrow> stream_chunk list" where
  "anthropic_frames model pt [] = []"
| "anthropic_frames model pt (l # ls) =
     (case anthropic_frame model pt l of (pt', cs) \<Rightarrow> cs @ anthropic_frames model pt' ls)"

text \<open>A stream, drained by its consumer: the chunks it yielded and the error it ended with, if any.\<close>

type_synonym stream = "stream_chunk list \<times> llm_err option"

definition streamAnthropic ::
  "'w llm_env \<Rightarrow> router_message list \<Rightarrow> string \<Rightarrow> num option \<Rightarrow> num option \<Rightarrow> 'w \<Rightarrow> stream \<times> 'w" where
  "streamAnthropic E msgs model temperature maxTokens w =
     (if \<not> truthy (ev_anthropic_key E) then (([], Some (js_error ''ANTHROPIC_API_KEY not configured'')), w)
      else case ev_fetch_stream E (anthropic_url E) (anthropic_headers (the (ev_anthropic_key E)))
             (anthropic_body msgs model temperature maxTokens None True) w of
          (Inl e, w') \<Rightarrow> (([], Some e), w')
        | (Inr resp, w') \<Rightarrow>
            (if \<not> http_ok (sp_status resp) then (([], Some (api_error ''Anthropic'' (sp_status resp) (sp_text resp))), w')
             else ((anthropic_frames model (Num 0) (streamLines resp), sp_error resp), w')))"

definition ollama_frame :: "string \<Rightarrow> string \<Rightarrow> stream_chunk list" where
  "ollama_frame model line =
     (case json_parse line of
        None \<Rightarrow> []
      | Some evt \<Rightarrow>
          (case str_field (jget2 evt ''message'' ''content'') of Some (c # cs) \<Rightarrow> [text_chunk model (c # cs)] | _ \<Rightarrow> []) @
          (if json_truthy (jget evt ''done'') then
             [usage_chunk model (usage_of (num_field (jget evt ''prompt_eval_count'')) (num_field (jget evt ''eval_count''))) ''stop'']
           else []))"

definition streamOllama ::
  "'w llm_env \<Rightarrow> router_message list \<Rightarrow> string \<Rightarrow> num option \<Rightarrow> num option \<Rightarrow> 'w \<Rightarrow> stream \<times> 'w" where
  "streamOllama E msgs model temperature maxTokens w =
     (case ev_fetch_stream E (ollama_url E) [(''Content-Type'', ''application/json'')]
             (ollama_body msgs model temperature maxTokens None True) w of
        (Inl e, w') \<Rightarrow> (([], Some e), w')
      | (Inr resp, w') \<Rightarrow>
          (if \<not> http_ok (sp_status resp) then (([], Some (api_error ''Ollama'' (sp_status resp) (sp_text resp))), w')
           else ((concat (map (ollama_frame model) (streamLines resp)), sp_error resp), w')))"

section \<open>OpenAI\<close>

text \<open>For model names that are not inherited members of an object literal.\<close>

definition openai_model :: "'w llm_env \<Rightarrow> string \<Rightarrow> string" where
  "openai_model E model =
     (let routed = (case ev_openai_base E of None \<Rightarrow> False | Some b \<Rightarrow> str_includes b ''openrouter'')
      in if routed \<and> model \<in> {''gpt-4o'', ''gpt-4o-mini'', ''gpt-3.5-turbo''} then ''openai/'' @ model else model)"

definition openai_message :: "router_message \<Rightarrow> json" where
  "openai_message m = JObj ([(''role'', JStr (rm_role m)), (''content'', JStr (rm_content m))] @
     opt_field_json ''tool_call_id'' (map_option JStr (rm_tool_call_id m)) @
     opt_field_json ''name'' (map_option JStr (rm_name m)) @
     opt_field_json ''tool_calls'' (map_option (\<lambda>tcs. JArr (map (\<lambda>(i, n, a).
        JObj [(''id'', JStr i), (''type'', JStr ''function''),
              (''function'', JObj [(''name'', JStr n), (''arguments'', JStr a)])]) tcs)) (rm_tool_calls m)))"

text \<open>The OpenAI provider alone parses a schema that arrives as text.\<close>

definition openai_parameters :: "json option \<Rightarrow> json" where
  "openai_parameters v =
     (case v of Some (JStr t) \<Rightarrow> (case json_parse t of Some j \<Rightarrow> j | None \<Rightarrow> empty_schema) | _ \<Rightarrow> schema_or_empty v)"

definition openai_tools :: "tool_def list option \<Rightarrow> (string \<times> json) list" where
  "openai_tools tools =
     (case tools of
        Some (t # ts) \<Rightarrow> [(''tools'', JArr (map (\<lambda>td. JObj [(''type'', JStr ''function''),
          (''function'', JObj [(''name'', JStr (tf_name td)), (''description'', JStr (tf_description td)),
             (''parameters'', openai_parameters (tf_input_schema td))])]) (t # ts)))]
      | _ \<Rightarrow> [])"

definition callOpenAIProvider ::
  "'w llm_env \<Rightarrow> router_message list \<Rightarrow> string \<Rightarrow> num option \<Rightarrow> num option \<Rightarrow> tool_def list option \<Rightarrow> ('w, llm_err, completion) eff" where
  "callOpenAIProvider E msgs model temperature maxTokens tools =
     (if \<not> truthy (ev_openai_key E) then throw (js_error ''OpenAI client not configured'')
      else retryWithBackoff E
        (bind (ev_openai_create E (JObj ([(''model'', JStr (openai_model E model)), (''messages'', JArr (map openai_message msgs))] @
            openai_tools tools @ opt_field_json ''temperature'' (map_option JNum temperature) @
            [(''max_tokens'', JNum (min_tokens maxTokens))]))) (\<lambda>resp.
           case or_choices resp of
             [] \<Rightarrow> throw ((js_error ''Empty response from model'')\<lparr>le_name := ''LLM400Error'', le_statusCode := Some 0\<rparr>)
           | c # _ \<Rightarrow> ret \<lparr>co_content = oc_content c, co_toolCalls = oc_tool_calls c, co_model = model,
               co_usage = nullish (or_usage resp) (usage_of (Num 0) (Num 0))\<rparr>)) 3 1000)"

definition openai_stream_chunks :: "string \<Rightarrow> openai_chunk \<Rightarrow> stream_chunk list" where
  "openai_stream_chunks model k =
     (case ok_delta k of Some (c # cs) \<Rightarrow> [text_chunk model (c # cs)] | _ \<Rightarrow> []) @
     (case ok_usage k of
        None \<Rightarrow> []
      | Some (p, c, t) \<Rightarrow> [usage_chunk model \<lparr>cu_prompt = nullish p (Num 0), cu_completion = nullish c (Num 0), cu_total = nullish t (Num 0)\<rparr>
          (nullish (ok_finish_reason k) ''stop'')])"

definition streamOpenAIProvider ::
  "'w llm_env \<Rightarrow> router_message list \<Rightarrow> string \<Rightarrow> num option \<Rightarrow> num option \<Rightarrow> 'w \<Rightarrow> stream \<times> 'w" where
  "streamOpenAIProvider E msgs model temperature maxTokens w =
     (if \<not> truthy (ev_openai_key E) then (([], Some (js_error ''OpenAI client not configured'')), w)
      else case ev_openai_stream E (JObj ([(''model'', JStr (openai_model E model)), (''messages'', JArr (map openai_message msgs))] @
             opt_field_json ''temperature'' (map_option JNum temperature) @
             [(''max_tokens'', JNum (min_tokens maxTokens)), (''stream'', JBool True),
              (''stream_options'', JObj [(''include_usage'', JBool True)])])) w of
          (Inl e, w') \<Rightarrow> (([], Some e), w')
        | (Inr (ks, e), w') \<Rightarrow> ((concat (map (openai_stream_chunks model) ks), e), w'))"

section \<open>Lines do not depend on the pieces\<close>

lemma take_lines_append:
  "take_lines (s @ t) = (case take_lines s of (ls, rest) \<Rightarrow> case take_lines (rest @ t) of (ms, r) \<Rightarrow> (ls @ ms, r))"
proof (induction s)
  case (Cons c s)
  obtain ls rest where s: "take_lines s = (ls, rest)" by (cases "take_lines s")
  obtain ms r where t: "take_lines (rest @ t) = (ms, r)" by (cases "take_lines (rest @ t)")
  show ?case using Cons s t by (cases ls) auto
qed (simp split: prod.splits)

lemma take_lines_rest: "take_lines s = (ls, rest) \<Longrightarrow> take_lines rest = ([], rest)"
proof (induction s arbitrary: ls rest)
  case (Cons c s)
  obtain ls' rest' where s: "take_lines s = (ls', rest')" by (cases "take_lines s")
  show ?case using Cons.prems Cons.IH[OF s] s by (auto split: if_splits list.splits)
qed simp

lemma nonblank_append [simp]: "nonblank (xs @ ys) = nonblank xs @ nonblank ys"
  by (simp add: nonblank_def)

lemma stream_lines_pieces:
  "take_lines buffer = ([], buffer) \<Longrightarrow>
   stream_lines buffer ps failed =
     (case take_lines (buffer @ concat ps) of (ls, rest) \<Rightarrow> nonblank ls @ (if failed then [] else nonblank [rest]))"
proof (induction ps arbitrary: buffer)
  case (Cons p ps)
  obtain ls rest where p: "take_lines (buffer @ p) = (ls, rest)" by (cases "take_lines (buffer @ p)")
  show ?case
    using Cons.IH[OF take_lines_rest[OF p]] p take_lines_append[of "buffer @ p" "concat ps"]
    by (simp split: prod.splits)
qed (simp add: nonblank_def)

text \<open>The frames a provider's stream is parsed into depend on its text only, never on how the
  network cut it into pieces: two bodies with the same text give the same chunks.\<close>

theorem stream_lines_chunking:
  assumes "concat ps = concat qs"
  shows "streamLines (r\<lparr>sp_pieces := Some ps\<rparr>) = streamLines (r\<lparr>sp_pieces := Some qs\<rparr>)"
  using stream_lines_pieces[of "[]"] assms by (simp add: streamLines_def)

theorem stream_lines_chunking_witness:
  "streamLines \<lparr>sp_status = 200, sp_text = [], sp_pieces = Some [''da'', ''ta: 1''], sp_error = None\<rparr> =
   streamLines \<lparr>sp_status = 200, sp_text = [], sp_pieces = Some [''data: 1''], sp_error = None\<rparr>"
  using stream_lines_chunking[of "[''da'', ''ta: 1'']" "[''data: 1'']"
    "\<lparr>sp_status = 200, sp_text = [], sp_pieces = None, sp_error = None\<rparr>"] by simp

end
