(* ===== verification/LlmRouter.thy ===== *)
theory LlmRouter
  imports LlmProviders
begin

text \<open>
  Routing and the gRPC handlers of \<open>execution-plane/llm-router/src/index.ts\<close>: the fallback chains,
  \<open>Generate\<close>, \<open>GenerateStream\<close>, the circuit states and the health check. The router's state is its
  rate limiter, the number of concurrency slots this handler holds, and the world; the model calls
  that were attempted are logged with their outcomes.
\<close>

section \<open>Circuit states\<close>

datatype provider_state = Closed | Open | Half_open

record provider_states =
  ps_openai :: provider_state
  ps_anthropic :: provider_state
  ps_ollama :: provider_state

definition initial_states :: provider_states where
  "initial_states = \<lparr>ps_openai = Closed, ps_anthropic = Closed, ps_ollama = Closed\<rparr>"

text \<open>The breaker's events \<open>open\<close>, \<open>halfOpen\<close> and \<open>close\<close>.\<close>

definition on_breaker :: "provider \<Rightarrow> provider_state \<Rightarrow> provider_states \<Rightarrow> provider_states" where
  "on_breaker p st s =
     (case p of OpenAI \<Rightarrow> s\<lparr>ps_openai := st\<rparr> | Anthropic \<Rightarrow> s\<lparr>ps_anthropic := st\<rparr> | Ollama \<Rightarrow> s\<lparr>ps_ollama := st\<rparr>)"

definition overallCircuitState :: "provider_states \<Rightarrow> provider_state" where
  "overallCircuitState s =
     (let states = [ps_openai s, ps_anthropic s, ps_ollama s]
      in if list_all (\<lambda>x. x = Open) states then Open
         else if list_ex (\<lambda>x. x \<noteq> Closed) states then Half_open
         else Closed)"

definition health_check :: "provider_states \<Rightarrow> string" where
  "health_check s = (if overallCircuitState s \<noteq> Open then ''SERVING'' else ''NOT_SERVING'')"

section \<open>State\<close>

record 'w router =
  rt_world :: 'w
  rt_limiter :: rate_limiter
  rt_slots :: int
  rt_log :: "(string \<times> (llm_err + completion)) list"

type_synonym ('w, 'a) rm = "('w router, llm_err, 'a) eff"

definition lift_world :: "('w, llm_err, 'a) eff \<Rightarrow> ('w, 'a) rm" where
  "lift_world m = (\<lambda>s. case m (rt_world s) of (r, w) \<Rightarrow> (r, s\<lparr>rt_world := w\<rparr>))"

definition log_call :: "string \<Rightarrow> ('w, completion) rm \<Rightarrow> ('w, completion) rm" where
  "log_call model m = (\<lambda>s. case m s of (r, s') \<Rightarrow> (r, s'\<lparr>rt_log := rt_log s' @ [(model, r)]\<rparr>))"

section \<open>Fallback\<close>

definition model_order :: "'w llm_env \<Rightarrow> string \<Rightarrow> string list" where
  "model_order E preferred = preferred # filter (\<lambda>m. m \<noteq> preferred) (fallback_chain E)"

definition breaker_call ::
  "'w llm_env \<Rightarrow> router_message list \<Rightarrow> string \<Rightarrow> num option \<Rightarrow> num option \<Rightarrow> tool_def list option \<Rightarrow> ('w, completion) rm" where
  "breaker_call E msgs model temperature maxTokens tools = log_call model (lift_world
     (case detectProvider model of
        Anthropic \<Rightarrow> ev_fire E Anthropic (retryWithBackoff E (callAnthropic E msgs model temperature maxTokens tools) 3 1000)
      | Ollama \<Rightarrow> ev_fire E Ollama (retryWithBackoff E (callOllama E msgs model temperature maxTokens tools) 2 1000)
      | OpenAI \<Rightarrow> ev_fire E OpenAI (callOpenAIProvider E msgs model temperature maxTokens tools)))"

definition err_status :: "llm_err \<Rightarrow> int" where
  "err_status e = (case le_status e of Some s \<Rightarrow> s | None \<Rightarrow> nullish (le_statusCode e) 0)"

definition breaker_open :: "llm_err \<Rightarrow> bool" where
  "breaker_open e \<longleftrightarrow> le_name e \<in> {''CircuitBreakerOpenError'', ''BulkheadOverloadError''}"

definition bad_request :: "llm_err \<Rightarrow> llm_err" where
  "bad_request e = (js_error (''LLM bad request: '' @ le_message e))
     \<lparr>le_name := ''LLM400Error'', le_statusCode := Some (err_status e)\<rparr>"

definition auth_failed :: "llm_err \<Rightarrow> llm_err" where
  "auth_failed e = (js_error (''LLM auth failed: '' @ le_message e))\<lparr>le_name := ''LLMAuthError''\<rparr>"

text \<open>What the loop does with an error: stop with another error, or try the next model.\<close>

definition fatal_error :: "llm_err \<Rightarrow> llm_err option" where
  "fatal_error e =
     (if breaker_open e then None
      else if err_status e = 400 \<or> err_status e = 422 then Some (bad_request e)
      else if err_status e = 401 \<or> err_status e = 403 then Some (auth_failed e)
      else None)"

fun try_models ::
  "'w llm_env \<Rightarrow> router_message list \<Rightarrow> num option \<Rightarrow> num option \<Rightarrow> tool_def list option \<Rightarrow> string list \<Rightarrow> ('w, completion) rm" where
  "try_models E msgs temperature maxTokens tools [] = throw (js_error ''All models in fallback chain exhausted'')"
| "try_models E msgs temperature maxTokens tools (model # ms) =
     (if detectProvider model = OpenAI \<and> \<not> truthy (ev_openai_key E) then try_models E msgs temperature maxTokens tools ms
      else catch (breaker_call E msgs model temperature maxTokens tools) (\<lambda>e.
        case fatal_error e of
          Some e' \<Rightarrow> throw e'
        | None \<Rightarrow> try_models E msgs temperature maxTokens tools ms))"

definition callLLMWithFallback ::
  "'w llm_env \<Rightarrow> router_message list \<Rightarrow> string \<Rightarrow> num option \<Rightarrow> num option \<Rightarrow> tool_def list option \<Rightarrow> ('w, completion) rm" where
  "callLLMWithFallback E msgs preferred temperature maxTokens tools =
     try_models E msgs temperature maxTokens tools (model_order E preferred)"

definition provider_stream ::
  "'w llm_env \<Rightarrow> router_message list \<Rightarrow> string \<Rightarrow> num option \<Rightarrow> num option \<Rightarrow> 'w \<Rightarrow> stream \<times> 'w" where
  "provider_stream E msgs model temperature maxTokens w =
     (case detectProvider model of
        Anthropic \<Rightarrow> streamAnthropic E msgs model temperature maxTokens w
      | Ollama \<Rightarrow> streamOllama E msgs model temperature maxTokens w
      | OpenAI \<Rightarrow> streamOpenAIProvider E msgs model temperature maxTokens w)"

text \<open>The stream loop has no case for an open breaker; the chunks of a failed model stay delivered.\<close>

definition fatal_stream_error :: "llm_err \<Rightarrow> llm_err option" where
  "fatal_stream_error e =
     (if err_status e = 400 \<or> err_status e = 422 then Some (bad_request e)
      else if err_status e = 401 \<or> err_status e = 403 then Some (auth_failed e)
      else None)"

fun stream_models ::
  "'w llm_env \<Rightarrow> router_message list \<Rightarrow> num option \<Rightarrow> num option \<Rightarrow> llm_err option \<Rightarrow> string list \<Rightarrow> 'w \<Rightarrow> stream \<times> 'w" where
  "stream_models E msgs temperature maxTokens lastErr [] w =
     (([], Some (nullish lastErr (js_error ''All models in fallback chain exhausted''))), w)"
| "stream_models E msgs temperature maxTokens lastErr (model # ms) w =
     (if detectProvider model = OpenAI \<and> \<not> truthy (ev_openai_key E)
      then stream_models E msgs temperature maxTokens lastErr ms w
      else case provider_stream E msgs model temperature maxTokens w of
          ((cs, None), w') \<Rightarrow> ((cs, None), w')
        | ((cs, Some e), w') \<Rightarrow>
            (case fatal_stream_error e of
               Some e' \<Rightarrow> ((cs, Some e'), w')
             | None \<Rightarrow> (case stream_models E msgs temperature maxTokens (Some e) ms w' of
                 ((cs', r), w'') \<Rightarrow> ((cs @ cs', r), w''))))"

definition streamLLMWithFallback ::
  "'w llm_env \<Rightarrow> router_message list \<Rightarrow> string \<Rightarrow> num option \<Rightarrow> num option \<Rightarrow> 'w \<Rightarrow> stream \<times> 'w" where
  "streamLLMWithFallback E msgs preferred temperature maxTokens w =
     stream_models E msgs temperature maxTokens None (model_order E preferred) w"

section \<open>Requests\<close>

record req_message =
  rq_role :: "string option"
  rq_content :: "string option"
  rq_tool_call_id :: "string option"
  rq_name :: "string option"
  rq_tool_calls :: "router_tool_call list option"

record generate_request =
  gq_agent_id :: string
  gq_execution_id :: string
  gq_model :: string
  gq_messages :: "req_message list"
  gq_temperature :: "num option"
  gq_max_tokens :: "num option"
  gq_tools :: "tool_def list option"

definition scan_view :: "req_message \<Rightarrow> scan_message" where
  "scan_view m = \<lparr>sm_role = rq_role m, sm_content = map_option JStr (rq_content m)\<rparr>"

definition only_truthy :: "string option \<Rightarrow> string option" where
  "only_truthy v = (if truthy v then v else None)"

definition to_openai :: "req_message \<Rightarrow> router_message" where
  "to_openai m =
     \<lparr>rm_role = nullish (rq_role m) ''user'', rm_content = nullish (rq_content m) [],
      rm_tool_call_id = only_truthy (rq_tool_call_id m), rm_name = only_truthy (rq_name m),
      rm_tool_calls = (case rq_tool_calls m of
         Some (t # ts) \<Rightarrow> Some (map (\<lambda>tc. (tk_id tc, tk_name tc,
           case tk_args tc of JStr a \<Rightarrow> a | j \<Rightarrow> stringify (if json_truthy (Some j) then j else JObj []))) (t # ts))
       | _ \<Rightarrow> None)\<rparr>"

record generate_response =
  gr_content :: string
  gr_model_used :: string
  gr_tool_calls :: "tool_call_result list"
  gr_usage :: completion_usage
  gr_cost :: string
  gr_finish_reason :: string
  gr_seconds :: int

datatype reply = Rejected grpc_status string "string option" | Replied generate_response

definition severity_name :: "severity \<Rightarrow> string" where
  "severity_name s = (case s of Low \<Rightarrow> ''low'' | Medium \<Rightarrow> ''medium'' | High \<Rightarrow> ''high'' | Critical \<Rightarrow> ''critical'')"

definition scan_details :: "injection_scan \<Rightarrow> string" where
  "scan_details sc = stringify (JObj
     [(''detected'', JBool True), (''severity'', JStr (severity_name (ir_severity (sc_worst sc)))),
      (''confidence'', JNum (ir_confidence (sc_worst sc))), (''indicators'', JArr (map JStr (ir_indicators (sc_worst sc)))),
      (''violations'', JNum (num_of_int (int (length (sc_violations sc)))))])"

definition rate_key :: "string \<Rightarrow> string" where
  "rate_key agent = extractNamespace agent @ '':'' @ agent"

definition ceil_seconds :: "jint \<Rightarrow> string" where
  "ceil_seconds j = (case j of NaN \<Rightarrow> ''NaN'' | JInt ms \<Rightarrow> show_int (- ((- ms) div 1000)))"

definition rate_message :: "rl_result \<Rightarrow> string" where
  "rate_message r = ''Rate limit exceeded. Retry after '' @ ceil_seconds (retryAfterMs r) @ ''s.''"

definition or_default :: "string \<Rightarrow> string \<Rightarrow> string" where
  "or_default v d = (if v = [] then d else v)"

section \<open>The guards both handlers start with\<close>

text \<open>The configuration, the rate limit and the concurrency slot; \<open>None\<close> when the slot was acquired.\<close>

definition admit_request :: "'w llm_env \<Rightarrow> generate_request \<Rightarrow> 'w router \<Rightarrow> (grpc_status \<times> string) option \<times> 'w router" where
  "admit_request E req s =
     (if \<not> truthy (ev_openai_key E) then
        (Some (G_FAILED_PRECONDITION, ''OPENAI_API_KEY not configured. Set environment variable before routing LLM calls.''), s)
      else case rl_check (rate_key (gq_agent_id req)) (ev_now E (rt_world s)) (rt_limiter s) of (r, rl) \<Rightarrow>
        let s = s\<lparr>rt_limiter := rl\<rparr>
        in if \<not> rl_allowed r then (Some (G_RESOURCE_EXHAUSTED, rate_message r), s)
           else case ev_acquire E 25000 (rt_world s) of (ok, w) \<Rightarrow>
             if ok then (None, s\<lparr>rt_world := w, rt_slots := rt_slots s + 1\<rparr>)
             else (Some (G_DEADLINE_EXCEEDED, ''Too many concurrent LLM requests, please retry later''), s\<lparr>rt_world := w\<rparr>))"

definition release_slot :: "('w router) \<Rightarrow> 'w router" where
  "release_slot s = s\<lparr>rt_slots := rt_slots s - 1\<rparr>"

section \<open>Generate\<close>

definition injection_error :: "injection_scan \<Rightarrow> llm_err" where
  "injection_error sc = (js_error ''PROMPT_INJECTION_DETECTED'')
     \<lparr>le_grpcStatus := Some G_INVALID_ARGUMENT, le_details := Some (scan_details sc)\<rparr>"

definition generate_response_of :: "completion \<Rightarrow> int \<Rightarrow> generate_response" where
  "generate_response_of c now =
     \<lparr>gr_content = nullish (co_content c) [], gr_model_used = co_model c, gr_tool_calls = co_toolCalls c,
      gr_usage = co_usage c, gr_cost = calculateCost (cu_prompt (co_usage c)) (cu_completion (co_usage c)) (co_model c),
      gr_finish_reason = (if co_toolCalls c = [] then ''stop'' else ''tool_calls''), gr_seconds = now div 1000\<rparr>"

definition generate_body :: "'w llm_env \<Rightarrow> generate_request \<Rightarrow> ('w, generate_response) rm" where
  "generate_body E req =
     (let sc = scanMessagesForInjection (map scan_view (gq_messages req))
      in if scan_rejects sc then throw (injection_error sc)
         else bind (callLLMWithFallback E (map to_openai (gq_messages req)) (or_default (gq_model req) ''gpt-4o'')
                (Some (nullish (gq_temperature req) (dec (7/10)))) (gq_max_tokens req) (gq_tools req)) (\<lambda>c.
           with_state (\<lambda>s. ret (generate_response_of c (ev_now E (rt_world s))))))"

definition generate_error :: "llm_err \<Rightarrow> reply" where
  "generate_error e =
     (case le_grpcStatus e of
        Some st \<Rightarrow> Rejected st (le_message e) (le_details e)
      | None \<Rightarrow> Rejected (if le_name e = ''AbortError'' then G_DEADLINE_EXCEEDED else G_INTERNAL)
          ''LLM generation failed'' (le_details e))"

definition Generate :: "'w llm_env \<Rightarrow> generate_request \<Rightarrow> 'w router \<Rightarrow> reply \<times> 'w router" where
  "Generate E req s =
     (case admit_request E req s of
        (Some (code, msg), s') \<Rightarrow> (Rejected code msg None, s')
      | (None, s') \<Rightarrow>
          (case generate_body E req s' of
             (Inr r, s'') \<Rightarrow> (Replied r, release_slot s'')
           | (Inl e, s'') \<Rightarrow> (generate_error e, release_slot s'')))"

section \<open>GenerateStream\<close>

datatype stream_event =
    Wrote string string
  | Finished string completion_usage string string
  | Emitted grpc_status string "string option"

definition stream_fold :: "string \<Rightarrow> stream_chunk list \<Rightarrow> stream_event list \<times> completion_usage \<times> string \<times> string" where
  "stream_fold model cs =
     foldl (\<lambda>(evs, u, m, fin) c.
       (evs @ (if sk_content c = [] then [] else [Wrote (sk_content c) (sk_model c)]),
        nullish (sk_usage c) u, sk_model c,
        if sk_usage c = None then fin else nullish (sk_finishReason c) ''stop''))
       ([], usage_of (Num 0) (Num 0), model, ''stop'') cs"

definition GenerateStream :: "'w llm_env \<Rightarrow> generate_request \<Rightarrow> 'w router \<Rightarrow> stream_event list \<times> 'w router" where
  "GenerateStream E req s =
     (case admit_request E req s of
        (Some (code, msg), s') \<Rightarrow> ([Emitted code msg None], s')
      | (None, s') \<Rightarrow>
          (let sc = scanMessagesForInjection (map scan_view (gq_messages req))
           in if scan_rejects sc
              then ([Emitted G_INVALID_ARGUMENT ''PROMPT_INJECTION_DETECTED'' (Some (scan_details sc))], release_slot s')
              else let m = or_default (gq_model req) ''gpt-4o''
                in case streamLLMWithFallback E (map to_openai (gq_messages req)) m
                       (Some (nullish (gq_temperature req) (dec (7/10)))) (gq_max_tokens req) (rt_world s') of
                     ((cs, err), w) \<Rightarrow>
                       (case stream_fold m cs of (evs, u, fm, fin) \<Rightarrow>
                          (evs @ (case err of
                             None \<Rightarrow> [Finished fm u (calculateCost (cu_prompt u) (cu_completion u) fm) fin]
                           | Some e \<Rightarrow> [Emitted (if le_name e = ''AbortError'' then G_DEADLINE_EXCEEDED else G_INTERNAL)
                               ''LLM streaming failed'' None]),
                           release_slot (s'\<lparr>rt_world := w\<rparr>)))))"

section \<open>Slots\<close>

definition same_slots :: "'w router \<Rightarrow> 'w router \<Rightarrow> bool" where
  "same_slots s t \<longleftrightarrow> rt_slots t = rt_slots s \<and> rt_limiter t = rt_limiter s"

interpretation slots: eff_preorder same_slots
  by unfold_locales (auto simp: same_slots_def)

lemma breaker_call_slots: "always same_slots (breaker_call E msgs model temperature maxTokens tools)"
  by (auto simp: always_def breaker_call_def log_call_def lift_world_def same_slots_def split: prod.splits)

lemma try_models_slots: "always same_slots (try_models E msgs temperature maxTokens tools ms)"
proof (induction ms)
  case (Cons m ms)
  have "always same_slots (case fatal_error e of Some e' \<Rightarrow> throw e' | None \<Rightarrow> try_models E msgs temperature maxTokens tools ms)" for e
    using Cons by (cases "fatal_error e") (simp_all add: slots.a_throw)
  then have "always same_slots (catch (breaker_call E msgs m temperature maxTokens tools)
      (\<lambda>e. case fatal_error e of Some e' \<Rightarrow> throw e' | None \<Rightarrow> try_models E msgs temperature maxTokens tools ms))"
    by (rule slots.a_catch[OF breaker_call_slots])
  then show ?case using Cons by simp
qed (simp add: slots.a_throw)

lemma generate_body_slots: "always same_slots (generate_body E req)"
  unfolding generate_body_def callLLMWithFallback_def Let_def
  by (intro slots.a_if slots.a_throw slots.a_bind slots.a_with_state slots.a_ret try_models_slots)

lemma admit_request_slots:
  "admit_request E req s = (r, s') \<Longrightarrow> rt_slots s' = rt_slots s + (if r = None then 1 else 0) \<and> rt_log s' = rt_log s"
  by (auto simp: admit_request_def Let_def split: if_splits prod.splits)

text \<open>Neither handler leaks a concurrency slot: whatever the providers do, the handler holds as many
  slots after it answered as before it was called.\<close>

theorem router_slots_balanced:
  "rt_slots (snd (Generate E req s)) = rt_slots s \<and> rt_slots (snd (GenerateStream E req s)) = rt_slots s"
proof
  obtain r s' where ad: "admit_request E req s = (r, s')" by (cases "admit_request E req s")
  note a = admit_request_slots[OF ad]
  obtain x t where g: "generate_body E req s' = (x, t)" by (cases "generate_body E req s'")
  have "rt_slots t = rt_slots s'"
    using generate_body_slots[of E req] g unfolding always_def same_slots_def by (metis snd_conv)
  then show "rt_slots (snd (Generate E req s)) = rt_slots s"
    using ad a g by (cases r; cases x) (auto simp: Generate_def release_slot_def)
  show "rt_slots (snd (GenerateStream E req s)) = rt_slots s"
    using ad a by (cases r) (simp_all add: GenerateStream_def release_slot_def Let_def case_prod_unfold)
qed

section \<open>The fallback chain\<close>

definition usable :: "'w llm_env \<Rightarrow> string list \<Rightarrow> string list" where
  "usable E ms = filter (\<lambda>m. detectProvider m = OpenAI \<longrightarrow> truthy (ev_openai_key E)) ms"

text \<open>
  How a list of calls explains an outcome: every call but the last failed with an error that the
  chain passes over, and the last one succeeded, failed fatally, or was the last model there is.
\<close>

fun explains :: "string list \<Rightarrow> (string \<times> (llm_err + completion)) list \<Rightarrow> llm_err + completion \<Rightarrow> bool" where
  "explains [] [] r \<longleftrightarrow> r = Inl (js_error ''All models in fallback chain exhausted'')"
| "explains (m # ms) ((k, res) # cs) r \<longleftrightarrow> k = m \<and>
     (case res of
        Inr c \<Rightarrow> cs = [] \<and> r = Inr c
      | Inl e \<Rightarrow> (case fatal_error e of Some e' \<Rightarrow> cs = [] \<and> r = Inl e' | None \<Rightarrow> explains ms cs r))"
| "explains _ _ r \<longleftrightarrow> False"

lemma try_models_explained:
  "case try_models E msgs temperature maxTokens tools ms s of (r, t) \<Rightarrow>
     \<exists>calls. rt_log t = rt_log s @ calls \<and> explains (usable E ms) calls r"
proof (induction ms arbitrary: s)
  case Nil
  then show ?case by (simp add: throw_def usable_def)
next
  case (Cons m ms)
  show ?case
  proof (cases "detectProvider m = OpenAI \<and> \<not> truthy (ev_openai_key E)")
    case True
    then show ?thesis using Cons[of s] by (simp add: usable_def)
  next
    case False
    then have u: "usable E (m # ms) = m # usable E ms" by (auto simp: usable_def)
    obtain x t where b: "breaker_call E msgs m temperature maxTokens tools s = (x, t)" by fastforce
    have l: "rt_log t = rt_log s @ [(m, x)]"
      using b by (auto simp: breaker_call_def log_call_def lift_world_def split: prod.splits)
    show ?thesis
    proof (cases x)
      case (Inr c)
      with b l False show ?thesis by (auto simp: catch_def u)
    next
      case (Inl e)
      show ?thesis
      proof (cases "fatal_error e")
        case (Some e')
        with Inl b l False show ?thesis by (auto simp: catch_def u throw_def)
      next
        case None
        obtain r t' where r: "try_models E msgs temperature maxTokens tools ms t = (r, t')" by fastforce
        then obtain calls where "rt_log t' = rt_log t @ calls" "explains (usable E ms) calls r"
          using Cons[of t] by (auto split: prod.splits)
        then have "rt_log t' = rt_log s @ (m, x) # calls" "explains (usable E (m # ms)) ((m, x) # calls) r"
          using l Inl None by (simp_all add: u)
        with r b Inl None False show ?thesis by (auto simp: catch_def)
      qed
    qed
  qed
qed

text \<open>The fallback chain answers with the first model that works: it calls the usable models in
  order, the preferred one first and each at most once; every call before the last failed with an
  error that is passed over; and the outcome is the last call's success, its bad-request or
  authentication error, or the exhaustion of all usable models.\<close>

theorem fallback_explained:
  "case callLLMWithFallback E msgs preferred temperature maxTokens tools s of (r, t) \<Rightarrow>
     \<exists>calls. rt_log t = rt_log s @ calls \<and> explains (usable E (model_order E preferred)) calls r"
  unfolding callLLMWithFallback_def by (rule try_models_explained)

lemma explains_errors:
  "explains ms calls r \<Longrightarrow> r = Inl e \<Longrightarrow> le_grpcStatus e = None \<and> le_details e = None \<and> le_name e \<noteq> ''AbortError''"
proof (induction ms calls r rule: explains.induct)
  case (2 m ms k res cs r)
  then show ?case
    by (auto split: sum.splits option.splits simp: fatal_error_def bad_request_def auth_failed_def js_error_def split: if_splits)
qed (auto simp: js_error_def)

lemma fallback_error:
  assumes "callLLMWithFallback E msgs preferred temperature maxTokens tools s = (Inl e, t)"
  shows "le_grpcStatus e = None \<and> le_details e = None \<and> le_name e \<noteq> ''AbortError''"
proof -
  obtain calls where "explains (usable E (model_order E preferred)) calls (Inl e)"
    using try_models_explained[where E = E and msgs = msgs and temperature = temperature and maxTokens = maxTokens
        and tools = tools and ms = "model_order E preferred" and s = s] assms
    by (auto simp: callLLMWithFallback_def)
  then show ?thesis by (rule explains_errors) simp
qed

text \<open>The cause of a provider failure never reaches the caller: once the injection scan has passed,
  \<open>Generate\<close> answers with a completion or with \<open>INTERNAL\<close> and a fixed text. Bad requests,
  authentication failures and timeouts are told apart inside the router and then all reported
  the same way.\<close>

theorem generate_hides_provider_failures:
  assumes "admit_request E req s = (None, s')"
    and "\<not> scan_rejects (scanMessagesForInjection (map scan_view (gq_messages req)))"
  shows "(\<exists>r. fst (Generate E req s) = Replied r) \<or>
    fst (Generate E req s) = Rejected G_INTERNAL ''LLM generation failed'' None"
proof -
  obtain x t where c: "callLLMWithFallback E (map to_openai (gq_messages req)) (or_default (gq_model req) ''gpt-4o'')
                (Some (nullish (gq_temperature req) (dec (7/10)))) (gq_max_tokens req) (gq_tools req) s' = (x, t)"
    by fastforce
  show ?thesis
  proof (cases x)
    case (Inl e)
    then show ?thesis
      using c assms fallback_error[OF c[unfolded Inl]]
      by (auto simp: Generate_def generate_body_def Let_def bind_def generate_error_def)
  next
    case (Inr r)
    then show ?thesis
      using c assms by (simp add: Generate_def generate_body_def Let_def bind_def with_state_def ret_def)
  qed
qed

text \<open>A blocked prompt reaches no provider: when the injection scan rejects the messages, neither
  handler makes a model call, and both answer with an error.\<close>

theorem injection_reaches_no_provider:
  assumes "scan_rejects (scanMessagesForInjection (map scan_view (gq_messages req)))"
  shows "rt_log (snd (Generate E req s)) = rt_log s \<and> (\<exists>c m d. fst (Generate E req s) = Rejected c m d) \<and>
    rt_log (snd (GenerateStream E req s)) = rt_log s \<and> (\<exists>c m d. fst (GenerateStream E req s) = [Emitted c m d])"
proof -
  obtain r s' where ad: "admit_request E req s = (r, s')" by (cases "admit_request E req s")
  then have "rt_log s' = rt_log s" using admit_request_slots by blast
  with ad assms show ?thesis
    by (cases r) (auto simp: Generate_def GenerateStream_def generate_body_def Let_def throw_def release_slot_def generate_error_def
        injection_error_def)
qed

section \<open>An example environment\<close>

text \<open>The OpenAI client is configured; its stream breaks once, after one delta, and then works.\<close>

definition demo_llm_env :: "nat llm_env" where
  "demo_llm_env =
     \<lparr>ev_openai_key = Some ''k'', ev_openai_base = None, ev_anthropic_key = None, ev_anthropic_base = None,
      ev_ollama_base = None, ev_fallback_chain = None,
      ev_fetch = (\<lambda>_ _ _. throw (js_error ''offline'')), ev_fetch_stream = (\<lambda>_ _ _. throw (js_error ''offline'')),
      ev_openai_create = (\<lambda>_. ret \<lparr>or_choices = [\<lparr>oc_content = Some ''hi'', oc_tool_calls = []\<rparr>], or_usage = None\<rparr>),
      ev_openai_stream = (\<lambda>_ n. (Inr
         (if n = 0 then ([\<lparr>ok_delta = Some ''Par'', ok_usage = None, ok_finish_reason = None\<rparr>], Some (js_error ''reset''))
          else ([\<lparr>ok_delta = Some ''London'', ok_usage = None, ok_finish_reason = None\<rparr>], None)), Suc n)),
      ev_sleep = (\<lambda>_ n. n), ev_random = (\<lambda>n. (Num 0, n)), ev_fresh_id = (\<lambda>n. (''x'', n)),
      ev_fire = (\<lambda>_ m. m), ev_now = (\<lambda>_. 0), ev_acquire = (\<lambda>_ n. (True, n))\<rparr>"

definition demo_router :: "nat router" where
  "demo_router = \<lparr>rt_world = 0, rt_limiter = \<lparr>buckets = [], maxRequests = JInt 10, windowMs = JInt 1000, timer_on = False\<rparr>,
     rt_slots = 0, rt_log = []\<rparr>"

definition demo_request :: "string \<Rightarrow> generate_request" where
  "demo_request t = \<lparr>gq_agent_id = ''a'', gq_execution_id = ''e'', gq_model = [],
     gq_messages = [\<lparr>rq_role = Some ''user'', rq_content = Some t, rq_tool_call_id = None, rq_name = None, rq_tool_calls = None\<rparr>],
     gq_temperature = None, gq_max_tokens = None, gq_tools = None\<rparr>"

text \<open>Streaming falls back after it has already delivered: the chunks of the model that broke off
  stay with the caller and the next model's answer is appended, so the caller reads one text made
  of two models' answers.\<close>

theorem stream_mixes_models:
  "fst (streamLLMWithFallback demo_llm_env msgs ''gpt-4o'' None None 0) =
     ([text_chunk ''gpt-4o'' ''Par'', text_chunk ''gpt-4o-mini'' ''London''], None)"
  by (simp add: streamLLMWithFallback_def model_order_def fallback_chain_def demo_llm_env_def provider_stream_def
      detectProvider_def streamOpenAIProvider_def truthy_def openai_stream_chunks_def fatal_stream_error_def err_status_def
      js_error_def)

lemma demo_admitted:
  "\<exists>s'. admit_request demo_llm_env (demo_request t) demo_router = (None, s')"
  by (simp add: admit_request_def demo_llm_env_def demo_request_def demo_router_def truthy_def rl_check_def rl_active_def
      Let_def rate_key_def)

lemma demo_scan: "pattern_hits INJECTION_PATTERNS ''hello'' = []" "pattern_hits INJECTION_PATTERNS ''jailbreak'' = [(Critical, ''jailbreak'')]"
  by code_simp+

theorem generate_hides_provider_failures_witness:
  "(\<exists>r. fst (Generate demo_llm_env (demo_request ''hello'') demo_router) = Replied r) \<or>
    fst (Generate demo_llm_env (demo_request ''hello'') demo_router) = Rejected G_INTERNAL ''LLM generation failed'' None"
proof -
  obtain s' where "admit_request demo_llm_env (demo_request ''hello'') demo_router = (None, s')" using demo_admitted by blast
  then show ?thesis
    by (rule generate_hides_provider_failures)
      (simp add: demo_request_def scan_view_def scan_rejects_def scanMessagesForInjection_def scan_text_def
        detectPromptInjection_def demo_scan no_injection_def)
qed

theorem injection_reaches_no_provider_witness:
  "rt_log (snd (Generate demo_llm_env (demo_request ''jailbreak'') demo_router)) = [] \<and>
   (\<exists>c m d. fst (Generate demo_llm_env (demo_request ''jailbreak'') demo_router) = Rejected c m d)"
proof -
  have "scan_rejects (scanMessagesForInjection (map scan_view (gq_messages (demo_request ''jailbreak''))))"
    by (simp add: demo_request_def scan_view_def scan_rejects_def scanMessagesForInjection_def scan_text_def
        detectPromptInjection_def demo_scan no_injection_def max_severity_def severity_rank_def Let_def)
  from injection_reaches_no_provider[OF this, of demo_llm_env demo_router] show ?thesis by (simp add: demo_router_def)
qed

end
