(* ===== verification/Crypto.thy ===== *)
theory Crypto
  imports Json JsRegex "HOL-Library.Char_ord" "HOL-Library.List_Lexorder"
begin

text \<open>
  \<open>packages/shared/src/crypto/index.ts\<close>: Base64 and its URL form, signed tokens, password hashes,
  authenticated encryption and the cache hash. The cryptographic primitives of the platform (HMAC,
  scrypt, AES-GCM, SHA-256) and its random bytes are parameters; Base64 is defined. A text stands
  for the bytes of its UTF-8 form.
\<close>

section \<open>Base64\<close>

definition b64_char :: "nat \<Rightarrow> char" where
  "b64_char n = char_of (if n < 26 then n + 65 else if n < 52 then n + 71 else if n < 62 then n - 4 else if n = 62 then 43 else 47)"

text \<open>The decoder accepts both alphabets.\<close>

definition b64_val :: "char \<Rightarrow> nat option" where
  "b64_val c =
     (let n = (of_char c :: nat)
      in if 65 \<le> n \<and> n \<le> 90 then Some (n - 65) else if 97 \<le> n \<and> n \<le> 122 then Some (n - 71)
         else if 48 \<le> n \<and> n \<le> 57 then Some (n + 4) else if n = 43 \<or> n = 45 then Some 62
         else if n = 47 \<or> n = 95 then Some 63 else None)"

fun b64_groups :: "nat list \<Rightarrow> nat list" where
  "b64_groups (a # b # c # xs) = [a div 4, a mod 4 * 16 + b div 16, b mod 16 * 4 + c div 64, c mod 64] @ b64_groups xs"
| "b64_groups [a, b] = [a div 4, a mod 4 * 16 + b div 16, b mod 16 * 4]"
| "b64_groups [a] = [a div 4, a mod 4 * 16]"
| "b64_groups [] = []"

text \<open>Padding to a multiple of four with a character.\<close>

definition pad4 :: "string \<Rightarrow> string" where
  "pad4 s = s @ (if length s mod 4 = 0 then [] else replicate (4 - length s mod 4) (CHR ''=''))"

definition b64_encode :: "string \<Rightarrow> string" where
  "b64_encode s = pad4 (map b64_char (b64_groups (map of_char s)))"

fun b64_bytes :: "nat list \<Rightarrow> nat list" where
  "b64_bytes (w # x # y # z # vs) = [w * 4 + x div 16, x mod 16 * 16 + y div 4, y mod 4 * 64 + z] @ b64_bytes vs"
| "b64_bytes [w, x, y] = [w * 4 + x div 16, x mod 16 * 16 + y div 4]"
| "b64_bytes [w, x] = [w * 4 + x div 16]"
| "b64_bytes _ = []"

definition b64_decode :: "string \<Rightarrow> string" where
  "b64_decode s = map char_of (b64_bytes (List.map_filter b64_val (takeWhile (\<lambda>c. c \<noteq> CHR ''='') s)))"

definition swap_chars :: "char \<Rightarrow> char \<Rightarrow> string \<Rightarrow> string" where
  "swap_chars a b s = map (\<lambda>c. if c = a then b else c) s"

definition strip_padding :: "string \<Rightarrow> string" where
  "strip_padding s = rev (dropWhile (\<lambda>c. c = CHR ''='') (rev s))"

definition base64urlEncode :: "string \<Rightarrow> string" where
  "base64urlEncode s = strip_padding (swap_chars (CHR ''/'') (CHR ''_'') (swap_chars (CHR ''+'') (CHR ''-'') (b64_encode s)))"

definition base64urlDecode :: "string \<Rightarrow> string" where
  "base64urlDecode s = b64_decode (pad4 (swap_chars (CHR ''_'') (CHR ''/'') (swap_chars (CHR ''-'') (CHR ''+'') s)))"

lemma b64_val_char: "n < 64 \<Longrightarrow> b64_val (b64_char n) = Some n"
  by (auto simp: b64_val_def b64_char_def Let_def)

lemma b64_groups_lt: "\<forall>x \<in> set xs. x < 256 \<Longrightarrow> \<forall>v \<in> set (b64_groups xs). v < 64"
  by (induction xs rule: b64_groups.induct) auto

lemma div_16_lt: "(b :: nat) < 256 \<Longrightarrow> b div 16 < 16"
  by (simp add: less_mult_imp_div_less)

lemma div_64_lt: "(c :: nat) < 256 \<Longrightarrow> c div 64 < 4"
  by (simp add: less_mult_imp_div_less)

lemma split_group: "(r :: nat) < n \<Longrightarrow> (k * n + r) div n = k \<and> (k * n + r) mod n = r"
  by simp

lemma b64_bytes_groups: "\<forall>x \<in> set xs. x < 256 \<Longrightarrow> b64_bytes (b64_groups xs) = xs"
proof (induction xs rule: b64_groups.induct)
  case (1 a b c xs)
  then have "b div 16 < 16" "c div 64 < 4" by (simp_all add: div_16_lt div_64_lt)
  with 1 show ?case
    unfolding b64_groups.simps by (simp del: div_mult_self1 div_mult_self2 div_mult_self3 div_mult_self4
        add: split_group)
next
  case (2 a b)
  then have "b div 16 < 16" by (simp add: div_16_lt)
  then show ?case
    unfolding b64_groups.simps by (simp del: div_mult_self1 div_mult_self2 div_mult_self3 div_mult_self4
        add: split_group)
qed simp_all

text \<open>Everything before a padding character is kept by the decoder, and a letter of either alphabet.\<close>

lemma takeWhile_pad: "takeWhile (\<lambda>c. c \<noteq> d) (s @ replicate n d) = takeWhile (\<lambda>c. c \<noteq> d) s"
  by (induction s) (cases n, simp_all)

lemma b64_decode_pad: "b64_decode (pad4 s) = b64_decode s"
  by (simp add: b64_decode_def pad4_def takeWhile_pad)

lemma b64_decode_swap: "b64_val a = b64_val b \<Longrightarrow> a \<noteq> CHR ''='' \<Longrightarrow> b \<noteq> CHR ''='' \<Longrightarrow> b64_decode (swap_chars a b s) = b64_decode s"
proof -
  assume v: "b64_val a = b64_val b" "a \<noteq> CHR ''=''" "b \<noteq> CHR ''=''"
  have "List.map_filter b64_val (takeWhile (\<lambda>c. c \<noteq> CHR ''='') (swap_chars a b s)) =
      List.map_filter b64_val (takeWhile (\<lambda>c. c \<noteq> CHR ''='') s)"
    using v by (induction s) (auto simp: swap_chars_def List.map_filter_simps split: option.split)
  then show ?thesis by (simp add: b64_decode_def)
qed

lemma b64_decode_strip: "b64_decode (strip_padding s) = b64_decode s"
proof -
  let ?p = "takeWhile (\<lambda>c. c = CHR ''='') (rev s)" and ?d = "dropWhile (\<lambda>c. c = CHR ''='') (rev s)"
  define n where "n = length ?p"
  have p: "?p = replicate n (CHR ''='')"
    unfolding n_def by (rule replicate_length_same[symmetric]) (auto dest: set_takeWhileD)
  have "s = rev (?p @ ?d)" by (simp only: takeWhile_dropWhile_id rev_rev_ident)
  then have "s = rev ?d @ rev ?p" by (simp only: rev_append)
  then have s: "s = strip_padding s @ replicate n (CHR ''='')"
    unfolding strip_padding_def p rev_replicate .
  have "b64_decode (strip_padding s @ replicate n (CHR ''='')) = b64_decode (strip_padding s)"
    by (simp add: b64_decode_def takeWhile_pad)
  with arg_cong[OF s, of b64_decode] show ?thesis by simp
qed

lemma b64_roundtrip: "b64_decode (b64_encode s) = s"
proof -
  let ?g = "b64_groups (map of_char s)"
  have bytes: "\<forall>x \<in> set (map of_char s). x < (256 :: nat)" by simp
  then have lt: "\<forall>v \<in> set ?g. v < 64" by (rule b64_groups_lt)
  have no_pad: "b64_val (CHR ''='') = None" by (simp add: b64_val_def)
  have "takeWhile (\<lambda>c. c \<noteq> CHR ''='') (map b64_char ?g) = map b64_char ?g"
    using lt b64_val_char no_pad by (intro takeWhile_eq_all_conv[THEN iffD2]) force
  moreover have "List.map_filter b64_val (map b64_char vs) = vs" if "\<forall>v \<in> set vs. v < 64" for vs
    using that by (induction vs) (simp_all add: List.map_filter_simps b64_val_char)
  note this[OF lt]
  ultimately have "b64_decode (map b64_char ?g) = map char_of (b64_bytes ?g)"
    unfolding b64_decode_def by (simp only:)
  then show ?thesis
    by (simp add: b64_encode_def b64_decode_pad b64_bytes_groups[OF bytes] comp_def)
qed

lemma base64url_roundtrip: "base64urlDecode (base64urlEncode s) = s"
  by (simp add: base64urlDecode_def base64urlEncode_def b64_decode_pad b64_decode_swap b64_decode_strip b64_roundtrip b64_val_def)

lemma b64_decode_snoc: "b64_val c = None \<Longrightarrow> b64_decode (s @ [c]) = b64_decode s"
proof -
  assume c: "b64_val c = None"
  have "List.map_filter b64_val (takeWhile (\<lambda>c. c \<noteq> CHR ''='') (s @ [c])) = List.map_filter b64_val (takeWhile (\<lambda>c. c \<noteq> CHR ''='') s)"
    using c by (induction s) (auto simp: List.map_filter_simps split: option.split)
  then show ?thesis by (simp add: b64_decode_def)
qed

lemma b64_encode_chars: "c \<in> set (b64_encode s) \<Longrightarrow> b64_val c \<noteq> None \<or> c = CHR ''=''"
proof -
  have lt: "\<forall>v \<in> set (b64_groups (map of_char s)). v < 64" by (rule b64_groups_lt) simp
  assume "c \<in> set (b64_encode s)"
  then consider v where "v \<in> set (b64_groups (map of_char s))" "c = b64_char v" | "c = CHR ''=''"
    by (auto simp: b64_encode_def pad4_def split: if_splits)
  then show ?thesis using lt b64_val_char by cases auto
qed

lemma strip_padding_set: "set (strip_padding s) \<subseteq> set s"
  using set_dropWhileD[of _ "\<lambda>c. c = CHR ''=''" "rev s"] by (auto simp: strip_padding_def)

lemma base64urlEncode_chars: "c \<in> set (base64urlEncode s) \<Longrightarrow> b64_val c \<noteq> None \<or> c = CHR ''=''"
proof -
  assume "c \<in> set (base64urlEncode s)"
  then have "c \<in> set (swap_chars (CHR ''/'') (CHR ''_'') (swap_chars (CHR ''+'') (CHR ''-'') (b64_encode s)))"
    unfolding base64urlEncode_def using strip_padding_set by blast
  then obtain d where "d \<in> set (b64_encode s)" "c = d \<or> c = CHR ''-'' \<or> c = CHR ''_''"
    by (auto simp: swap_chars_def split: if_splits)
  then show ?thesis using b64_encode_chars[of d s] by (auto simp: b64_val_def)
qed

lemma dot_not_encoded: "CHR ''.'' \<notin> set (base64urlEncode s)"
  using base64urlEncode_chars[of "CHR ''.''" s] by (auto simp: b64_val_def)

lemma colon_not_encoded: "CHR '':'' \<notin> set (b64_encode s)"
  using b64_encode_chars[of "CHR '':''" s] by (auto simp: b64_val_def)

section \<open>Signed tokens\<close>

record jwt_claims =
  jc_sub :: string
  jc_email :: string
  jc_name :: string
  jc_role :: string
  jc_namespace_access :: "string list"

definition claims_json :: "jwt_claims \<Rightarrow> int \<Rightarrow> int \<Rightarrow> json" where
  "claims_json c iat till = JObj
     [(''sub'', JStr (jc_sub c)), (''email'', JStr (jc_email c)), (''name'', JStr (jc_name c)), (''role'', JStr (jc_role c)),
      (''namespace_access'', JArr (map JStr (jc_namespace_access c))), (''iat'', JNum (num_of_int iat)), (''exp'', JNum (num_of_int till))]"

definition jwt_header :: string where
  "jwt_header = base64urlEncode (stringify (JObj [(''alg'', JStr ''HS256''), (''typ'', JStr ''JWT'')]))"

text \<open>\<open>H secret data\<close> is the digest of the HMAC; \<open>now\<close> is in milliseconds.\<close>

definition signJWT :: "(string \<Rightarrow> string \<Rightarrow> string) \<Rightarrow> int \<Rightarrow> jwt_claims \<Rightarrow> string \<Rightarrow> int \<Rightarrow> string" where
  "signJWT H now claims secret expiresInSec =
     (let t = now div 1000; payload = base64urlEncode (stringify (claims_json claims t (t + expiresInSec)));
          data = jwt_header @ ''.'' @ payload
      in data @ ''.'' @ base64urlEncode (H secret data))"

text \<open>
  The operand of \<open>claims.exp < now\<close> as a number: \<open>undefined\<close> is none and never smaller; a text counts
  as its decimal value.
\<close>

definition decimal_rx :: regex where
  "decimal_rx = Cat [Bol, opt (one_of ''+-''), Alt [Cat [Rep 1 None digit, opt (Lit ''.''), Rep 0 None digit], Cat [Lit ''.'', Rep 1 None digit]],
     opt (Cat [one_of ''eE'', opt (one_of ''+-''), Rep 1 None digit]), Eol]"

definition trim :: "string \<Rightarrow> string" where
  "trim s = rev (dropWhile is_space (rev (dropWhile is_space s)))"

definition text_number :: "string \<Rightarrow> num" where
  "text_number s = (let t = trim s in if t = [] then Num 0 else if rx_test decimal_rx t then parse_float t else NNaN)"

definition to_number :: "json option \<Rightarrow> num" where
  "to_number v =
     (case v of
        None \<Rightarrow> NNaN
      | Some JNull \<Rightarrow> Num 0
      | Some (JBool b) \<Rightarrow> Num (if b then 1 else 0)
      | Some (JNum n) \<Rightarrow> n
      | Some j \<Rightarrow> text_number (nullish (json_text j) []))"

definition exp_before :: "json option \<Rightarrow> num \<Rightarrow> bool" where
  "exp_before v t = num_lt (to_number v) t"

definition verify_with :: "(string \<Rightarrow> string \<Rightarrow> string) \<Rightarrow> int \<Rightarrow> string \<Rightarrow> string \<Rightarrow> string \<Rightarrow> string \<Rightarrow> string + json option" where
  "verify_with H now header payload signature secret =
     (let expectedSig = H secret (header @ ''.'' @ payload); actualSig = base64urlDecode signature
      in if length expectedSig \<noteq> length actualSig then Inr None
         else if expectedSig \<noteq> actualSig then Inr None
         else case json_parse (base64urlDecode payload) of
             None \<Rightarrow> Inl ''Unexpected token''
           | Some JNull \<Rightarrow> Inl (''Cannot read properties of null (reading '' @ quoted ''exp'' @ '')'')
           | Some claims \<Rightarrow>
               if exp_before (jget claims ''exp'') (num_of_int (now div 1000)) then Inr None else Inr (Some claims))"

text \<open>A payload that is no object may be falsy, and then the old secret is tried.\<close>

definition verifyJWT :: "(string \<Rightarrow> string \<Rightarrow> string) \<Rightarrow> int \<Rightarrow> string \<Rightarrow> string \<Rightarrow> string option \<Rightarrow> string + json option" where
  "verifyJWT H now token primarySecret oldSecret =
     (case split_on (CHR ''.'') token of
        [header, payload, signature] \<Rightarrow>
          (case verify_with H now header payload signature primarySecret of
             Inl e \<Rightarrow> Inl e
           | Inr r \<Rightarrow>
               if json_truthy r then Inr r
               else if truthy oldSecret then verify_with H now header payload signature (the oldSecret)
               else Inr None)
      | _ \<Rightarrow> Inr None)"

lemma verify_with_signed:
  "verify_with H now h p s secret = Inr (Some c) \<Longrightarrow> base64urlDecode s = H secret (h @ ''.'' @ p) \<and>
     json_parse (base64urlDecode p) = Some c \<and> \<not> exp_before (jget c ''exp'') (num_of_int (now div 1000))"
  by (auto simp: verify_with_def Let_def split: if_splits option.splits json.splits)

text \<open>C16. A token that verifies carries a signature of its first two parts under the primary secret or,
  during a rotation, the old one, its payload parses to the claims that are returned, and their
  expiry is not in the past.\<close>

theorem verified_token_is_signed:
  assumes "verifyJWT H now token primary old = Inr (Some c)"
  shows "\<exists>h p s secret. split_on (CHR ''.'') token = [h, p, s] \<and> secret \<in> {primary} \<union> set_option old \<and>
    base64urlDecode s = H secret (h @ ''.'' @ p) \<and> json_parse (base64urlDecode p) = Some c \<and>
    \<not> exp_before (jget c ''exp'') (num_of_int (now div 1000))"
proof -
  obtain h p s where parts: "split_on (CHR ''.'') token = [h, p, s]"
    using assms by (auto simp: verifyJWT_def split: list.splits)
  have "\<exists>secret \<in> {primary} \<union> set_option old. verify_with H now h p s secret = Inr (Some c)"
    using assms parts by (auto simp: verifyJWT_def truthy_def split: sum.splits if_splits option.splits)
  then obtain secret where s: "secret \<in> {primary} \<union> set_option old" "verify_with H now h p s secret = Inr (Some c)" by blast
  show ?thesis
    by (intro exI[of _ h] exI[of _ p] exI[of _ s] exI[of _ secret] conjI parts s(1) verify_with_signed[OF s(2), THEN conjunct1]
        verify_with_signed[OF s(2), THEN conjunct2, THEN conjunct1] verify_with_signed[OF s(2), THEN conjunct2, THEN conjunct2])
qed

lemma signed_verifies:
  assumes "json_parse (stringify (claims_json claims (t0 div 1000) (t0 div 1000 + ttl))) =
      Some (claims_json claims (t0 div 1000) (t0 div 1000 + ttl))"
    and "\<not> num_lt (num_of_int (t0 div 1000 + ttl)) (num_of_int (now div 1000))"
  shows "verifyJWT H now (signJWT H t0 claims secret ttl) secret old =
    Inr (Some (claims_json claims (t0 div 1000) (t0 div 1000 + ttl)))"
proof -
  let ?j = "claims_json claims (t0 div 1000) (t0 div 1000 + ttl)"
  let ?p = "base64urlEncode (stringify ?j)"
  let ?s = "base64urlEncode (H secret (jwt_header @ ''.'' @ ?p))"
  have dots: "CHR ''.'' \<notin> set jwt_header" "CHR ''.'' \<notin> set ?p" "CHR ''.'' \<notin> set ?s"
    by (simp_all add: jwt_header_def dot_not_encoded)
  have "split_on (CHR ''.'') (signJWT H t0 claims secret ttl) = [jwt_header, ?p, ?s]"
    using dots by (simp add: signJWT_def Let_def split_on_first split_on_last)
  moreover have "verify_with H now jwt_header ?p ?s secret = Inr (Some ?j)"
    using assms by (simp add: verify_with_def base64url_roundtrip claims_json_def jget_def exp_before_def to_number_def)
  ultimately show ?thesis by (simp add: verifyJWT_def json_truthy_def claims_json_def)
qed

text \<open>A token that was signed verifies under its secret until its time is over, and yields the claims
  that were signed, provided that their JSON text parses back.\<close>

theorem signed_token_verifies:
  assumes "json_parse (stringify (claims_json claims (t0 div 1000) (t0 div 1000 + ttl))) =
      Some (claims_json claims (t0 div 1000) (t0 div 1000 + ttl))"
    and "\<not> num_lt (num_of_int (t0 div 1000 + ttl)) (num_of_int (now div 1000))"
  shows "verifyJWT H now (signJWT H t0 claims secret ttl) secret old =
    Inr (Some (claims_json claims (t0 div 1000) (t0 div 1000 + ttl)))"
  using assms by (rule signed_verifies)

definition demo_claims :: jwt_claims where
  "demo_claims = \<lparr>jc_sub = ''u'', jc_email = ''e'', jc_name = ''n'', jc_role = ''developer'', jc_namespace_access = [''default'']\<rparr>"

definition demo_payload :: string where
  "demo_payload = (let q = (\<lambda>t. CHR 0x22 # t @ [CHR 0x22]) in
     ''{'' @ q ''sub'' @ '':'' @ q ''u'' @ '','' @ q ''email'' @ '':'' @ q ''e'' @ '','' @ q ''name'' @ '':'' @ q ''n'' @ '','' @
     q ''role'' @ '':'' @ q ''developer'' @ '','' @ q ''namespace_access'' @ '':['' @ q ''default'' @ ''],'' @
     q ''iat'' @ '':2,'' @ q ''exp'' @ '':5}'')"

lemma demo_payload_json: "stringify (claims_json demo_claims 2 5) = demo_payload" "json_parse demo_payload = Some (claims_json demo_claims 2 5)"
proof -
  have n: "num_of_int 2 = Num 2" "num_of_int 5 = Num 5" by (simp_all add: num_of_int_def rnd_numeral)
  have show2: "show_uint 2 = ''2''" and show5: "show_uint 5 = ''5''" by code_simp+
  have t: "num_text (Num 2) = ''2''" "num_text (Num 5) = ''5''"
    using num_text_digit[of 2] num_text_digit[of 5] show2 show5 by simp_all
  show "stringify (claims_json demo_claims 2 5) = demo_payload"
    by (simp add: claims_json_def demo_claims_def n t t[simplified] quote_def escape_char_def demo_payload_def)
  show "json_parse demo_payload = Some (claims_json demo_claims 2 5)"
    unfolding claims_json_def n demo_claims_def by code_simp
qed

theorem signed_token_verifies_witness:
  "verifyJWT (\<lambda>s d. s @ d) 5000 (signJWT (\<lambda>s d. s @ d) 2000 demo_claims ''k'' 3) ''k'' None = Inr (Some (claims_json demo_claims 2 5))"
  using signed_token_verifies[of demo_claims 2000 3 5000 "\<lambda>s d. s @ d" "''k''" None]
  by (simp add: demo_payload_json num_of_int_def rnd_numeral)

lemma demo_token_verifies:
  "verifyJWT (\<lambda>s d. s @ d) 5000 (signJWT (\<lambda>s d. s @ d) 2000 demo_claims ''k'' 3) ''k'' None = Inr (Some (claims_json demo_claims 2 5))"
  by (rule trans[OF signed_verifies]) (simp_all add: demo_payload_json num_of_int_def rnd_numeral)

theorem verified_token_is_signed_witness:
  "\<exists>h p s secret. split_on (CHR ''.'') (signJWT (\<lambda>s d. s @ d) 2000 demo_claims ''k'' 3) = [h, p, s] \<and>
    secret \<in> {''k''} \<union> set_option None \<and> base64urlDecode s = secret @ h @ ''.'' @ p \<and>
    json_parse (base64urlDecode p) = Some (claims_json demo_claims 2 5) \<and>
    \<not> exp_before (jget (claims_json demo_claims 2 5) ''exp'') (num_of_int 5)"
  using verified_token_is_signed[of "\<lambda>s d. s @ d" 5000 "signJWT (\<lambda>s d. s @ d) 2000 demo_claims ''k'' 3" "''k''" None
      "claims_json demo_claims 2 5"] demo_token_verifies by simp

lemma verify_padded: "verifyJWT H now (token @ ''='') primary old = verifyJWT H now token primary old"
proof -
  let ?p = "split_on (CHR ''.'') token"
  have no: "b64_val (CHR ''='') = None" by (simp add: b64_val_def)
  have dec: "base64urlDecode (s @ ''='') = base64urlDecode s" for s
    by (simp add: base64urlDecode_def b64_decode_pad swap_chars_def b64_decode_snoc[OF no])
  then have vw: "verify_with H now h p (s @ ''='') secret = verify_with H now h p s secret" for h p s secret
    by (simp add: verify_with_def)
  have split: "split_on (CHR ''.'') (token @ ''='') = butlast ?p @ [last ?p @ ''='']"
    using split_on_snoc[of "CHR ''=''" "CHR ''.''" token] by simp
  show ?thesis
  proof (cases "\<exists>h p s. ?p = [h, p, s]")
    case True
    then obtain h p s where "?p = [h, p, s]" by blast
    with split show ?thesis by (simp add: verifyJWT_def vw split: sum.split)
  next
    case False
    have "?p \<noteq> []" by (cases token) (auto split: list.split)
    then have "\<nexists>h p s. butlast ?p @ [last ?p @ ''=''] = [h, p, s]"
      using False by (metis append_butlast_last_id append_eq_Cons_conv butlast.simps(2) butlast_snoc last_snoc list.distinct(1) snoc_eq_iff_butlast)
    with False split show ?thesis by (auto simp: verifyJWT_def split: list.split)
  qed
qed

text \<open>Tokens are malleable: a padding character after the signature is ignored by the decoder, so the
  longer text verifies exactly as the token does, although it is another text.\<close>

theorem token_with_padding_verifies:
  "verifyJWT H now (token @ ''='') primary old = verifyJWT H now token primary old \<and> token @ ''='' \<noteq> token"
  by (simp add: verify_padded)

section \<open>Passwords\<close>

text \<open>\<open>scrypt password salt keylen cost blockSize parallelization\<close> is \<open>None\<close> where it refuses the parameters.\<close>

type_synonym scrypt = "string \<Rightarrow> string \<Rightarrow> nat \<Rightarrow> jint \<Rightarrow> jint \<Rightarrow> jint \<Rightarrow> string option"

definition hashPassword :: "scrypt \<Rightarrow> string \<Rightarrow> string \<Rightarrow> string option" where
  "hashPassword scrypt salt password =
     (case scrypt password salt 64 (JInt 16384) (JInt 8) (JInt 1) of
        None \<Rightarrow> None
      | Some hash \<Rightarrow> Some (''scrypt:16384:8:1:'' @ b64_encode salt @ '':'' @ b64_encode hash))"

text \<open>A hash of another length makes the comparison throw.\<close>

definition comparePassword :: "scrypt \<Rightarrow> string \<Rightarrow> string \<Rightarrow> string + bool" where
  "comparePassword scrypt password storedHash =
     (case split_on (CHR '':'') storedHash of
        [scheme, cost, blockSize, parallelization, salt, expected] \<Rightarrow>
          if scheme \<noteq> ''scrypt'' then Inr False
          else (case scrypt password (b64_decode salt) 64 (parse_int cost) (parse_int blockSize) (parse_int parallelization) of
                  None \<Rightarrow> Inl ''Invalid scrypt params''
                | Some hash \<Rightarrow>
                    if length hash \<noteq> length (b64_decode expected) then Inl ''Input buffers must have the same byte length''
                    else Inr (hash = b64_decode expected))
      | _ \<Rightarrow> Inr False)"

text \<open>Password hashes round-trip: comparing any password with a stored hash succeeds exactly when scrypt
  derives the same key from it under the stored salt, so the right password always matches.\<close>

theorem password_matches_iff:
  assumes "hashPassword scrypt salt p = Some stored"
    and "scrypt p salt 64 (JInt 16384) (JInt 8) (JInt 1) = Some h" and "scrypt q salt 64 (JInt 16384) (JInt 8) (JInt 1) = Some k"
    and "length h = length k"
  shows "comparePassword scrypt q stored = Inr (k = h)"
proof -
  have stored: "stored = ''scrypt:16384:8:1:'' @ b64_encode salt @ CHR '':'' # b64_encode h"
    using assms(1,2) by (simp add: hashPassword_def)
  have "split_on (CHR '':'') stored = [''scrypt'', ''16384'', ''8'', ''1'', b64_encode salt, b64_encode h]"
    unfolding stored by (simp add: split_on_first split_on_last colon_not_encoded)
  moreover have "parse_int ''16384'' = JInt 16384" "parse_int ''8'' = JInt 8" "parse_int ''1'' = JInt 1" by code_simp+
  ultimately show ?thesis using assms(3,4) by (auto simp: comparePassword_def b64_roundtrip)
qed

theorem password_matches_iff_witness:
  "comparePassword (\<lambda>p s _ _ _ _. Some (take 4 (p @ s))) ''wrong''
     (the (hashPassword (\<lambda>p s _ _ _ _. Some (take 4 (p @ s))) ''salt'' ''right'')) = Inr False"
proof -
  let ?f = "\<lambda>p s _ _ _ _. Some (take 4 (p @ s))"
  obtain stored where s: "hashPassword ?f ''salt'' ''right'' = Some stored" by (simp add: hashPassword_def)
  from password_matches_iff[OF s, of "''righ''" "''wrong''" "''wron''"] s show ?thesis by simp
qed

section \<open>Encryption\<close>

record encrypted_payload =
  ep_kdf_name :: string
  ep_memoryCost :: int
  ep_timeCost :: int
  ep_parallelism :: int
  ep_salt :: string
  ep_iv :: string
  ep_tag :: string
  ep_ciphertext :: string
  ep_keyId :: string
  ep_createdAt :: string

text \<open>AES-GCM: sealing gives the ciphertext and the tag, opening fails on a wrong tag.\<close>

record gcm =
  gcm_seal :: "string \<Rightarrow> string \<Rightarrow> string \<Rightarrow> string \<times> string"
  gcm_open :: "string \<Rightarrow> string \<Rightarrow> string \<Rightarrow> string \<Rightarrow> string option"

definition deriveKeyV2 :: "scrypt \<Rightarrow> string \<Rightarrow> string \<Rightarrow> string option" where
  "deriveKeyV2 scrypt keyId salt = scrypt keyId salt 32 (JInt 16384) (JInt 8) (JInt 1)"

definition encrypt :: "scrypt \<Rightarrow> gcm \<Rightarrow> string \<Rightarrow> string \<Rightarrow> string \<Rightarrow> string \<Rightarrow> string \<Rightarrow> encrypted_payload option" where
  "encrypt scrypt G salt iv timestamp plaintext keyId =
     (case deriveKeyV2 scrypt keyId salt of
        None \<Rightarrow> None
      | Some key \<Rightarrow> (case gcm_seal G key iv plaintext of (ct, tag) \<Rightarrow>
          Some \<lparr>ep_kdf_name = ''argon2id'', ep_memoryCost = 65536, ep_timeCost = 3, ep_parallelism = 4,
           ep_salt = b64_encode salt, ep_iv = b64_encode iv, ep_tag = b64_encode tag, ep_ciphertext = b64_encode ct,
           ep_keyId = keyId, ep_createdAt = timestamp\<rparr>))"

definition decrypt :: "scrypt \<Rightarrow> gcm \<Rightarrow> encrypted_payload \<Rightarrow> string \<Rightarrow> string option" where
  "decrypt scrypt G payload keyId =
     (case deriveKeyV2 scrypt keyId (b64_decode (ep_salt payload)) of
        None \<Rightarrow> None
      | Some key \<Rightarrow> gcm_open G key (b64_decode (ep_iv payload)) (b64_decode (ep_tag payload)) (b64_decode (ep_ciphertext payload)))"

definition reencryptWithNewKey ::
  "scrypt \<Rightarrow> gcm \<Rightarrow> string \<Rightarrow> string \<Rightarrow> string \<Rightarrow> encrypted_payload \<Rightarrow> string \<Rightarrow> string \<Rightarrow> encrypted_payload option" where
  "reencryptWithNewKey scrypt G salt iv timestamp oldPayload oldKeyId newKeyId =
     (case decrypt scrypt G oldPayload oldKeyId of
        None \<Rightarrow> None
      | Some plaintext \<Rightarrow> encrypt scrypt G salt iv timestamp plaintext newKeyId)"

definition gcm_law :: "gcm \<Rightarrow> bool" where
  "gcm_law G \<longleftrightarrow> (\<forall>key iv p. case gcm_seal G key iv p of (ct, tag) \<Rightarrow> gcm_open G key iv tag ct = Some p)"

lemma decrypt_encrypt:
  "gcm_law G \<Longrightarrow> encrypt scrypt G salt iv timestamp p keyId = Some e \<Longrightarrow> decrypt scrypt G e keyId = Some p"
  unfolding gcm_law_def decrypt_def encrypt_def
  by (auto simp: b64_roundtrip split: prod.splits option.splits)

lemma encrypt_keyId: "encrypt scrypt G salt iv timestamp p keyId = Some e \<Longrightarrow> ep_keyId e = keyId"
  by (auto simp: encrypt_def split: prod.splits option.splits)

text \<open>Key rotation keeps the secret: whatever was encrypted under one key decrypts with it, and once
  re-encrypted under another key it is decrypted with the new key to the original text.\<close>

theorem rotation_roundtrip:
  assumes "gcm_law G" and "encrypt scrypt G salt iv t p oldKey = Some old"
    and "reencryptWithNewKey scrypt G salt' iv' t' old oldKey newKey = Some new"
  shows "decrypt scrypt G old oldKey = Some p \<and> decrypt scrypt G new newKey = Some p \<and> ep_keyId new = newKey"
proof -
  note old = decrypt_encrypt[OF assms(1,2)]
  then have new: "encrypt scrypt G salt' iv' t' p newKey = Some new"
    using assms(3) by (simp add: reencryptWithNewKey_def)
  from old decrypt_encrypt[OF assms(1) new] encrypt_keyId[OF new] show ?thesis by blast
qed

definition demo_scrypt :: scrypt where
  "demo_scrypt p s _ _ _ _ = Some (take 4 (p @ s))"

definition demo_gcm :: gcm where
  "demo_gcm = \<lparr>gcm_seal = (\<lambda>k i p. (rev p, k)), gcm_open = (\<lambda>k i t c. if t = k then Some (rev c) else None)\<rparr>"

theorem rotation_roundtrip_witness:
  "decrypt demo_scrypt demo_gcm (the (reencryptWithNewKey demo_scrypt demo_gcm ''s2'' ''i2'' ''t2''
     (the (encrypt demo_scrypt demo_gcm ''s'' ''i'' ''t'' ''secret'' ''k1'')) ''k1'' ''k2'')) ''k2'' = Some ''secret''"
proof -
  have law: "gcm_law demo_gcm" by (simp add: gcm_law_def demo_gcm_def)
  have total: "\<exists>e. encrypt demo_scrypt demo_gcm salt iv t p k = Some e" for salt iv t p k
    by (simp add: encrypt_def deriveKeyV2_def demo_scrypt_def split: prod.split)
  obtain e where e: "encrypt demo_scrypt demo_gcm ''s'' ''i'' ''t'' ''secret'' ''k1'' = Some e" using total by blast
  obtain e' where "reencryptWithNewKey demo_scrypt demo_gcm ''s2'' ''i2'' ''t2'' e ''k1'' ''k2'' = Some e'"
    using total[of "''s2''" "''i2''" "''t2''" "''secret''" "''k2''"] by (auto simp: reencryptWithNewKey_def decrypt_encrypt[OF law e])
  with rotation_roundtrip[OF law e] e show ?thesis by simp
qed

text \<open>\<open>hashForCache\<close>, with the same filter on nested members as the policy plane's key.\<close>

definition hashForCache :: "(string \<Rightarrow> string) \<Rightarrow> (string \<times> json) list \<Rightarrow> string" where
  "hashForCache H ps = H (stringify (pick (sort (map fst ps)) (JObj ps)))"

end
