(* ===== verification/UserStore.thy ===== *)
theory UserStore
  imports Crypto
begin

text \<open>
  \<open>control-plane/api-server/src/auth/repository.ts\<close>: the users table (with the constraints of
  \<open>migrations/004_users_and_auth.sql\<close>), its queries, and the first administrator. Times are in
  milliseconds; \<open>NOW()\<close> and \<open>Date.now()\<close> are one clock, and queries succeed unless a constraint
  is violated. Random numbers, salts and identifiers are arguments.
\<close>

section \<open>Rows\<close>

record user_row =
  ur_id :: string
  ur_email :: string
  ur_password_hash :: string
  ur_name :: string
  ur_role :: string
  ur_namespace_access :: "string list"
  ur_is_active :: bool
  ur_must_change_password :: bool
  ur_failed_login_attempts :: int
  ur_locked_until :: "int option"
  ur_last_login_at :: "int option"
  ur_created_at :: int
  ur_updated_at :: int
  ur_deleted_at :: "int option"

type_synonym users = "user_row list"

definition has_email :: "string \<Rightarrow> user_row \<Rightarrow> bool" where
  "has_email email r \<longleftrightarrow> lower (ur_email r) = lower email \<and> ur_deleted_at r = None"

definition findByEmail :: "string \<Rightarrow> users \<Rightarrow> user_row option" where
  "findByEmail email us = find (has_email email) us"

definition findById :: "string \<Rightarrow> users \<Rightarrow> user_row option" where
  "findById i us = find (\<lambda>r. ur_id r = i \<and> ur_deleted_at r = None) us"

text \<open>\<open>UPDATE users SET ... WHERE lower(email) = lower($1) AND deleted_at IS NULL\<close>.\<close>

definition update_email :: "string \<Rightarrow> (user_row \<Rightarrow> user_row) \<Rightarrow> users \<Rightarrow> users" where
  "update_email email f us = map (\<lambda>r. if has_email email r then f r else r) us"

section \<open>Operations\<close>

record new_user =
  nu_email :: string
  nu_password :: string
  nu_name :: string
  nu_role :: "string option"
  nu_namespaceAccess :: "string list option"
  nu_mustChangePassword :: "bool option"

definition new_row :: "string \<Rightarrow> string \<Rightarrow> int \<Rightarrow> new_user \<Rightarrow> user_row" where
  "new_row uuid hash now p =
     \<lparr>ur_id = uuid, ur_email = lower (nu_email p), ur_password_hash = hash, ur_name = nu_name p,
      ur_role = nullish (nu_role p) ''developer'', ur_namespace_access = nullish (nu_namespaceAccess p) [''default''],
      ur_is_active = True, ur_must_change_password = nullish (nu_mustChangePassword p) False,
      ur_failed_login_attempts = 0, ur_locked_until = None, ur_last_login_at = None,
      ur_created_at = now, ur_updated_at = now, ur_deleted_at = None\<rparr>"

definition user_roles :: "string list" where
  "user_roles = [''platform_admin'', ''namespace_admin'', ''developer'', ''viewer'']"

text \<open>The keys of the table, its enumeration and its column widths.\<close>

definition insert_allowed :: "user_row \<Rightarrow> users \<Rightarrow> bool" where
  "insert_allowed r us \<longleftrightarrow>
     list_all (\<lambda>x. ur_id x \<noteq> ur_id r \<and> ur_email x \<noteq> ur_email r \<and> \<not> (lower (ur_email x) = lower (ur_email r) \<and> ur_deleted_at x = None)) us \<and>
     ur_role r \<in> set user_roles \<and> length (ur_email r) \<le> 255 \<and> length (ur_name r) \<le> 255 \<and> length (ur_password_hash r) \<le> 255"

definition create_user :: "scrypt \<Rightarrow> string \<Rightarrow> string \<Rightarrow> int \<Rightarrow> new_user \<Rightarrow> users \<Rightarrow> (string + user_row) \<times> users" where
  "create_user scrypt uuid salt now p us =
     (case hashPassword scrypt salt (nu_password p) of
        None \<Rightarrow> (Inl ''Invalid scrypt params'', us)
      | Some hash \<Rightarrow>
          (let r = new_row uuid hash now p
           in if insert_allowed r us then (Inr r, us @ [r]) else (Inl ''constraint violated'', us)))"

record failed_login =
  fl_locked :: bool
  fl_attempts :: int

definition incrementFailedLogin :: "int \<Rightarrow> string \<Rightarrow> users \<Rightarrow> failed_login \<times> users" where
  "incrementFailedLogin now email us =
     (let us' = update_email email (\<lambda>r. r\<lparr>ur_failed_login_attempts := ur_failed_login_attempts r + 1, ur_updated_at := now\<rparr>) us
      in case findByEmail email us' of
           None \<Rightarrow> (\<lparr>fl_locked = False, fl_attempts = 0\<rparr>, us')
         | Some r \<Rightarrow>
             if 5 \<le> ur_failed_login_attempts r
             then (\<lparr>fl_locked = True, fl_attempts = 0\<rparr>,
                   update_email email (\<lambda>r. r\<lparr>ur_locked_until := Some (now + 15 * 60000), ur_failed_login_attempts := 0, ur_updated_at := now\<rparr>) us')
             else (\<lparr>fl_locked = False, fl_attempts = ur_failed_login_attempts r\<rparr>, us'))"

definition resetFailedLogin :: "int \<Rightarrow> string \<Rightarrow> users \<Rightarrow> users" where
  "resetFailedLogin now email us =
     update_email email (\<lambda>r. r\<lparr>ur_failed_login_attempts := 0, ur_locked_until := None, ur_last_login_at := Some now, ur_updated_at := now\<rparr>) us"

definition clearMustChangePassword :: "int \<Rightarrow> string \<Rightarrow> users \<Rightarrow> users" where
  "clearMustChangePassword now email us = update_email email (\<lambda>r. r\<lparr>ur_must_change_password := False, ur_updated_at := now\<rparr>) us"

record lock_status =
  ls_locked :: bool
  ls_remainingMinutes :: int

definition ceil_minutes :: "int \<Rightarrow> int" where
  "ceil_minutes ms = - (- ms div 60000)"

definition isLocked :: "int \<Rightarrow> string \<Rightarrow> users \<Rightarrow> lock_status \<times> users" where
  "isLocked now email us =
     (case findByEmail email us of
        None \<Rightarrow> (\<lparr>ls_locked = False, ls_remainingMinutes = 0\<rparr>, us)
      | Some r \<Rightarrow>
          (case ur_locked_until r of
             None \<Rightarrow> (\<lparr>ls_locked = False, ls_remainingMinutes = 0\<rparr>, us)
           | Some lockExpiry \<Rightarrow>
               if now < lockExpiry then (\<lparr>ls_locked = True, ls_remainingMinutes = ceil_minutes (lockExpiry - now)\<rparr>, us)
               else (\<lparr>ls_locked = False, ls_remainingMinutes = 0\<rparr>,
                     update_email email (\<lambda>r. r\<lparr>ur_locked_until := None, ur_updated_at := now\<rparr>) us)))"

section \<open>The first administrator\<close>

definition admin_chars :: string where
  "admin_chars = ''ABCDEFGHIJKLMNOPQRSTUVWXYZabcdefghijklmnopqrstuvwxyz0123456789!@#$%^&*''"

text \<open>
  One random position for each character that is missing. (Every element of \<open>picks\<close> indexes
  \<open>admin_chars\<close>, every element of \<open>places\<close> the password.)
\<close>

fun ensure_required :: "string \<Rightarrow> nat list \<Rightarrow> string \<Rightarrow> string" where
  "ensure_required [] places pw = pw"
| "ensure_required (c # cs) places pw =
     (if c \<in> set pw then ensure_required cs places pw
      else case places of
          [] \<Rightarrow> pw
        | pos # places' \<Rightarrow> ensure_required cs places' (take pos pw @ [c] @ drop (Suc pos) pw))"

definition admin_password :: "nat list \<Rightarrow> nat list \<Rightarrow> string" where
  "admin_password picks places = ensure_required ''Aa1!'' places (map (\<lambda>i. admin_chars ! i) picks)"

definition admin_email :: string where "admin_email = ''admin@egaop.io''"

definition admin_params :: "string \<Rightarrow> new_user" where
  "admin_params pw = \<lparr>nu_email = admin_email, nu_password = pw, nu_name = ''Platform Admin'', nu_role = Some ''platform_admin'',
     nu_namespaceAccess = Some [''*''], nu_mustChangePassword = Some True\<rparr>"

definition ensureAdminUser ::
  "scrypt \<Rightarrow> string \<Rightarrow> string \<Rightarrow> int \<Rightarrow> nat list \<Rightarrow> nat list \<Rightarrow> users \<Rightarrow> (string + string option) \<times> users" where
  "ensureAdminUser scrypt uuid salt now picks places us =
     (case findByEmail admin_email us of
        Some _ \<Rightarrow> (Inr None, us)
      | None \<Rightarrow>
          (let password = admin_password picks places
           in case create_user scrypt uuid salt now (admin_params password) us of
                (Inl e, us') \<Rightarrow> (Inl e, us')
              | (Inr _, us') \<Rightarrow> (Inr (Some password), us')))"

section \<open>Facts\<close>

lemma lower_char_idem: "lower_char (lower_char c) = lower_char c"
  by (auto simp: lower_char_def Let_def)

lemma lower_idem [simp]: "lower (lower s) = lower s"
  by (simp add: lower_def lower_char_idem)

text \<open>The invariant of the table: keys are unique, stored addresses are in lower case and failed attempts
  stay below the limit.\<close>

definition user_ok :: "user_row \<Rightarrow> bool" where
  "user_ok r \<longleftrightarrow> lower (ur_email r) = ur_email r \<and> 0 \<le> ur_failed_login_attempts r \<and> ur_failed_login_attempts r < 5 \<and>
     ur_role r \<in> set user_roles"

definition users_ok :: "users \<Rightarrow> bool" where
  "users_ok us \<longleftrightarrow> distinct (map ur_id us) \<and> distinct (map ur_email us) \<and> list_all user_ok us"

text \<open>An update that keeps what identifies a user.\<close>

definition keeps_identity :: "(user_row \<Rightarrow> user_row) \<Rightarrow> bool" where
  "keeps_identity f \<longleftrightarrow> (\<forall>r. ur_id (f r) = ur_id r \<and> ur_email (f r) = ur_email r \<and> ur_role (f r) = ur_role r \<and>
     ur_namespace_access (f r) = ur_namespace_access r \<and> ur_deleted_at (f r) = ur_deleted_at r \<and> ur_is_active (f r) = ur_is_active r \<and>
     ur_name (f r) = ur_name r)"

named_theorems identity

lemma keeps_identity_updates [identity]:
  "keeps_identity (\<lambda>r. r\<lparr>ur_failed_login_attempts := n r, ur_updated_at := t\<rparr>)"
  "keeps_identity (\<lambda>r. r\<lparr>ur_locked_until := l, ur_failed_login_attempts := 0, ur_updated_at := t\<rparr>)"
  "keeps_identity (\<lambda>r. r\<lparr>ur_failed_login_attempts := 0, ur_locked_until := l, ur_last_login_at := m, ur_updated_at := t\<rparr>)"
  "keeps_identity (\<lambda>r. r\<lparr>ur_locked_until := l, ur_updated_at := t\<rparr>)"
  "keeps_identity (\<lambda>r. r\<lparr>ur_must_change_password := b, ur_updated_at := t\<rparr>)"
  "keeps_identity (\<lambda>r. r\<lparr>ur_password_hash := h, ur_must_change_password := b, ur_updated_at := t\<rparr>)"
  by (simp_all add: keeps_identity_def)

text \<open>What identifies the users, in order.\<close>

abbreviation identity_of :: "user_row \<Rightarrow> string \<times> string \<times> string \<times> string list \<times> int option \<times> bool \<times> string" where
  "identity_of r \<equiv> (ur_id r, ur_email r, ur_role r, ur_namespace_access r, ur_deleted_at r, ur_is_active r, ur_name r)"

lemma update_email_identity: "keeps_identity f \<Longrightarrow> map identity_of (update_email email f us) = map identity_of us"
  by (simp add: keeps_identity_def update_email_def)

lemma has_email_keeps: "keeps_identity f \<Longrightarrow> has_email e (f r) = has_email e r"
  by (simp add: has_email_def keeps_identity_def)

lemma find_update:
  "keeps_identity f \<Longrightarrow> findByEmail email (update_email email f us) = map_option f (findByEmail email us)"
  by (induction us) (simp_all add: findByEmail_def update_email_def has_email_keeps)

lemma find_update_other:
  "keeps_identity f \<Longrightarrow> lower email \<noteq> lower email' \<Longrightarrow> findByEmail email' (update_email email f us) = findByEmail email' us"
  by (induction us) (auto simp: findByEmail_def update_email_def has_email_def keeps_identity_def)

lemma findByEmail_SomeD: "findByEmail email us = Some r \<Longrightarrow> r \<in> set us \<and> has_email email r"
  by (auto simp: findByEmail_def find_Some_iff)

lemma findByEmail_lower [simp]: "findByEmail (lower email) us = findByEmail email us"
  by (simp add: findByEmail_def has_email_def[abs_def])

lemma update_email_lower [simp]: "update_email (lower email) f us = update_email email f us"
  by (simp add: update_email_def has_email_def)

lemma update_email_ok:
  assumes "users_ok us" and k: "keeps_identity f"
    and a: "\<And>r. user_ok r \<Longrightarrow> r \<in> set us \<Longrightarrow> has_email email r \<Longrightarrow> 0 \<le> ur_failed_login_attempts (f r) \<and> ur_failed_login_attempts (f r) < 5"
  shows "users_ok (update_email email f us)"
proof -
  have "map ur_id (update_email email f us) = map ur_id us" "map ur_email (update_email email f us) = map ur_email us"
    using k by (simp_all add: update_email_def keeps_identity_def)
  moreover have "list_all user_ok (update_email email f us)"
    using assms by (auto simp: users_ok_def update_email_def list_all_iff keeps_identity_def user_ok_def)
  ultimately show ?thesis using assms(1) by (simp add: users_ok_def)
qed

lemma resetFailedLogin_ok: "users_ok us \<Longrightarrow> users_ok (resetFailedLogin now email us)"
  unfolding resetFailedLogin_def by (rule update_email_ok) (simp_all add: identity)

lemma clearMustChangePassword_ok: "users_ok us \<Longrightarrow> users_ok (clearMustChangePassword now email us)"
  unfolding clearMustChangePassword_def by (rule update_email_ok) (simp_all add: identity user_ok_def)

lemma isLocked_ok: "users_ok us \<Longrightarrow> users_ok (snd (isLocked now email us))"
  by (auto simp: isLocked_def identity user_ok_def intro!: update_email_ok split: option.splits)

text \<open>At most one row has an address.\<close>

lemma unique_email: "users_ok us \<Longrightarrow> findByEmail email us = Some r \<Longrightarrow> x \<in> set us \<Longrightarrow> has_email email x \<Longrightarrow> x = r"
proof -
  assume ok: "users_ok us" and f: "findByEmail email us = Some r" and x: "x \<in> set us" "has_email email x"
  have r: "r \<in> set us" "has_email email r" using findByEmail_SomeD[OF f] by auto
  have "ur_email x = ur_email r"
    using ok x r by (auto simp: users_ok_def list_all_iff user_ok_def has_email_def)
  then show ?thesis using ok x r by (auto simp: users_ok_def distinct_map inj_on_def)
qed

lemma incrementFailedLogin_ok: "users_ok us \<Longrightarrow> users_ok (snd (incrementFailedLogin now email us))"
proof -
  assume ok: "users_ok us"
  let ?f = "\<lambda>r. r\<lparr>ur_failed_login_attempts := ur_failed_login_attempts r + 1, ur_updated_at := now\<rparr>"
  let ?g = "\<lambda>r. r\<lparr>ur_locked_until := Some (now + 15 * 60000), ur_failed_login_attempts := 0, ur_updated_at := now\<rparr>"
  have k: "keeps_identity ?f" by (simp add: identity)
  show ?thesis
  proof (cases "findByEmail email us")
    case None
    then have "update_email email ?f us = us"
      by (auto simp: update_email_def findByEmail_def find_None_iff intro!: map_idI)
    with None ok show ?thesis by (simp add: incrementFailedLogin_def)
  next
    case (Some r)
    have both: "update_email email ?g (update_email email ?f us) = update_email email (?g \<circ> ?f) us"
      by (simp add: update_email_def has_email_def)
    show ?thesis
    proof (cases "5 \<le> ur_failed_login_attempts r + 1")
      case True
      have "users_ok (update_email email ?g (update_email email ?f us))"
        unfolding both by (rule update_email_ok[OF ok]) (simp_all add: keeps_identity_def)
      with True Some show ?thesis by (simp add: incrementFailedLogin_def find_update[OF k] Let_def)
    next
      case False
      then have few: "ur_failed_login_attempts r + 1 < 5" by simp
      have "users_ok (update_email email ?f us)"
        using unique_email[OF ok Some] few by (intro update_email_ok[OF ok k]) (auto simp: user_ok_def)
      with False Some show ?thesis by (simp add: incrementFailedLogin_def find_update[OF k] Let_def)
    qed
  qed
qed

lemma create_user_ok: "users_ok us \<Longrightarrow> users_ok (snd (create_user scrypt uuid salt now p us))"
  by (auto simp: create_user_def Let_def insert_allowed_def users_ok_def list_all_iff new_row_def user_ok_def split: option.split)

lemma create_user_cases:
  "create_user scrypt uuid salt now p us = (res, us') \<Longrightarrow>
     (\<exists>e. res = Inl e \<and> us' = us) \<or>
     (\<exists>h. res = Inr (new_row uuid h now p) \<and> us' = us @ [new_row uuid h now p] \<and> hashPassword scrypt salt (nu_password p) = Some h \<and>
       insert_allowed (new_row uuid h now p) us)"
  by (auto simp: create_user_def Let_def split: option.splits if_splits)

text \<open>The identities after each operation are those before.\<close>

lemma incrementFailedLogin_identity: "map identity_of (snd (incrementFailedLogin now email us)) = map identity_of us"
  by (auto simp: incrementFailedLogin_def Let_def update_email_identity identity split: option.split)

lemma isLocked_identity: "map identity_of (snd (isLocked now email us)) = map identity_of us"
  by (auto simp: isLocked_def update_email_identity identity split: option.split)

lemma resetFailedLogin_identity: "map identity_of (resetFailedLogin now email us) = map identity_of us"
  by (simp add: resetFailedLogin_def update_email_identity identity)

text \<open>The password of the first administrator keeps its length, and contains the last required character.\<close>

lemma ensure_required_length: "list_all (\<lambda>p. p < length pw) places \<Longrightarrow> length (ensure_required cs places pw) = length pw"
proof (induction cs places pw rule: ensure_required.induct)
  case (2 c cs places pw)
  show ?case
  proof (cases places)
    case (Cons pos ps)
    then have "pos < length pw" using 2(3) by simp
    then have len: "length (take pos pw @ [c] @ drop (Suc pos) pw) = length pw" by simp
    show ?thesis
    proof (cases "c \<in> set pw")
      case False
      with 2(2)[OF False Cons] 2(3) Cons show ?thesis by (simp only: ensure_required.simps list.case if_False len list.pred_inject)
    qed (use 2 in simp)
  qed (use 2 in auto)
qed simp

lemma ensure_required_last:
  "length cs \<le> length places \<Longrightarrow> cs \<noteq> [] \<Longrightarrow> last cs \<in> set (ensure_required cs places pw)"
proof (induction cs places pw rule: ensure_required.induct)
  case (2 c cs places pw)
  show ?case
  proof (cases "cs = []")
    case True
    then show ?thesis using 2 by (cases places) auto
  next
    case False
    then show ?thesis using 2 by (cases places) auto
  qed
qed simp

end
