(* ===== verification/Auth.thy ===== *)
theory Auth
  imports UserStore AuditChain
begin

text \<open>
  \<open>control-plane/api-server/src/auth/routes.ts\<close>: sessions, their revocation and the account routes. The
  cryptographic primitives and Redis are parameters; the clock, random values and the headers of a call are
  its arguments. Bodies have the declared types; the rate limits of the web framework are left out.
\<close>

section \<open>Parameters and state\<close>

text \<open>\<open>None\<close> is a failing command. Times are in milliseconds, the time to live in seconds.\<close>

record 'r redis_api =
  rd_set :: "int \<Rightarrow> string \<Rightarrow> num \<Rightarrow> 'r \<Rightarrow> 'r option"
  rd_exists :: "int \<Rightarrow> string \<Rightarrow> 'r \<Rightarrow> bool option"

record 'r auth_lib =
  al_hmac :: "string \<Rightarrow> string \<Rightarrow> string"
  al_scrypt :: scrypt
  al_sha256 :: "string \<Rightarrow> string"
  al_redis :: "'r redis_api option"
  al_secret :: string
  al_env :: "string \<Rightarrow> string option"

record auth_call =
  cl_now :: int
  cl_stamp :: string
  cl_uuid :: string
  cl_event :: string
  cl_salt :: string
  cl_ip :: "string option"
  cl_agent :: "string option"
  cl_authorization :: "string option"
  cl_cookie :: "string option"

record 'r auth_state =
  st_users :: users
  st_redis :: 'r
  st_audit :: audit_state

datatype 'a auth_reply = Refused nat string string | Answer 'a | Threw string

text \<open>The guard on the secret when the module is loaded.\<close>

definition load_secret :: "string option \<Rightarrow> string option" where
  "load_secret v = (if truthy v \<and> 32 \<le> length (the v) then v else None)"

definition JWT_EXPIRES_SEC :: int where "JWT_EXPIRES_SEC = 86400"

section \<open>Revocation\<close>

definition tokenRevocationKey :: "'r auth_lib \<Rightarrow> string \<Rightarrow> string" where
  "tokenRevocationKey L token = ''egaop:revoked:'' @ al_sha256 L token"

text \<open>A failing check counts as not revoked.\<close>

definition isTokenRevoked :: "'r auth_lib \<Rightarrow> int \<Rightarrow> string \<Rightarrow> 'r \<Rightarrow> bool" where
  "isTokenRevoked L now token r =
     (case al_redis L of None \<Rightarrow> False | Some R \<Rightarrow> rd_exists R now (tokenRevocationKey L token) r = Some True)"

definition session_of :: "'r auth_lib \<Rightarrow> int \<Rightarrow> string \<Rightarrow> string + json option" where
  "session_of L now token = verifyJWT (al_hmac L) now token (al_secret L) None"

definition time_to_live :: "int \<Rightarrow> json option \<Rightarrow> num" where
  "time_to_live now claims =
     (if json_truthy claims then num_max (Num 1) (num_sub (to_number (jget (the claims) ''exp'')) (num_of_int (now div 1000)))
      else num_of_int JWT_EXPIRES_SEC)"

definition revokeToken :: "'r auth_lib \<Rightarrow> int \<Rightarrow> string \<Rightarrow> 'r \<Rightarrow> string + 'r" where
  "revokeToken L now token r =
     (case al_redis L of
        None \<Rightarrow> Inr r
      | Some R \<Rightarrow>
          (case session_of L now token of
             Inl e \<Rightarrow> Inl e
           | Inr claims \<Rightarrow> Inr (nullish (rd_set R now (tokenRevocationKey L token) (time_to_live now claims) r) r)))"

section \<open>The token of a request\<close>

definition bearer :: "auth_call \<Rightarrow> string option" where
  "bearer c = (case cl_authorization c of Some h \<Rightarrow> if take 7 h = ''Bearer '' then Some (drop 7 h) else None | None \<Rightarrow> None)"

definition extractTokenFromRequest :: "auth_call \<Rightarrow> string option" where
  "extractTokenFromRequest c = (case bearer c of Some t \<Rightarrow> Some t | None \<Rightarrow> cl_cookie c)"

definition request_token :: "auth_call \<Rightarrow> string option" where
  "request_token c = (if truthy (bearer c) then bearer c else cl_cookie c)"

definition authenticate :: "'r auth_lib \<Rightarrow> auth_call \<Rightarrow> 'r auth_state \<Rightarrow> json auth_reply" where
  "authenticate L c s =
     (if \<not> truthy (request_token c) then Refused 401 ''Missing or invalid authorization header'' ''UNAUTHORIZED''
      else let token = the (request_token c)
        in case session_of L (cl_now c) token of
             Inl e \<Rightarrow> Threw e
           | Inr claims \<Rightarrow>
               if \<not> json_truthy claims then Refused 401 ''Invalid or expired token'' ''UNAUTHORIZED''
               else if isTokenRevoked L (cl_now c) token (st_redis s) then Refused 401 ''Token has been revoked'' ''UNAUTHORIZED''
               else Answer (the claims))"

section \<open>Routes\<close>

datatype auth_data =
    Registered string string string string string
  | LoggedIn string string string string string bool
  | Message string
  | Me "json option" "json option" "json option" "json option" "json option" bool

definition note_event ::
  "'r auth_lib \<Rightarrow> auth_call \<Rightarrow> string \<Rightarrow> audit_severity \<Rightarrow> string \<Rightarrow> string \<Rightarrow> string \<Rightarrow> string option \<Rightarrow> json option
     \<Rightarrow> 'r auth_state \<Rightarrow> 'r auth_state" where
  "note_event L c event sev user action_name res reason params s =
     s\<lparr>st_audit := snd (createAuditEntry (al_sha256 L) (al_env L) (cl_stamp c)
       \<lparr>ab_timestamp = cl_stamp c, ab_eventId = cl_event c, ab_eventType = event, ab_severity = sev,
        ab_actor = \<lparr>aa_type = ''user'', aa_id = user, aa_namespace = None, aa_authMethod = Some ''jwt'', aa_spiffeId = None\<rparr>,
        ab_target = Some \<lparr>at_type = ''user'', at_id = user, at_namespace = None\<rparr>,
        ab_action = \<lparr>an_name = action_name, an_parameters = params, an_result = res, an_reason = reason\<rparr>,
        ab_context = \<lparr>ac_requestId = None, ac_sessionId = None, ac_ipAddress = cl_ip c, ac_userAgent = cl_agent c\<rparr>\<rparr> (st_audit s))\<rparr>"

definition has_in :: "char \<Rightarrow> char \<Rightarrow> string \<Rightarrow> bool" where
  "has_in lo hi s = rx_test (rng lo hi) s"

definition weak_password :: "string \<Rightarrow> string option" where
  "weak_password pw =
     (if length pw < 12 then Some ''Password must be at least 12 characters''
      else if \<not> has_in (CHR ''A'') (CHR ''Z'') pw \<or> \<not> has_in (CHR ''a'') (CHR ''z'') pw \<or> \<not> has_in (CHR ''0'') (CHR ''9'') pw
      then Some ''Password must contain uppercase, lowercase, and numbers'' else None)"

definition row_claims :: "user_row \<Rightarrow> jwt_claims" where
  "row_claims u = \<lparr>jc_sub = ur_id u, jc_email = ur_email u, jc_name = ur_name u, jc_role = ur_role u,
     jc_namespace_access = ur_namespace_access u\<rparr>"

definition session_token :: "'r auth_lib \<Rightarrow> auth_call \<Rightarrow> user_row \<Rightarrow> string" where
  "session_token L c u = signJWT (al_hmac L) (cl_now c) (row_claims u) (al_secret L) JWT_EXPIRES_SEC"

record register_body =
  rb_name :: "string option"
  rb_email :: "string option"
  rb_password :: "string option"

definition register_params :: "string \<Rightarrow> string \<Rightarrow> string \<Rightarrow> new_user" where
  "register_params email password nam = \<lparr>nu_email = email, nu_password = password, nu_name = trim nam, nu_role = Some ''developer'',
     nu_namespaceAccess = Some [''default''], nu_mustChangePassword = None\<rparr>"

definition register ::
  "'r auth_lib \<Rightarrow> auth_call \<Rightarrow> register_body \<Rightarrow> 'r auth_state \<Rightarrow> auth_data auth_reply \<times> 'r auth_state" where
  "register L c b s =
     (if \<not> (truthy (rb_email b) \<and> truthy (rb_password b) \<and> truthy (rb_name b))
      then (Refused 400 ''Name, email, and password are required'' ''VALIDATION_ERROR'', s)
      else let email = trim (lower (the (rb_email b))); password = the (rb_password b)
        in case weak_password password of
             Some m \<Rightarrow> (Refused 400 m ''VALIDATION_ERROR'', s)
           | None \<Rightarrow>
               if findByEmail email (st_users s) \<noteq> None
               then (Refused 409 ''An account with this email already exists'' ''CONFLICT'', s)
               else (case create_user (al_scrypt L) (cl_uuid c) (cl_salt c) (cl_now c) (register_params email password (the (rb_name b))) (st_users s) of
                   (Inl e, us) \<Rightarrow> (Threw e, s\<lparr>st_users := us\<rparr>)
                 | (Inr u, us) \<Rightarrow>
                     (Answer (Registered (ur_id u) email (ur_name u) (ur_role u) (session_token L c u)),
                      note_event L c ''auth.login'' Sev_info (ur_id u) ''register'' ''allowed'' None None (s\<lparr>st_users := us\<rparr>))))"

definition locked_message :: "int \<Rightarrow> string" where
  "locked_message n = ''Account is locked. Try again in '' @ show_int n @ '' minute'' @ (if 1 < n then ''s'' else [])"

definition invalid_login :: "'a auth_reply" where
  "invalid_login = Refused 401 ''Invalid email or password'' ''INVALID_CREDENTIALS''"

record login_body =
  lb_email :: "string option"
  lb_password :: "string option"

definition check_login ::
  "'r auth_lib \<Rightarrow> auth_call \<Rightarrow> string \<Rightarrow> string \<Rightarrow> user_row \<Rightarrow> 'r auth_state \<Rightarrow> auth_data auth_reply \<times> 'r auth_state" where
  "check_login L c email password user s =
     (case isLocked (cl_now c) email (st_users s) of
        (lock, us) \<Rightarrow>
          if ls_locked lock then (Refused 429 (locked_message (ls_remainingMinutes lock)) ''ACCOUNT_LOCKED'', s\<lparr>st_users := us\<rparr>)
          else (case comparePassword (al_scrypt L) password (ur_password_hash user) of
              Inl e \<Rightarrow> (Threw e, s\<lparr>st_users := us\<rparr>)
            | Inr False \<Rightarrow>
                (case incrementFailedLogin (cl_now c) email us of
                   (fl, us') \<Rightarrow>
                     (invalid_login,
                      note_event L c ''auth.failed_login'' Sev_warn (ur_id user) ''login'' ''denied'' (Some ''invalid password'')
                        (Some (JObj [(''lockout'', JBool (fl_locked fl))])) (s\<lparr>st_users := us'\<rparr>)))
            | Inr True \<Rightarrow>
                (Answer (LoggedIn (ur_id user) (ur_email user) (ur_name user) (ur_role user) (session_token L c user) (ur_must_change_password user)),
                 note_event L c ''auth.login'' Sev_info (ur_id user) ''login'' ''allowed'' None None
                   (s\<lparr>st_users := resetFailedLogin (cl_now c) email us\<rparr>))))"

definition login :: "'r auth_lib \<Rightarrow> auth_call \<Rightarrow> login_body \<Rightarrow> 'r auth_state \<Rightarrow> auth_data auth_reply \<times> 'r auth_state" where
  "login L c b s =
     (if \<not> (truthy (lb_email b) \<and> truthy (lb_password b)) then (Refused 400 ''Email and password are required'' ''VALIDATION_ERROR'', s)
      else let email = trim (lower (the (lb_email b)))
        in case findByEmail email (st_users s) of
             None \<Rightarrow>
               (invalid_login, note_event L c ''auth.failed_login'' Sev_warn email ''login'' ''denied'' (Some ''user not found'') None s)
           | Some user \<Rightarrow>
               if \<not> ur_is_active user
               then (Refused 403 ''Account is deactivated'' ''ACCOUNT_DISABLED'',
                     note_event L c ''auth.failed_login'' Sev_warn (ur_id user) ''login'' ''denied'' (Some ''account disabled'') None s)
               else check_login L c email (the (lb_password b)) user s)"

text \<open>A text member of the claims; \<open>findByEmail\<close> of any other value finds nothing.\<close>

definition claim_text :: "json \<Rightarrow> string \<Rightarrow> string" where
  "claim_text claims k = (case jget claims k of Some (JStr t) \<Rightarrow> t | _ \<Rightarrow> [])"

definition claimed_user :: "json \<Rightarrow> users \<Rightarrow> user_row option" where
  "claimed_user claims us = (case jget claims ''email'' of Some (JStr t) \<Rightarrow> findByEmail t us | _ \<Rightarrow> None)"

definition protected ::
  "'r auth_lib \<Rightarrow> auth_call \<Rightarrow> (json \<Rightarrow> 'r auth_state \<Rightarrow> auth_data auth_reply \<times> 'r auth_state) \<Rightarrow> 'r auth_state \<Rightarrow> auth_data auth_reply \<times> 'r auth_state" where
  "protected L c h s =
     (case authenticate L c s of Refused n m k \<Rightarrow> (Refused n m k, s) | Threw e \<Rightarrow> (Threw e, s) | Answer claims \<Rightarrow> h claims s)"

record password_body =
  pb_current :: "string option"
  pb_new :: "string option"

definition set_password :: "int \<Rightarrow> string \<Rightarrow> string \<Rightarrow> users \<Rightarrow> users" where
  "set_password now email hash us =
     update_email email (\<lambda>r. r\<lparr>ur_password_hash := hash, ur_must_change_password := False, ur_updated_at := now\<rparr>) us"

definition change_password ::
  "'r auth_lib \<Rightarrow> auth_call \<Rightarrow> password_body \<Rightarrow> json \<Rightarrow> 'r auth_state \<Rightarrow> auth_data auth_reply \<times> 'r auth_state" where
  "change_password L c b claims s =
     (if \<not> (truthy (pb_current b) \<and> truthy (pb_new b)) then (Refused 400 ''Current and new passwords are required'' ''VALIDATION_ERROR'', s)
      else case claimed_user claims (st_users s) of
          None \<Rightarrow> (Refused 404 ''User not found'' ''NOT_FOUND'', s)
        | Some user \<Rightarrow>
            (case comparePassword (al_scrypt L) (the (pb_current b)) (ur_password_hash user) of
               Inl e \<Rightarrow> (Threw e, s)
             | Inr False \<Rightarrow> (Refused 401 ''Current password is incorrect'' ''INVALID_CREDENTIALS'', s)
             | Inr True \<Rightarrow>
                 (case weak_password (the (pb_new b)) of
                    Some m \<Rightarrow> (Refused 400 m ''VALIDATION_ERROR'', s)
                  | None \<Rightarrow>
                      (case hashPassword (al_scrypt L) (cl_salt c) (the (pb_new b)) of
                         None \<Rightarrow> (Threw ''Invalid scrypt params'', s)
                       | Some newHash \<Rightarrow>
                           (Answer (Message ''Password changed successfully''),
                            note_event L c ''auth.login'' Sev_info (claim_text claims ''sub'') ''change-password'' ''allowed'' None None
                              (s\<lparr>st_users := set_password (cl_now c) (claim_text claims ''email'') newHash (st_users s)\<rparr>))))))"

definition me :: "json \<Rightarrow> 'r auth_state \<Rightarrow> auth_data auth_reply \<times> 'r auth_state" where
  "me claims s =
     (Answer (Me (jget claims ''sub'') (jget claims ''email'') (jget claims ''name'') (jget claims ''role'') (jget claims ''namespace_access'')
        (case claimed_user claims (st_users s) of None \<Rightarrow> False | Some u \<Rightarrow> ur_must_change_password u)), s)"

definition logout :: "'r auth_lib \<Rightarrow> auth_call \<Rightarrow> json \<Rightarrow> 'r auth_state \<Rightarrow> auth_data auth_reply \<times> 'r auth_state" where
  "logout L c claims s =
     (case (if truthy (extractTokenFromRequest c) then revokeToken L (cl_now c) (the (extractTokenFromRequest c)) (st_redis s)
            else Inr (st_redis s)) of
        Inl e \<Rightarrow> (Threw e, s)
      | Inr r \<Rightarrow>
          (Answer (Message ''Logged out successfully. Token has been revoked.''),
           note_event L c ''auth.logout'' Sev_info (claim_text claims ''sub'') ''logout'' ''allowed'' None None (s\<lparr>st_redis := r\<rparr>)))"

section \<open>Reachable states\<close>

text \<open>The service starts on an empty table, may be restarted, and serves its routes one after the other.\<close>

definition boot :: "'r auth_lib \<Rightarrow> auth_call \<Rightarrow> nat list \<Rightarrow> nat list \<Rightarrow> 'r auth_state \<Rightarrow> 'r auth_state" where
  "boot L c picks places s =
     s\<lparr>st_users := snd (ensureAdminUser (al_scrypt L) (cl_uuid c) (cl_salt c) (cl_now c) picks places (st_users s))\<rparr>"

inductive auth_step :: "'r auth_lib \<Rightarrow> 'r auth_state \<Rightarrow> 'r auth_state \<Rightarrow> bool" for L :: "'r auth_lib" where
  Restart: "auth_step L s (boot L c picks places s)"
| Register: "auth_step L s (snd (register L c b s))"
| Login: "auth_step L s (snd (login L c lb s))"
| Change: "auth_step L s (snd (protected L c (change_password L c pb) s))"
| Show_me: "auth_step L s (snd (protected L c me s))"
| Logout: "auth_step L s (snd (protected L c (logout L c) s))"

inductive auth_reach :: "'r auth_lib \<Rightarrow> 'r auth_state \<Rightarrow> bool" for L :: "'r auth_lib" where
  Start: "auth_reach L (boot L c picks places \<lparr>st_users = [], st_redis = r, st_audit = a\<rparr>)"
| Next: "auth_reach L s \<Longrightarrow> auth_step L s s' \<Longrightarrow> auth_reach L s'"

lemma note_event_users [simp]: "st_users (note_event L c ev sev u n res why ps s) = st_users s"
  by (simp add: note_event_def)

lemma note_event_redis [simp]: "st_redis (note_event L c ev sev u n res why ps s) = st_redis s"
  by (simp add: note_event_def)

text \<open>How each route changes the table.\<close>

lemma register_users:
  "st_users (snd (register L c b s)) = st_users s \<or>
   (\<exists>p. st_users (snd (register L c b s)) = snd (create_user (al_scrypt L) (cl_uuid c) (cl_salt c) (cl_now c) p (st_users s)) \<and>
     nu_role p = Some ''developer'' \<and> nu_namespaceAccess p = Some [''default''])"
proof -
  have p: "nu_role (register_params e q n) = Some ''developer''" "nu_namespaceAccess (register_params e q n) = Some [''default'']" for e q n
    by (simp_all add: register_params_def)
  show ?thesis
    unfolding register_def Let_def using p by (auto split: option.split sum.split prod.split) (metis snd_conv)+
qed

lemma login_users:
  "st_users (snd (login L c b s)) = st_users s \<or>
   (\<exists>e us. us = snd (isLocked (cl_now c) e (st_users s)) \<and>
     (st_users (snd (login L c b s)) = us \<or> st_users (snd (login L c b s)) = snd (incrementFailedLogin (cl_now c) e us) \<or>
      st_users (snd (login L c b s)) = resetFailedLogin (cl_now c) e us))"
proof -
  have "\<exists>us. us = snd (isLocked (cl_now c) e (st_users s)) \<and>
      (st_users (snd (check_login L c e p u s)) = us \<or> st_users (snd (check_login L c e p u s)) = snd (incrementFailedLogin (cl_now c) e us) \<or>
      st_users (snd (check_login L c e p u s)) = resetFailedLogin (cl_now c) e us)" for e p u
    by (auto simp: check_login_def split: prod.split sum.split bool.split)
  then show ?thesis
    unfolding login_def Let_def by (auto split: option.split)
qed

lemma protected_users:
  "(\<And>claims. P (st_users (snd (h claims s)))) \<Longrightarrow> P (st_users s) \<Longrightarrow> P (st_users (snd (protected L c h s)))"
  by (simp add: protected_def split: auth_reply.split)

lemma change_users:
  "st_users (snd (change_password L c b claims s)) = st_users s \<or>
   (\<exists>h. st_users (snd (change_password L c b claims s)) = set_password (cl_now c) (claim_text claims ''email'') h (st_users s))"
  by (auto simp: change_password_def split: option.split sum.split bool.split)

lemma logout_users [simp]: "st_users (snd (logout L c claims s)) = st_users s"
  by (auto simp: logout_def split: sum.split)

lemma me_state [simp]: "snd (me claims s) = s"
  by (simp add: me_def)

text \<open>A property of the table that every operation keeps holds in every reachable state.\<close>

lemma auth_reach_invariant:
  assumes "auth_reach L s" and "P []"
    and create: "\<And>us scrypt uuid salt now p. P us \<Longrightarrow> p = admin_params (nu_password p) \<or>
        (nu_role p = Some ''developer'' \<and> nu_namespaceAccess p = Some [''default'']) \<Longrightarrow>
        P (snd (create_user scrypt uuid salt now p us))"
    and lock: "\<And>us now e. P us \<Longrightarrow> P (snd (isLocked now e us))"
    and fail: "\<And>us now e. P us \<Longrightarrow> P (snd (incrementFailedLogin now e us))"
    and reset: "\<And>us now e. P us \<Longrightarrow> P (resetFailedLogin now e us)"
    and set: "\<And>us now e h. P us \<Longrightarrow> P (set_password now e h us)"
  shows "P (st_users s)"
proof -
  have boot: "P (st_users (boot L c picks places s))" if "P (st_users s)" for s c picks places
    using create[OF that, of "admin_params pw" for pw] that
    by (auto simp: boot_def ensureAdminUser_def Let_def admin_params_def split: option.split prod.split sum.split) (metis snd_conv)+
  show ?thesis
    using assms(1)
  proof (induction rule: auth_reach.induct)
    case (Start c picks places r a)
    show ?case by (rule boot) (simp add: assms(2))
  next
    case (Next s s')
    from Next(2) show ?case
    proof cases
      case (Restart c picks places)
      with Next boot show ?thesis by simp
    next
      case (Register c b)
      with register_users[of L c b s] Next create show ?thesis by auto
    next
      case (Login c b)
      with login_users[of L c b s] Next lock fail reset show ?thesis by auto
    next
      case (Change c b)
      have "P (st_users (snd (change_password L c b claims s)))" for claims
        using change_users[of L c b claims s] Next set by auto
      with Change Next show ?thesis by (simp add: protected_users)
    next
      case (Show_me c)
      with Next show ?thesis by (simp add: protected_users)
    next
      case (Logout c)
      with Next show ?thesis by (simp add: protected_users)
    qed
  qed
qed

section \<open>Roles\<close>

definition ordinary_or_admin :: "user_row \<Rightarrow> bool" where
  "ordinary_or_admin r \<longleftrightarrow> (ur_role r = ''developer'' \<and> ur_namespace_access r = [''default'']) \<or>
     (ur_email r = admin_email \<and> ur_role r = ''platform_admin'' \<and> ur_namespace_access r = [''*''])"

lemma identity_list_all:
  assumes "map identity_of vs = map identity_of us"
    and "\<And>x y. identity_of x = identity_of y \<Longrightarrow> P x = P y"
  shows "list_all P vs = list_all P us"
proof -
  have "list_all P vs = list_all (\<lambda>i. \<exists>r. identity_of r = i \<and> P r) (map identity_of vs)" for vs
    unfolding list.pred_map comp_def using assms(2) by (intro list.pred_cong refl) blast
  then show ?thesis by (simp only: assms(1))
qed

lemma identity_ordinary: "map identity_of vs = map identity_of us \<Longrightarrow> list_all ordinary_or_admin vs = list_all ordinary_or_admin us"
  by (rule identity_list_all) (simp_all add: ordinary_or_admin_def)

lemma set_password_identity: "map identity_of (set_password now e h us) = map identity_of us"
  by (simp add: set_password_def update_email_identity identity)

lemma create_ordinary:
  assumes "list_all ordinary_or_admin us"
    and "p = admin_params (nu_password p) \<or> (nu_role p = Some ''developer'' \<and> nu_namespaceAccess p = Some [''default''])"
  shows "list_all ordinary_or_admin (snd (create_user scrypt uuid salt now p us))"
proof -
  have "ordinary_or_admin (new_row uuid h now p)" for h
    using assms(2)
  proof (elim disjE)
    assume p: "p = admin_params (nu_password p)"
    have "nu_email p = admin_email" "nu_role p = Some ''platform_admin''" "nu_namespaceAccess p = Some [''*'']"
      by (subst p, simp add: admin_params_def)+
    moreover have "lower admin_email = admin_email" by code_simp
    ultimately show ?thesis by (simp add: ordinary_or_admin_def new_row_def)
  qed (simp add: ordinary_or_admin_def new_row_def)
  then show ?thesis
    using create_user_cases[of scrypt uuid salt now p us] assms(1) by (cases "create_user scrypt uuid salt now p us") force
qed

lemma auth_reach_ordinary:
  assumes "auth_reach L s"
  shows "list_all ordinary_or_admin (st_users s)"
  using assms
  by (rule auth_reach_invariant)
    (simp_all only: list.pred_inject create_ordinary identity_ordinary[OF isLocked_identity] identity_ordinary[OF incrementFailedLogin_identity]
      identity_ordinary[OF resetFailedLogin_identity] identity_ordinary[OF set_password_identity])

text \<open>C3. No sequence of calls of the account routes gives a user more than the role of a developer of the
  default namespace; the only other account is the administrator that the service itself creates.\<close>

theorem only_bootstrap_admin:
  assumes "auth_reach L s"
  shows "list_all ordinary_or_admin (st_users s)"
  using assms by (rule auth_reach_ordinary)


definition demo_lib :: "unit auth_lib" where
  "demo_lib = \<lparr>al_hmac = (\<lambda>s d. s @ d), al_scrypt = demo_scrypt, al_sha256 = Cons (CHR ''h''), al_redis = None, al_secret = ''k'',
     al_env = (\<lambda>_. None)\<rparr>"

definition demo_call :: auth_call where
  "demo_call = \<lparr>cl_now = 2000, cl_stamp = ''2025-01-01'', cl_uuid = ''u'', cl_event = ''e'', cl_salt = ''s'', cl_ip = None, cl_agent = None,
     cl_authorization = None, cl_cookie = None\<rparr>"

definition demo_start :: "unit auth_state" where
  "demo_start = boot demo_lib demo_call (replicate 16 0) [1, 2, 3] \<lparr>st_users = [], st_redis = (), st_audit = no_audit\<rparr>"

lemma demo_reach: "auth_reach demo_lib demo_start"
  unfolding demo_start_def by (rule auth_reach.Start)

theorem only_bootstrap_admin_witness:
  "list_all ordinary_or_admin (st_users demo_start) \<and> map ur_role (st_users demo_start) = [''platform_admin'']"
  using only_bootstrap_admin[OF demo_reach] by (simp, code_simp)


end
