(* ===== verification/Lockout.thy ===== *)
theory Lockout
  imports Auth
begin

text \<open>
  What the lock of an account promises: the number of passwords that can be tried, as a refinement of the
  login route to a counter with a lock.
\<close>

section \<open>The abstract counter\<close>

definition lock_ms :: int where "lock_ms = 900000"

definition locked_at :: "int option \<Rightarrow> int \<Rightarrow> bool" where
  "locked_at l t \<longleftrightarrow> (case l of None \<Rightarrow> False | Some e \<Rightarrow> t < e)"

text \<open>The times at which a wrong password is compared, from a number of failures and a lock.\<close>

fun lock_times :: "int \<Rightarrow> int option \<Rightarrow> int list \<Rightarrow> int list" where
  "lock_times n l [] = []"
| "lock_times n l (t # ts) =
     (if locked_at l t then lock_times n l ts
      else t # (if 5 \<le> n + 1 then lock_times 0 (Some (t + lock_ms)) ts else lock_times (n + 1) None ts))"

lemma lock_times_set: "set (lock_times n l ts) \<subseteq> set ts"
  by (induction n l ts rule: lock_times.induct) auto

text \<open>While the lock outlasts the window, nothing is tried in it.\<close>

lemma locked_window: "b \<le> e \<Longrightarrow> sorted ts \<Longrightarrow> length (filter (\<lambda>t. t < b) (lock_times n (Some e) ts)) = 0"
proof (induction ts)
  case (Cons t ts)
  show ?case
  proof (cases "t < e")
    case True
    with Cons show ?thesis by (simp add: locked_at_def)
  next
    case False
    with Cons(2,3) have "\<forall>u \<in> set (t # ts). \<not> u < b" by auto
    with lock_times_set[of n "Some e" "t # ts"] show ?thesis by (auto simp: filter_empty_conv subset_iff simp del: lock_times.simps)
  qed
qed simp

lemma window_from:
  "sorted ts \<Longrightarrow> \<forall>t \<in> set ts. a \<le> t \<Longrightarrow> 0 \<le> n \<Longrightarrow> n < 5 \<Longrightarrow>
     int (length (filter (\<lambda>t. t < a + lock_ms) (lock_times n l ts))) \<le> 5 - n"
proof (induction ts arbitrary: n l)
  case (Cons t ts)
  have IH: "int (length (filter (\<lambda>t. t < a + lock_ms) (lock_times m k ts))) \<le> 5 - m" if "0 \<le> m" "m < 5" for m k
    using Cons(1)[of m k] Cons(2,3) that by simp
  have "length (filter (\<lambda>t. t < a + lock_ms) (lock_times 0 (Some (t + lock_ms)) ts)) = 0"
    using Cons(2,3) by (intro locked_window) simp_all
  with IH[of n l] IH[of "n + 1" None] Cons(4,5) show ?case by auto
qed simp

lemma lock_times_window:
  "sorted ts \<Longrightarrow> 0 \<le> n \<Longrightarrow> n < 5 \<Longrightarrow> length (filter (\<lambda>t. a \<le> t \<and> t < a + lock_ms) (lock_times n l ts)) \<le> 5"
proof (induction ts arbitrary: n l)
  case (Cons t ts)
  show ?case
  proof (cases "a \<le> t")
    case True
    with Cons(2) have all: "\<forall>u \<in> set (t # ts). a \<le> u" by auto
    then have eq: "filter (\<lambda>u. a \<le> u \<and> u < a + lock_ms) (lock_times n l (t # ts)) = filter (\<lambda>u. u < a + lock_ms) (lock_times n l (t # ts))"
      using lock_times_set[of n l "t # ts"] by (intro filter_cong refl) blast
    show ?thesis using window_from[OF Cons(2) all Cons(3,4), of l] Cons(3) unfolding eq by linarith
  next
    case False
    with Cons show ?thesis by simp
  qed
qed simp

section \<open>The login route\<close>

fun login_run :: "'r auth_lib \<Rightarrow> string \<Rightarrow> (auth_call \<times> string) list \<Rightarrow> 'r auth_state \<Rightarrow> int list \<times> 'r auth_state" where
  "login_run L email [] s = ([], s)"
| "login_run L email ((c, pw) # cs) s =
     (case login L c \<lparr>lb_email = Some email, lb_password = Some pw\<rparr> s of
        (r, s') \<Rightarrow> (case login_run L email cs s' of (ts, s'') \<Rightarrow> ((if r = invalid_login then [cl_now c] else []) @ ts, s'')))"

text \<open>Passwords that are not that of the account.\<close>

definition wrong_guess :: "'r auth_lib \<Rightarrow> string \<Rightarrow> auth_call \<times> string \<Rightarrow> bool" where
  "wrong_guess L hash g \<longleftrightarrow> snd g \<noteq> [] \<and> comparePassword (al_scrypt L) (snd g) hash = Inr False"

definition account :: "'r auth_lib \<Rightarrow> string \<Rightarrow> string \<Rightarrow> int \<Rightarrow> int option \<Rightarrow> 'r auth_state \<Rightarrow> bool" where
  "account L email hash n l s \<longleftrightarrow>
     (\<exists>r. findByEmail email (st_users s) = Some r \<and> ur_is_active r \<and> ur_password_hash r = hash \<and>
       ur_failed_login_attempts r = n \<and> ur_locked_until r = l)"

lemma locked_not_invalid: "Refused 429 m k \<noteq> invalid_login"
  by (simp add: invalid_login_def)

lemma incrementFailedLogin_account:
  assumes f: "findByEmail email us = Some r"
  shows "\<exists>r'. findByEmail email (snd (incrementFailedLogin now email us)) = Some r' \<and> ur_is_active r' = ur_is_active r \<and>
    ur_password_hash r' = ur_password_hash r \<and>
    (if 5 \<le> ur_failed_login_attempts r + 1
     then ur_failed_login_attempts r' = 0 \<and> ur_locked_until r' = Some (now + lock_ms)
     else ur_failed_login_attempts r' = ur_failed_login_attempts r + 1 \<and> ur_locked_until r' = ur_locked_until r)"
proof -
  let ?f = "\<lambda>r. r\<lparr>ur_failed_login_attempts := ur_failed_login_attempts r + 1, ur_updated_at := now\<rparr>"
  let ?g = "\<lambda>r. r\<lparr>ur_locked_until := Some (now + 900000), ur_failed_login_attempts := 0, ur_updated_at := now\<rparr>"
  have kf: "keeps_identity ?f" and kg: "keeps_identity ?g" by (simp_all add: identity)
  have s1: "findByEmail email (update_email email ?f us) = Some (?f r)" by (simp add: find_update[OF kf] f)
  then have s2: "findByEmail email (update_email email ?g (update_email email ?f us)) = Some (?g (?f r))"
    by (simp add: find_update[OF kg])
  show ?thesis
  proof (cases "5 \<le> ur_failed_login_attempts r + 1")
    case True
    then have "snd (incrementFailedLogin now email us) = update_email email ?g (update_email email ?f us)"
      by (simp add: incrementFailedLogin_def s1 Let_def)
    with s2 True show ?thesis by (simp add: lock_ms_def)
  next
    case False
    then have "snd (incrementFailedLogin now email us) = update_email email ?f us"
      by (simp add: incrementFailedLogin_def s1 Let_def)
    with s1 False show ?thesis by simp
  qed
qed

text \<open>One attempt with a wrong password is a step of the counter.\<close>

lemma wrong_login:
  assumes acc: "account L email hash n l s" and w: "wrong_guess L hash (c, pw)" and e: "trim (lower email) = email" "email \<noteq> []"
  defines "out \<equiv> login L c \<lparr>lb_email = Some email, lb_password = Some pw\<rparr> s"
  shows "if locked_at l (cl_now c) then fst out \<noteq> invalid_login \<and> account L email hash n l (snd out)
    else fst out = invalid_login \<and>
      (if 5 \<le> n + 1 then account L email hash 0 (Some (cl_now c + lock_ms)) (snd out) else account L email hash (n + 1) None (snd out))"
proof -
  from acc obtain r where r: "findByEmail email (st_users s) = Some r" "ur_is_active r" "ur_password_hash r = hash"
    "ur_failed_login_attempts r = n" "ur_locked_until r = l" by (auto simp: account_def)
  have out: "out = check_login L c email pw r s"
    using r e w by (simp add: out_def login_def truthy_def wrong_guess_def)
  have cmp: "comparePassword (al_scrypt L) pw (ur_password_hash r) = Inr False" using w r by (simp add: wrong_guess_def)
  let ?clear = "\<lambda>r. r\<lparr>ur_locked_until := None, ur_updated_at := cl_now c\<rparr>"
  have k: "keeps_identity ?clear" by (simp add: identity)
  show ?thesis
  proof (cases "locked_at l (cl_now c)")
    case True
    then obtain till where l: "l = Some till" "cl_now c < till" by (auto simp: locked_at_def split: option.splits)
    then have "isLocked (cl_now c) email (st_users s) = (\<lparr>ls_locked = True, ls_remainingMinutes = ceil_minutes (till - cl_now c)\<rparr>, st_users s)"
      using r by (simp add: isLocked_def)
    then have "out = (Refused 429 (locked_message (ceil_minutes (till - cl_now c))) ''ACCOUNT_LOCKED'', s\<lparr>st_users := st_users s\<rparr>)"
      by (simp add: out check_login_def)
    with True acc show ?thesis by (simp add: locked_not_invalid)
  next
    case False
    define us where "us = snd (isLocked (cl_now c) email (st_users s))"
    have "isLocked (cl_now c) email (st_users s) = (\<lparr>ls_locked = False, ls_remainingMinutes = 0\<rparr>, us) \<and>
        (\<exists>q. findByEmail email us = Some q \<and> ur_is_active q \<and> ur_password_hash q = hash \<and> ur_failed_login_attempts q = n \<and> ur_locked_until q = None)"
    proof (cases l)
      case None
      with r show ?thesis by (simp add: us_def isLocked_def)
    next
      case (Some till)
      with False r have "isLocked (cl_now c) email (st_users s) = (\<lparr>ls_locked = False, ls_remainingMinutes = 0\<rparr>, update_email email ?clear (st_users s))"
        by (simp add: isLocked_def locked_at_def)
      then show ?thesis using r by (simp add: us_def find_update[OF k])
    qed
    then obtain q where il: "isLocked (cl_now c) email (st_users s) = (\<lparr>ls_locked = False, ls_remainingMinutes = 0\<rparr>, us)"
      and q: "findByEmail email us = Some q" "ur_is_active q" "ur_password_hash q = hash" "ur_failed_login_attempts q = n" "ur_locked_until q = None" by blast
    have users: "st_users (snd out) = snd (incrementFailedLogin (cl_now c) email us)" and reply: "fst out = invalid_login"
      by (simp_all add: out check_login_def il cmp split: prod.split)
    from incrementFailedLogin_account[OF q(1), of "cl_now c"] q users reply False show ?thesis
      by (auto simp: account_def)
  qed
qed

text \<open>Refinement: the times at which the login route compares wrong passwords are those of the counter.\<close>

lemma login_run_times:
  assumes "account L email hash n l s" and "list_all (wrong_guess L hash) gs" and e: "trim (lower email) = email" "email \<noteq> []"
  shows "fst (login_run L email gs s) = lock_times n l (map (cl_now \<circ> fst) gs)"
  using assms(1,2)
proof (induction gs arbitrary: n l s)
  case (Cons g gs)
  obtain c pw where g: "g = (c, pw)" by fastforce
  obtain r s' where out: "login L c \<lparr>lb_email = Some email, lb_password = Some pw\<rparr> s = (r, s')" by fastforce
  obtain ts s'' where more: "login_run L email gs s' = (ts, s'')" by fastforce
  have wg: "wrong_guess L hash (c, pw)" and rest: "list_all (wrong_guess L hash) gs" using Cons(3) g by simp_all
  note step = wrong_login[OF Cons(2) wg e, unfolded out fst_conv snd_conv]
  note run = Cons.IH[OF _ rest]
  show ?case
  proof (cases "locked_at l (cl_now c)")
    case True
    with step run[of n l s'] show ?thesis by (simp add: g out more)
  next
    case False
    show ?thesis
    proof (cases "5 \<le> n + 1")
      case True
      with False step run[of 0 "Some (cl_now c + lock_ms)" s'] show ?thesis by (simp add: g out more)
    next
      case False': False
      with False step run[of "n + 1" None s'] show ?thesis by (simp add: g out more)
    qed
  qed
qed simp


definition demo_hash :: string where
  "demo_hash = ur_password_hash (hd (st_users demo_start))"

lemma demo_account: "account demo_lib admin_email demo_hash 0 None demo_start"
proof -
  have "map (\<lambda>r. (has_email admin_email r, ur_is_active r, ur_failed_login_attempts r, ur_locked_until r)) (st_users demo_start) =
      [(True, True, 0, None)]" by code_simp
  then show ?thesis by (auto simp: account_def findByEmail_def demo_hash_def)
qed

lemma demo_guess: "wrong_guess demo_lib demo_hash (demo_call, ''wrong'')"
  by code_simp


end
