(* ===== verification/AgentStore.thy ===== *)
theory AgentStore
  imports Json JsRegex "HOL-Library.Char_ord" "HOL-Library.List_Lexorder"
begin

text \<open>
  \<open>control-plane/api-server/src/agents/repository.ts\<close>: the agents table, the history of their versions and
  the paginated list. Identifiers compare as texts. Rows are kept in the order of insertion; where a query
  of several rows takes the first without an order, the choice is a parameter. Queries succeed unless they
  are said to fail.
\<close>

section \<open>Rows\<close>

text \<open>A JSONB object. \<open>a || b\<close> takes the members of \<open>b\<close> over those of \<open>a\<close>.\<close>

type_synonym jsonb = "(string, json) js_map"

definition jsonb_merge :: "jsonb \<Rightarrow> jsonb \<Rightarrow> jsonb" where
  "jsonb_merge a b = fold (\<lambda>(k, v). js_set k v) b a"

text \<open>\<open>a->>'k'\<close> of a text.\<close>

definition jsonb_text :: "jsonb \<Rightarrow> string \<Rightarrow> string option" where
  "jsonb_text a k = (case js_get a k of None \<Rightarrow> None | Some JNull \<Rightarrow> None | Some (JStr t) \<Rightarrow> Some t | Some j \<Rightarrow> Some (stringify j))"

record agent_row =
  ag_id :: string
  ag_namespace :: string
  ag_name :: string
  ag_api_version :: string
  ag_kind :: string
  ag_spec :: jsonb
  ag_status :: jsonb
  ag_labels :: jsonb
  ag_annotations :: jsonb
  ag_version :: int
  ag_created_by :: string
  ag_created_at :: int
  ag_updated_at :: int
  ag_deleted_at :: "int option"

record version_row =
  av_id :: string
  av_agent_id :: string
  av_namespace :: string
  av_name :: string
  av_version :: int
  av_spec :: jsonb
  av_labels :: jsonb
  av_annotations :: jsonb
  av_created_by :: string
  av_created_at :: int
  av_change_summary :: string

record agent_db =
  db_agents :: "agent_row list"
  db_versions :: "version_row list"

section \<open>Reading\<close>

definition live_agent :: "string \<Rightarrow> string \<Rightarrow> agent_row \<Rightarrow> bool" where
  "live_agent ns name r \<longleftrightarrow> ag_namespace r = ns \<and> ag_name r = name \<and> ag_deleted_at r = None"

definition findAgentById :: "string \<Rightarrow> agent_db \<Rightarrow> agent_row option" where
  "findAgentById i d = find (\<lambda>r. ag_id r = i \<and> ag_deleted_at r = None) (db_agents d)"

definition findByNamespaceAndName :: "string \<Rightarrow> string \<Rightarrow> agent_db \<Rightarrow> agent_row option" where
  "findByNamespaceAndName ns name d = find (live_agent ns name) (db_agents d)"

text \<open>\<open>LIKE\<close> on texts in lower case: a percent sign stands for any text, an underscore for any character, a
  backslash quotes the next one.\<close>

fun like :: "string \<Rightarrow> string \<Rightarrow> bool" where
  "like [] s = (s = [])"
| "like (p # ps) s =
     (if p = CHR ''%'' then list_ex (\<lambda>n. like ps (drop n s)) [0..<Suc (length s)]
      else if p = CHR ''_'' then (case s of [] \<Rightarrow> False | _ # s' \<Rightarrow> like ps s')
      else if p = CHR 0x5C then (case ps of [] \<Rightarrow> False | q # qs \<Rightarrow> (case s of [] \<Rightarrow> False | c # s' \<Rightarrow> c = q \<and> like qs s'))
      else (case s of [] \<Rightarrow> False | c # s' \<Rightarrow> c = p \<and> like ps s'))"

definition ilike :: "string \<Rightarrow> string \<Rightarrow> bool" where
  "ilike s pattern = like (lower pattern) (lower s)"

record list_options =
  lo_phase :: "string option"
  lo_labels :: "(string \<times> string) list option"
  lo_search :: "string option"
  lo_cursor :: "string option"
  lo_pageSize :: "int option"

definition alnum :: "char \<Rightarrow> bool" where
  "alnum c \<longleftrightarrow> is_digit c \<or> between (CHR ''a'') (CHR ''z'') c \<or> between (CHR ''A'') (CHR ''Z'') c"

definition label_key_rx :: regex where
  "label_key_rx = Cat [Bol, Cls alnum, Rep 0 None (Cls (\<lambda>c. alnum c \<or> c \<in> set ''_.-'')), Eol]"

definition bad_label_key :: "string \<Rightarrow> bool" where
  "bad_label_key k \<longleftrightarrow> \<not> rx_test label_key_rx k \<or> 63 < length k"

text \<open>The \<open>WHERE\<close> clause, without the cursor.\<close>

definition agent_matches :: "string \<Rightarrow> list_options \<Rightarrow> agent_row \<Rightarrow> bool" where
  "agent_matches ns q r \<longleftrightarrow>
     ag_namespace r = ns \<and> ag_deleted_at r = None \<and>
     (truthy (lo_phase q) \<longrightarrow> jsonb_text (ag_status r) ''phase'' = lo_phase q) \<and>
     list_all (\<lambda>(k, v). jsonb_text (ag_labels r) k = Some v) (nullish (lo_labels q) []) \<and>
     (truthy (lo_search q) \<longrightarrow> ilike (ag_name r) (''%'' @ the (lo_search q) @ ''%''))"

definition after_cursor :: "string option \<Rightarrow> agent_row \<Rightarrow> bool" where
  "after_cursor c r \<longleftrightarrow> (truthy c \<longrightarrow> the c < ag_id r)"

record agent_page =
  pg_agents :: "agent_row list"
  pg_nextCursor :: string
  pg_totalCount :: nat

text \<open>A negative limit is an error of the database; an empty page has no last element.\<close>

definition listByNamespace :: "string \<Rightarrow> list_options \<Rightarrow> agent_db \<Rightarrow> string + agent_page" where
  "listByNamespace ns q d =
     (let pageSize = min (nullish (lo_pageSize q) 50) 100
      in case find (bad_label_key \<circ> fst) (nullish (lo_labels q) []) of
           Some (k, _) \<Rightarrow> Inl (''Invalid label key: '' @ k)
         | None \<Rightarrow>
             if pageSize < 0 then Inl ''LIMIT must not be negative''
             else if pageSize = 0 then Inl ''Cannot read properties of undefined''
             else let found = filter (\<lambda>r. agent_matches ns q r \<and> after_cursor (lo_cursor q) r) (db_agents d);
                      agents = take (nat pageSize) (sort_key ag_id found)
               in Inr \<lparr>pg_agents = agents, pg_nextCursor = (if int (length agents) = pageSize then ag_id (last agents) else []),
                       pg_totalCount = length found\<rparr>)"

section \<open>Writing\<close>

record new_agent =
  na_namespace :: string
  na_name :: string
  na_apiVersion :: "string option"
  na_kind :: "string option"
  na_spec :: "jsonb option"
  na_status :: "jsonb option"
  na_labels :: "jsonb option"
  na_annotations :: "jsonb option"
  na_createdBy :: "string option"

definition new_agent_row :: "string \<Rightarrow> int \<Rightarrow> new_agent \<Rightarrow> agent_row" where
  "new_agent_row uuid now p =
     \<lparr>ag_id = uuid, ag_namespace = na_namespace p, ag_name = na_name p, ag_api_version = nullish (na_apiVersion p) ''egaop.io/v1'',
      ag_kind = nullish (na_kind p) ''Agent'', ag_spec = nullish (na_spec p) [],
      ag_status = nullish (na_status p) [(''phase'', JStr ''Pending''), (''health_status'', JStr ''Healthy'')],
      ag_labels = nullish (na_labels p) [], ag_annotations = nullish (na_annotations p) [], ag_version = 1,
      ag_created_by = nullish (na_createdBy p) [], ag_created_at = now, ag_updated_at = now, ag_deleted_at = None\<rparr>"

text \<open>The keys and column widths of the table.\<close>

definition agent_insert_allowed :: "agent_row \<Rightarrow> agent_db \<Rightarrow> bool" where
  "agent_insert_allowed r d \<longleftrightarrow>
     list_all (\<lambda>x. ag_id x \<noteq> ag_id r \<and> \<not> live_agent (ag_namespace r) (ag_name r) x) (db_agents d) \<and>
     length (ag_namespace r) \<le> 63 \<and> length (ag_name r) \<le> 255 \<and> length (ag_api_version r) \<le> 50 \<and> length (ag_kind r) \<le> 50 \<and>
     length (ag_created_by r) \<le> 255"

definition create_agent :: "string \<Rightarrow> int \<Rightarrow> new_agent \<Rightarrow> agent_db \<Rightarrow> (string + agent_row) \<times> agent_db" where
  "create_agent uuid now p d =
     (let r = new_agent_row uuid now p
      in if agent_insert_allowed r d then (Inr r, d\<lparr>db_agents := db_agents d @ [r]\<rparr>) else (Inl ''constraint violated'', d))"

definition update_live :: "string \<Rightarrow> string \<Rightarrow> (agent_row \<Rightarrow> agent_row) \<Rightarrow> agent_db \<Rightarrow> agent_db" where
  "update_live ns name f d = d\<lparr>db_agents := map (\<lambda>r. if live_agent ns name r then f r else r) (db_agents d)\<rparr>"

text \<open>The snapshot of a row; a failing insert leaves the history as it is.\<close>

definition snapshot :: "string \<Rightarrow> int \<Rightarrow> agent_row \<Rightarrow> string \<Rightarrow> string \<Rightarrow> version_row" where
  "snapshot uuid now r by_whom summary =
     \<lparr>av_id = uuid, av_agent_id = ag_id r, av_namespace = ag_namespace r, av_name = ag_name r, av_version = ag_version r,
      av_spec = ag_spec r, av_labels = ag_labels r, av_annotations = ag_annotations r, av_created_by = by_whom, av_created_at = now,
      av_change_summary = summary\<rparr>"

definition createVersionSnapshot :: "bool \<Rightarrow> version_row \<Rightarrow> agent_db \<Rightarrow> agent_db option" where
  "createVersionSnapshot fails v d =
     (if fails \<or> list_ex (\<lambda>x. av_id x = av_id v) (db_versions d) then None
      else Some (d\<lparr>db_versions := db_versions d @ [v]\<rparr>))"

record agent_change =
  ch_spec :: "jsonb option"
  ch_labels :: "jsonb option"
  ch_annotations :: "jsonb option"
  ch_summary :: "string option"

definition merge_into :: "jsonb option \<Rightarrow> jsonb \<Rightarrow> jsonb" where
  "merge_into c a = (case c of None \<Rightarrow> a | Some b \<Rightarrow> jsonb_merge a b)"

definition apply_change :: "int \<Rightarrow> agent_change \<Rightarrow> agent_row \<Rightarrow> agent_row" where
  "apply_change now c r = r\<lparr>ag_spec := merge_into (ch_spec c) (ag_spec r), ag_labels := merge_into (ch_labels c) (ag_labels r),
     ag_annotations := merge_into (ch_annotations c) (ag_annotations r), ag_version := ag_version r + 1, ag_updated_at := now\<rparr>"

definition no_change :: "agent_change \<Rightarrow> bool" where
  "no_change c \<longleftrightarrow> ch_spec c = None \<and> ch_labels c = None \<and> ch_annotations c = None"

definition snapshot_before_update :: "bool \<Rightarrow> string \<Rightarrow> int \<Rightarrow> string \<Rightarrow> string \<Rightarrow> agent_change \<Rightarrow> agent_db \<Rightarrow> agent_db" where
  "snapshot_before_update fails uuid now ns name c d =
     (case findByNamespaceAndName ns name d of
        None \<Rightarrow> d
      | Some r \<Rightarrow>
          nullish (createVersionSnapshot fails
             (snapshot uuid now r (if truthy (ch_summary c) then ''user'' else ''system'')
               (env_or (ch_summary c) (''Updated to v'' @ show_int (ag_version r + 1)))) d) d)"

definition update_agent ::
  "bool \<Rightarrow> string \<Rightarrow> int \<Rightarrow> string \<Rightarrow> string \<Rightarrow> agent_change \<Rightarrow> agent_db \<Rightarrow> agent_row option \<times> agent_db" where
  "update_agent fails uuid now ns name c d =
     (let d1 = snapshot_before_update fails uuid now ns name c d
      in if no_change c then (findByNamespaceAndName ns name d1, d1)
         else let d2 = update_live ns name (apply_change now c) d1 in (findByNamespaceAndName ns name d2, d2))"

definition softDelete :: "int \<Rightarrow> string \<Rightarrow> string \<Rightarrow> agent_db \<Rightarrow> agent_row option \<times> agent_db" where
  "softDelete now ns name d =
     (map_option (\<lambda>r. r\<lparr>ag_deleted_at := Some now, ag_updated_at := now\<rparr>) (findByNamespaceAndName ns name d),
      update_live ns name (\<lambda>r. r\<lparr>ag_deleted_at := Some now, ag_updated_at := now\<rparr>) d)"

section \<open>Versions\<close>

definition versions_of :: "string \<Rightarrow> string \<Rightarrow> agent_db \<Rightarrow> version_row list" where
  "versions_of ns name d = filter (\<lambda>v. av_namespace v = ns \<and> av_name v = name) (db_versions d)"

definition getVersionHistory :: "string \<Rightarrow> string \<Rightarrow> nat \<Rightarrow> agent_db \<Rightarrow> version_row list" where
  "getVersionHistory ns name limit d = take limit (sort_key (\<lambda>v. - av_version v) (versions_of ns name d))"

definition snapshots_at :: "string \<Rightarrow> string \<Rightarrow> int \<Rightarrow> agent_db \<Rightarrow> version_row list" where
  "snapshots_at ns name n d = filter (\<lambda>v. av_version v = n) (versions_of ns name d)"

text \<open>Which of several rows comes first is up to the database.\<close>

definition getVersion :: "(version_row list \<Rightarrow> version_row) \<Rightarrow> string \<Rightarrow> string \<Rightarrow> int \<Rightarrow> agent_db \<Rightarrow> version_row option" where
  "getVersion first ns name n d = (let vs = snapshots_at ns name n d in if vs = [] then None else Some (first vs))"

definition restore :: "int \<Rightarrow> version_row \<Rightarrow> agent_row \<Rightarrow> agent_row" where
  "restore now v r = r\<lparr>ag_spec := av_spec v, ag_labels := av_labels v, ag_annotations := av_annotations v,
     ag_version := ag_version r + 1, ag_updated_at := now\<rparr>"

definition rollbackToVersion ::
  "(version_row list \<Rightarrow> version_row) \<Rightarrow> bool \<Rightarrow> string \<Rightarrow> int \<Rightarrow> string \<Rightarrow> string \<Rightarrow> int \<Rightarrow> agent_db \<Rightarrow> (string + agent_row option) \<times> agent_db" where
  "rollbackToVersion first fails uuid now ns name n d =
     (case getVersion first ns name n d of
        None \<Rightarrow> (Inr None, d)
      | Some v \<Rightarrow>
          (case findByNamespaceAndName ns name d of
             None \<Rightarrow> (Inr None, d)
           | Some r \<Rightarrow>
               (case createVersionSnapshot fails (snapshot uuid now r ''system'' (''Auto-saved before rollback to v'' @ show_int n)) d of
                  None \<Rightarrow> (Inl ''insert failed'', d)
                | Some d1 \<Rightarrow> (let d2 = update_live ns name (restore now v) d1 in (Inr (findByNamespaceAndName ns name d2), d2)))))"

section \<open>Pages\<close>

text \<open>A client that follows the cursors; fuel bounds the number of pages.\<close>

fun follow_pages :: "nat \<Rightarrow> string \<Rightarrow> list_options \<Rightarrow> agent_db \<Rightarrow> agent_row list option" where
  "follow_pages 0 ns q d = None"
| "follow_pages (Suc n) ns q d =
     (case listByNamespace ns q d of
        Inl e \<Rightarrow> None
      | Inr p \<Rightarrow> if pg_nextCursor p = [] then Some (pg_agents p)
          else map_option (\<lambda>rest. pg_agents p @ rest) (follow_pages n ns (q\<lparr>lo_cursor := Some (pg_nextCursor p)\<rparr>) d))"

definition ids_ok :: "agent_db \<Rightarrow> bool" where
  "ids_ok d \<longleftrightarrow> distinct (map ag_id (db_agents d)) \<and> list_all (\<lambda>r. ag_id r \<noteq> []) (db_agents d)"

definition list_ok :: "list_options \<Rightarrow> bool" where
  "list_ok q \<longleftrightarrow> list_all (\<lambda>(k, v). \<not> bad_label_key k) (nullish (lo_labels q) []) \<and> 1 \<le> nullish (lo_pageSize q) 50"

lemma filter_after_prefix:
  "sorted_wrt (<) (map ag_id (A @ R)) \<Longrightarrow> A \<noteq> [] \<Longrightarrow> filter (\<lambda>r. ag_id (last A) < ag_id r) (A @ R) = R"
proof -
  assume s: "sorted_wrt (<) (map ag_id (A @ R))" and ne: "A \<noteq> []"
  obtain B a where A: "A = B @ [a]" using ne by (cases A rule: rev_cases) auto
  have "filter (\<lambda>r. ag_id a < ag_id r) B = []" "filter (\<lambda>r. ag_id a < ag_id r) R = R"
    using s unfolding A by (auto simp: sorted_wrt_append filter_empty_conv filter_id_conv)
  then show ?thesis by (simp add: A)
qed

lemma matching_sorted:
  "ids_ok d \<Longrightarrow> sorted_wrt (<) (map ag_id (sort_key ag_id (filter P (db_agents d))))"
proof -
  assume "ids_ok d"
  then have "distinct (map ag_id (filter P (db_agents d)))"
    by (auto simp: ids_ok_def distinct_map inj_on_def)
  then have "distinct (map ag_id (sort_key ag_id (filter P (db_agents d))))"
    by (simp add: distinct_map)
  then show ?thesis by (simp add: strict_sorted_iff)
qed

text \<open>One page: what follows the cursor, cut at the page size.\<close>

lemma page_of:
  assumes ok: "ids_ok d" "list_ok q"
    and split: "sort_key ag_id (filter (agent_matches ns q) (db_agents d)) = A @ R"
    and cur: "lo_cursor q' = (if A = [] then None else Some (ag_id (last A)))"
    and q': "q' = q\<lparr>lo_cursor := lo_cursor q'\<rparr>"
  shows "\<exists>p. listByNamespace ns q' d = Inr p \<and> pg_agents p = take (nat (min (nullish (lo_pageSize q) 50) 100)) R \<and>
    pg_nextCursor p = (if length R < nat (min (nullish (lo_pageSize q) 50) 100) then []
      else ag_id (last (take (nat (min (nullish (lo_pageSize q) 50) 100)) R)))"
proof -
  let ?n = "min (nullish (lo_pageSize q) 50) 100"
  have n: "1 \<le> ?n" "\<not> ?n < 0" "?n \<noteq> 0" using ok(2) by (auto simp: list_ok_def)
  have same: "agent_matches ns q' = agent_matches ns q" "lo_pageSize q' = lo_pageSize q" "lo_labels q' = lo_labels q"
    by (subst q', simp add: agent_matches_def[abs_def])+
  have keys: "find (bad_label_key \<circ> fst) (nullish (lo_labels q) []) = None"
    using ok(2) by (auto simp: list_ok_def find_None_iff list_all_iff)
  have srt: "sorted_wrt (<) (map ag_id (A @ R))" using matching_sorted[OF ok(1), of "agent_matches ns q"] split by simp
  have "sort_key ag_id (filter (\<lambda>r. agent_matches ns q r \<and> after_cursor (lo_cursor q') r) (db_agents d)) =
      filter (after_cursor (lo_cursor q')) (A @ R)"
    unfolding split[symmetric] filter_sort filter_filter by (simp only: conj_commute)
  also have "\<dots> = R"
  proof (cases "A = []")
    case True
    then show ?thesis using cur by (simp add: after_cursor_def truthy_def)
  next
    case False
    have "last A \<in> set (A @ R)" using False by simp
    then have "last A \<in> set (db_agents d)" unfolding split[symmetric] by simp
    then have "ag_id (last A) \<noteq> []" using ok(1) by (simp add: ids_ok_def list_all_iff)
    then show ?thesis
      using filter_after_prefix[OF srt False] cur False by (simp add: after_cursor_def[abs_def] truthy_def)
  qed
  finally have found: "sort_key ag_id (filter (\<lambda>r. agent_matches ns q r \<and> after_cursor (lo_cursor q') r) (db_agents d)) = R" .
  have "(int (length (take (nat ?n) R)) = ?n) = (\<not> length R < nat ?n)" using n by auto
  then show ?thesis
    unfolding listByNamespace_def Let_def same keys found using n by (simp del: min_less_iff_conj)
qed

lemma follow_pages_complete:
  assumes "ids_ok d" "list_ok q"
    and "sort_key ag_id (filter (agent_matches ns q) (db_agents d)) = A @ R"
    and "lo_cursor q' = (if A = [] then None else Some (ag_id (last A)))"
    and "q' = q\<lparr>lo_cursor := lo_cursor q'\<rparr>" and "length R < n"
  shows "follow_pages n ns q' d = Some R"
  using assms(3-6)
proof (induction n arbitrary: A R q')
  case (Suc n)
  let ?k = "nat (min (nullish (lo_pageSize q) 50) 100)"
  have k: "1 \<le> ?k" using assms(2) by (auto simp: list_ok_def)
  from page_of[OF assms(1,2) Suc(2,3,4)] obtain p where p: "listByNamespace ns q' d = Inr p" "pg_agents p = take ?k R"
    "pg_nextCursor p = (if length R < ?k then [] else ag_id (last (take ?k R)))" by blast
  show ?case
  proof (cases "length R < ?k")
    case True
    with p show ?thesis by simp
  next
    case False
    then have ne: "take ?k R \<noteq> []" using k by (cases R) auto
    have "last (take ?k R) \<in> set (A @ R)" using last_in_set[OF ne] in_set_takeD by fastforce
    then have "last (take ?k R) \<in> set (db_agents d)" unfolding Suc(2)[symmetric] by simp
    then have cur: "ag_id (last (take ?k R)) \<noteq> []" using assms(1) by (simp add: ids_ok_def list_all_iff)
    let ?q = "q'\<lparr>lo_cursor := Some (ag_id (last (take ?k R)))\<rparr>"
    have "follow_pages n ns ?q d = Some (drop ?k R)"
    proof (rule Suc.IH)
      show "sort_key ag_id (filter (agent_matches ns q) (db_agents d)) = (A @ take ?k R) @ drop ?k R" using Suc(2) by simp
      show "lo_cursor ?q = (if A @ take ?k R = [] then None else Some (ag_id (last (A @ take ?k R))))" using ne by simp
      show "?q = q\<lparr>lo_cursor := lo_cursor ?q\<rparr>" by (subst Suc(4)) simp
      show "length (drop ?k R) < n" using Suc(5) k False by simp
    qed
    with p False cur show ?thesis by simp
  qed
qed simp

text \<open>C33. Following the cursors of the list of agents visits every agent that matches the query exactly once, in
  the order of the identifiers, and ends: the pages together are the result of the query without limit.\<close>

theorem pages_are_complete:
  assumes "ids_ok d" and "list_ok q" and "lo_cursor q = None"
  shows "follow_pages (Suc (length (db_agents d))) ns q d = Some (sort_key ag_id (filter (agent_matches ns q) (db_agents d)))"
proof (rule follow_pages_complete[OF assms(1,2)])
  show "length (sort_key ag_id (filter (agent_matches ns q) (db_agents d))) < Suc (length (db_agents d))" by (simp add: le_imp_less_Suc)
qed (use assms(3) in simp_all)

definition demo_agent :: "string \<Rightarrow> string \<Rightarrow> agent_row" where
  "demo_agent i n = new_agent_row i 0 \<lparr>na_namespace = ''default'', na_name = n, na_apiVersion = None, na_kind = None, na_spec = None,
     na_status = None, na_labels = None, na_annotations = None, na_createdBy = None\<rparr>"

definition demo_agents :: agent_db where
  "demo_agents = \<lparr>db_agents = [demo_agent ''c'' ''x'', demo_agent ''a'' ''y'', demo_agent ''b'' ''z''], db_versions = []\<rparr>"

definition demo_query :: list_options where
  "demo_query = \<lparr>lo_phase = Some ''Pending'', lo_labels = None, lo_search = None, lo_cursor = None, lo_pageSize = Some 2\<rparr>"

theorem pages_are_complete_witness:
  "map_option (map ag_id) (follow_pages 4 ''default'' demo_query demo_agents) = Some [''a'', ''b'', ''c'']"
proof -
  have "ids_ok demo_agents" "list_ok demo_query" "lo_cursor demo_query = None" "Suc (length (db_agents demo_agents)) = 4" by code_simp+
  moreover have "map ag_id (sort_key ag_id (filter (agent_matches ''default'' demo_query) (db_agents demo_agents))) = [''a'', ''b'', ''c'']"
    by code_simp
  ultimately show ?thesis using pages_are_complete[of demo_agents demo_query "''default''"] by simp
qed

section \<open>The history of an agent\<close>

datatype agent_op =
    Create string int new_agent
  | Update bool string int string string agent_change
  | Delete int string string
  | Rollback bool string int string string int

fun agent_op_run :: "(version_row list \<Rightarrow> version_row) \<Rightarrow> agent_op \<Rightarrow> agent_db \<Rightarrow> agent_db" where
  "agent_op_run first (Create uuid now p) d = snd (create_agent uuid now p d)"
| "agent_op_run first (Update fails uuid now ns name c) d = snd (update_agent fails uuid now ns name c d)"
| "agent_op_run first (Delete now ns name) d = snd (softDelete now ns name d)"
| "agent_op_run first (Rollback fails uuid now ns name n) d = snd (rollbackToVersion first fails uuid now ns name n d)"

fun deletes :: "string \<Rightarrow> string \<Rightarrow> agent_op \<Rightarrow> bool" where
  "deletes ns name (Delete now ns' name') = (ns' = ns \<and> name' = name)"
| "deletes ns name _ = False"

abbreviation content :: "agent_row \<Rightarrow> jsonb \<times> jsonb \<times> jsonb" where
  "content r \<equiv> (ag_spec r, ag_labels r, ag_annotations r)"

abbreviation snapshot_content :: "version_row \<Rightarrow> jsonb \<times> jsonb \<times> jsonb" where
  "snapshot_content v \<equiv> (av_spec v, av_labels v, av_annotations v)"

text \<open>The content of version \<open>n\<close> of an agent, wherever it is kept, is \<open>C\<close>.\<close>

definition remembers :: "string \<Rightarrow> string \<Rightarrow> int \<Rightarrow> jsonb \<times> jsonb \<times> jsonb \<Rightarrow> agent_db \<Rightarrow> bool" where
  "remembers ns name n C d \<longleftrightarrow>
     (\<exists>r. findByNamespaceAndName ns name d = Some r \<and> n \<le> ag_version r \<and> (ag_version r = n \<longrightarrow> content r = C)) \<and>
     list_all (\<lambda>v. snapshot_content v = C) (snapshots_at ns name n d)"

text \<open>An update of rows keeps their key.\<close>

definition keeps_key :: "(agent_row \<Rightarrow> agent_row) \<Rightarrow> bool" where
  "keeps_key f \<longleftrightarrow> (\<forall>r. ag_namespace (f r) = ag_namespace r \<and> ag_name (f r) = ag_name r \<and> ag_deleted_at (f r) = ag_deleted_at r \<and> ag_id (f r) = ag_id r)"

lemma find_update_live:
  "keeps_key f \<Longrightarrow> findByNamespaceAndName ns name (update_live ns name f d) = map_option f (findByNamespaceAndName ns name d)"
proof -
  assume f: "keeps_key f"
  have "find (live_agent ns name) (map (\<lambda>r. if live_agent ns name r then f r else r) rs) = map_option f (find (live_agent ns name) rs)" for rs
    using f by (induction rs) (auto simp: keeps_key_def live_agent_def)
  then show ?thesis by (simp add: findByNamespaceAndName_def update_live_def)
qed

lemma find_update_elsewhere:
  assumes "(ns', name') \<noteq> (ns, name)" and "\<And>r. ag_namespace (f r) = ag_namespace r \<and> ag_name (f r) = ag_name r"
  shows "findByNamespaceAndName ns name (update_live ns' name' f d) = findByNamespaceAndName ns name d"
proof -
  have "find (live_agent ns name) (map (\<lambda>r. if live_agent ns' name' r then f r else r) rs) = find (live_agent ns name) rs" for rs
    using assms by (induction rs) (auto simp: live_agent_def)
  then show ?thesis by (simp add: findByNamespaceAndName_def update_live_def)
qed

lemma keeps_key_ops: "keeps_key (apply_change now c)" "keeps_key (restore now v)"
  by (simp_all add: keeps_key_def apply_change_def restore_def)

lemma versions_update_live [simp]: "db_versions (update_live ns name f d) = db_versions d"
  by (simp add: update_live_def)

lemma snapshots_update_live [simp]: "snapshots_at a b n (update_live ns name f d) = snapshots_at a b n d"
  by (simp add: snapshots_at_def versions_of_def)

lemma createVersionSnapshot_SomeD:
  "createVersionSnapshot fails v d = Some d' \<Longrightarrow> d' = d\<lparr>db_versions := db_versions d @ [v]\<rparr> \<and> \<not> fails"
  by (auto simp: createVersionSnapshot_def split: if_splits)

lemma find_versions [simp]: "findByNamespaceAndName ns name (d\<lparr>db_versions := vs\<rparr>) = findByNamespaceAndName ns name d"
  by (simp add: findByNamespaceAndName_def)

lemma find_live: "findByNamespaceAndName ns name d = Some r \<Longrightarrow> live_agent ns name r"
  by (auto simp: findByNamespaceAndName_def find_Some_iff)

text \<open>Adding the snapshot of a live agent keeps what is remembered.\<close>

lemma remembers_snapshot:
  assumes m: "remembers ns name n C d" and r: "findByNamespaceAndName ns' name' d = Some r"
  shows "remembers ns name n C (d\<lparr>db_versions := db_versions d @ [snapshot uuid now r who why]\<rparr>)"
proof -
  have "live_agent ns' name' r" using r by (rule find_live)
  then have "snapshots_at ns name n (d\<lparr>db_versions := db_versions d @ [snapshot uuid now r who why]\<rparr>) =
      snapshots_at ns name n d @ (if (ns', name') = (ns, name) \<and> ag_version r = n then [snapshot uuid now r who why] else [])"
    by (auto simp: snapshots_at_def versions_of_def snapshot_def live_agent_def)
  moreover have "snapshot_content (snapshot uuid now r who why) = content r" by (simp add: snapshot_def)
  ultimately show ?thesis using m r by (auto simp: remembers_def)
qed

lemma remembers_grow:
  assumes m: "remembers ns name n C d" and f: "keeps_key f" "\<And>r. ag_version (f r) = ag_version r + 1"
  shows "remembers ns name n C (update_live ns' name' f d)"
proof (cases "(ns', name') = (ns, name)")
  case True
  then show ?thesis using m f by (auto simp: remembers_def find_update_live)
next
  case False
  have "findByNamespaceAndName ns name (update_live ns' name' f d) = findByNamespaceAndName ns name d"
    using False f(1) by (intro find_update_elsewhere) (auto simp: keeps_key_def)
  then show ?thesis using m by (simp add: remembers_def)
qed

lemma remembers_step: "remembers ns name n C d \<Longrightarrow> \<not> deletes ns name op \<Longrightarrow> remembers ns name n C (agent_op_run first op d)"
proof (induction first op d rule: agent_op_run.induct)
  case (1 first uuid now p d)
  then obtain r where r: "findByNamespaceAndName ns name d = Some r" by (auto simp: remembers_def)
  have "findByNamespaceAndName ns name (d\<lparr>db_agents := db_agents d @ xs\<rparr>) = Some r" for xs
    using r find_append_Some by (simp add: findByNamespaceAndName_def)
  with 1 r show ?case by (simp add: create_agent_def Let_def remembers_def snapshots_at_def versions_of_def)
next
  case (2 first fails uuid now ns' name' c d)
  have snap: "remembers ns name n C (snapshot_before_update fails uuid now ns' name' c d)"
  proof (cases "findByNamespaceAndName ns' name' d")
    case (Some r)
    let ?s = "snapshot uuid now r (if truthy (ch_summary c) then ''user'' else ''system'')
      (env_or (ch_summary c) (''Updated to v'' @ show_int (ag_version r + 1)))"
    show ?thesis
    proof (cases "createVersionSnapshot fails ?s d")
      case (Some d')
      with createVersionSnapshot_SomeD[OF this] remembers_snapshot[OF 2(1) \<open>findByNamespaceAndName ns' name' d = Some r\<close>]
      show ?thesis using \<open>findByNamespaceAndName ns' name' d = Some r\<close> by (simp add: snapshot_before_update_def nullish_def)
    qed (use Some 2 in \<open>simp add: snapshot_before_update_def nullish_def\<close>)
  qed (use 2 in \<open>simp add: snapshot_before_update_def\<close>)
  then show ?case
    using remembers_grow[OF snap keeps_key_ops(1)] by (simp add: update_agent_def Let_def apply_change_def)
next
  case (3 first now ns' name' d)
  then have "findByNamespaceAndName ns name (update_live ns' name' (\<lambda>r. r\<lparr>ag_deleted_at := Some now, ag_updated_at := now\<rparr>) d) =
      findByNamespaceAndName ns name d"
    by (intro find_update_elsewhere) auto
  with 3 show ?case by (simp add: softDelete_def remembers_def)
next
  case (4 first fails uuid now ns' name' m d)
  show ?case
  proof (cases "\<exists>v r d1. getVersion first ns' name' m d = Some v \<and> findByNamespaceAndName ns' name' d = Some r \<and>
      createVersionSnapshot fails (snapshot uuid now r ''system'' (''Auto-saved before rollback to v'' @ show_int m)) d = Some d1")
    case True
    then obtain v r d1 where v: "getVersion first ns' name' m d = Some v" "findByNamespaceAndName ns' name' d = Some r"
      "createVersionSnapshot fails (snapshot uuid now r ''system'' (''Auto-saved before rollback to v'' @ show_int m)) d = Some d1" by blast
    have "remembers ns name n C d1"
      using createVersionSnapshot_SomeD[OF v(3)] remembers_snapshot[OF 4(1) v(2)] by simp
    from remembers_grow[OF this keeps_key_ops(2)] v show ?thesis
      by (simp add: rollbackToVersion_def Let_def restore_def)
  next
    case False
    with 4 show ?thesis by (auto simp: rollbackToVersion_def split: option.split)
  qed
qed

lemma remembers_run: "remembers ns name n C d \<Longrightarrow> \<not> list_ex (deletes ns name) ops \<Longrightarrow> remembers ns name n C (fold (agent_op_run first) ops d)"
  by (induction ops arbitrary: d) (simp_all add: remembers_step)


text \<open>But the history is kept under the name and outlives the agent: after an agent was deleted and another
  one created under its name, a rollback of the new agent to an old version number that it never had gives it the content of the
  deleted agent.\<close>

theorem rollback_resurrects_deleted:
  assumes "findByNamespaceAndName ns name d = Some r" and "snapshots_at ns name n d \<noteq> []"
    and "\<And>vs. vs \<noteq> [] \<Longrightarrow> first vs \<in> set vs"
    and "d1 = snd (softDelete t ns name d)" and "create_agent uuid t1 p d1 = (Inr fresh, d2)"
    and "na_namespace p = ns" and "na_name p = name"
    and "rollbackToVersion first False uuid2 t2 ns name n d2 = (Inr (Some r'), d3)"
  shows "ag_id r' = uuid \<and> (\<exists>v \<in> set (snapshots_at ns name n d). content r' = snapshot_content v)"
proof -
  have d2: "d2 = d1\<lparr>db_agents := db_agents d1 @ [fresh]\<rparr>" "fresh = new_agent_row uuid t1 p"
    using assms(5) by (auto simp: create_agent_def Let_def split: if_splits)
  have none: "find (live_agent ns name) (db_agents d1) = None"
  proof -
    have "\<not> live_agent ns name (x\<lparr>ag_deleted_at := Some t, ag_updated_at := t\<rparr>)" for x
      by (simp add: live_agent_def)
    then show ?thesis by (auto simp: assms(4) softDelete_def update_live_def find_None_iff)
  qed
  have "live_agent ns name fresh" using assms(6,7) by (simp add: d2 new_agent_row_def live_agent_def)
  then have cur: "findByNamespaceAndName ns name d2 = Some fresh"
    using none by (simp add: d2(1) findByNamespaceAndName_def find_append_None)
  have same: "snapshots_at ns name n d2 = snapshots_at ns name n d"
    unfolding d2(1) assms(4) softDelete_def by (simp add: snapshots_at_def versions_of_def)
  from assms(8) obtain v d3' where v: "getVersion first ns name n d2 = Some v"
    "createVersionSnapshot False (snapshot uuid2 t2 fresh ''system'' (''Auto-saved before rollback to v'' @ show_int n)) d2 = Some d3'"
    and r': "findByNamespaceAndName ns name (update_live ns name (restore t2 v) d3') = Some r'"
    by (auto simp: rollbackToVersion_def Let_def cur split: option.splits)
  have "findByNamespaceAndName ns name d3' = Some fresh" using createVersionSnapshot_SomeD[OF v(2)] cur by simp
  then have "r' = restore t2 v fresh" using r' by (simp add: find_update_live[OF keeps_key_ops(2)])
  moreover have "v \<in> set (snapshots_at ns name n d)" using v(1) assms(3) same by (auto simp: getVersion_def Let_def split: if_splits)
  ultimately show ?thesis by (auto simp: restore_def d2(2) new_agent_row_def)
qed

section \<open>A run\<close>

definition demo_change :: agent_change where
  "demo_change = \<lparr>ch_spec = Some [(''model'', JStr ''new'')], ch_labels = None, ch_annotations = None, ch_summary = None\<rparr>"

definition demo_params :: new_agent where
  "demo_params = \<lparr>na_namespace = ''default'', na_name = ''x'', na_apiVersion = None, na_kind = None, na_spec = Some [(''model'', JStr ''old'')],
     na_status = None, na_labels = None, na_annotations = None, na_createdBy = None\<rparr>"

definition demo_created :: agent_db where
  "demo_created = snd (create_agent ''u'' 0 demo_params \<lparr>db_agents = [], db_versions = []\<rparr>)"

definition demo_updates :: "agent_op list" where
  "demo_updates = [Update False ''v1'' 1 ''default'' ''x'' demo_change, Update False ''v2'' 2 ''default'' ''x'' demo_change]"


theorem rollback_resurrects_deleted_witness:
  "(case rollbackToVersion hd False ''v9'' 9 ''default'' ''x'' 2
       (snd (create_agent ''w'' 6 (demo_params\<lparr>na_spec := None\<rparr>)
         (snd (softDelete 5 ''default'' ''x'' (fold (agent_op_run hd) demo_updates demo_created))))) of
     (Inr (Some r'), d3) \<Rightarrow> ag_id r' = ''w'' \<and>
       list_ex (\<lambda>v. content r' = snapshot_content v) (snapshots_at ''default'' ''x'' 2 (fold (agent_op_run hd) demo_updates demo_created))
   | _ \<Rightarrow> False)"
proof -
  let ?d = "fold (agent_op_run hd) demo_updates demo_created"
  let ?d1 = "snd (softDelete 5 ''default'' ''x'' ?d)"
  let ?p = "demo_params\<lparr>na_spec := None\<rparr>"
  have "findByNamespaceAndName ''default'' ''x'' ?d \<noteq> None" by code_simp
  then obtain r where r: "findByNamespaceAndName ''default'' ''x'' ?d = Some r" by blast
  have ne: "snapshots_at ''default'' ''x'' 2 ?d \<noteq> []" by code_simp
  obtain f d2 where c: "create_agent ''w'' 6 ?p ?d1 = (f, d2)" by fastforce
  have "\<not> isl (fst (create_agent ''w'' 6 ?p ?d1))" by code_simp
  then obtain fresh where f: "f = Inr fresh" using c by (cases f) simp_all
  obtain x d3 where b: "rollbackToVersion hd False ''v9'' 9 ''default'' ''x'' 2 d2 = (x, d3)" by fastforce
  have "(case fst (rollbackToVersion hd False ''v9'' 9 ''default'' ''x'' 2 (snd (create_agent ''w'' 6 ?p ?d1))) of Inr (Some r) \<Rightarrow> True | _ \<Rightarrow> False)"
    by code_simp
  then obtain r' where x: "x = Inr (Some r')" using c b by (auto split: sum.splits option.splits)
  have "na_namespace ?p = ''default''" "na_name ?p = ''x''" by (simp_all add: demo_params_def)
  from rollback_resurrects_deleted[OF r ne _ refl c[unfolded f] this b[unfolded x]]
  show ?thesis using c b x by (auto simp: list_ex_iff)
qed

end
