(* ===== verification/Namespaces.thy ===== *)
theory Namespaces
  imports JsRegex AuditChain
begin

text \<open>
  Namespaces: the model of \<open>packages/shared/src/namespaces/model.ts\<close>, the repository and the handlers of
  \<open>control-plane/api-server/src/namespaces\<close>. Rows are in the order of insertion, times in milliseconds; the
  database's reading of a UUID is a parameter. A request has the members that its message declares;
  \<open>None\<close> is an absent member.
\<close>

section \<open>The model\<close>

datatype tier = Sandbox | Standard | Enterprise

record quotas =
  qs_maxAgents :: int
  qs_maxConcurrentExecutions :: int
  qs_maxMemoryMB :: int
  qs_maxToolCallsPerMinute :: int

record ns_record =
  ns_id :: string
  ns_slug :: string
  ns_displayName :: string
  ns_tier :: tier
  ns_ownerId :: string
  ns_quotas :: quotas
  ns_createdAt :: int
  ns_updatedAt :: int
  ns_suspendedAt :: "int option"
  ns_deletedAt :: "int option"

fun DEFAULT_QUOTAS :: "tier \<Rightarrow> quotas" where
  "DEFAULT_QUOTAS Sandbox = \<lparr>qs_maxAgents = 5, qs_maxConcurrentExecutions = 2, qs_maxMemoryMB = 512, qs_maxToolCallsPerMinute = 30\<rparr>"
| "DEFAULT_QUOTAS Standard = \<lparr>qs_maxAgents = 50, qs_maxConcurrentExecutions = 20, qs_maxMemoryMB = 8192, qs_maxToolCallsPerMinute = 500\<rparr>"
| "DEFAULT_QUOTAS Enterprise = \<lparr>qs_maxAgents = 1000, qs_maxConcurrentExecutions = 200, qs_maxMemoryMB = 131072, qs_maxToolCallsPerMinute = 10000\<rparr>"

definition slug_char :: "char \<Rightarrow> bool" where
  "slug_char c \<longleftrightarrow> between (CHR ''a'') (CHR ''z'') c \<or> is_digit c \<or> c = CHR ''-''"

definition SLUG_RE :: regex where
  "SLUG_RE = Cat [Bol, Rep 3 (Some 63) (Cls slug_char), Eol]"

definition validateSlug :: "string \<Rightarrow> bool" where
  "validateSlug slug = rx_test SLUG_RE slug"

definition isNamespaceSuspended :: "ns_record \<Rightarrow> bool" where
  "isNamespaceSuspended ns \<longleftrightarrow> ns_suspendedAt ns \<noteq> None \<and> ns_deletedAt ns = None"

definition isNamespaceDeleted :: "ns_record \<Rightarrow> bool" where
  "isNamespaceDeleted ns \<longleftrightarrow> ns_deletedAt ns \<noteq> None"

section \<open>The repository\<close>

type_synonym namespaces = "ns_record list"

record new_ns =
  nn_slug :: string
  nn_displayName :: string
  nn_tier :: tier
  nn_ownerId :: string
  nn_quotas :: quotas

datatype db_error = Unique_violation | Other_error string

definition int32 :: "int \<Rightarrow> bool" where
  "int32 i \<longleftrightarrow> - 2147483648 \<le> i \<and> i \<le> 2147483647"

text \<open>The slug of a deleted row is still in the column that is declared unique.\<close>

definition ns_create ::
  "(string \<Rightarrow> string option) \<Rightarrow> string \<Rightarrow> int \<Rightarrow> new_ns \<Rightarrow> namespaces \<Rightarrow> (db_error + ns_record) \<times> namespaces" where
  "ns_create uuid_of uuid now p rows =
     (let q = nn_quotas p
      in case uuid_of (nn_ownerId p) of
           None \<Rightarrow> (Inl (Other_error (''invalid input syntax for type uuid: '' @ CHR 0x22 # nn_ownerId p @ [CHR 0x22])), rows)
         | Some owner \<Rightarrow>
             if \<not> list_all int32 [qs_maxAgents q, qs_maxConcurrentExecutions q, qs_maxMemoryMB q, qs_maxToolCallsPerMinute q]
             then (Inl (Other_error ''integer out of range''), rows)
             else if 63 < length (nn_slug p) \<or> 255 < length (nn_displayName p) then (Inl (Other_error ''value too long''), rows)
             else if list_ex (\<lambda>r. ns_slug r = nn_slug p \<or> ns_id r = uuid) rows then (Inl Unique_violation, rows)
             else let r = \<lparr>ns_id = uuid, ns_slug = nn_slug p, ns_displayName = nn_displayName p, ns_tier = nn_tier p, ns_ownerId = owner,
                    ns_quotas = q, ns_createdAt = now, ns_updatedAt = now, ns_suspendedAt = None, ns_deletedAt = None\<rparr>
               in (Inr r, rows @ [r]))"

definition live_slug :: "string \<Rightarrow> ns_record \<Rightarrow> bool" where
  "live_slug slug r \<longleftrightarrow> ns_slug r = slug \<and> ns_deletedAt r = None"

definition findBySlug :: "string \<Rightarrow> namespaces \<Rightarrow> ns_record option" where
  "findBySlug slug rows = find (live_slug slug) rows"

text \<open>\<open>UPDATE namespaces SET ... WHERE slug = $1 AND deleted_at IS NULL RETURNING *\<close>: the first updated row.\<close>

definition update_slug :: "string \<Rightarrow> (ns_record \<Rightarrow> ns_record) \<Rightarrow> namespaces \<Rightarrow> ns_record option \<times> namespaces" where
  "update_slug slug f rows = (map_option f (findBySlug slug rows), map (\<lambda>r. if live_slug slug r then f r else r) rows)"

record ns_query =
  sq_ownerId :: "string option"
  sq_pageSize :: "int option"
  sq_pageToken :: "string option"

definition ns_matches :: "(string \<Rightarrow> string option) \<Rightarrow> ns_query \<Rightarrow> ns_record \<Rightarrow> bool" where
  "ns_matches uuid_of q r \<longleftrightarrow> ns_deletedAt r = None \<and> (truthy (sq_ownerId q) \<longrightarrow> uuid_of (the (sq_ownerId q)) = Some (ns_ownerId r))"

text \<open>\<open>(SELECT created_at FROM namespaces WHERE id = $n) < ns.created_at\<close>; no row compares to nothing.\<close>

definition token_allows :: "(string \<Rightarrow> string option) \<Rightarrow> ns_query \<Rightarrow> namespaces \<Rightarrow> ns_record \<Rightarrow> bool" where
  "token_allows uuid_of q rows r \<longleftrightarrow>
     (truthy (sq_pageToken q) \<longrightarrow>
        (case find (\<lambda>x. Some (ns_id x) = uuid_of (the (sq_pageToken q))) rows of None \<Rightarrow> False | Some x \<Rightarrow> ns_createdAt x < ns_createdAt r))"

record ns_page =
  np_namespaces :: "ns_record list"
  np_nextPageToken :: string
  np_totalCount :: nat

definition bad_uuid :: "(string \<Rightarrow> string option) \<Rightarrow> string option \<Rightarrow> bool" where
  "bad_uuid uuid_of v \<longleftrightarrow> truthy v \<and> uuid_of (the v) = None"

definition ns_list :: "(string \<Rightarrow> string option) \<Rightarrow> ns_query \<Rightarrow> namespaces \<Rightarrow> string + ns_page" where
  "ns_list uuid_of q rows =
     (let pageSize = min (nullish (sq_pageSize q) 50) 100
      in if bad_uuid uuid_of (sq_ownerId q) \<or> bad_uuid uuid_of (sq_pageToken q) then Inl ''invalid input syntax for type uuid''
         else if pageSize + 1 < 0 then Inl ''LIMIT must not be negative''
         else let found = filter (\<lambda>r. ns_matches uuid_of q r \<and> token_allows uuid_of q rows r) rows;
                  got = take (nat (pageSize + 1)) (sort_key (\<lambda>r. - ns_createdAt r) found);
                  hasNext = pageSize < int (length got);
                  page = (if hasNext then take (nat pageSize) got else got)
           in if hasNext \<and> page = [] then Inl ''Cannot read properties of undefined''
              else Inr \<lparr>np_namespaces = page, np_nextPageToken = (if hasNext then ns_id (last page) else []), np_totalCount = length found\<rparr>)"

record quota_change =
  qc_maxAgents :: "int option"
  qc_maxConcurrentExecutions :: "int option"
  qc_maxMemoryMB :: "int option"
  qc_maxToolCallsPerMinute :: "int option"

definition change_quotas :: "quota_change \<Rightarrow> quotas \<Rightarrow> quotas" where
  "change_quotas c q = \<lparr>qs_maxAgents = nullish (qc_maxAgents c) (qs_maxAgents q),
     qs_maxConcurrentExecutions = nullish (qc_maxConcurrentExecutions c) (qs_maxConcurrentExecutions q),
     qs_maxMemoryMB = nullish (qc_maxMemoryMB c) (qs_maxMemoryMB q),
     qs_maxToolCallsPerMinute = nullish (qc_maxToolCallsPerMinute c) (qs_maxToolCallsPerMinute q)\<rparr>"

definition ns_update :: "int \<Rightarrow> string \<Rightarrow> string option \<Rightarrow> quota_change option \<Rightarrow> namespaces \<Rightarrow> ns_record option \<times> namespaces" where
  "ns_update now slug displayName quotas rows =
     update_slug slug (\<lambda>r. r\<lparr>ns_updatedAt := now, ns_displayName := nullish displayName (ns_displayName r),
       ns_quotas := (case quotas of None \<Rightarrow> ns_quotas r | Some c \<Rightarrow> change_quotas c (ns_quotas r))\<rparr>) rows"

definition ns_suspend :: "int \<Rightarrow> string \<Rightarrow> namespaces \<Rightarrow> ns_record option \<times> namespaces" where
  "ns_suspend now slug rows = update_slug slug (\<lambda>r. r\<lparr>ns_suspendedAt := Some now, ns_updatedAt := now\<rparr>) rows"

definition ns_softDelete :: "int \<Rightarrow> string \<Rightarrow> namespaces \<Rightarrow> ns_record option \<times> namespaces" where
  "ns_softDelete now slug rows = update_slug slug (\<lambda>r. r\<lparr>ns_deletedAt := Some now, ns_updatedAt := now\<rparr>) rows"

section \<open>The handlers\<close>

fun tier_proto :: "tier \<Rightarrow> string" where
  "tier_proto Sandbox = ''NAMESPACE_TIER_SANDBOX''"
| "tier_proto Standard = ''NAMESPACE_TIER_STANDARD''"
| "tier_proto Enterprise = ''NAMESPACE_TIER_ENTERPRISE''"

definition tierFromProto :: "string \<Rightarrow> tier" where
  "tierFromProto p =
     (case map_of [(''NAMESPACE_TIER_SANDBOX'', Sandbox), (''NAMESPACE_TIER_STANDARD'', Standard), (''NAMESPACE_TIER_ENTERPRISE'', Enterprise),
        (''sandbox'', Sandbox), (''standard'', Standard), (''enterprise'', Enterprise)] p of
        Some t \<Rightarrow> t | None \<Rightarrow> Sandbox)"

record timestamp =
  tm_seconds :: int
  tm_nanos :: int

text \<open>For times from 1970 on.\<close>

definition toTimestamp :: "int \<Rightarrow> timestamp" where
  "toTimestamp ms = \<lparr>tm_seconds = ms div 1000, tm_nanos = ms mod 1000 * 1000000\<rparr>"

record proto_ns =
  pn_id :: string
  pn_slug :: string
  pn_display_name :: string
  pn_tier :: string
  pn_owner_id :: string
  pn_quotas :: quotas
  pn_created_at :: timestamp
  pn_updated_at :: timestamp
  pn_suspended_at :: "timestamp option"

definition toProtoNamespace :: "ns_record \<Rightarrow> proto_ns" where
  "toProtoNamespace ns = \<lparr>pn_id = ns_id ns, pn_slug = ns_slug ns, pn_display_name = ns_displayName ns, pn_tier = tier_proto (ns_tier ns),
     pn_owner_id = ns_ownerId ns, pn_quotas = ns_quotas ns, pn_created_at = toTimestamp (ns_createdAt ns),
     pn_updated_at = toTimestamp (ns_updatedAt ns), pn_suspended_at = map_option toTimestamp (ns_suspendedAt ns)\<rparr>"

text \<open>A call: the clock and the random values, and what the audit entry needs.\<close>

record ns_call =
  nc_now :: int
  nc_uuid :: string
  nc_stamp :: string
  nc_event :: string

record ns_lib =
  nl_uuid_of :: "string \<Rightarrow> string option"
  nl_sha256 :: "string \<Rightarrow> string"
  nl_env :: "string \<Rightarrow> string option"

record ns_state =
  ss_rows :: namespaces
  ss_audit :: audit_state

definition audit_ns :: "ns_lib \<Rightarrow> ns_call \<Rightarrow> string \<Rightarrow> audit_severity \<Rightarrow> string \<Rightarrow> string option \<Rightarrow> string \<Rightarrow> ns_state \<Rightarrow> ns_state" where
  "audit_ns L c event sev act reason slug s =
     s\<lparr>ss_audit := snd (createAuditEntry (nl_sha256 L) (nl_env L) (nc_stamp c)
       \<lparr>ab_timestamp = nc_stamp c, ab_eventId = nc_event c, ab_eventType = event, ab_severity = sev,
        ab_actor = \<lparr>aa_type = ''service'', aa_id = ''api-server'', aa_namespace = None, aa_authMethod = None, aa_spiffeId = None\<rparr>,
        ab_target = Some \<lparr>at_type = ''namespace'', at_id = slug, at_namespace = None\<rparr>,
        ab_action = \<lparr>an_name = act, an_parameters = None, an_result = ''allowed'', an_reason = reason\<rparr>,
        ab_context = \<lparr>ac_requestId = None, ac_sessionId = None, ac_ipAddress = None, ac_userAgent = None\<rparr>\<rparr> (ss_audit s))\<rparr>"

record create_request =
  cq_slug :: string
  cq_tier :: string
  cq_display_name :: "string option"
  cq_owner_id :: "string option"
  cq_quotas :: "quota_change option"

definition CreateNamespace :: "ns_lib \<Rightarrow> ns_call \<Rightarrow> create_request \<Rightarrow> ns_state \<Rightarrow> (string + proto_ns) \<times> ns_state" where
  "CreateNamespace L c req s =
     (let slug = cq_slug req; tier = tierFromProto (cq_tier req); defaults = DEFAULT_QUOTAS tier
      in if \<not> validateSlug slug
         then (Inl (''Invalid namespace slug: '' @ slug @ ''. Must be 3-63 lowercase alphanumeric characters or hyphens.''), s)
         else case ns_create (nl_uuid_of L) (nc_uuid c) (nc_now c)
                \<lparr>nn_slug = slug, nn_displayName = nullish (cq_display_name req) slug, nn_tier = tier, nn_ownerId = nullish (cq_owner_id req) [],
                 nn_quotas = (case cq_quotas req of None \<Rightarrow> defaults | Some q \<Rightarrow> change_quotas q defaults)\<rparr> (ss_rows s) of
             (Inl Unique_violation, rows) \<Rightarrow> (Inl (''Namespace already exists: '' @ slug), s\<lparr>ss_rows := rows\<rparr>)
           | (Inl (Other_error m), rows) \<Rightarrow> (Inl (''Failed to create namespace: '' @ m), s\<lparr>ss_rows := rows\<rparr>)
           | (Inr ns, rows) \<Rightarrow>
               (Inr (toProtoNamespace ns), audit_ns L c ''namespace.create'' Sev_info ''CreateNamespace'' None slug (s\<lparr>ss_rows := rows\<rparr>)))"

definition not_found :: "string \<Rightarrow> string" where
  "not_found slug = ''Namespace not found: '' @ slug"

definition GetNamespace :: "string \<Rightarrow> ns_state \<Rightarrow> string + proto_ns" where
  "GetNamespace slug s = (case findBySlug slug (ss_rows s) of None \<Rightarrow> Inl (not_found slug) | Some ns \<Rightarrow> Inr (toProtoNamespace ns))"

record proto_ns_page =
  pp_namespaces :: "proto_ns list"
  pp_next_page_token :: string
  pp_total_count :: nat

definition ListNamespaces :: "ns_lib \<Rightarrow> string option \<Rightarrow> int option \<Rightarrow> string option \<Rightarrow> ns_state \<Rightarrow> string + proto_ns_page" where
  "ListNamespaces L owner_id page_size page_token s =
     (case ns_list (nl_uuid_of L) \<lparr>sq_ownerId = owner_id, sq_pageSize = Some (if page_size = None \<or> page_size = Some 0 then 50 else the page_size),
        sq_pageToken = page_token\<rparr> (ss_rows s) of
        Inl m \<Rightarrow> Inl (''Failed to list namespaces: '' @ m)
      | Inr p \<Rightarrow> Inr \<lparr>pp_namespaces = map toProtoNamespace (np_namespaces p), pp_next_page_token = np_nextPageToken p, pp_total_count = np_totalCount p\<rparr>)"

definition answer_updated :: "string \<Rightarrow> ns_record option \<times> namespaces \<Rightarrow> ns_state \<Rightarrow> (string + proto_ns) \<times> ns_state" where
  "answer_updated slug res s =
     (case res of (None, rows) \<Rightarrow> (Inl (not_found slug), s\<lparr>ss_rows := rows\<rparr>) | (Some ns, rows) \<Rightarrow> (Inr (toProtoNamespace ns), s\<lparr>ss_rows := rows\<rparr>))"

definition quota_out_of_range :: "quota_change option \<Rightarrow> bool" where
  "quota_out_of_range q =
     (case q of None \<Rightarrow> False
      | Some c \<Rightarrow> \<not> list_all (\<lambda>v. case v of None \<Rightarrow> True | Some i \<Rightarrow> int32 i)
          [qc_maxAgents c, qc_maxConcurrentExecutions c, qc_maxMemoryMB c, qc_maxToolCallsPerMinute c])"

definition UpdateNamespace ::
  "ns_call \<Rightarrow> string \<Rightarrow> string option \<Rightarrow> quota_change option \<Rightarrow> ns_state \<Rightarrow> (string + proto_ns) \<times> ns_state" where
  "UpdateNamespace c slug display_name quotas s =
     (if findBySlug slug (ss_rows s) \<noteq> None \<and> (255 < length (nullish display_name []) \<or> quota_out_of_range quotas)
      then (Inl ''Failed to update namespace: value out of range'', s)
      else answer_updated slug (ns_update (nc_now c) slug display_name quotas (ss_rows s)) s)"

definition SuspendNamespace :: "ns_lib \<Rightarrow> ns_call \<Rightarrow> string \<Rightarrow> string option \<Rightarrow> ns_state \<Rightarrow> (string + proto_ns) \<times> ns_state" where
  "SuspendNamespace L c slug reason s =
     (case answer_updated slug (ns_suspend (nc_now c) slug (ss_rows s)) s of
        (Inl e, s') \<Rightarrow> (Inl e, s')
      | (Inr p, s') \<Rightarrow> (Inr p, audit_ns L c ''namespace.suspend'' Sev_warn ''SuspendNamespace'' reason slug s'))"

definition DeleteNamespace :: "ns_lib \<Rightarrow> ns_call \<Rightarrow> string \<Rightarrow> ns_state \<Rightarrow> (string + unit) \<times> ns_state" where
  "DeleteNamespace L c slug s =
     (case answer_updated slug (ns_softDelete (nc_now c) slug (ss_rows s)) s of
        (Inl e, s') \<Rightarrow> (Inl e, s')
      | (Inr p, s') \<Rightarrow> (Inr (), audit_ns L c ''namespace.delete'' Sev_warn ''DeleteNamespace'' None slug s'))"

section \<open>Listing\<close>

text \<open>A client that follows the page tokens.\<close>

fun follow_tokens :: "nat \<Rightarrow> (string \<Rightarrow> string option) \<Rightarrow> ns_query \<Rightarrow> namespaces \<Rightarrow> ns_record list option" where
  "follow_tokens 0 uuid_of q rows = None"
| "follow_tokens (Suc n) uuid_of q rows =
     (case ns_list uuid_of q rows of
        Inl e \<Rightarrow> None
      | Inr p \<Rightarrow> if np_nextPageToken p = [] then Some (np_namespaces p)
          else map_option (\<lambda>rest. np_namespaces p @ rest) (follow_tokens n uuid_of (q\<lparr>sq_pageToken := Some (np_nextPageToken p)\<rparr>) rows))"

text \<open>The namespaces of a query, the newest first.\<close>

definition newest_first :: "(string \<Rightarrow> string option) \<Rightarrow> ns_query \<Rightarrow> namespaces \<Rightarrow> ns_record list" where
  "newest_first uuid_of q rows = sort_key (\<lambda>r. - ns_createdAt r) (filter (ns_matches uuid_of q) rows)"

definition rows_ok :: "(string \<Rightarrow> string option) \<Rightarrow> namespaces \<Rightarrow> bool" where
  "rows_ok uuid_of rows \<longleftrightarrow> distinct (map ns_id rows) \<and> distinct (map ns_createdAt rows) \<and>
     list_all (\<lambda>r. ns_id r \<noteq> [] \<and> uuid_of (ns_id r) = Some (ns_id r)) rows"

lemma newest_sorted: "rows_ok uuid_of rows \<Longrightarrow> sorted_wrt (\<lambda>a b. ns_createdAt b < ns_createdAt a) (newest_first uuid_of q rows)"
proof -
  assume "rows_ok uuid_of rows"
  then have "distinct (map (\<lambda>r. - ns_createdAt r) (newest_first uuid_of q rows))"
    by (auto simp: rows_ok_def newest_first_def distinct_map inj_on_def)
  moreover have "sorted (map (\<lambda>r. - ns_createdAt r) (newest_first uuid_of q rows))" by (simp add: newest_first_def)
  ultimately have "sorted_wrt (<) (map (\<lambda>r. - ns_createdAt r) (newest_first uuid_of q rows))" by (simp add: strict_sorted_iff)
  then show ?thesis by (simp add: sorted_wrt_map)
qed

text \<open>What is newer than a row of a list is what comes before it.\<close>

lemma newer_than:
  "sorted_wrt (\<lambda>a b. ns_createdAt b < ns_createdAt a) (A @ x # B) \<Longrightarrow> filter (\<lambda>r. ns_createdAt x < ns_createdAt r) (A @ x # B) = A"
proof -
  assume "sorted_wrt (\<lambda>a b. ns_createdAt b < ns_createdAt a) (A @ x # B)"
  then have "filter (\<lambda>r. ns_createdAt x < ns_createdAt r) A = A" "filter (\<lambda>r. ns_createdAt x < ns_createdAt r) B = []"
    by (auto simp: sorted_wrt_append filter_id_conv filter_empty_conv)
  then show ?thesis by simp
qed

lemma find_id: "distinct (map ns_id rows) \<Longrightarrow> x \<in> set rows \<Longrightarrow> find (\<lambda>y. Some (ns_id y) = Some (ns_id x)) rows = Some x"
  by (induction rows) auto

lemma first_page:
  assumes q: "sq_pageToken q = None" "\<not> bad_uuid uuid_of (sq_ownerId q)" "nullish (sq_pageSize q) 50 = int n" "1 \<le> n" "n \<le> 100"
    and more: "newest_first uuid_of q rows = A @ x # B" "length A + 1 = n" "B \<noteq> []"
  shows "\<exists>c. ns_list uuid_of q rows = Inr \<lparr>np_namespaces = A @ [x], np_nextPageToken = ns_id x, np_totalCount = c\<rparr>"
proof -
  have size: "min (nullish (sq_pageSize q) 50) 100 = int n" using q(3,5) by simp
  have all: "sort_key (\<lambda>r. - ns_createdAt r) (filter (\<lambda>r. ns_matches uuid_of q r \<and> token_allows uuid_of q rows r) rows) = A @ x # B"
    using more(1) q(1) by (simp add: newest_first_def token_allows_def truthy_def)
  have tok: "\<not> bad_uuid uuid_of (sq_pageToken q)" using q(1) by (simp add: bad_uuid_def truthy_def)
  obtain b B' where B: "B = b # B'" using more(3) by (cases B) auto
  have got: "take (nat (int n + 1)) (A @ x # B) = A @ [x, b]" "take (nat (int n)) (A @ [x, b]) = A @ [x]"
    using more(2) by (auto simp: B nat_add_distrib)
  have len: "(int n < int (length (A @ [x, b]))) = True" "(int n + 1 < 0) = False" using more(2) by simp_all
  have parts: "(A @ [x] = []) = False" "last (A @ [x]) = x" by simp_all
  have ids: "(bad_uuid uuid_of (sq_ownerId q) \<or> bad_uuid uuid_of (sq_pageToken q)) = False" using q(2) tok by simp
  show ?thesis
    unfolding ns_list_def Let_def size all ids got(1) len got(2) if_True if_False parts simp_thms(21,22) by blast
qed

text \<open>The list of namespaces has no second page: the token of a page selects what is newer than its last
  row, while pages go from the newest row to the oldest. A client that follows the tokens sees the first
  page, sees it once more without its last row, and is then told that it has everything; whatever is
  older than the first page is never listed.\<close>

theorem namespaces_beyond_first_page_unreachable:
  assumes "rows_ok uuid_of rows" and "sq_pageToken q = None" and "\<not> bad_uuid uuid_of (sq_ownerId q)"
    and "nullish (sq_pageSize q) 50 = int n" and "1 \<le> n" and "n \<le> 100" and "n < length (newest_first uuid_of q rows)"
  shows "follow_tokens 2 uuid_of q rows =
    Some (take n (newest_first uuid_of q rows) @ take (n - 1) (newest_first uuid_of q rows))"
proof -
  let ?L = "newest_first uuid_of q rows"
  define A x B where "A = take (n - 1) ?L" and "x = ?L ! (n - 1)" and "B = drop n ?L"
  have split: "?L = A @ x # B"
    using assms(5,7) id_take_nth_drop[of "n - 1" ?L] by (simp add: A_def x_def B_def)
  have len: "length A + 1 = n" and ne: "B \<noteq> []" using assms(5,7) by (auto simp: A_def B_def)
  obtain c where p1: "ns_list uuid_of q rows = Inr \<lparr>np_namespaces = A @ [x], np_nextPageToken = ns_id x, np_totalCount = c\<rparr>"
    using first_page[OF assms(2-6) split len ne] by blast
  have xin: "x \<in> set rows" using arg_cong[OF split, of set] by (auto simp: newest_first_def)
  then have x: "ns_id x \<noteq> []" "uuid_of (ns_id x) = Some (ns_id x)" using assms(1) by (simp_all add: rows_ok_def list_all_iff)
  let ?q = "q\<lparr>sq_pageToken := Some (ns_id x)\<rparr>"
  have found: "sort_key (\<lambda>r. - ns_createdAt r) (filter (\<lambda>r. ns_matches uuid_of ?q r \<and> token_allows uuid_of ?q rows r) rows) = A"
  proof -
    have "token_allows uuid_of ?q rows r = (ns_createdAt x < ns_createdAt r)" for r
      using find_id[of rows x] xin assms(1) x by (simp add: token_allows_def truthy_def rows_ok_def)
    then have "sort_key (\<lambda>r. - ns_createdAt r) (filter (\<lambda>r. ns_matches uuid_of ?q r \<and> token_allows uuid_of ?q rows r) rows) =
        filter (\<lambda>r. ns_createdAt x < ns_createdAt r) ?L"
      unfolding newest_first_def filter_sort filter_filter by (simp add: ns_matches_def conj_ac)
    also have "\<dots> = A" unfolding split using newest_sorted[OF assms(1), of q] split by (intro newer_than) simp
    finally show ?thesis .
  qed
  have "ns_list uuid_of ?q rows = Inr \<lparr>np_namespaces = A, np_nextPageToken = [], np_totalCount = length (filter (\<lambda>r. ns_matches uuid_of ?q r \<and> token_allows uuid_of ?q rows r) rows)\<rparr>"
    unfolding ns_list_def Let_def found using assms(3,4,6) x len by (simp add: bad_uuid_def truthy_def)
  then have "follow_tokens 2 uuid_of q rows = Some (A @ [x] @ A)"
    using p1 x(1) by (simp add: numeral_2_eq_2)
  moreover have "take n ?L = A @ [x]" "take (n - 1) ?L = A" unfolding split using len by (auto simp: take_Suc_conv_app_nth)
  ultimately show ?thesis by simp
qed

definition demo_ns :: "string \<Rightarrow> string \<Rightarrow> int \<Rightarrow> ns_record" where
  "demo_ns i slug t = \<lparr>ns_id = i, ns_slug = slug, ns_displayName = slug, ns_tier = Sandbox, ns_ownerId = ''o'', ns_quotas = DEFAULT_QUOTAS Sandbox,
     ns_createdAt = t, ns_updatedAt = t, ns_suspendedAt = None, ns_deletedAt = None\<rparr>"

definition demo_rows :: namespaces where
  "demo_rows = [demo_ns ''1'' ''first'' 10, demo_ns ''2'' ''second'' 20, demo_ns ''3'' ''third'' 30]"

theorem namespaces_beyond_first_page_unreachable_witness:
  "map_option (map ns_slug) (follow_tokens 2 Some \<lparr>sq_ownerId = None, sq_pageSize = Some 2, sq_pageToken = None\<rparr> demo_rows) =
     Some [''third'', ''second'', ''third'']"
proof -
  let ?q = "\<lparr>sq_ownerId = None, sq_pageSize = Some 2, sq_pageToken = None\<rparr>"
  have list: "newest_first Some ?q demo_rows = [demo_ns ''3'' ''third'' 30, demo_ns ''2'' ''second'' 20, demo_ns ''1'' ''first'' 10]" by code_simp
  have "rows_ok Some demo_rows" by code_simp
  from namespaces_beyond_first_page_unreachable[OF this, of ?q 2] show ?thesis
    by (simp add: list bad_uuid_def truthy_def nullish_def demo_ns_def)
qed

section \<open>Deleted names\<close>

datatype ns_op =
    NS_create ns_call create_request
  | NS_update ns_call string "string option" "quota_change option"
  | NS_suspend ns_call string "string option"
  | NS_delete ns_call string

fun ns_run :: "ns_lib \<Rightarrow> ns_op \<Rightarrow> ns_state \<Rightarrow> ns_state" where
  "ns_run L (NS_create c req) s = snd (CreateNamespace L c req s)"
| "ns_run L (NS_update c slug d q) s = snd (UpdateNamespace c slug d q s)"
| "ns_run L (NS_suspend c slug reason) s = snd (SuspendNamespace L c slug reason s)"
| "ns_run L (NS_delete c slug) s = snd (DeleteNamespace L c slug s)"

text \<open>A slug that only deleted rows have.\<close>

definition slug_gone :: "string \<Rightarrow> ns_state \<Rightarrow> bool" where
  "slug_gone slug s \<longleftrightarrow> list_ex (\<lambda>r. ns_slug r = slug) (ss_rows s) \<and> findBySlug slug (ss_rows s) = None"

lemma audit_ns_rows [simp]: "ss_rows (audit_ns L c e v a r i s) = ss_rows s"
  by (simp add: audit_ns_def)

lemma answer_updated_rows [simp]: "ss_rows (snd (answer_updated slug res s)) = snd res"
  by (auto simp: answer_updated_def split: prod.split option.split)

lemma slugs_update: "(\<And>r. ns_slug (f r) = ns_slug r) \<Longrightarrow>
    list_ex (\<lambda>r. ns_slug r = slug) (snd (update_slug i f rows)) = list_ex (\<lambda>r. ns_slug r = slug) rows"
  unfolding update_slug_def by (induction rows) auto

lemma gone_update:
  assumes g: "slug_gone slug s" and f: "\<And>r. ns_slug (f r) = ns_slug r"
  shows "list_ex (\<lambda>r. ns_slug r = slug) (snd (update_slug i f (ss_rows s))) \<and> findBySlug slug (snd (update_slug i f (ss_rows s))) = None"
proof -
  have "find (live_slug slug) rows = None \<Longrightarrow> find (live_slug slug) (map (\<lambda>r. if live_slug i r then f r else r) rows) = None" for rows
  proof (induction rows)
    case (Cons r rows)
    then have dead: "\<not> live_slug slug r" by (auto split: if_splits)
    have "\<not> live_slug slug (if live_slug i r then f r else r)"
      using dead f[of r] by (auto simp: live_slug_def)
    with Cons dead show ?case by (simp del: if_split)
  qed simp
  with g f show ?thesis unfolding slug_gone_def findBySlug_def by (simp add: slugs_update) (simp add: update_slug_def)
qed

lemma suspend_rows: "ss_rows (snd (SuspendNamespace L c i reason s)) = snd (ns_suspend (nc_now c) i (ss_rows s))"
  unfolding SuspendNamespace_def answer_updated_def by (cases "ns_suspend (nc_now c) i (ss_rows s)") (simp split: option.split)

lemma delete_rows: "ss_rows (snd (DeleteNamespace L c i s)) = snd (ns_softDelete (nc_now c) i (ss_rows s))"
  unfolding DeleteNamespace_def answer_updated_def by (cases "ns_softDelete (nc_now c) i (ss_rows s)") (simp split: option.split)

lemma slug_gone_step: "slug_gone slug s \<Longrightarrow> slug_gone slug (ns_run L op s)"
proof (cases op)
  case (NS_create c req)
  assume g: "slug_gone slug s"
  have "slug_gone slug (s\<lparr>ss_rows := snd (ns_create u i n p (ss_rows s))\<rparr>)" for u i n p
    using g by (auto simp: slug_gone_def ns_create_def Let_def findBySlug_def live_slug_def find_None_iff list_ex_iff split: option.split)
  then have *: "ns_create u i n p (ss_rows s) = (x, rows) \<Longrightarrow> slug_gone slug (s\<lparr>ss_rows := rows\<rparr>)" for u i n p x rows
    by (metis snd_conv)
  show ?thesis
    using g * by (auto simp: NS_create CreateNamespace_def Let_def slug_gone_def split: prod.split sum.split db_error.split)
next
  case (NS_update c i d q)
  assume g: "slug_gone slug s"
  then show ?thesis
    using gone_update[OF g] by (simp add: NS_update UpdateNamespace_def ns_update_def slug_gone_def)
next
  case (NS_suspend c i reason)
  assume g: "slug_gone slug s"
  show ?thesis using gone_update[OF g] by (simp add: NS_suspend suspend_rows ns_suspend_def slug_gone_def)
next
  case (NS_delete c i)
  assume g: "slug_gone slug s"
  show ?thesis using gone_update[OF g] by (simp add: NS_delete delete_rows ns_softDelete_def slug_gone_def)
qed

lemma slug_gone_run: "slug_gone slug s \<Longrightarrow> slug_gone slug (fold (ns_run L) ops s)"
  by (induction ops arbitrary: s) (simp_all add: slug_gone_step)

lemma delete_gone: "fst (DeleteNamespace L c slug s) = Inr () \<Longrightarrow> slug_gone slug (snd (DeleteNamespace L c slug s))"
proof -
  assume ok: "fst (DeleteNamespace L c slug s) = Inr ()"
  let ?f = "\<lambda>r. r\<lparr>ns_deletedAt := Some (nc_now c), ns_updatedAt := nc_now c\<rparr>"
  obtain r where r: "findBySlug slug (ss_rows s) = Some r"
    using ok by (auto simp: DeleteNamespace_def answer_updated_def ns_softDelete_def update_slug_def split: option.splits)
  then have "r \<in> set (ss_rows s)" "ns_slug r = slug" by (auto simp: findBySlug_def find_Some_iff live_slug_def)
  then have "list_ex (\<lambda>r. ns_slug r = slug) (ss_rows s)" by (auto simp: list_ex_iff)
  moreover have "find (live_slug slug) (map (\<lambda>r. if live_slug slug r then ?f r else r) rows) = None" for rows
    by (induction rows) (auto simp: live_slug_def)
  ultimately show ?thesis
    unfolding slug_gone_def delete_rows ns_softDelete_def
    by (simp add: slugs_update findBySlug_def) (simp add: update_slug_def)
qed

text \<open>A deleted namespace can never be created again: whatever calls follow its deletion, the service says
  that it is not found when asked for it and that it already exists when asked to create it, because the
  column of the slugs is unique over the deleted rows as well.\<close>

theorem deleted_slug_unusable:
  assumes "fst (DeleteNamespace L c slug s) = Inr ()" and "validateSlug slug"
    and "s' = fold (ns_run L) ops (snd (DeleteNamespace L c slug s))"
    and "cq_slug req = slug" and "nl_uuid_of L (nullish (cq_owner_id req) []) = Some owner" and "cq_quotas req = None"
    and "length (nullish (cq_display_name req) slug) \<le> 255" and "length slug \<le> 63"
  shows "GetNamespace slug s' = Inl (not_found slug) \<and>
    CreateNamespace L c' req s' = (Inl (''Namespace already exists: '' @ slug), s')"
proof -
  have g: "slug_gone slug s'" unfolding assms(3) by (rule slug_gone_run[OF delete_gone[OF assms(1)]])
  have ex: "list_ex (\<lambda>r. ns_slug r = slug \<or> ns_id r = u) (ss_rows s')" for u
    using g by (auto simp: slug_gone_def list_ex_iff)
  have q: "list_all int32 [qs_maxAgents (DEFAULT_QUOTAS t), qs_maxConcurrentExecutions (DEFAULT_QUOTAS t), qs_maxMemoryMB (DEFAULT_QUOTAS t), qs_maxToolCallsPerMinute (DEFAULT_QUOTAS t)]" for t
    by (cases t) (simp_all add: int32_def)
  have "CreateNamespace L c' req s' = (Inl (''Namespace already exists: '' @ slug), s')"
    unfolding CreateNamespace_def Let_def ns_create_def using assms(2,4-8) ex q by simp
  with g show ?thesis by (simp add: GetNamespace_def slug_gone_def)
qed

definition demo_nl :: ns_lib where
  "demo_nl = \<lparr>nl_uuid_of = Some, nl_sha256 = Cons (CHR ''h''), nl_env = (\<lambda>_. None)\<rparr>"

definition demo_nc :: ns_call where
  "demo_nc = \<lparr>nc_now = 40, nc_uuid = ''9'', nc_stamp = ''2025-01-01'', nc_event = ''e''\<rparr>"

definition demo_create :: create_request where
  "demo_create = \<lparr>cq_slug = ''first'', cq_tier = ''sandbox'', cq_display_name = None, cq_owner_id = Some ''o'', cq_quotas = None\<rparr>"

theorem deleted_slug_unusable_witness:
  "fst (CreateNamespace demo_nl demo_nc demo_create (snd (DeleteNamespace demo_nl demo_nc ''first'' \<lparr>ss_rows = demo_rows, ss_audit = no_audit\<rparr>))) =
     Inl ''Namespace already exists: first''"
proof -
  have "fst (DeleteNamespace demo_nl demo_nc ''first'' \<lparr>ss_rows = demo_rows, ss_audit = no_audit\<rparr>) = Inr ()" by code_simp
  moreover have "validateSlug ''first''" by code_simp
  ultimately show ?thesis
    using deleted_slug_unusable[of demo_nl demo_nc "''first''" "\<lparr>ss_rows = demo_rows, ss_audit = no_audit\<rparr>" _ "[]" demo_create "''o''" demo_nc]
    by (simp add: demo_create_def demo_nl_def)
qed

section \<open>Updates and tiers\<close>

text \<open>An update changes what the message declares, not what the client set: a message that names only one
  quota, and in which the other members have the default values of their types, gives the namespace an empty
  display name and quotas of zero.\<close>

theorem partial_update_clears_the_rest:
  assumes "findBySlug slug (ss_rows s) = Some r" and "int32 n"
  shows "fst (UpdateNamespace c slug (Some []) (Some \<lparr>qc_maxAgents = Some n, qc_maxConcurrentExecutions = Some 0, qc_maxMemoryMB = Some 0,
      qc_maxToolCallsPerMinute = Some 0\<rparr>) s) =
    Inr (toProtoNamespace (r\<lparr>ns_updatedAt := nc_now c, ns_displayName := [],
      ns_quotas := \<lparr>qs_maxAgents = n, qs_maxConcurrentExecutions = 0, qs_maxMemoryMB = 0, qs_maxToolCallsPerMinute = 0\<rparr>\<rparr>))"
  using assms by (simp add: UpdateNamespace_def answer_updated_def ns_update_def update_slug_def change_quotas_def quota_out_of_range_def int32_def)

theorem partial_update_clears_the_rest_witness:
  "\<exists>p. fst (UpdateNamespace demo_nc ''first'' (Some []) (Some \<lparr>qc_maxAgents = Some 7, qc_maxConcurrentExecutions = Some 0, qc_maxMemoryMB = Some 0,
      qc_maxToolCallsPerMinute = Some 0\<rparr>) \<lparr>ss_rows = demo_rows, ss_audit = no_audit\<rparr>) = Inr p \<and> qs_maxMemoryMB (pn_quotas p) = 0"
proof -
  have "findBySlug ''first'' (ss_rows \<lparr>ss_rows = demo_rows, ss_audit = no_audit\<rparr>) = Some (demo_ns ''1'' ''first'' 10)"
    by (simp add: demo_rows_def findBySlug_def live_slug_def demo_ns_def)
  from partial_update_clears_the_rest[OF this, of 7 demo_nc] show ?thesis by (simp add: int32_def toProtoNamespace_def)
qed

lemma tier_roundtrip: "tierFromProto (tier_proto t) = t"
  by (cases t) (simp_all add: tierFromProto_def)

end
