(* ===== verification/AgentService.thy ===== *)
theory AgentService
  imports AgentStore Namespaces
begin

text \<open>
  The agent handlers of \<open>control-plane/api-server/src/agents/handler.ts\<close>. A handler ends in a call of its
  callback from within its own \<open>try\<close>: a callback that throws is called once more with an error
  (\<open>deliver\<close>). Messages are JSON values; the random part of a name, identifiers and the clock are arguments.
\<close>

section \<open>Messages\<close>

text \<open>\<open>v?.k\<close> on an optional value.\<close>

definition jopt :: "json option \<Rightarrow> string \<Rightarrow> json option" where
  "jopt v k = (case v of None \<Rightarrow> None | Some JNull \<Rightarrow> None | Some j \<Rightarrow> jget j k)"

definition jtext :: "json option \<Rightarrow> string option" where
  "jtext v = (case v of Some (JStr t) \<Rightarrow> Some t | _ \<Rightarrow> None)"

definition jmembers :: "json option \<Rightarrow> jsonb option" where
  "jmembers v = (case v of Some (JObj ps) \<Rightarrow> Some ps | _ \<Rightarrow> None)"

definition timestamp_json :: "int \<Rightarrow> json" where
  "timestamp_json ms = JObj [(''seconds'', JNum (num_of_int (tm_seconds (toTimestamp ms)))), (''nanos'', JNum (num_of_int (tm_nanos (toTimestamp ms))))]"

definition toProtoAgent :: "agent_row \<Rightarrow> json" where
  "toProtoAgent r = JObj
     [(''api_version'', JStr (ag_api_version r)), (''kind'', JStr (ag_kind r)),
      (''metadata'', JObj
        [(''uid'', JStr (ag_id r)), (''name'', JStr (ag_name r)), (''namespace'', JStr (ag_namespace r)),
         (''labels'', JObj (ag_labels r)), (''annotations'', JObj (ag_annotations r)), (''version'', JNum (num_of_int (ag_version r))),
         (''created_at'', timestamp_json (ag_created_at r)), (''updated_at'', timestamp_json (ag_updated_at r)),
         (''created_by'', JStr (ag_created_by r))]),
      (''spec'', JObj (ag_spec r)), (''status'', JObj (ag_status r))]"

text \<open>A callback gets an error or a response, and may throw.\<close>

type_synonym 'b callback = "string + json \<Rightarrow> string + 'b"

definition deliver :: "string \<Rightarrow> string + json \<Rightarrow> 'b callback \<Rightarrow> string + 'b" where
  "deliver internal_error res cb = (case cb res of Inl thrown \<Rightarrow> cb (Inl internal_error) | Inr b \<Rightarrow> Inr b)"

section \<open>Handlers\<close>

record agent_call =
  ac_now :: int
  ac_uuid :: string
  ac_suffix :: string
  ac_stamp :: string
  ac_event :: string

record agent_env =
  ae_sha256 :: "string \<Rightarrow> string"
  ae_env :: "string \<Rightarrow> string option"

record service_state =
  sv_db :: agent_db
  sv_audit :: audit_state

definition audit_agent :: "agent_env \<Rightarrow> agent_call \<Rightarrow> audit_severity \<Rightarrow> string \<Rightarrow> string \<Rightarrow> string \<Rightarrow> service_state \<Rightarrow> service_state" where
  "audit_agent E c sev act ns name s =
     s\<lparr>sv_audit := snd (createAuditEntry (ae_sha256 E) (ae_env E) (ac_stamp c)
       \<lparr>ab_timestamp = ac_stamp c, ab_eventId = ac_event c, ab_eventType = ''agent.create'', ab_severity = sev,
        ab_actor = \<lparr>aa_type = ''service'', aa_id = ''api-server'', aa_namespace = None, aa_authMethod = None, aa_spiffeId = None\<rparr>,
        ab_target = Some \<lparr>at_type = ''agent'', at_id = ns @ ''/'' @ name, at_namespace = Some ns\<rparr>,
        ab_action = \<lparr>an_name = act, an_parameters = None, an_result = ''allowed'', an_reason = None\<rparr>,
        ab_context = \<lparr>ac_requestId = None, ac_sessionId = None, ac_ipAddress = None, ac_userAgent = None\<rparr>\<rparr> (sv_audit s))\<rparr>"

definition agent_key :: "string \<Rightarrow> string \<Rightarrow> string" where
  "agent_key ns name = ns @ ''/'' @ name"

definition create_params :: "string \<Rightarrow> string \<Rightarrow> json \<Rightarrow> new_agent" where
  "create_params ns name req =
     (let md = jget req ''metadata''
      in \<lparr>na_namespace = ns, na_name = name, na_apiVersion = Some (env_or (jtext (jget req ''api_version'')) ''egaop.io/v1''),
          na_kind = Some (env_or (jtext (jget req ''kind'')) ''Agent''), na_spec = Some (nullish (jmembers (jget req ''spec'')) []),
          na_status = Some [(''phase'', JStr ''Pending''), (''health_status'', JStr ''Healthy'')],
          na_labels = Some (nullish (jmembers (jopt md ''labels'')) []), na_annotations = Some (nullish (jmembers (jopt md ''annotations'')) []),
          na_createdBy = Some (nullish (jtext (jopt md ''created_by'')) [])\<rparr>)"

definition CreateAgent :: "agent_env \<Rightarrow> agent_call \<Rightarrow> json \<Rightarrow> 'b callback \<Rightarrow> service_state \<Rightarrow> (string + 'b) \<times> service_state" where
  "CreateAgent E c req cb s =
     (let md = jget req ''metadata''; oops_msg = ''Internal error creating agent'';
          name = nullish (jtext (jopt md ''name'')) (''agent-'' @ ac_suffix c); ns = nullish (jtext (jopt md ''namespace'')) ''default''
      in if findByNamespaceAndName ns name (sv_db s) \<noteq> None
         then (deliver oops_msg (Inl (''Agent already exists: '' @ agent_key ns name)) cb, s)
         else case create_agent (ac_uuid c) (ac_now c) (create_params ns name req) (sv_db s) of
             (Inl e, d) \<Rightarrow> (cb (Inl oops_msg), s\<lparr>sv_db := d\<rparr>)
           | (Inr r, d) \<Rightarrow> (deliver oops_msg (Inr (toProtoAgent r)) cb, audit_agent E c Sev_info ''CreateAgent'' ns name (s\<lparr>sv_db := d\<rparr>)))"

definition GetAgent :: "string \<Rightarrow> string option \<Rightarrow> 'b callback \<Rightarrow> service_state \<Rightarrow> string + 'b" where
  "GetAgent name namespace cb s =
     (let ns = nullish namespace ''default''
      in deliver ''Internal error getting agent''
           (case findByNamespaceAndName ns name (sv_db s) of
              None \<Rightarrow> Inl (''Agent not found: '' @ agent_key ns name) | Some r \<Rightarrow> Inr (toProtoAgent r)) cb)"

record list_request =
  lr_namespace :: string
  lr_phase :: "string option"
  lr_labels :: "(string \<times> string) list option"
  lr_search :: "string option"
  lr_page_size :: jint
  lr_cursor :: "string option"

definition page_size_of :: "jint \<Rightarrow> int" where
  "page_size_of n = min (case n of JInt i \<Rightarrow> if i = 0 then 50 else i | NaN \<Rightarrow> 50) 100"

definition ListAgents :: "list_request \<Rightarrow> 'b callback \<Rightarrow> service_state \<Rightarrow> string + 'b" where
  "ListAgents req cb s =
     (case listByNamespace (lr_namespace req) \<lparr>lo_phase = lr_phase req, lo_labels = lr_labels req, lo_search = lr_search req,
        lo_cursor = lr_cursor req, lo_pageSize = Some (page_size_of (lr_page_size req))\<rparr> (sv_db s) of
        Inl e \<Rightarrow> cb (Inl ''Internal error listing agents'')
      | Inr p \<Rightarrow> deliver ''Internal error listing agents''
          (Inr (JObj [(''agents'', JArr (map toProtoAgent (pg_agents p))), (''next_cursor'', JStr (pg_nextCursor p)),
            (''total_count'', JNum (num_of_int (int (pg_totalCount p))))])) cb)"

record update_request =
  uq_namespace :: string
  uq_name :: string
  uq_change :: agent_change

definition UpdateAgent :: "bool \<Rightarrow> agent_call \<Rightarrow> update_request \<Rightarrow> 'b callback \<Rightarrow> service_state \<Rightarrow> (string + 'b) \<times> service_state" where
  "UpdateAgent snapshot_fails c req cb s =
     (case update_agent snapshot_fails (ac_uuid c) (ac_now c) (uq_namespace req) (uq_name req) (uq_change req) (sv_db s) of
        (res, d) \<Rightarrow>
          (deliver ''Internal error updating agent''
             (case res of None \<Rightarrow> Inl (''Agent not found: '' @ agent_key (uq_namespace req) (uq_name req)) | Some r \<Rightarrow> Inr (toProtoAgent r)) cb,
           s\<lparr>sv_db := d\<rparr>))"

definition DeleteAgent :: "agent_env \<Rightarrow> agent_call \<Rightarrow> string \<Rightarrow> string \<Rightarrow> 'b callback \<Rightarrow> service_state \<Rightarrow> (string + 'b) \<times> service_state" where
  "DeleteAgent E c ns name cb s =
     (case softDelete (ac_now c) ns name (sv_db s) of
        (None, d) \<Rightarrow> (deliver ''Internal error deleting agent'' (Inl (''Agent not found: '' @ agent_key ns name)) cb, s\<lparr>sv_db := d\<rparr>)
      | (Some r, d) \<Rightarrow> (deliver ''Internal error deleting agent'' (Inr (JObj [])) cb, audit_agent E c Sev_warn ''DeleteAgent'' ns name (s\<lparr>sv_db := d\<rparr>)))"

end
