(* ===== verification/Sessions.thy ===== *)
theory Sessions
  imports Auth
begin

text \<open>
  Sessions across the account routes: what a login gives, what a logout takes away, and what it leaves. Redis
  is a parameter with the documented behaviour of \<open>SET key value EX seconds\<close> and \<open>EXISTS\<close>.
\<close>

section \<open>Redis\<close>

definition redis_law :: "'r redis_api \<Rightarrow> bool" where
  "redis_law R \<longleftrightarrow>
     (\<forall>now k n r r' t. 1 \<le> n \<longrightarrow> rd_set R now k (Num (of_int n)) r = Some r' \<longrightarrow>
        (t < now + 1000 * n \<longrightarrow> rd_exists R t k r' = Some True) \<and> (now + 1000 * n < t \<longrightarrow> rd_exists R t k r' = Some False) \<and>
        (\<forall>k'. k' \<noteq> k \<longrightarrow> rd_exists R t k' r' = rd_exists R t k' r))"

lemma redis_live: "redis_law R \<Longrightarrow> rd_set R now k (Num (of_int n)) r = Some r' \<Longrightarrow> 1 \<le> n \<Longrightarrow> t < now + 1000 * n \<Longrightarrow> rd_exists R t k r' = Some True"
  unfolding redis_law_def by blast

lemma redis_dead: "redis_law R \<Longrightarrow> rd_set R now k (Num (of_int n)) r = Some r' \<Longrightarrow> 1 \<le> n \<Longrightarrow> now + 1000 * n < t \<Longrightarrow> rd_exists R t k r' = Some False"
  unfolding redis_law_def by blast

lemma redis_other: "redis_law R \<Longrightarrow> rd_set R now k (Num (of_int n)) r = Some r' \<Longrightarrow> 1 \<le> n \<Longrightarrow> k' \<noteq> k \<Longrightarrow> rd_exists R t k' r' = rd_exists R t k' r"
  unfolding redis_law_def by blast

section \<open>Authentication\<close>

lemma authenticate_Answer:
  "authenticate L c s = Answer claims \<longleftrightarrow>
     truthy (request_token c) \<and> session_of L (cl_now c) (the (request_token c)) = Inr (Some claims) \<and> json_truthy (Some claims) \<and>
     \<not> isTokenRevoked L (cl_now c) (the (request_token c)) (st_redis s)"
proof (cases "session_of L (cl_now c) (the (request_token c))")
  case (Inr r)
  then show ?thesis by (cases r) (auto simp: authenticate_def Let_def json_truthy_def)
qed (simp add: authenticate_def Let_def)

lemma bearer_token: "bearer c = Some token \<Longrightarrow> token \<noteq> [] \<Longrightarrow> request_token c = Some token \<and> extractTokenFromRequest c = Some token"
  by (simp add: request_token_def extractTokenFromRequest_def truthy_def)

text \<open>The claims of a session do not depend on the time at which they are read.\<close>

lemma session_time:
  "session_of L now token = Inr (Some a) \<Longrightarrow> session_of L now' token = Inr (Some b) \<Longrightarrow> a = b"
  by (auto simp: session_of_def verifyJWT_def verify_with_def Let_def truthy_def
      split: list.splits sum.splits if_splits option.splits json.splits)

lemma session_later:
  assumes "session_of L now token = Inr (Some a)" and "\<not> exp_before (jget a ''exp'') (num_of_int (now' div 1000))"
  shows "session_of L now' token = Inr (Some a)"
  using assms by (auto simp: session_of_def verifyJWT_def verify_with_def Let_def truthy_def
      split: list.splits sum.splits if_splits option.splits json.splits)

section \<open>Login\<close>

lemma login_Answer:
  assumes "fst (login L c b s) = Answer d"
  shows "\<exists>u. findByEmail (trim (lower (the (lb_email b)))) (st_users s) = Some u \<and> ur_is_active u \<and>
    \<not> ls_locked (fst (isLocked (cl_now c) (trim (lower (the (lb_email b)))) (st_users s))) \<and>
    comparePassword (al_scrypt L) (the (lb_password b)) (ur_password_hash u) = Inr True \<and>
    d = LoggedIn (ur_id u) (ur_email u) (ur_name u) (ur_role u) (session_token L c u) (ur_must_change_password u)"
  using assms
  by (auto simp: login_def check_login_def invalid_login_def Let_def split: if_splits option.splits prod.splits sum.splits bool.splits)

text \<open>The JSON text of the claims of an account parses back to them.\<close>

definition claims_parse :: "auth_call \<Rightarrow> user_row \<Rightarrow> bool" where
  "claims_parse c u \<longleftrightarrow>
     (let j = claims_json (row_claims u) (cl_now c div 1000) (cl_now c div 1000 + JWT_EXPIRES_SEC) in json_parse (stringify j) = Some j)"

text \<open>C20. Login and authentication fit together: a login that succeeds found an active account that is not
  locked and whose password matches, and a later request with its token is authenticated, with the
  identity, the role and the namespaces of that account, until the token expires or is revoked.\<close>

theorem login_session_authenticates:
  assumes "fst (login L c b s) = Answer (LoggedIn i e n role token chg)"
    and "bearer c' = Some token" and "\<not> isTokenRevoked L (cl_now c') token (st_redis s')"
    and "\<not> num_lt (num_of_int (cl_now c div 1000 + JWT_EXPIRES_SEC)) (num_of_int (cl_now c' div 1000))"
    and "claims_parse c (the (findByEmail (trim (lower (the (lb_email b)))) (st_users s)))"
  shows "\<exists>u. findByEmail (trim (lower (the (lb_email b)))) (st_users s) = Some u \<and> ur_is_active u \<and> i = ur_id u \<and> role = ur_role u \<and>
    \<not> ls_locked (fst (isLocked (cl_now c) (trim (lower (the (lb_email b)))) (st_users s))) \<and>
    comparePassword (al_scrypt L) (the (lb_password b)) (ur_password_hash u) = Inr True \<and>
    authenticate L c' s' = Answer (claims_json (row_claims u) (cl_now c div 1000) (cl_now c div 1000 + JWT_EXPIRES_SEC))"
proof -
  obtain u where u: "findByEmail (trim (lower (the (lb_email b)))) (st_users s) = Some u" "ur_is_active u"
      "\<not> ls_locked (fst (isLocked (cl_now c) (trim (lower (the (lb_email b)))) (st_users s)))"
      "comparePassword (al_scrypt L) (the (lb_password b)) (ur_password_hash u) = Inr True"
    and d: "i = ur_id u" "role = ur_role u" "token = session_token L c u"
    using login_Answer[OF assms(1)] by auto
  have ne: "token \<noteq> []" by (simp add: d session_token_def signJWT_def Let_def)
  have "session_of L (cl_now c') token = Inr (Some (claims_json (row_claims u) (cl_now c div 1000) (cl_now c div 1000 + JWT_EXPIRES_SEC)))"
    unfolding d session_of_def session_token_def using assms(5) u(1)
    by (intro signed_verifies assms(4)) (simp add: claims_parse_def Let_def)
  moreover have "json_truthy (Some (claims_json k x y))" for k x y by (simp add: claims_json_def json_truthy_def)
  ultimately have "authenticate L c' s' = Answer (claims_json (row_claims u) (cl_now c div 1000) (cl_now c div 1000 + JWT_EXPIRES_SEC))"
    using bearer_token[OF assms(2) ne] assms(3) by (simp add: authenticate_Answer truthy_def ne)
  with u d show ?thesis by blast
qed

definition demo_row :: user_row where
  "demo_row = (new_row ''u'' (the (hashPassword demo_scrypt ''s'' ''p'')) 0
     \<lparr>nu_email = ''e'', nu_password = ''p'', nu_name = ''n'', nu_role = None, nu_namespaceAccess = None, nu_mustChangePassword = None\<rparr>)"

definition demo_users :: "unit auth_state" where
  "demo_users = \<lparr>st_users = [demo_row], st_redis = (), st_audit = no_audit\<rparr>"

definition demo_login :: login_body where
  "demo_login = \<lparr>lb_email = Some ''E '', lb_password = Some ''p''\<rparr>"

definition demo_token :: string where
  "demo_token = session_token demo_lib demo_call demo_row"

definition demo_request :: auth_call where
  "demo_request = demo_call\<lparr>cl_now := 5000, cl_authorization := Some (''Bearer '' @ demo_token)\<rparr>"

lemma demo_login_email: "trim (lower (the (lb_email demo_login))) = ''e''" by code_simp

lemma demo_row_found: "findByEmail ''e'' (st_users demo_users) = Some demo_row"
proof -
  have "has_email ''e'' demo_row" by code_simp
  then show ?thesis by (simp add: findByEmail_def demo_users_def)
qed

lemma demo_login_answer: "fst (login demo_lib demo_call demo_login demo_users) = Answer (LoggedIn ''u'' ''e'' ''n'' ''developer'' demo_token False)"
proof -
  have email: "truthy (lb_email demo_login) \<and> truthy (lb_password demo_login)" by code_simp
  have row: "ur_is_active demo_row" "ur_locked_until demo_row = None" "ur_id demo_row = ''u''" "ur_email demo_row = ''e''"
    "ur_name demo_row = ''n''" "ur_role demo_row = ''developer''" "ur_must_change_password demo_row = False" by code_simp+
  have lock: "isLocked (cl_now demo_call) ''e'' (st_users demo_users) = (\<lparr>ls_locked = False, ls_remainingMinutes = 0\<rparr>, st_users demo_users)"
    by (simp add: isLocked_def demo_row_found row)
  have "comparePassword (al_scrypt demo_lib) (the (lb_password demo_login)) (ur_password_hash demo_row) = Inr True" by code_simp
  with email lock show ?thesis
    by (simp add: login_def demo_login_email demo_row_found check_login_def row demo_token_def Let_def)
qed

lemma demo_bearer: "bearer demo_request = Some demo_token"
  by (simp add: bearer_def demo_request_def)

theorem login_session_authenticates_witness:
  "\<exists>claims. authenticate demo_lib demo_request demo_users = Answer claims"
proof -
  have now: "\<not> num_lt (num_of_int (cl_now demo_call div 1000 + JWT_EXPIRES_SEC)) (num_of_int (cl_now demo_request div 1000))"
    unfolding demo_request_def by (simp add: demo_call_def JWT_EXPIRES_SEC_def num_of_int_def rnd_numeral)
  have parse: "claims_parse demo_call demo_row" by code_simp
  have "\<not> isTokenRevoked demo_lib (cl_now demo_request) demo_token (st_redis demo_users)"
    by (simp add: isTokenRevoked_def demo_lib_def)
  from login_session_authenticates[OF demo_login_answer demo_bearer this now] parse
  show ?thesis by (auto simp: demo_login_email demo_row_found)
qed

section \<open>Logout\<close>

lemma time_to_live_int:
  assumes "jget a ''exp'' = Some (JNum (Num (of_int till)))" and "json_truthy (Some a)"
    and "\<bar>till - now div 1000\<bar> < 2 ^ 53" and "\<bar>now div 1000\<bar> < 2 ^ 53"
  shows "time_to_live now (Some a) = Num (of_int (max 1 (till - now div 1000)))"
proof -
  have "num_of_int (now div 1000) = Num (of_int (now div 1000))" using assms(4) by (simp add: num_of_int_def rnd_of_int)
  moreover have "rnd (of_int till - of_int (now div 1000)) = Num (of_int (till - now div 1000))"
    using rnd_of_int[OF assms(3)] by simp
  ultimately have "num_sub (Num (of_int till)) (num_of_int (now div 1000)) = Num (of_int (till - now div 1000))"
    by (simp add: num_sub_def)
  with assms(1,2) show ?thesis by (simp add: time_to_live_def to_number_def num_max_def max_def)
qed

text \<open>What a logout with a header does: the key of the token is set for the rest of its life.\<close>

definition good_logout :: "'r auth_lib \<Rightarrow> 'r redis_api \<Rightarrow> auth_call \<Rightarrow> string \<Rightarrow> json \<Rightarrow> int \<Rightarrow> 'r auth_state \<Rightarrow> 'r \<Rightarrow> bool" where
  "good_logout L R c token claims till s r' \<longleftrightarrow>
     al_redis L = Some R \<and> redis_law R \<and> bearer c = Some token \<and> token \<noteq> [] \<and> authenticate L c s = Answer claims \<and>
     jget claims ''exp'' = Some (JNum (Num (of_int till))) \<and> \<bar>till - cl_now c div 1000\<bar> < 2 ^ 53 \<and> \<bar>cl_now c div 1000\<bar> < 2 ^ 53 \<and>
     rd_set R (cl_now c) (tokenRevocationKey L token) (Num (of_int (max 1 (till - cl_now c div 1000)))) (st_redis s) = Some r'"

lemma good_logout_redis:
  assumes "good_logout L R c token claims till s r'"
  shows "st_redis (snd (protected L c (logout L c) s)) = r'"
    "fst (protected L c (logout L c) s) = Answer (Message ''Logged out successfully. Token has been revoked.'')"
proof -
  from assms have g: "al_redis L = Some R" "bearer c = Some token" "token \<noteq> []" "authenticate L c s = Answer claims"
    "jget claims ''exp'' = Some (JNum (Num (of_int till)))" "\<bar>till - cl_now c div 1000\<bar> < 2 ^ 53" "\<bar>cl_now c div 1000\<bar> < 2 ^ 53"
    "rd_set R (cl_now c) (tokenRevocationKey L token) (Num (of_int (max 1 (till - cl_now c div 1000)))) (st_redis s) = Some r'"
    by (simp_all add: good_logout_def)
  note tok = bearer_token[OF g(2,3)]
  from g(4) tok have sess: "session_of L (cl_now c) token = Inr (Some claims)" "json_truthy (Some claims)" by (simp_all add: authenticate_Answer)
  note ttl = time_to_live_int[OF g(5) sess(2) g(6,7)]
  have "revokeToken L (cl_now c) token (st_redis s) = Inr r'"
    using g(1,8) sess(1) ttl by (simp add: revokeToken_def nullish_def)
  with tok g(3,4) show "st_redis (snd (protected L c (logout L c) s)) = r'"
    "fst (protected L c (logout L c) s) = Answer (Message ''Logged out successfully. Token has been revoked.'')"
    by (simp_all add: protected_def logout_def truthy_def)
qed

lemma good_logout_rejects:
  assumes g: "good_logout L R c token claims till s r'" and t: "cl_now c' < till * 1000" and tok: "request_token c' = Some token"
    and s': "st_redis s' = r'"
  shows "authenticate L c' s' \<noteq> Answer x"
proof -
  have "al_redis L = Some R" "redis_law R" using g by (simp_all add: good_logout_def)
  moreover have "cl_now c' < cl_now c + 1000 * max 1 (till - cl_now c div 1000)"
  proof -
    have "1000 * (cl_now c div 1000) \<le> cl_now c" using div_mult_mod_eq[of "cl_now c" 1000] pos_mod_sign[of 1000 "cl_now c"] by linarith
    moreover have "n < b + 1000 * max 1 (y - q)" if "n < y * 1000" "1000 * q \<le> b" for n b y q :: int
      using that by (cases "1 \<le> y - q") (simp_all add: max_def)
    ultimately show ?thesis using t by blast
  qed
  moreover have "rd_set R (cl_now c) (tokenRevocationKey L token) (Num (of_int (max 1 (till - cl_now c div 1000)))) (st_redis s) = Some r'"
    using g by (simp add: good_logout_def)
  ultimately have "isTokenRevoked L (cl_now c') token (st_redis s')"
    using redis_live[of R "cl_now c" "tokenRevocationKey L token"] s' by (simp add: isTokenRevoked_def)
  with tok show ?thesis by (simp add: authenticate_Answer)
qed


lemma session_of_padded: "session_of L now (token @ ''='') = session_of L now token"
  unfolding session_of_def by (rule verify_padded)

text \<open>But the session is not over: the list of revoked tokens is keyed by the text of a token, and the same
  token with a padding character after it is another text that still verifies. Whoever holds a token
  keeps using it after the logout, unless the hash function has a collision.\<close>

theorem revocation_evaded_by_padding:
  assumes "good_logout L R c token claims till s r'"
    and "s' = snd (protected L c (logout L c) s)" and "bearer c' = Some (token @ ''='')"
    and "al_sha256 L (token @ ''='') \<noteq> al_sha256 L token"
    and "\<not> isTokenRevoked L (cl_now c') (token @ ''='') (st_redis s)"
    and "\<not> num_lt (Num (of_int till)) (num_of_int (cl_now c' div 1000))"
  shows "authenticate L c' s' = Answer claims"
proof -
  have g: "al_redis L = Some R" "redis_law R" "bearer c = Some token" "token \<noteq> []" "authenticate L c s = Answer claims"
    "jget claims ''exp'' = Some (JNum (Num (of_int till)))"
    "rd_set R (cl_now c) (tokenRevocationKey L token) (Num (of_int (max 1 (till - cl_now c div 1000)))) (st_redis s) = Some r'"
    using assms(1) by (simp_all add: good_logout_def)
  have sess: "session_of L (cl_now c) token = Inr (Some claims)" "json_truthy (Some claims)"
    using g(5) bearer_token[OF g(3,4)] by (simp_all add: authenticate_Answer)
  have "session_of L (cl_now c') (token @ ''='') = Inr (Some claims)"
    unfolding session_of_padded by (rule session_later[OF sess(1)]) (simp add: exp_before_def to_number_def g(6) assms(6))
  moreover have "tokenRevocationKey L (token @ ''='') \<noteq> tokenRevocationKey L token"
    using assms(4) by (simp add: tokenRevocationKey_def)
  then have "isTokenRevoked L (cl_now c') (token @ ''='') r' = isTokenRevoked L (cl_now c') (token @ ''='') (st_redis s)"
    using redis_other[OF g(2,7)] g(1) by (simp add: isTokenRevoked_def)
  ultimately show ?thesis
    using assms(2,3,5) good_logout_redis(1)[OF assms(1)] sess(2) bearer_token[OF assms(3)]
    by (simp add: authenticate_Answer truthy_def)
qed

text \<open>Nor does a logout with an empty bearer header revoke anything: such a request is authenticated by its
  cookie, but the token to revoke is read from the header; the answer still says that the token was revoked.\<close>

theorem empty_bearer_logout:
  assumes "cl_authorization c = Some ''Bearer ''" and "authenticate L c s = Answer claims"
  shows "fst (protected L c (logout L c) s) = Answer (Message ''Logged out successfully. Token has been revoked.'') \<and>
    st_redis (snd (protected L c (logout L c) s)) = st_redis s"
  using assms by (simp add: protected_def logout_def extractTokenFromRequest_def bearer_def truthy_def)

section \<open>A run\<close>

definition session_redis :: "(string \<times> int) list redis_api" where
  "session_redis = \<lparr>rd_set = (\<lambda>now k q r. case q of Num x \<Rightarrow> Some ((k, now + 1000 * \<lfloor>x\<rfloor>) # r) | _ \<Rightarrow> None),
     rd_exists = (\<lambda>t k r. Some (case map_of r k of None \<Rightarrow> False | Some e \<Rightarrow> t \<le> e))\<rparr>"

lemma session_redis_law: "redis_law session_redis"
  by (auto simp: redis_law_def session_redis_def)

definition online_lib :: "(string \<times> int) list auth_lib" where
  "online_lib = \<lparr>al_hmac = (\<lambda>s d. s @ d), al_scrypt = demo_scrypt, al_sha256 = Cons (CHR ''h''), al_redis = Some session_redis, al_secret = ''k'',
     al_env = (\<lambda>_. None)\<rparr>"

definition online :: "(string \<times> int) list auth_state" where
  "online = \<lparr>st_users = [demo_row], st_redis = [], st_audit = no_audit\<rparr>"

definition demo_session :: json where
  "demo_session = claims_json (row_claims demo_row) 2 86402"

lemma demo_times: "num_of_int 2 = Num 2" "num_of_int 5 = Num 5" "num_of_int 86402 = Num 86402"
  by (simp_all add: num_of_int_def rnd_numeral)

lemma demo_session_of: "now div 1000 = 5 \<Longrightarrow> session_of online_lib now demo_token = Inr (Some demo_session)"
proof -
  assume now: "now div 1000 = 5"
  have parse: "claims_parse demo_call demo_row" by code_simp
  have call: "cl_now demo_call = 2000" "al_hmac online_lib = al_hmac demo_lib" "al_secret online_lib = al_secret demo_lib"
    by (simp_all add: demo_call_def online_lib_def demo_lib_def)
  have "verifyJWT (al_hmac demo_lib) now (signJWT (al_hmac demo_lib) 2000 (row_claims demo_row) (al_secret demo_lib) JWT_EXPIRES_SEC)
      (al_secret demo_lib) None = Inr (Some (claims_json (row_claims demo_row) (2000 div 1000) (2000 div 1000 + JWT_EXPIRES_SEC)))"
    using parse now by (intro signed_verifies) (simp_all add: claims_parse_def call Let_def JWT_EXPIRES_SEC_def demo_times)
  then show ?thesis
    unfolding session_of_def demo_token_def session_token_def demo_session_def call by (simp add: JWT_EXPIRES_SEC_def)
qed

lemma demo_good_logout:
  "good_logout online_lib session_redis demo_request demo_token demo_session 86402 online [(tokenRevocationKey online_lib demo_token, 86402000)]"
proof -
  have ne: "demo_token \<noteq> []" by (simp add: demo_token_def session_token_def signJWT_def Let_def)
  have now: "cl_now demo_request = 5000" by (simp add: demo_request_def)
  have tr: "json_truthy (Some demo_session)" "jget demo_session ''exp'' = Some (JNum (Num 86402))"
    by (simp_all add: demo_session_def claims_json_def json_truthy_def jget_def demo_times)
  have "\<not> isTokenRevoked online_lib 5000 demo_token (st_redis online)"
    by (simp add: isTokenRevoked_def online_lib_def online_def session_redis_def)
  then have "authenticate online_lib demo_request online = Answer demo_session"
    using bearer_token[OF demo_bearer ne] demo_session_of[of 5000] ne tr by (simp add: authenticate_Answer now truthy_def)
  then show ?thesis
    by (simp add: good_logout_def session_redis_law demo_bearer ne now tr max_def)
      (simp add: online_lib_def session_redis_def online_def)
qed


theorem revocation_evaded_by_padding_witness:
  "authenticate online_lib (demo_request\<lparr>cl_authorization := Some (''Bearer '' @ demo_token @ ''='')\<rparr>)
     (snd (protected online_lib demo_request (logout online_lib demo_request) online)) = Answer demo_session"
proof (rule revocation_evaded_by_padding[OF demo_good_logout refl])
  show "bearer (demo_request\<lparr>cl_authorization := Some (''Bearer '' @ demo_token @ ''='')\<rparr>) = Some (demo_token @ ''='')"
    by (simp add: bearer_def)
qed (simp_all add: online_lib_def isTokenRevoked_def online_def session_redis_def demo_request_def demo_times)

definition cookie_request :: auth_call where
  "cookie_request = demo_request\<lparr>cl_authorization := Some ''Bearer '', cl_cookie := Some demo_token\<rparr>"

theorem empty_bearer_logout_witness:
  "fst (protected online_lib cookie_request (logout online_lib cookie_request) online) =
      Answer (Message ''Logged out successfully. Token has been revoked.'') \<and>
    st_redis (snd (protected online_lib cookie_request (logout online_lib cookie_request) online)) = []"
proof -
  have ne: "truthy (Some demo_token)" by (simp add: truthy_def demo_token_def session_token_def signJWT_def Let_def)
  have r: "request_token cookie_request = Some demo_token" by (simp add: request_token_def bearer_def cookie_request_def truthy_def)
  have now: "cl_now cookie_request = 5000" by (simp add: cookie_request_def demo_request_def)
  have "authenticate online_lib cookie_request online = Answer demo_session"
    using demo_session_of[of 5000] ne
    by (simp add: authenticate_Answer r now isTokenRevoked_def online_lib_def online_def session_redis_def)
      (simp add: demo_session_def claims_json_def json_truthy_def)
  from empty_bearer_logout[OF _ this] show ?thesis by (simp add: cookie_request_def online_def)
qed

end
