(* ===== verification/ApiServer.thy ===== *)
theory ApiServer
  imports AgentService Sessions ReactWorkflow
begin

text \<open>
  The REST interface of \<open>control-plane/api-server/src/index.ts\<close>: its hooks, and the routes of agents,
  executions, versions, namespaces, traces and metrics over the account routes and the agent and namespace
  handlers. The framework's matching of paths, Temporal and the printing of dates are parameters; the
  \<open>meta\<close> part of an answer is left out. Bodies and queries have the declared types.
\<close>

section \<open>Answers\<close>

text \<open>A status code and a JSON body.\<close>

datatype rest = Rest nat json

definition apiResponse :: "json \<Rightarrow> json" where
  "apiResponse data = JObj [(''data'', data)]"

definition api_ok :: "json \<Rightarrow> rest" where
  "api_ok data = Rest 200 (apiResponse data)"

definition api_error :: "nat \<Rightarrow> string \<Rightarrow> string \<Rightarrow> rest" where
  "api_error code msg err_code = Rest code (JObj [(''error'', JObj [(''message'', JStr msg), (''code'', JStr err_code)])])"

fun jmul :: "jint \<Rightarrow> jint \<Rightarrow> jint" where
  "jmul (JInt a) (JInt b) = JInt (a * b)"
| "jmul _ _ = NaN"

definition jint_json :: "jint \<Rightarrow> json" where
  "jint_json n = (case n of NaN \<Rightarrow> JNull | JInt i \<Rightarrow> JNum (num_of_int i))"

text \<open>The index that \<open>slice\<close> makes of an argument.\<close>

definition slice_index :: "nat \<Rightarrow> jint \<Rightarrow> nat" where
  "slice_index len n = (case n of NaN \<Rightarrow> 0 | JInt i \<Rightarrow> if i < 0 then nat (max 0 (int len + i)) else min (nat i) len)"

definition js_slice :: "jint \<Rightarrow> jint \<Rightarrow> 'a list \<Rightarrow> 'a list" where
  "js_slice a b xs = drop (slice_index (length xs) a) (take (slice_index (length xs) b) xs)"

definition paginate :: "json list \<Rightarrow> jint \<Rightarrow> jint \<Rightarrow> json" where
  "paginate items page limit =
     (let start = jmul (jsub page (JInt 1)) limit
      in JObj [(''items'', JArr (js_slice start (jadd start limit) items)), (''total'', JNum (num_of_int (int (length items)))),
           (''page'', jint_json page), (''limit'', jint_json limit),
           (''hasNext'', JBool (jlt (jadd start limit) (JInt (int (length items)))))])"

type_synonym query = "string \<Rightarrow> string option"

definition int_param :: "query \<Rightarrow> string \<Rightarrow> string \<Rightarrow> jint" where
  "int_param q k d = parse_int (nullish (q k) d)"

fun collect :: "('a \<Rightarrow> 'e + 'b) \<Rightarrow> 'a list \<Rightarrow> 'e + 'b list" where
  "collect f [] = Inr []"
| "collect f (x # xs) = (case f x of Inl e \<Rightarrow> Inl e | Inr y \<Rightarrow> (case collect f xs of Inl e \<Rightarrow> Inl e | Inr ys \<Rightarrow> Inr (y # ys)))"

section \<open>Agents as the interface shows them\<close>

definition cannot_read :: "string \<Rightarrow> string" where
  "cannot_read k = ''Cannot read properties of undefined (reading '' @ quoted k @ '')''"

text \<open>\<open>new Date(v.seconds * 1000).toISOString()\<close>.\<close>

definition seconds_text :: "(num \<Rightarrow> string) \<Rightarrow> json option \<Rightarrow> string + string" where
  "seconds_text iso_text v =
     (if v = None \<or> v = Some JNull then Inl (cannot_read ''seconds'')
      else case jopt v ''seconds'' of Some (JNum n) \<Rightarrow> Inr (iso_text (num_mul n (Num 1000))) | _ \<Rightarrow> Inl ''Invalid time value'')"

definition phase_text :: "json \<Rightarrow> string + string" where
  "phase_text a =
     (case jopt (jget a ''status'') ''phase'' of
        None \<Rightarrow> Inr ''pending'' | Some JNull \<Rightarrow> Inr ''pending'' | Some (JStr t) \<Rightarrow> Inr (lower t)
      | Some _ \<Rightarrow> Inl ''a.status?.phase?.toLowerCase is not a function'')"

definition version_text :: "json option \<Rightarrow> json" where
  "version_text md = JStr (CHR ''v'' # nullish (json_text (jnullish (jopt md ''version'') (JNum (Num 1)))) [])"

text \<open>An element of the list: the date is read from the agent, not from its metadata.\<close>

definition list_item :: "(num \<Rightarrow> string) \<Rightarrow> string \<Rightarrow> json \<Rightarrow> string + json" where
  "list_item iso_text now a =
     (let md = jget a ''metadata''
      in case phase_text a of
           Inl e \<Rightarrow> Inl e
         | Inr phase \<Rightarrow>
             (case (if json_truthy (jopt md ''created_at'') then seconds_text iso_text (jget a ''created_at'') else Inr now) of
                Inl e \<Rightarrow> Inl e
              | Inr created \<Rightarrow> Inr (JObj
                  [(''id'', jnullish (jopt md ''uid'') (JStr [])), (''name'', jnullish (jopt md ''name'') (JStr [])), (''version'', version_text md),
                   (''namespace'', jnullish (jopt md ''namespace'') (JStr [])), (''status'', JStr phase),
                   (''health'', jnullish (jopt (jget a ''status'') ''health_status'') (JStr ''Healthy'')), (''createdAt'', JStr created),
                   (''spec'', jnullish (jget a ''spec'') (JObj [])), (''owner'', jnullish (jopt md ''created_by'') (JStr []))])))"

definition list_agents_callback :: "(num \<Rightarrow> string) \<Rightarrow> string \<Rightarrow> jint \<Rightarrow> jint \<Rightarrow> rest callback" where
  "list_agents_callback iso_text now page limit res =
     (let agents = (case res of Inr response \<Rightarrow> (case jget response ''agents'' of Some (JArr as) \<Rightarrow> as | _ \<Rightarrow> []) | Inl e \<Rightarrow> [])
      in case collect (list_item iso_text now) agents of Inl e \<Rightarrow> Inl e | Inr items \<Rightarrow> Inr (api_ok (paginate items page limit)))"

definition list_agents_route :: "(num \<Rightarrow> string) \<Rightarrow> string \<Rightarrow> query \<Rightarrow> service_state \<Rightarrow> string + rest" where
  "list_agents_route iso_text now q s =
     (let page = int_param q ''page'' ''1''; limit = int_param q ''limit'' ''20'';
          opt_param = (\<lambda>k. if truthy (q k) then q k else None)
      in ListAgents \<lparr>lr_namespace = nullish (q ''namespace'') [], lr_phase = opt_param ''status'', lr_labels = None, lr_search = opt_param ''search'',
           lr_page_size = limit, lr_cursor = None\<rparr> (list_agents_callback iso_text now page limit) s)"

definition metadata_date :: "(num \<Rightarrow> string) \<Rightarrow> string \<Rightarrow> json option \<Rightarrow> string \<Rightarrow> string + string" where
  "metadata_date iso_text now md k = (if json_truthy (jopt md k) then seconds_text iso_text (jopt md k) else Inr now)"

definition get_agent_callback :: "(num \<Rightarrow> string) \<Rightarrow> string \<Rightarrow> string \<Rightarrow> string \<Rightarrow> rest callback" where
  "get_agent_callback iso_text now i namespace res =
     (case res of
        Inl e \<Rightarrow> Inr (api_error 404 e ''NOT_FOUND'')
      | Inr a \<Rightarrow>
          (let md = jget a ''metadata''
           in case phase_text a of
                Inl e \<Rightarrow> Inl e
              | Inr phase \<Rightarrow>
                  (case metadata_date iso_text now md ''created_at'' of
                     Inl e \<Rightarrow> Inl e
                   | Inr created \<Rightarrow>
                       (case metadata_date iso_text now md ''updated_at'' of
                          Inl e \<Rightarrow> Inl e
                        | Inr updated \<Rightarrow> Inr (api_ok (JObj
                            [(''id'', jnullish (jopt md ''uid'') (JStr i)), (''name'', jnullish (jopt md ''name'') (JStr i)), (''version'', version_text md),
                             (''namespace'', jnullish (jopt md ''namespace'') (JStr namespace)), (''status'', JStr phase),
                             (''health'', jnullish (jopt (jget a ''status'') ''health_status'') (JStr ''Healthy'')), (''createdAt'', JStr created),
                             (''updatedAt'', JStr updated), (''spec'', jnullish (jget a ''spec'') (JObj [])),
                             (''labels'', jnullish (jopt md ''labels'') (JObj [])), (''annotations'', jnullish (jopt md ''annotations'') (JObj [])),
                             (''owner'', jnullish (jopt md ''created_by'') (JStr [])), (''apiVersion'', jnullish (jget a ''api_version'') (JStr ''egaop.io/v1'')),
                             (''kind'', jnullish (jget a ''kind'') (JStr ''Agent''))]))))))"

definition get_agent_route :: "(num \<Rightarrow> string) \<Rightarrow> string \<Rightarrow> string \<Rightarrow> query \<Rightarrow> service_state \<Rightarrow> string + rest" where
  "get_agent_route iso_text now i q s =
     (let namespace = nullish (q ''namespace'') ''default''
      in GetAgent i (Some namespace) (get_agent_callback iso_text now i namespace) s)"

section \<open>Creating and deleting agents\<close>

record create_body =
  cb_name :: "string option"
  cb_namespace :: "string option"
  cb_spec :: "jsonb option"

definition opt_member :: "string \<Rightarrow> json option \<Rightarrow> (string \<times> json) list" where
  "opt_member k v = (case v of None \<Rightarrow> [] | Some j \<Rightarrow> [(k, j)])"

definition create_message :: "create_body \<Rightarrow> json" where
  "create_message b = JObj
     [(''metadata'', JObj (opt_member ''name'' (map_option JStr (cb_name b)) @ [(''namespace'', JStr (nullish (cb_namespace b) ''default''))])),
      (''spec'', JObj (nullish (cb_spec b) [])), (''api_version'', JStr ''egaop.io/v1''), (''kind'', JStr ''Agent'')]"

definition create_agent_callback :: "(num \<Rightarrow> string) \<Rightarrow> string \<Rightarrow> create_body \<Rightarrow> rest callback" where
  "create_agent_callback iso_text now b res =
     (case res of
        Inl e \<Rightarrow> Inr (api_error 409 e ''CONFLICT'')
      | Inr a \<Rightarrow>
          (let md = jget a ''metadata''
           in case metadata_date iso_text now md ''created_at'' of
                Inl e \<Rightarrow> Inl e
              | Inr created \<Rightarrow> Inr (api_ok (JObj
                  [(''id'', jnullish (jopt md ''uid'') (JStr [])), (''name'', jnullish (jopt md ''name'') (JStr (nullish (cb_name b) []))),
                   (''version'', version_text md), (''namespace'', jnullish (jopt md ''namespace'') (JStr (nullish (cb_namespace b) []))),
                   (''status'', JStr ''pending''), (''health'', JStr ''Healthy''), (''createdAt'', JStr created),
                   (''spec'', jnullish (jget a ''spec'') (JObj [])), (''owner'', JStr [])]))))"

definition create_agent_route ::
  "agent_env \<Rightarrow> (num \<Rightarrow> string) \<Rightarrow> string \<Rightarrow> agent_call \<Rightarrow> create_body \<Rightarrow> service_state \<Rightarrow> (string + rest) \<times> service_state" where
  "create_agent_route E iso_text now c b s = CreateAgent E c (create_message b) (create_agent_callback iso_text now b) s"

definition delete_agent_callback :: "rest callback" where
  "delete_agent_callback res =
     (case res of Inl e \<Rightarrow> Inr (Rest 404 (JObj [(''error'', JObj [(''message'', JStr e)])])) | Inr x \<Rightarrow> Inr (api_ok JNull))"

definition delete_agent_route :: "agent_env \<Rightarrow> agent_call \<Rightarrow> string \<Rightarrow> service_state \<Rightarrow> (string + rest) \<times> service_state" where
  "delete_agent_route E c i s = DeleteAgent E c ''default'' i delete_agent_callback s"

section \<open>Starting a workflow\<close>

record run_body =
  rn_systemPrompt :: "string option"
  rn_prompt :: "string option"
  rn_messages :: "message list option"
  rn_namespace :: "string option"
  rn_resourceNamespace :: "string option"
  rn_callerRole :: "string option"

record workflow_start =
  ws_workflowId :: string
  ws_input :: exec_input

text \<open>The agent found by \<open>GetAgent\<close>: its name and its model.\<close>

definition run_lookup :: "string \<Rightarrow> (string \<times> string option) option callback" where
  "run_lookup i res =
     (case res of
        Inl e \<Rightarrow> Inr None
      | Inr a \<Rightarrow> Inr (Some (nullish (jtext (jopt (jget a ''metadata'') ''name'')) i, jtext (jopt (jget a ''spec'') ''model''))))"

definition run_input :: "run_body option \<Rightarrow> string \<Rightarrow> string \<Rightarrow> string option \<Rightarrow> exec_input" where
  "run_input body agentName executionId model =
     (let namespace = nullish (Option.bind body rn_namespace) ''default''
      in \<lparr>in_agentId = agentName, in_executionId = executionId, in_namespace = namespace,
          in_resourceNamespace = Some (nullish (Option.bind body rn_resourceNamespace) namespace), in_callerRole = Some ''namespace_admin'',
          in_systemPrompt = Option.bind body rn_systemPrompt, in_model = model,
          in_initialMessages =
            (if truthy (Option.bind body rn_prompt)
             then Some [\<lparr>m_role = RUser, m_content = the (Option.bind body rn_prompt), m_name = None, m_toolCallId = None, m_toolCalls = None\<rparr>]
             else Option.bind body rn_messages),
          in_tools = None, in_maxIterations = None, in_costBudgetUsd = None, in_requiresApproval = None\<rparr>)"

text \<open>\<open>start\<close> is the workflow service: it fails, or answers the identifiers of the workflow and of its run.\<close>

definition run_route ::
  "(workflow_start \<Rightarrow> (string \<times> string) option) \<Rightarrow> string \<Rightarrow> string \<Rightarrow> string \<Rightarrow> run_body option \<Rightarrow> service_state \<Rightarrow> rest \<times> workflow_start list" where
  "run_route start random now i body s =
     (case GetAgent i (Some (nullish (Option.bind body rn_namespace) ''default'')) (run_lookup i) s of
        Inr (Some (agentName, model)) \<Rightarrow>
          (let executionId = ''exec-'' @ random; w = \<lparr>ws_workflowId = ''agent-exec-'' @ executionId, ws_input = run_input body agentName executionId model\<rparr>
           in case start w of
                None \<Rightarrow> (api_error 500 ''Failed to start workflow'' ''INTERNAL'', [w])
              | Some (wid, rid) \<Rightarrow> (api_ok (JObj [(''executionId'', JStr executionId), (''workflowId'', JStr wid), (''runId'', JStr rid),
                  (''agentId'', JStr i), (''agentName'', JStr agentName), (''status'', JStr ''running''), (''startTime'', JStr now)]), [w]))
      | _ \<Rightarrow> (api_error 404 (''Agent not found: '' @ i) ''NOT_FOUND'', []))"

section \<open>Versions\<close>

definition version_json :: "(int \<Rightarrow> string) \<Rightarrow> version_row \<Rightarrow> json" where
  "version_json date v = JObj
     [(''id'', JStr (av_id v)), (''agentId'', JStr (av_agent_id v)), (''namespace'', JStr (av_namespace v)), (''name'', JStr (av_name v)),
      (''version'', JNum (num_of_int (av_version v))), (''spec'', JObj (av_spec v)), (''labels'', JObj (av_labels v)),
      (''annotations'', JObj (av_annotations v)), (''createdBy'', JStr (av_created_by v)), (''createdAt'', JStr (date (av_created_at v))),
      (''changeSummary'', JStr (av_change_summary v))]"

text \<open>A limit that the database refuses shows as an empty history.\<close>

definition versions_route :: "(int \<Rightarrow> string) \<Rightarrow> bool \<Rightarrow> string \<Rightarrow> query \<Rightarrow> service_state \<Rightarrow> rest" where
  "versions_route date table_fails i q s =
     (case int_param q ''limit'' ''50'' of
        JInt n \<Rightarrow>
          if table_fails \<or> n < 0 then api_ok (JArr [])
          else api_ok (JArr (map (version_json date) (getVersionHistory (nullish (q ''namespace'') ''default'') i (nat n) (sv_db s))))
      | NaN \<Rightarrow> api_ok (JArr []))"

definition version_route ::
  "(int \<Rightarrow> string) \<Rightarrow> (version_row list \<Rightarrow> version_row) \<Rightarrow> bool \<Rightarrow> string \<Rightarrow> string \<Rightarrow> query \<Rightarrow> service_state \<Rightarrow> rest" where
  "version_route date first table_fails i version q s =
     (case parse_int version of
        NaN \<Rightarrow> api_error 400 ''Version must be a number'' ''BAD_REQUEST''
      | JInt n \<Rightarrow>
          if table_fails \<or> \<not> int32 n then api_error 500 ''Failed to get version'' ''INTERNAL''
          else (case getVersion first (nullish (q ''namespace'') ''default'') i n (sv_db s) of
              None \<Rightarrow> api_error 404 (''Version '' @ show_int n @ '' not found for agent '' @ i) ''NOT_FOUND''
            | Some v \<Rightarrow> api_ok (version_json date v)))"

record rollback_body =
  rk_version :: "int option"
  rk_namespace :: "string option"

definition rollback_route ::
  "(version_row list \<Rightarrow> version_row) \<Rightarrow> bool \<Rightarrow> bool \<Rightarrow> agent_call \<Rightarrow> string \<Rightarrow> rollback_body option \<Rightarrow> service_state \<Rightarrow> rest \<times> service_state" where
  "rollback_route first table_fails fails c i body s =
     (case Option.bind body rk_version of
        None \<Rightarrow> (api_error 400 ''Target version number is required'' ''BAD_REQUEST'', s)
      | Some n \<Rightarrow>
          if n = 0 then (api_error 400 ''Target version number is required'' ''BAD_REQUEST'', s)
          else if table_fails \<or> \<not> int32 n then (api_error 500 ''Rollback failed'' ''INTERNAL'', s)
          else (case rollbackToVersion first fails (ac_uuid c) (ac_now c) (nullish (Option.bind body rk_namespace) ''default'') i n (sv_db s) of
              (Inl e, d) \<Rightarrow> (api_error 500 ''Rollback failed'' ''INTERNAL'', s\<lparr>sv_db := d\<rparr>)
            | (Inr None, d) \<Rightarrow> (api_error 404 ''Agent or version not found'' ''NOT_FOUND'', s\<lparr>sv_db := d\<rparr>)
            | (Inr (Some r), d) \<Rightarrow>
                (api_ok (JObj [(''id'', JStr (ag_id r)), (''name'', JStr (ag_name r)), (''namespace'', JStr (ag_namespace r)),
                   (''version'', JStr (CHR ''v'' # show_int (ag_version r))), (''spec'', JObj (ag_spec r)), (''rolledBackToVersion'', JNum (num_of_int n))]),
                 s\<lparr>sv_db := d\<rparr>)))"

section \<open>Namespaces\<close>

definition ns_item :: "(num \<Rightarrow> string) \<Rightarrow> proto_ns \<Rightarrow> json" where
  "ns_item iso_text n = JObj
     [(''name'', JStr (pn_slug n)), (''displayName'', JStr (pn_display_name n)), (''agentCount'', JNum (Num 0)),
      (''status'', JStr (if pn_suspended_at n \<noteq> None then ''inactive'' else ''active'')),
      (''createdAt'', JStr (iso_text (num_mul (num_of_int (tm_seconds (pn_created_at n))) (Num 1000)))),
      (''tier'', JStr (lower (if take 15 (pn_tier n) = ''NAMESPACE_TIER_'' then drop 15 (pn_tier n) else pn_tier n))),
      (''quotas'', JObj [(''maxAgents'', JNum (num_of_int (qs_maxAgents (pn_quotas n)))),
         (''concurrentExecutions'', JNum (num_of_int (qs_maxConcurrentExecutions (pn_quotas n)))),
         (''toolCallsPerMinute'', JNum (num_of_int (qs_maxToolCallsPerMinute (pn_quotas n))))])]"

definition jint_option :: "jint \<Rightarrow> int option" where
  "jint_option n = (case n of NaN \<Rightarrow> None | JInt i \<Rightarrow> Some i)"

definition namespaces_route :: "ns_lib \<Rightarrow> (num \<Rightarrow> string) \<Rightarrow> query \<Rightarrow> ns_state \<Rightarrow> rest" where
  "namespaces_route N iso_text q s =
     (let page = int_param q ''page'' ''1''; limit = int_param q ''limit'' ''50'';
          ns = (case ListNamespaces N None (jint_option (jmin (jmax limit (JInt 1)) (JInt 100))) None s of
                  Inl e \<Rightarrow> [] | Inr p \<Rightarrow> map (ns_item iso_text) (pp_namespaces p))
      in api_ok (paginate ns page limit))"

section \<open>Hooks\<close>

record api_request =
  rq_method :: string
  rq_url :: string
  rq_content_type :: "string option"
  rq_call :: auth_call

definition public_urls :: "string list" where
  "public_urls = [''/health'', ''/api/health'', ''/api/auth/login'', ''/api/auth/register'']"

definition is_public :: "string \<Rightarrow> bool" where
  "is_public url \<longleftrightarrow> url \<in> set public_urls \<or> take 10 url = ''/api/auth/''"

definition bad_content_type :: "api_request \<Rightarrow> bool" where
  "bad_content_type q \<longleftrightarrow> rq_method q \<in> {''POST'', ''PUT'', ''PATCH''} \<and>
     \<not> (truthy (rq_content_type q) \<and> str_includes (the (rq_content_type q)) ''application/json'')"

definition CACHE_TTL :: "(string \<times> string) list" where
  "CACHE_TTL =
     [(''/api/agents'', ''public, max-age=30, stale-while-revalidate=120''), (''/api/namespaces'', ''public, max-age=60, stale-while-revalidate=300''),
      (''/api/executions'', ''public, max-age=30, stale-while-revalidate=120''), (''/api/traces'', ''no-cache, max-age=10''),
      (''/api/metrics'', ''no-cache, max-age=15''), (''/api/slos'', ''no-cache, max-age=30''), (''/api/events'', ''no-cache, max-age=10''),
      (''/api/auth/me'', ''private, no-cache, max-age=10'')]"

definition cache_control :: "api_request \<Rightarrow> string option" where
  "cache_control q =
     (if rq_method q = ''GET'' then map_option snd (find (\<lambda>(k, v). take (length k) (rq_url q) = k) CACHE_TTL) else None)"

text \<open>The hooks before a handler, in their order.\<close>

definition pre_handler :: "'r auth_lib \<Rightarrow> api_request \<Rightarrow> 'r auth_state \<Rightarrow> rest option" where
  "pre_handler L q s =
     (if bad_content_type q then Some (Rest 415 (JObj [(''message'', JStr ''Unsupported Media Type'')]))
      else if is_public (rq_url q) then None
      else case authenticate L (rq_call q) s of
          Answer claims \<Rightarrow> None
        | Refused code m k \<Rightarrow> Some (api_error code m k)
        | Threw e \<Rightarrow> Some (Rest 500 (JObj [(''message'', JStr e)])))"

text \<open>The hashes of past answers, and the answer to a conditional request.\<close>

definition etag_remember :: "string \<Rightarrow> string \<Rightarrow> (string, string) js_map \<Rightarrow> (string, string) js_map" where
  "etag_remember url hash store =
     (if js_get store url = Some hash then js_del url store
      else let store' = js_set url hash store
        in if 500 < length store' then (case js_keys store' of k # ks \<Rightarrow> if k \<noteq> [] then js_del k store' else store' | [] \<Rightarrow> store') else store')"

definition etag_hook ::
  "(string \<Rightarrow> string) \<Rightarrow> string \<Rightarrow> string \<Rightarrow> nat \<Rightarrow> string option \<Rightarrow> string \<Rightarrow> (string, string) js_map \<Rightarrow>
     (nat \<times> string \<times> string option) \<times> (string, string) js_map" where
  "etag_hook sha256url verb url status ifNoneMatch payload store =
     (if verb = ''GET'' \<and> status = 200
      then let hash = take 27 (sha256url payload); tag = CHR 0x22 # hash @ [CHR 0x22]; store' = etag_remember url hash store
        in (if ifNoneMatch = Some tag then (304, [], Some tag) else (200, payload, Some tag), store')
      else ((status, payload, None), store))"

section \<open>Serving a request\<close>

datatype api_route =
    R_list query
  | R_get string query
  | R_create create_body
  | R_delete string
  | R_run string "run_body option"
  | R_versions string query
  | R_version string string query
  | R_rollback string "rollback_body option"
  | R_namespaces query

record 'r api_lib =
  li_auth :: "'r auth_lib"
  li_ns :: ns_lib
  li_iso :: "num \<Rightarrow> string"
  li_date :: "int \<Rightarrow> string"
  li_first :: "version_row list \<Rightarrow> version_row"
  li_start :: "workflow_start \<Rightarrow> (string \<times> string) option"

text \<open>What differs from call to call: random values, the clock and the failures of the database.\<close>

record api_call =
  cx_agent :: agent_call
  cx_random :: string
  cx_now :: string
  cx_table_fails :: bool
  cx_snapshot_fails :: bool

record 'r api_state =
  sr_auth :: "'r auth_state"
  sr_db :: agent_db
  sr_ns :: namespaces

definition service_of :: "'r api_state \<Rightarrow> service_state" where
  "service_of st = \<lparr>sv_db = sr_db st, sv_audit = st_audit (sr_auth st)\<rparr>"

definition put_service :: "service_state \<Rightarrow> 'r api_state \<Rightarrow> 'r api_state" where
  "put_service s st = st\<lparr>sr_db := sv_db s, sr_auth := (sr_auth st)\<lparr>st_audit := sv_audit s\<rparr>\<rparr>"

text \<open>A callback that throws twice leaves the request without an answer.\<close>

definition settled :: "string + rest \<Rightarrow> rest option" where
  "settled r = (case r of Inl e \<Rightarrow> None | Inr x \<Rightarrow> Some x)"

fun run_handler :: "'r api_lib \<Rightarrow> api_call \<Rightarrow> api_route \<Rightarrow> 'r api_state \<Rightarrow> rest option \<times> workflow_start list \<times> 'r api_state" where
  "run_handler L x (R_list q) st = (settled (list_agents_route (li_iso L) (cx_now x) q (service_of st)), [], st)"
| "run_handler L x (R_get i q) st = (settled (get_agent_route (li_iso L) (cx_now x) i q (service_of st)), [], st)"
| "run_handler L x (R_create b) st =
     (case create_agent_route \<lparr>ae_sha256 = al_sha256 (li_auth L), ae_env = al_env (li_auth L)\<rparr> (li_iso L) (cx_now x) (cx_agent x) b (service_of st) of
        (r, s) \<Rightarrow> (settled r, [], put_service s st))"
| "run_handler L x (R_delete i) st =
     (case delete_agent_route \<lparr>ae_sha256 = al_sha256 (li_auth L), ae_env = al_env (li_auth L)\<rparr> (cx_agent x) i (service_of st) of
        (r, s) \<Rightarrow> (settled r, [], put_service s st))"
| "run_handler L x (R_run i b) st =
     (case run_route (li_start L) (cx_random x) (cx_now x) i b (service_of st) of (r, ws) \<Rightarrow> (Some r, ws, st))"
| "run_handler L x (R_versions i q) st = (Some (versions_route (li_date L) (cx_table_fails x) i q (service_of st)), [], st)"
| "run_handler L x (R_version i v q) st = (Some (version_route (li_date L) (li_first L) (cx_table_fails x) i v q (service_of st)), [], st)"
| "run_handler L x (R_rollback i b) st =
     (case rollback_route (li_first L) (cx_table_fails x) (cx_snapshot_fails x) (cx_agent x) i b (service_of st) of
        (r, s) \<Rightarrow> (Some r, [], put_service s st))"
| "run_handler L x (R_namespaces q) st =
     (Some (namespaces_route (li_ns L) (li_iso L) q \<lparr>ss_rows = sr_ns st, ss_audit = st_audit (sr_auth st)\<rparr>), [], st)"

definition serve :: "'r api_lib \<Rightarrow> api_call \<Rightarrow> api_request \<Rightarrow> api_route \<Rightarrow> 'r api_state \<Rightarrow> rest option \<times> workflow_start list \<times> 'r api_state" where
  "serve L x q route st =
     (case pre_handler (li_auth L) q (sr_auth st) of
        Some r \<Rightarrow> (Some r, [], st)
      | None \<Rightarrow> run_handler L x route st)"

section \<open>What the interface shows\<close>

lemma list_item_throws: "\<exists>e. list_item iso_text now (toProtoAgent r) = Inl e"
proof -
  have "jopt (jget (toProtoAgent r) ''metadata'') ''created_at'' = Some (timestamp_json (ag_created_at r))"
    by (simp add: toProtoAgent_def jget_def jopt_def)
  then have t: "json_truthy (jopt (jget (toProtoAgent r) ''metadata'') ''created_at'')"
    by (simp add: timestamp_json_def json_truthy_def)
  have "jget (toProtoAgent r) ''created_at'' = None" by (simp add: toProtoAgent_def jget_def)
  then have "seconds_text iso_text (jget (toProtoAgent r) ''created_at'') = Inl (cannot_read ''seconds'')" by (simp add: seconds_text_def)
  with t show ?thesis by (simp add: list_item_def Let_def split: sum.split)
qed

lemma collect_throws: "xs \<noteq> [] \<Longrightarrow> (\<And>x. \<exists>e. f x = Inl e) \<Longrightarrow> \<exists>e. collect f xs = Inl e"
proof (cases xs)
  case (Cons x ys)
  assume "\<And>x. \<exists>e. f x = Inl e"
  then obtain e where "f x = Inl e" by blast
  then show ?thesis by (simp add: Cons)
qed simp

text \<open>The list of agents is always empty: whatever agents the platform has and whatever is asked, the answer
  of the REST interface is a successful one with no agents. The conversion of any agent throws, the handler
  takes that for its own failure and calls its callback once more with an error, and that is
  answered like an empty list.\<close>

theorem agents_list_always_empty:
  "list_agents_route iso_text now q s = Inr (api_ok (paginate [] (int_param q ''page'' ''1'') (int_param q ''limit'' ''20'')))"
proof -
  let ?cb = "list_agents_callback iso_text now (int_param q ''page'' ''1'') (int_param q ''limit'' ''20'')"
  let ?empty = "Inr (api_ok (paginate [] (int_param q ''page'' ''1'') (int_param q ''limit'' ''20'')))"
  have none: "?cb (Inl e) = ?empty" for e by (simp add: list_agents_callback_def)
  have some: "?cb (Inr (JObj ((''agents'', JArr (map toProtoAgent rs)) # ps))) = ?empty \<or>
      (\<exists>e. ?cb (Inr (JObj ((''agents'', JArr (map toProtoAgent rs)) # ps))) = Inl e)" for rs ps
  proof (cases "rs = []")
    case False
    have "\<exists>e. collect (list_item iso_text now) (map toProtoAgent rs) = Inl e"
    proof (cases rs)
      case (Cons r rs')
      then show ?thesis using list_item_throws[of iso_text now r] by auto
    qed (use False in simp)
    then show ?thesis by (auto simp: list_agents_callback_def jget_def)
  qed (simp add: list_agents_callback_def jget_def)
  have delivered: "deliver ''Internal error listing agents'' (Inr (JObj ((''agents'', JArr (map toProtoAgent rs)) # ps))) ?cb = ?empty" for rs ps
    using some[of rs ps] none[of "''Internal error listing agents''"] by (elim disjE exE) (simp_all only: deliver_def sum.case)
  have "ListAgents req ?cb s = ?empty" for req
    unfolding ListAgents_def by (simp only: none delivered split: sum.split) blast
  then show ?thesis unfolding list_agents_route_def Let_def .
qed

text \<open>C9. No session, no effect: unless its path is one of the public ones, a request that is not authenticated
  is answered with an error and neither changes any state nor starts a workflow.\<close>

theorem rest_requires_session:
  assumes "\<not> is_public (rq_url q)" and "\<nexists>claims. authenticate (li_auth L) (rq_call q) (sr_auth st) = Answer claims"
  shows "\<exists>code body. serve L x q route st = (Some (Rest code body), [], st) \<and> 400 \<le> code"
proof -
  have "400 \<le> n" if "authenticate (li_auth L) (rq_call q) (sr_auth st) = Refused n m k" for n m k
    using that by (auto simp: authenticate_def Let_def split: if_splits sum.splits)
  then show ?thesis
    using assms by (auto simp: serve_def pre_handler_def api_error_def split: auth_reply.split)
qed

text \<open>C5. Any session is enough to run any agent as an administrator: whatever role and namespaces the session
  has, a run request that names a namespace starts the workflow there for the agent of that name,
  and the workflow is told that its caller is an administrator of namespaces.\<close>

theorem any_session_runs_as_admin:
  assumes "authenticate (li_auth L) (rq_call q) (sr_auth st) = Answer claims" and "\<not> bad_content_type q"
    and "rn_namespace b = Some ns" and "findByNamespaceAndName ns i (sr_db st) = Some r"
  shows "\<exists>w. fst (snd (serve L x q (R_run i (Some b)) st)) = [w] \<and> in_callerRole (ws_input w) = Some ''namespace_admin'' \<and>
    in_namespace (ws_input w) = ns \<and> in_agentId (ws_input w) = i"
proof -
  have "pre_handler (li_auth L) q (sr_auth st) = None" using assms(1,2) by (simp add: pre_handler_def)
  moreover have name: "ag_name r = i" using find_live[OF assms(4)] by (simp add: live_agent_def)
  have "run_lookup i (Inr (toProtoAgent r)) = Inr (Some (i, jtext (jopt (jget (toProtoAgent r) ''spec'') ''model'')))"
    by (simp add: run_lookup_def toProtoAgent_def jget_def jopt_def jtext_def nullish_def name)
  then have "GetAgent i (Some ns) (run_lookup i) (service_of st) = Inr (Some (i, jtext (jopt (jget (toProtoAgent r) ''spec'') ''model'')))"
    using assms(4) by (simp add: GetAgent_def deliver_def service_of_def)
  ultimately show ?thesis
    using assms(3) by (simp add: serve_def run_route_def Let_def run_input_def split: option.split)
qed

text \<open>The REST interface deletes agents of the default namespace only: a request to delete an agent leaves
  every agent of every other namespace as it is, whatever the caller meant.\<close>

theorem rest_deletes_default_only:
  "filter (\<lambda>r. ag_namespace r \<noteq> ''default'') (db_agents (sr_db (snd (snd (serve L x q (R_delete i) st))))) =
   filter (\<lambda>r. ag_namespace r \<noteq> ''default'') (db_agents (sr_db st))"
proof -
  let ?E = "\<lparr>ae_sha256 = al_sha256 (li_auth L), ae_env = al_env (li_auth L)\<rparr>"
  have "filter (\<lambda>r. ag_namespace r \<noteq> ''default'') (map (\<lambda>r. if live_agent ''default'' i r then f r else r) rs) = filter (\<lambda>r. ag_namespace r \<noteq> ''default'') rs"
    if "\<And>r. ag_namespace (f r) = ag_namespace r" for f rs
    using that by (induction rs) (auto simp: live_agent_def)
  then have upd: "filter (\<lambda>r. ag_namespace r \<noteq> ''default'') (db_agents (snd (softDelete t ''default'' i d))) =
      filter (\<lambda>r. ag_namespace r \<noteq> ''default'') (db_agents d)" for t d
    by (simp add: softDelete_def update_live_def)
  have "sv_db (snd (delete_agent_route ?E c i s)) = snd (softDelete (ac_now c) ''default'' i (sv_db s))" for c s
    by (simp add: delete_agent_route_def DeleteAgent_def audit_agent_def split: prod.split option.split)
  then show ?thesis
    by (auto simp: serve_def put_service_def service_of_def upd split: option.split prod.split) (metis (no_types, lifting) service_state.select_convs(1) snd_conv upd)
qed

lemma slice_beyond: "int (length xs) \<le> a \<Longrightarrow> js_slice (JInt a) b xs = []"
  by (simp add: js_slice_def slice_index_def)

lemma paginate_beyond:
  assumes "int (length items) \<le> limit" and "2 \<le> page"
  shows "\<exists>rest. paginate items (JInt page) (JInt limit) = JObj ((''items'', JArr []) # rest @ [(''hasNext'', JBool False)])"
proof -
  have nonneg: "0 \<le> limit" using assms(1) by linarith
  have "1 * limit \<le> (page - 1) * limit" using assms(2) nonneg by (intro mult_right_mono) simp_all
  then have "int (length items) \<le> (page - 1) * limit" using assms(1) by simp
  then show ?thesis using nonneg by (simp add: paginate_def Let_def slice_beyond)
qed

lemma ns_list_page_size: "ns_list u q rows = Inr p \<Longrightarrow> int (length (np_namespaces p)) \<le> max 0 (nullish (sq_pageSize q) 50)"
  by (auto simp: ns_list_def Let_def split: if_splits)

text \<open>The second page of the list of namespaces is empty over REST as well, and no page announces another: the
  route asks for one page of the size of the limit and then cuts the requested page out of that.\<close>

theorem rest_second_page_empty:
  assumes "int_param q ''page'' ''1'' = JInt page" and "2 \<le> page" and "int_param q ''limit'' ''50'' = JInt limit" and "1 \<le> limit"
  shows "\<exists>rest. namespaces_route N iso_text q s = api_ok (JObj ((''items'', JArr []) # rest @ [(''hasNext'', JBool False)]))"
proof -
  let ?res = "ListNamespaces N None (jint_option (jmin (jmax (JInt limit) (JInt 1)) (JInt 100))) None s"
  let ?ns = "case ?res of Inl e \<Rightarrow> [] | Inr p \<Rightarrow> map (ns_item iso_text) (pp_namespaces p)"
  have pos: "min limit 100 \<noteq> 0" using assms(4) by linarith
  have "int (length ?ns) \<le> limit"
  proof (cases ?res)
    case (Inr p)
    then obtain p' where p': "ns_list (nl_uuid_of N) \<lparr>sq_ownerId = None, sq_pageSize = Some (min (max limit 1) 100), sq_pageToken = None\<rparr> (ss_rows s) = Inr p'"
      "length (pp_namespaces p) = length (np_namespaces p')"
      using assms(4) pos by (auto simp: ListNamespaces_def jint_option_def split: sum.splits)
    then show ?thesis using ns_list_page_size[OF p'(1)] assms(4) Inr by (simp add: nullish_def)
  qed (use assms(4) in simp)
  from paginate_beyond[OF this assms(2)] show ?thesis
    unfolding namespaces_route_def Let_def assms(1,3) by (auto simp: api_ok_def)
qed

theorem rest_second_page_empty_witness:
  "\<exists>rest. namespaces_route demo_nl (\<lambda>_. []) (\<lambda>k. if k = ''page'' then Some ''2'' else if k = ''limit'' then Some ''2'' else None)
     \<lparr>ss_rows = demo_rows, ss_audit = no_audit\<rparr> = api_ok (JObj ((''items'', JArr []) # rest @ [(''hasNext'', JBool False)]))"
proof -
  let ?q = "\<lambda>k. if k = ''page'' then Some ''2'' else if k = ''limit'' then Some ''2'' else None"
  have "parse_int ''2'' = JInt 2" by code_simp
  then have "int_param ?q ''page'' ''1'' = JInt 2" "int_param ?q ''limit'' ''50'' = JInt 2" by (simp_all add: int_param_def nullish_def)
  then show ?thesis by (intro rest_second_page_empty[of ?q 2 2]) simp_all
qed

section \<open>Conditional requests\<close>

definition etag_ok :: "(string, string) js_map \<Rightarrow> bool" where
  "etag_ok store \<longleftrightarrow> length store \<le> 500 \<and> [] \<notin> set (js_keys store)"

lemma keys_update: "set (js_keys (js_set k v m)) \<subseteq> insert k (set (js_keys m))"
  by (induction m) auto

lemma keys_delete: "set (js_keys (js_del k m)) \<subseteq> set (js_keys m)"
  by (induction m) (auto simp: AList.delete_eq)

lemma etag_remember_ok: "etag_ok store \<Longrightarrow> url \<noteq> [] \<Longrightarrow> etag_ok (etag_remember url hash store)"
proof -
  assume ok: "etag_ok store" and url: "url \<noteq> []"
  let ?s = "js_set url hash store"
  have len: "length ?s \<le> 501" using ok by (simp add: etag_ok_def length_js_set)
  have keys: "[] \<notin> set (js_keys ?s)" using ok url keys_update[of url hash store] by (auto simp: etag_ok_def)
  have del: "[] \<notin> set (js_keys (js_del k m))" if "[] \<notin> set (js_keys m)" for k and m :: "(string, string) js_map"
    using that keys_delete[of k m] by blast
  show ?thesis
  proof (cases "js_get store url = Some hash")
    case True
    then show ?thesis using ok del length_js_del_le[of url store] by (simp add: etag_remember_def etag_ok_def)
  next
    case False
    show ?thesis
    proof (cases ?s)
      case Nil
      then show ?thesis using False keys len by (simp add: etag_remember_def etag_ok_def Let_def)
    next
      case (Cons p ps)
      have "length (js_del (fst p) ?s) \<le> length ps" unfolding Cons using length_js_del_le[of "fst p" ps] by (cases p) simp
      moreover have "fst p \<noteq> []" using keys by (auto simp: Cons)
      moreover have "[] \<notin> set (js_keys (js_del (fst p) ps))" using keys by (intro del) (simp add: Cons)
      ultimately show ?thesis using False keys len Cons by (simp add: etag_remember_def etag_ok_def Let_def)
    qed
  qed
qed

text \<open>The store of entity tags is bounded: whatever requests are answered, it never holds more than five
  hundred hashes.\<close>

theorem etag_store_bounded:
  assumes "list_all (\<lambda>(url, payload). url \<noteq> []) answers"
  shows "length (fold (\<lambda>(url, payload) store. snd (etag_hook sha256url ''GET'' url 200 None payload store)) answers []) \<le> 500"
proof -
  have "etag_ok (fold (\<lambda>(url, payload) store. snd (etag_hook sha256url ''GET'' url 200 None payload store)) answers store)"
    if "etag_ok store" for store
    using assms that by (induction answers arbitrary: store) (auto simp: etag_hook_def Let_def etag_remember_ok)
  from this[of "[]"] show ?thesis by (simp add: etag_ok_def)
qed

section \<open>A run\<close>

definition demo_api_lib :: "(string \<times> int) list api_lib" where
  "demo_api_lib = \<lparr>li_auth = online_lib, li_ns = demo_nl, li_iso = (\<lambda>_. []), li_date = (\<lambda>_. []), li_first = hd, li_start = (\<lambda>w. Some (''w'', ''r''))\<rparr>"

definition finance_agent :: agent_row where
  "finance_agent = (demo_agent ''f'' ''payroll'')\<lparr>ag_namespace := ''finance''\<rparr>"

definition demo_api :: "(string \<times> int) list api_state" where
  "demo_api = \<lparr>sr_auth = online, sr_db = \<lparr>db_agents = [finance_agent], db_versions = []\<rparr>, sr_ns = []\<rparr>"

definition demo_api_call :: api_call where
  "demo_api_call = \<lparr>cx_agent = \<lparr>ac_now = 0, ac_uuid = ''i'', ac_suffix = ''s'', ac_stamp = ''t'', ac_event = ''e''\<rparr>, cx_random = ''x'', cx_now = ''n'',
     cx_table_fails = False, cx_snapshot_fails = False\<rparr>"

definition finance_run :: run_body where
  "finance_run = \<lparr>rn_systemPrompt = None, rn_prompt = None, rn_messages = None, rn_namespace = Some ''finance'', rn_resourceNamespace = None,
     rn_callerRole = None\<rparr>"

definition run_request :: api_request where
  "run_request = \<lparr>rq_method = ''POST'', rq_url = ''/api/agents/payroll/run'', rq_content_type = Some ''application/json'', rq_call = demo_request\<rparr>"

theorem any_session_runs_as_admin_witness:
  "jget demo_session ''role'' = Some (JStr ''developer'') \<and>
   (\<exists>w. fst (snd (serve demo_api_lib demo_api_call run_request (R_run ''payroll'' (Some finance_run)) demo_api)) = [w] \<and>
     in_callerRole (ws_input w) = Some ''namespace_admin'' \<and> in_namespace (ws_input w) = ''finance'')"
proof -
  have "authenticate (li_auth demo_api_lib) (rq_call run_request) (sr_auth demo_api) = Answer demo_session"
    using demo_good_logout by (simp add: good_logout_def demo_api_lib_def run_request_def demo_api_def)
  moreover have "\<not> bad_content_type run_request" by code_simp
  moreover have "rn_namespace finance_run = Some ''finance''" by (simp add: finance_run_def)
  moreover have "findByNamespaceAndName ''finance'' ''payroll'' (sr_db demo_api) = Some finance_agent"
  proof -
    have "live_agent ''finance'' ''payroll'' finance_agent" by code_simp
    then show ?thesis by (simp add: findByNamespaceAndName_def demo_api_def)
  qed
  ultimately have "\<exists>w. fst (snd (serve demo_api_lib demo_api_call run_request (R_run ''payroll'' (Some finance_run)) demo_api)) = [w] \<and>
     in_callerRole (ws_input w) = Some ''namespace_admin'' \<and> in_namespace (ws_input w) = ''finance'' \<and> in_agentId (ws_input w) = ''payroll''"
    by (rule any_session_runs_as_admin)
  moreover have "ur_role demo_row = ''developer''" by code_simp
  ultimately show ?thesis by (auto simp: demo_session_def claims_json_def jget_def row_claims_def)
qed

theorem rest_requires_session_witness:
  "\<exists>code body. serve demo_api_lib demo_api_call (run_request\<lparr>rq_call := demo_call\<rparr>) (R_delete ''payroll'') demo_api = (Some (Rest code body), [], demo_api)"
proof -
  have "\<not> is_public (rq_url (run_request\<lparr>rq_call := demo_call\<rparr>))" by code_simp
  moreover have "request_token demo_call = None" by code_simp
  then have "\<nexists>claims. authenticate (li_auth demo_api_lib) (rq_call (run_request\<lparr>rq_call := demo_call\<rparr>)) (sr_auth demo_api) = Answer claims"
    by (simp add: authenticate_Answer truthy_def)
  ultimately show ?thesis using rest_requires_session[of "run_request\<lparr>rq_call := demo_call\<rparr>" demo_api_lib demo_api] by blast
qed

end
