(* ===== verification/Executions.thy ===== *)
theory Executions
  imports ApiServer
begin

text \<open>
  The routes of \<open>control-plane/api-server/src/index.ts\<close> that read from the workflow service: executions,
  traces, metrics, and the health endpoints. The service's answers are arguments: a list of workflows
  (\<open>None\<close> when it fails), a description or a history (or the message of a failure). Dates print by the
  parameter \<open>date\<close>.
\<close>

section \<open>Workflows\<close>

record wf_info =
  wi_workflowId :: string
  wi_type :: string
  wi_status :: string
  wi_start :: int
  wi_close :: "int option"
  wi_totalCost :: "json option"
  wi_taskQueue :: "string option"

definition opt_text :: "string \<Rightarrow> string option \<Rightarrow> (string \<times> json) list" where
  "opt_text k v = opt_member k (map_option JStr v)"

definition opt_int :: "string \<Rightarrow> int option \<Rightarrow> (string \<times> json) list" where
  "opt_int k v = opt_member k (map_option (\<lambda>i. JNum (num_of_int i)) v)"

definition duration :: "wf_info \<Rightarrow> int option" where
  "duration w = map_option (\<lambda>c. c - wi_start w) (wi_close w)"

section \<open>Executions of an agent\<close>

definition execution_status :: "string \<Rightarrow> string" where
  "execution_status n =
     (if n = ''Completed'' then ''succeeded'' else if n = ''Running'' then ''running'' else if n = ''Failed'' then ''failed''
      else if n = ''Terminated'' then ''cancelled'' else if n = ''TimedOut'' then ''timeout'' else lower n)"

definition execution_json :: "(int \<Rightarrow> string) \<Rightarrow> string \<Rightarrow> string \<Rightarrow> wf_info \<Rightarrow> json" where
  "execution_json date i namespace w = JObj
     ([(''id'', JStr (wi_workflowId w)), (''agentId'', JStr i), (''agentName'', JStr i), (''namespace'', JStr namespace),
       (''status'', JStr (execution_status (wi_status w))), (''startTime'', JStr (date (wi_start w)))] @
      opt_text ''endTime'' (map_option date (wi_close w)) @ opt_int ''durationMs'' (duration w) @
      [(''costUsd'', JNum (Num 0)), (''traceId'', JStr (wi_workflowId w))])"

definition executions_route :: "(int \<Rightarrow> string) \<Rightarrow> wf_info list option \<Rightarrow> string \<Rightarrow> query \<Rightarrow> rest" where
  "executions_route date found i q =
     (let page = int_param q ''page'' ''1''; limit = int_param q ''limit'' ''20''; namespace = nullish (q ''namespace'') ''default''
      in case found of
           None \<Rightarrow> api_ok (paginate [] page limit)
         | Some ws \<Rightarrow> api_ok (paginate (map (execution_json date i namespace) (filter (\<lambda>w. str_includes (wi_workflowId w) i) ws)) page limit))"

definition service_failure :: "string \<Rightarrow> string \<Rightarrow> string \<Rightarrow> rest" where
  "service_failure errMsg missing failed =
     (if str_includes errMsg ''not found'' \<or> str_includes errMsg ''NotFound'' then api_error 404 missing ''NOT_FOUND''
      else api_error 500 failed ''INTERNAL'')"

record wf_description =
  wd_workflowId :: string
  wd_runId :: "json option"
  wd_status :: string
  wd_start :: "int option"
  wd_executionTime :: "json option"
  wd_taskQueue :: string

definition execution_route :: "(int \<Rightarrow> string) \<Rightarrow> string + wf_description \<Rightarrow> string \<Rightarrow> rest" where
  "execution_route date described i =
     (case described of
        Inl e \<Rightarrow> service_failure e (''Execution not found: '' @ i) ''Failed to get execution''
      | Inr d \<Rightarrow> api_ok (JObj
          [(''workflowId'', JStr (wd_workflowId d)), (''runId'', jnullish (wd_runId d) (JStr [])), (''status'', JStr (wd_status d)),
           (''startTime'', JStr (case wd_start d of None \<Rightarrow> [] | Some t \<Rightarrow> date t)), (''executionTime'', jnullish (wd_executionTime d) (JStr [])),
           (''taskQueue'', JStr (wd_taskQueue d))]))"

section \<open>History\<close>

definition event_attributes :: "json \<Rightarrow> json" where
  "event_attributes e =
     (let started = jget e ''workflowExecutionStartedEventAttributes''; task = jget e ''workflowTaskCompletedEventAttributes'';
          completed = jget e ''activityTaskCompletedEventAttributes''; failed = jget e ''activityTaskFailedEventAttributes''
      in if json_truthy started then JObj (opt_member ''input'' (jopt started ''input''))
         else if json_truthy task
         then JObj (opt_member ''scheduledEventId'' (jopt (jget e ''workflowExecutionCompletedEventAttributes'') ''scheduledEventId''))
         else if json_truthy completed then JObj (opt_member ''result'' (jopt completed ''result''))
         else if json_truthy failed then JObj (opt_member ''error'' (jopt (jopt failed ''failure'') ''message''))
         else JObj [])"

text \<open>\<open>new Date(n)\<close> has no text when \<open>n\<close> is no number.\<close>

definition event_json :: "(num \<Rightarrow> string) \<Rightarrow> json \<Rightarrow> string + json" where
  "event_json iso_text e =
     (let seconds = jopt (jget e ''eventTime'') ''seconds''; n = to_number seconds
      in case (case jget e ''eventId'' of None \<Rightarrow> Some ''0'' | Some JNull \<Rightarrow> Some ''0'' | Some j \<Rightarrow> json_text j) of
           None \<Rightarrow> Inl ''Cannot convert object to primitive value''
         | Some eventId \<Rightarrow>
             if json_truthy seconds \<and> n = NNaN then Inl ''Invalid time value''
             else Inr (JObj [(''eventId'', JStr eventId), (''eventTime'', JStr (if json_truthy seconds then iso_text (num_mul n (Num 1000)) else [])),
               (''eventType'', jnullish (jget e ''eventType'') (JStr ''UNKNOWN'')), (''attributes'', event_attributes e)]))"

definition history_route :: "(num \<Rightarrow> string) \<Rightarrow> string + json list \<Rightarrow> string \<Rightarrow> rest" where
  "history_route iso_text history i =
     (let failed = (\<lambda>e. service_failure e (''Execution not found: '' @ i) ''Failed to get execution history'')
      in case history of
           Inl e \<Rightarrow> failed e
         | Inr events \<Rightarrow>
             (case collect (event_json iso_text) events of
                Inl e \<Rightarrow> failed e
              | Inr es \<Rightarrow> api_ok (JObj [(''workflowId'', JStr i), (''eventCount'', JNum (num_of_int (int (length es)))), (''events'', JArr es)])))"

section \<open>Traces\<close>

definition status_map :: "string \<Rightarrow> string option" where
  "status_map = map_of [(''RUNNING'', ''running''), (''COMPLETED'', ''succeeded''), (''FAILED'', ''failed''), (''CANCELLED'', ''cancelled''),
     (''TERMINATED'', ''terminated''), (''TIMED_OUT'', ''timeout'')]"

text \<open>\<open>s.replace(t, "")\<close> on a text: the first occurrence is removed.\<close>

fun remove_first :: "string \<Rightarrow> string \<Rightarrow> string" where
  "remove_first t [] = []"
| "remove_first t (c # s) = (if prefix t (c # s) then drop (length t) (c # s) else c # remove_first t s)"

definition trace_json :: "(int \<Rightarrow> string) \<Rightarrow> query \<Rightarrow> wf_info \<Rightarrow> json" where
  "trace_json date q w = JObj
     ([(''id'', JStr (wi_workflowId w)), (''agentId'', JStr (remove_first ''agent-exec-'' (wi_workflowId w))), (''agentName'', JStr (wi_type w)),
       (''namespace'', JStr (nullish (q ''namespace'') ''default'')), (''status'', JStr (nullish (status_map (wi_status w)) ''unknown'')),
       (''startTime'', JStr (date (wi_start w)))] @
      opt_text ''endTime'' (map_option date (wi_close w)) @ opt_int ''durationMs'' (duration w) @ [(''traceId'', JStr [])])"

text \<open>The loop stops once it has as many as the limit, but not before the first one.\<close>

definition up_to_limit :: "jint \<Rightarrow> 'a list \<Rightarrow> 'a list" where
  "up_to_limit limit xs = (case limit of NaN \<Rightarrow> xs | JInt n \<Rightarrow> take (nat (max 1 n)) xs)"

definition traces_route :: "(int \<Rightarrow> string) \<Rightarrow> wf_info list option \<Rightarrow> query \<Rightarrow> rest" where
  "traces_route date found q =
     (let page = int_param q ''page'' ''1''; limit = int_param q ''limit'' ''20''
      in case found of
           None \<Rightarrow> api_ok (paginate [] page limit)
         | Some ws \<Rightarrow> api_ok (paginate (map (trace_json date q) (up_to_limit limit ws)) page limit))"

definition is_trace :: "string \<Rightarrow> wf_info \<Rightarrow> bool" where
  "is_trace i w \<longleftrightarrow> wi_workflowId w = i \<or> suffix (CHR ''-'' # i) (wi_workflowId w)"

definition span_json :: "(int \<Rightarrow> string) \<Rightarrow> wf_info \<Rightarrow> json" where
  "span_json date w = JObj
     [(''spanId'', JStr ''s-1''), (''traceId'', JStr (wi_workflowId w)), (''operationName'', JStr ''agent.execute''), (''serviceName'', JStr ''api-server''),
      (''startTime'', JStr (date (wi_start w))), (''endTime'', JStr (date (nullish (wi_close w) (wi_start w)))),
      (''durationMs'', JNum (num_of_int (nullish (duration w) 0))),
      (''status'', JStr (if wi_status w = ''COMPLETED'' then ''ok'' else if wi_status w = ''FAILED'' then ''error'' else ''running'')),
      (''attributes'', JObj ((''workflowId'', JStr (wi_workflowId w)) # opt_text ''taskQueue'' (wi_taskQueue w)))]"

definition trace_route :: "(int \<Rightarrow> string) \<Rightarrow> wf_info list option \<Rightarrow> string \<Rightarrow> rest" where
  "trace_route date found i =
     (case found of
        None \<Rightarrow> api_error 500 ''Failed to get trace'' ''INTERNAL''
      | Some ws \<Rightarrow>
          (case find (is_trace i) ws of
             None \<Rightarrow> api_error 404 (''Trace not found: '' @ i) ''NOT_FOUND''
           | Some w \<Rightarrow> api_ok (JObj
               [(''traceId'', JStr (wi_workflowId w)), (''agentId'', JStr (remove_first ''agent-exec-'' (wi_workflowId w))),
                (''executionId'', JStr (wi_workflowId w)), (''operationName'', JStr ''agent.execute''), (''startTime'', JStr (date (wi_start w))),
                (''endTime'', JStr (date (nullish (wi_close w) (wi_start w)))), (''durationMs'', JNum (num_of_int (nullish (duration w) 0))),
                (''spanCount'', JNum (Num 1)), (''errorCount'', JNum (Num (if wi_status w = ''FAILED'' then 1 else 0))),
                (''spans'', JArr [span_json date w])])))"

section \<open>Metrics\<close>

record tally =
  ty_running :: int
  ty_failed :: int
  ty_total :: int
  ty_recent :: int
  ty_latency :: int
  ty_cost :: num

definition no_tally :: tally where
  "no_tally = \<lparr>ty_running = 0, ty_failed = 0, ty_total = 0, ty_recent = 0, ty_latency = 0, ty_cost = Num 0\<rparr>"

definition memo_cost :: "json option \<Rightarrow> num option" where
  "memo_cost v =
     (if json_truthy v
      then (case json_text (the v) of None \<Rightarrow> None | Some t \<Rightarrow> (let c = parse_float (remove_first ''$'' t) in if c = NNaN then None else Some c))
      else None)"

definition count_workflow :: "int \<Rightarrow> wf_info \<Rightarrow> tally \<Rightarrow> tally" where
  "count_workflow now w t =
     (let t1 = t\<lparr>ty_total := ty_total t + 1, ty_running := ty_running t + (if wi_status w = ''RUNNING'' then 1 else 0),
            ty_failed := ty_failed t + (if wi_status w = ''FAILED'' then 1 else 0)\<rparr>
      in if now - 86400000 < wi_start w
         then t1\<lparr>ty_recent := ty_recent t + 1, ty_latency := ty_latency t + nullish (duration w) 0,
                ty_cost := (case memo_cost (wi_totalCost w) of None \<Rightarrow> ty_cost t | Some c \<Rightarrow> num_add (ty_cost t) c)\<rparr>
         else t1)"

definition metrics_json :: "int \<Rightarrow> int \<Rightarrow> num \<Rightarrow> num \<Rightarrow> num \<Rightarrow> json" where
  "metrics_json active recent latency errors cost = JObj
     [(''activeAgents'', JNum (num_of_int active)), (''executions24h'', JNum (num_of_int recent)), (''avgLatencyMs'', JNum latency),
      (''errorRate'', JNum errors), (''totalCostUsd'', JNum cost), (''activeNamespaces'', JNum (Num 1))]"

definition metrics_route :: "int \<Rightarrow> wf_info list option \<Rightarrow> rest" where
  "metrics_route now found =
     (case found of
        None \<Rightarrow> api_ok (metrics_json 0 0 (Num 0) (Num 0) (Num 0))
      | Some ws \<Rightarrow>
          (let t = fold (count_workflow now) ws no_tally
           in api_ok (metrics_json (ty_running t) (ty_recent t)
                (if 0 < ty_recent t then math_round (num_div (num_of_int (ty_latency t)) (num_of_int (ty_recent t))) else Num 0)
                (if 0 < ty_total t
                 then text_number (to_fixed 2 (num_mul (num_div (num_of_int (ty_failed t)) (num_of_int (ty_total t))) (Num 100))) else Num 0)
                (text_number (to_fixed 6 (ty_cost t))))))"

section \<open>Health\<close>

text \<open>The public endpoint asks the internal one; \<open>None\<close> is an endpoint that cannot be reached.\<close>

definition api_health :: "bool option \<Rightarrow> json" where
  "api_health reached = JObj
     [(''status'', JStr (if reached = Some True then ''ok'' else ''degraded'')), (''apiServerReachable'', JBool (reached = Some True))]"

text \<open>A workflow that does not exist shows that the service is there.\<close>

definition temporal_ok :: "string + unit \<Rightarrow> bool" where
  "temporal_ok described =
     (case described of Inr x \<Rightarrow> True | Inl e \<Rightarrow> str_includes e ''not found'' \<or> str_includes e ''NotFound'')"

definition healthz :: "string \<Rightarrow> string \<Rightarrow> string + unit \<Rightarrow> nat \<times> json option" where
  "healthz now url described =
     (if url = ''/healthz'' \<or> url = ''/readyz''
      then (if temporal_ok described then 200 else 503,
            Some (JObj [(''status'', JStr (if temporal_ok described then ''SERVING'' else ''NOT_SERVING'')), (''service'', JStr ''api-server''),
              (''temporal'', JStr (if temporal_ok described then ''connected'' else ''unreachable'')), (''timestamp'', JStr now)]))
      else (404, None))"

section \<open>Facts\<close>

text \<open>The service names its states in capitals, so an execution never shows as succeeded, while its trace does.\<close>

lemma completed_not_succeeded: "execution_status ''COMPLETED'' = ''completed'' \<and> status_map ''COMPLETED'' = Some ''succeeded''"
  by code_simp

text \<open>The second page of traces is empty and no page announces another, however many workflows there are: the
  loop stops at the limit, and the page is cut out of what it has collected.\<close>

theorem traces_second_page_empty:
  assumes "int_param q ''page'' ''1'' = JInt page" and "2 \<le> page" and "int_param q ''limit'' ''20'' = JInt limit" and "1 \<le> limit"
  shows "\<exists>rest. traces_route date found q = api_ok (JObj ((''items'', JArr []) # rest @ [(''hasNext'', JBool False)]))"
proof -
  have "int (length (case found of None \<Rightarrow> [] | Some ws \<Rightarrow> map (trace_json date q) (up_to_limit (JInt limit) ws))) \<le> limit"
    using assms(4) by (auto simp: up_to_limit_def split: option.split)
  from paginate_beyond[OF this assms(2)] show ?thesis
    unfolding traces_route_def Let_def assms(1,3) by (auto simp: api_ok_def split: option.split)
qed

theorem traces_second_page_empty_witness:
  "\<exists>rest. traces_route (\<lambda>_. []) None (\<lambda>k. if k = ''page'' then Some ''3'' else None) = api_ok (JObj ((''items'', JArr []) # rest @ [(''hasNext'', JBool False)]))"
proof -
  let ?q = "\<lambda>k. if k = ''page'' then Some ''3'' else None"
  have "parse_int ''3'' = JInt 3" "parse_int ''20'' = JInt 20" by code_simp+
  then have "int_param ?q ''page'' ''1'' = JInt 3" "int_param ?q ''limit'' ''20'' = JInt 20" by (simp_all add: int_param_def nullish_def)
  then show ?thesis by (intro traces_second_page_empty[of ?q 3 20]) simp_all
qed

text \<open>The tallies are consistent: no part counts more than the whole.\<close>

definition tally_ok :: "tally \<Rightarrow> bool" where
  "tally_ok t \<longleftrightarrow> 0 \<le> ty_running t \<and> 0 \<le> ty_failed t \<and> ty_running t + ty_failed t \<le> ty_total t \<and> 0 \<le> ty_recent t \<and> ty_recent t \<le> ty_total t"

lemma count_workflow_ok: "tally_ok t \<Longrightarrow> tally_ok (count_workflow now w t)"
  by (auto simp: tally_ok_def count_workflow_def Let_def)

lemma tally_counts:
  "ty_total (fold (count_workflow now) ws t) = ty_total t + int (length ws)"
  by (induction ws arbitrary: t) (simp_all add: count_workflow_def Let_def)

text \<open>The metrics count every workflow once: the total is the number of workflows, running and failed ones
  together are at most that many, and so are those of the last day.\<close>

theorem metrics_consistent:
  "ty_total (fold (count_workflow now) ws no_tally) = int (length ws) \<and> tally_ok (fold (count_workflow now) ws no_tally)"
proof -
  have "tally_ok (fold (count_workflow now) ws t)" if "tally_ok t" for t
    using that by (induction ws arbitrary: t) (simp_all add: count_workflow_ok)
  moreover have "tally_ok no_tally" by (simp add: tally_ok_def no_tally_def)
  ultimately show ?thesis by (simp add: tally_counts no_tally_def)
qed

end
