(* ===== verification/Interceptors.thy ===== *)
theory Interceptors
  imports Sessions PolicyMiddleware AgentService RateLimiter
begin

text \<open>
  The gRPC interceptors that all services share: the namespace guard of
  \<open>packages/shared/src/grpc/namespace-enforcement.ts\<close> on both sides of a call, and the service token, the
  retries, the log and the metrics of \<open>packages/shared/src/grpc/interceptors.ts\<close>. Metadata is an ordered map
  of lists of values; whether \<open>Metadata.set\<close> accepts a value is a parameter. The clock is read once
  for each synchronous piece of code.
\<close>

section \<open>Metadata\<close>

type_synonym metadata = "(string, json list) js_map"

definition md_first :: "metadata \<Rightarrow> string \<Rightarrow> json option" where
  "md_first md k = (case js_get md k of Some (v # vs) \<Rightarrow> Some v | _ \<Rightarrow> None)"

text \<open>A sequence of \<open>set\<close> calls: the message of the first that throws, or the new metadata.\<close>

fun md_sets :: "(string \<Rightarrow> json \<Rightarrow> string option) \<Rightarrow> (string \<times> json) list \<Rightarrow> metadata \<Rightarrow> string + metadata" where
  "md_sets check [] md = Inr md"
| "md_sets check ((k, v) # kvs) md = (case check k v of Some e \<Rightarrow> Inl e | None \<Rightarrow> md_sets check kvs (js_set k [v] md))"

lemma md_first_set: "md_first (js_set k [v] md) k' = (if k' = k then Some v else md_first md k')"
  by (simp add: md_first_def js_map_simps)

section \<open>The cache of namespaces\<close>

record ns_entry =
  nc_exists :: bool
  nc_suspended :: bool
  nc_deleted :: bool

type_synonym ns_cache = "(string, ns_entry \<times> int) js_map"

definition NS_CACHE_TTL :: int where "NS_CACHE_TTL = 60000"

definition getCachedNamespace :: "int \<Rightarrow> json \<Rightarrow> ns_cache \<Rightarrow> ns_entry option \<times> ns_cache" where
  "getCachedNamespace now slug c =
     (case slug of
        JStr k \<Rightarrow> (case js_get c k of
            None \<Rightarrow> (None, c)
          | Some (e, expiresAt) \<Rightarrow> if expiresAt < now then (None, js_del k c) else (Some e, c))
      | _ \<Rightarrow> (None, c))"

definition updateNamespaceCache :: "int \<Rightarrow> string \<Rightarrow> ns_entry \<Rightarrow> ns_cache \<Rightarrow> ns_cache" where
  "updateNamespaceCache now slug e c = js_set slug (e, now + NS_CACHE_TTL) c"

definition clearNamespaceCache :: "ns_cache \<Rightarrow> ns_cache" where
  "clearNamespaceCache c = []"

section \<open>Claims\<close>

record grpc_claims =
  gc_sub :: string
  gc_role :: string
  gc_allowed :: "json list"
  gc_namespace :: "string option"

definition text_claim :: "json \<Rightarrow> string \<Rightarrow> string option" where
  "text_claim p k = (case jget p k of Some (JStr t) \<Rightarrow> Some t | _ \<Rightarrow> None)"

definition claims_of :: "json \<Rightarrow> grpc_claims" where
  "claims_of p =
     \<lparr>gc_sub = nullish (text_claim p ''sub'') [], gc_role = nullish (text_claim p ''role'') ''user'',
      gc_allowed = (case jget p ''namespace_access'' of Some (JArr xs) \<Rightarrow> xs | _ \<Rightarrow> []),
      gc_namespace = text_claim p ''namespace''\<rparr>"

text \<open>
  The surroundings of the guard: the HMAC, \<open>JWT_SECRET\<close>, the check of metadata values, the clock with its text,
  and the configured name of the administrators' role.
\<close>

record guard_env =
  ge_hmac :: "string \<Rightarrow> string \<Rightarrow> string"
  ge_secret :: "string option"
  ge_check :: "string \<Rightarrow> json \<Rightarrow> string option"
  ge_now :: int
  ge_stamp :: string
  ge_role :: "string option"

definition parseClaims :: "guard_env \<Rightarrow> json \<Rightarrow> grpc_claims option" where
  "parseClaims E raw =
     (if \<not> json_truthy (Some raw) then None
      else if \<not> truthy (ge_secret E) then None
      else case raw of
          JStr token \<Rightarrow> (case verifyJWT (ge_hmac E) (ge_now E) token (the (ge_secret E)) None of
              Inl e \<Rightarrow> None
            | Inr v \<Rightarrow> if \<not> json_truthy v then None else Some (claims_of (the v)))
        | _ \<Rightarrow> None)"

definition raw_claims :: "metadata \<Rightarrow> json" where
  "raw_claims md = jnullish (md_first md ''x-agent-claims'') (JStr [])"

definition callerNamespace :: "grpc_claims option \<Rightarrow> json" where
  "callerNamespace claims =
     (case claims of
        None \<Rightarrow> JStr ''default''
      | Some c \<Rightarrow> (case gc_namespace c of
            Some n \<Rightarrow> JStr n
          | None \<Rightarrow> jnullish (case gc_allowed c of x # xs \<Rightarrow> Some x | [] \<Rightarrow> None) (JStr ''default'')))"

definition callerRole :: "grpc_claims option \<Rightarrow> string" where
  "callerRole claims = nullish (map_option gc_role claims) ''user''"

definition platformAdminRole :: "guard_env \<Rightarrow> string" where
  "platformAdminRole E = nullish (ge_role E) ''platform-admin''"

section \<open>The decision\<close>

record guard_state =
  gs_cache :: ns_cache
  gs_log :: "json list"

datatype guard_fate = Forwarded metadata | Rejected int string | Thrown string

definition logSecurityEvent :: "guard_env \<Rightarrow> string \<Rightarrow> (string \<times> json) list \<Rightarrow> guard_state \<Rightarrow> guard_state" where
  "logSecurityEvent E event details s = s\<lparr>gs_log := gs_log s @
     [JObj ([(''level'', JStr ''warn''), (''msg'', JStr ''SECURITY_EVENT''), (''event'', JStr event), (''timestamp'', JStr (ge_stamp E))] @ details)]\<rparr>"

text \<open>\<open>caller_sub: claims?.sub\<close> is left out of the text when there are no claims.\<close>

definition caller_sub :: "grpc_claims option \<Rightarrow> (string \<times> json) list" where
  "caller_sub claims = (case claims of None \<Rightarrow> [] | Some c \<Rightarrow> [(''caller_sub'', JStr (gc_sub c))])"

definition cross_message :: "string \<Rightarrow> string \<Rightarrow> string" where
  "cross_message caller target = ''Cross-namespace access denied: caller in '' @ [CHR 0x27] @ caller @ [CHR 0x27] @
     '' cannot access '' @ [CHR 0x27] @ target @ [CHR 0x27]"

definition ns_message :: "string \<Rightarrow> string \<Rightarrow> string" where
  "ns_message slug rest = ''Namespace '' @ [CHR 0x27] @ slug @ [CHR 0x27] @ rest"

definition refuse_cross :: "json \<Rightarrow> json \<Rightarrow> guard_fate" where
  "refuse_cross caller target =
     (case (json_text caller, json_text target) of
        (Some a, Some b) \<Rightarrow> Rejected 7 (cross_message a b)
      | _ \<Rightarrow> Thrown ''Cannot convert object to primitive value'')"

definition admit :: "guard_env \<Rightarrow> string option \<Rightarrow> grpc_claims option \<Rightarrow> json \<Rightarrow> metadata \<Rightarrow> guard_state \<Rightarrow> guard_fate \<times> guard_state" where
  "admit E path claims requestNamespace md s =
     (let caller = callerNamespace claims; role = callerRole claims; mpath = JStr (nullish path ''unknown'')
      in if requestNamespace \<noteq> caller \<and> role \<noteq> platformAdminRole E
         then (refuse_cross caller requestNamespace,
               logSecurityEvent E ''CROSS_NAMESPACE_ACCESS_ATTEMPT''
                 ([(''method'', mpath), (''caller_namespace'', caller), (''target_namespace'', requestNamespace), (''caller_role'', JStr role)] @
                  caller_sub claims) s)
         else let (cached, c) = getCachedNamespace (ge_now E) requestNamespace (gs_cache s); s1 = s\<lparr>gs_cache := c\<rparr>;
                slug = nullish (json_text requestNamespace) [];
                go = (case md_sets (ge_check E) [(''x-resolved-namespace'', requestNamespace), (''x-caller-namespace'', caller),
                          (''x-caller-role'', JStr role)] md of Inl e \<Rightarrow> Thrown e | Inr md' \<Rightarrow> Forwarded md')
           in case cached of
               None \<Rightarrow> (go, s1)
             | Some e \<Rightarrow>
                 if nc_deleted e then (Rejected 5 (ns_message slug '' not found''), s1)
                 else if nc_suspended e
                 then (Rejected 14 (ns_message slug '' is suspended''),
                       logSecurityEvent E ''SUSPENDED_NAMESPACE_ACCESS'' ([(''method'', mpath), (''namespace'', requestNamespace)] @ caller_sub claims) s1)
                 else (go, s1))"

text \<open>The server's side reads the target from the metadata; the message passes unread.\<close>

definition namespace_server :: "guard_env \<Rightarrow> string option \<Rightarrow> metadata \<Rightarrow> guard_state \<Rightarrow> guard_fate \<times> guard_state" where
  "namespace_server E path md s =
     (let claims = parseClaims E (raw_claims md)
      in admit E path claims (jnullish (md_first md ''x-resolved-namespace'') (callerNamespace claims)) md s)"

text \<open>
  The client's side looks for the target in the description of the method, and its \<open>start\<close> returns
  without having called the function that starts the rest of the chain (\<open>Forwarded\<close> is that return).
\<close>

definition text_member :: "json option \<Rightarrow> string option" where
  "text_member v = (case v of Some (JStr t) \<Rightarrow> if t = [] then None else Some t | _ \<Rightarrow> None)"

definition extractNamespaceFromRequest :: "json \<Rightarrow> string option" where
  "extractNamespaceFromRequest message =
     (case text_member (jget message ''namespace'') of
        Some t \<Rightarrow> Some t
      | None \<Rightarrow> (case jget message ''metadata'' of
            Some m \<Rightarrow> text_member (jget m ''namespace'')
          | None \<Rightarrow> None))"

definition namespace_client :: "guard_env \<Rightarrow> json \<Rightarrow> metadata \<Rightarrow> guard_state \<Rightarrow> guard_fate \<times> guard_state" where
  "namespace_client E method_definition md s =
     (case extractNamespaceFromRequest method_definition of
        None \<Rightarrow> (Forwarded md, s)
      | Some t \<Rightarrow> admit E (text_claim method_definition ''path'') (parseClaims E (raw_claims md)) (JStr t) md s)"

section \<open>The token of the services\<close>

definition token_event :: "string \<Rightarrow> string option \<Rightarrow> json" where
  "token_event stamp path = JObj [(''level'', JStr ''warn''), (''msg'', JStr ''SERVICE_TOKEN_REJECTED''),
     (''method'', JStr (nullish path ''unknown'')), (''timestamp'', JStr stamp)]"

definition service_token_server :: "string option \<Rightarrow> string \<Rightarrow> string option \<Rightarrow> metadata \<Rightarrow> guard_fate \<times> json list" where
  "service_token_server token_env stamp path md =
     (let expectedToken = nullish token_env []
      in if expectedToken = [] then (Forwarded md, [])
         else case jnullish (md_first md ''x-service-token'') (JStr []) of
             JStr providedToken \<Rightarrow>
               if length expectedToken = length providedToken \<and> expectedToken = providedToken then (Forwarded md, [])
               else (Rejected 16 ''Invalid or missing service token'', [token_event stamp path])
           | _ \<Rightarrow> (Thrown ''The first argument must be of type string'', []))"

definition auth_client :: "(string \<Rightarrow> json \<Rightarrow> string option) \<Rightarrow> string option \<Rightarrow> metadata \<Rightarrow> string + metadata" where
  "auth_client check token_env md =
     (let token = nullish token_env [] in if token \<noteq> [] then md_sets check [(''x-service-token'', JStr token)] md else Inr md)"

text \<open>The two guards of a server in their order.\<close>

definition server_guards :: "guard_env \<Rightarrow> string option \<Rightarrow> string option \<Rightarrow> metadata \<Rightarrow> guard_state \<Rightarrow> guard_fate \<times> guard_state" where
  "server_guards E token_env path md s =
     (case namespace_server E path md s of
        (Forwarded md1, s1) \<Rightarrow> (let (fate, log) = service_token_server token_env (ge_stamp E) path md1 in (fate, s1\<lparr>gs_log := gs_log s1 @ log\<rparr>))
      | r \<Rightarrow> r)"

section \<open>Retries\<close>

definition MAX_RETRIES :: int where "MAX_RETRIES = 3"
definition BASE_DELAY_MS :: int where "BASE_DELAY_MS = 200"

definition RETRYABLE_CODES :: "int list" where "RETRYABLE_CODES = [14, 4, 8, 13]"

text \<open>
  What the listener of one call does with a status: it hands it on, or it plans a second call after a delay.
  \<open>jitter delay\<close> is the random part of the delay, \<open>left\<close> the number of retries that remain.
\<close>

datatype retry_act = Hand_on int | Retry_in int

definition retry_event :: "string option \<Rightarrow> int \<Rightarrow> int \<Rightarrow> int \<Rightarrow> json" where
  "retry_event path tries wait code = JObj [(''level'', JStr ''info''), (''msg'', JStr ''gRPC_retry''),
     (''method'', JStr (nullish path ''unknown'')), (''attempt'', JNum (num_of_int tries)), (''max_retries'', JNum (num_of_int MAX_RETRIES)),
     (''delay_ms'', JNum (num_of_int wait)), (''status_code'', JNum (num_of_int code))]"

definition retry_delay :: "int \<Rightarrow> int" where
  "retry_delay tries = BASE_DELAY_MS * 2 ^ nat (tries - 1)"

definition retry_status :: "(int \<Rightarrow> int) \<Rightarrow> string option \<Rightarrow> int \<Rightarrow> int \<Rightarrow> retry_act \<times> int \<times> json list" where
  "retry_status jitter path code left =
     (if code \<in> set RETRYABLE_CODES \<and> 0 < left then
        (let tries = MAX_RETRIES - (left - 1); delay = retry_delay tries; wait = delay + jitter delay
         in (Retry_in wait, left - 1, [retry_event path tries wait code]))
      else (Hand_on code, left, []))"

text \<open>
  A call under the interceptor. The second call has empty metadata, no message, and a listener that hands
  every status on: the status codes \<open>first\<close> and \<open>again\<close> are the answers of the two calls. The result is the
  status the caller sees and the number of calls.
\<close>

definition retried_call :: "(int \<Rightarrow> int) \<Rightarrow> string option \<Rightarrow> int \<Rightarrow> int \<Rightarrow> int \<times> nat" where
  "retried_call jitter path first again =
     (case fst (retry_status jitter path first MAX_RETRIES) of
        Hand_on c \<Rightarrow> (c, 1)
      | Retry_in wait \<Rightarrow> (again, 2))"

definition retry_metadata :: metadata where "retry_metadata = []"

section \<open>Log and metrics\<close>

definition logging_status :: "string \<Rightarrow> string option \<Rightarrow> int \<Rightarrow> int \<Rightarrow> int \<Rightarrow> string \<Rightarrow> json" where
  "logging_status serviceName path startMs now code details =
     (let entry = [(''service'', JStr serviceName), (''method'', JStr (nullish path ''unknown'')),
          (''duration_ms'', JNum (num_of_int (now - startMs))), (''code'', JNum (num_of_int code))]
      in if code \<noteq> 0 then JObj ([(''level'', JStr ''warn''), (''msg'', JStr ''gRPC call failed'')] @ entry @ [(''error'', JStr details)])
         else JObj ([(''level'', JStr ''info''), (''msg'', JStr ''gRPC call completed'')] @ entry))"

definition metrics_status :: "string \<Rightarrow> string option \<Rightarrow> int \<Rightarrow> int \<Rightarrow> int \<Rightarrow> (string, int) js_map \<Rightarrow> json \<times> (string, int) js_map" where
  "metrics_status serviceName path startMs now code counters =
     (let method = nullish path ''unknown''; key = serviceName @ ''.'' @ method
      in (JObj [(''metric'', JStr ''call_duration_ms''), (''service'', JStr serviceName), (''method'', JStr method),
            (''duration_ms'', JNum (num_of_int (now - startMs))), (''status_code'', JNum (num_of_int code))],
          js_set key (nullish (js_get counters key) 0 + 1) counters))"

section \<open>What the guards ensure\<close>

lemma md_sets_first:
  "md_sets check kvs md = Inr md' \<Longrightarrow> k \<notin> fst ` set kvs \<Longrightarrow> md_first md' k = md_first md k"
  by (induction check kvs md rule: md_sets.induct) (auto simp: md_first_set split: option.splits)

lemma admit_Forwarded:
  assumes "fst (admit E path claims target md s) = Forwarded md'"
  shows "(target = callerNamespace claims \<or> callerRole claims = platformAdminRole E) \<and>
    md_first md' ''x-resolved-namespace'' = Some target \<and> md_first md' ''x-caller-namespace'' = Some (callerNamespace claims) \<and>
    md_first md' ''x-caller-role'' = Some (JStr (callerRole claims)) \<and>
    md_first md' ''x-service-token'' = md_first md ''x-service-token''"
  using assms
  by (auto simp: admit_def Let_def refuse_cross_def md_first_set split: if_splits prod.splits option.splits sum.splits)

lemma admit_cross:
  assumes "target \<noteq> callerNamespace claims" and "callerRole claims \<noteq> platformAdminRole E"
  shows "fst (admit E path claims target md s) = refuse_cross (callerNamespace claims) target"
  using assms by (simp add: admit_def Let_def)

lemma parseClaims_signed:
  assumes "ge_secret E = Some secret" and "secret \<noteq> []"
    and "json_parse (stringify (claims_json cl (t0 div 1000) (t0 div 1000 + ttl))) = Some (claims_json cl (t0 div 1000) (t0 div 1000 + ttl))"
    and "\<not> num_lt (num_of_int (t0 div 1000 + ttl)) (num_of_int (ge_now E div 1000))"
  shows "parseClaims E (JStr (signJWT (ge_hmac E) t0 cl secret ttl)) =
    Some \<lparr>gc_sub = jc_sub cl, gc_role = jc_role cl, gc_allowed = map JStr (jc_namespace_access cl), gc_namespace = None\<rparr>"
proof -
  have "signJWT (ge_hmac E) t0 cl secret ttl \<noteq> []" by (simp add: signJWT_def Let_def)
  moreover have "claims_of (claims_json cl x y) =
      \<lparr>gc_sub = jc_sub cl, gc_role = jc_role cl, gc_allowed = map JStr (jc_namespace_access cl), gc_namespace = None\<rparr>" for x y
    by (simp add: claims_of_def claims_json_def text_claim_def jget_def)
  moreover have "json_truthy (Some (claims_json cl x y))" for x y by (simp add: claims_json_def json_truthy_def)
  ultimately show ?thesis
    using assms(1,2) by (simp add: parseClaims_def truthy_def signed_verifies[OF assms(3,4)] json_truthy_def[of "Some (JStr _)"])
qed

text \<open>C4. The namespace guard confines every session of the account service, the administrator's included,
  to the first namespace of its account: the role \<open>platform_admin\<close> that the accounts use is not the
  \<open>platform-admin\<close> that the guard lets through, and the administrator's \<open>*\<close> is taken as a name.\<close>

theorem sessions_confined:
  assumes "auth_reach L st" and "u \<in> set (st_users st)"
    and "ge_hmac E = al_hmac L" and "ge_secret E = Some (al_secret L)" and "al_secret L \<noteq> []" and "ge_role E = None"
    and "claims_parse c u" and "\<not> num_lt (num_of_int (cl_now c div 1000 + JWT_EXPIRES_SEC)) (num_of_int (ge_now E div 1000))"
    and "raw_claims md = JStr (session_token L c u)"
    and "md_first md ''x-resolved-namespace'' = Some (JStr ns)" and "ur_namespace_access u \<noteq> [ns]"
  shows "\<exists>own. ur_namespace_access u = [own] \<and> fst (namespace_server E path md s) = Rejected 7 (cross_message own ns)"
proof -
  let ?cl = "parseClaims E (raw_claims md)"
  have cl: "?cl = Some \<lparr>gc_sub = ur_id u, gc_role = ur_role u, gc_allowed = map JStr (ur_namespace_access u), gc_namespace = None\<rparr>"
    using parseClaims_signed[OF assms(4,5), of "row_claims u" "cl_now c" JWT_EXPIRES_SEC] assms(7,8)
    by (simp add: assms(9) session_token_def assms(3)[symmetric] claims_parse_def Let_def) (simp add: row_claims_def)
  have row: "ordinary_or_admin u"
    using auth_reach_ordinary[OF assms(1)] assms(2) by (simp add: list_all_iff)
  then obtain own where own: "ur_namespace_access u = [own]" "ur_role u \<noteq> ''platform-admin''"
    by (auto simp: ordinary_or_admin_def)
  have caller: "callerNamespace ?cl = JStr own" "callerRole ?cl \<noteq> platformAdminRole E"
    using own by (simp_all add: cl callerNamespace_def callerRole_def platformAdminRole_def assms(6) jnullish_def)
  have "fst (namespace_server E path md s) = refuse_cross (JStr own) (JStr ns)"
    using assms(11) own caller unfolding namespace_server_def Let_def assms(10)
    by (subst admit_cross) (simp_all add: jnullish_def)
  then show ?thesis using own(1) by (simp add: refuse_cross_def)
qed

definition demo_guard :: guard_env where
  "demo_guard = \<lparr>ge_hmac = (\<lambda>s d. s @ d), ge_secret = Some ''k'', ge_check = grpc_metadata, ge_now = 5000, ge_stamp = ''t'', ge_role = None\<rparr>"

definition quiet_guard :: guard_state where "quiet_guard = \<lparr>gs_cache = [], gs_log = []\<rparr>"

definition admin_row :: user_row where "admin_row = hd (st_users demo_start)"

definition admin_md :: metadata where
  "admin_md = [(''x-agent-claims'', [JStr (session_token demo_lib demo_call admin_row)]), (''x-resolved-namespace'', [JStr ''finance''])]"

lemma demo_not_expired: "\<not> num_lt (num_of_int (cl_now demo_call div 1000 + JWT_EXPIRES_SEC)) (num_of_int (5000 div 1000))"
  by (simp add: demo_call_def JWT_EXPIRES_SEC_def num_of_int_def rnd_numeral)

lemma admin_claims:
  "ur_namespace_access admin_row = [''*'']" "ur_role admin_row = ''platform_admin''"
  "row_claims admin_row = \<lparr>jc_sub = ''u'', jc_email = admin_email, jc_name = ''Platform Admin'', jc_role = ''platform_admin'',
     jc_namespace_access = [''*'']\<rparr>"
  by code_simp+

lemma admin_parse: "claims_parse demo_call admin_row"
  unfolding claims_parse_def admin_claims by code_simp

theorem sessions_confined_witness:
  "ur_role admin_row = ''platform_admin'' \<and>
   fst (namespace_server demo_guard None admin_md quiet_guard) = Rejected 7 (cross_message ''*'' ''finance'')"
proof -
  have "st_users demo_start \<noteq> []" by code_simp
  then have mem: "admin_row \<in> set (st_users demo_start)" by (simp add: admin_row_def)
  have raw: "raw_claims admin_md = JStr (session_token demo_lib demo_call admin_row)"
    by (simp add: raw_claims_def admin_md_def md_first_def jnullish_def)
  have target: "md_first admin_md ''x-resolved-namespace'' = Some (JStr ''finance'')" by (simp add: admin_md_def md_first_def)
  have env: "ge_hmac demo_guard = al_hmac demo_lib" "ge_secret demo_guard = Some (al_secret demo_lib)" "al_secret demo_lib \<noteq> []"
    "ge_role demo_guard = None" "ge_now demo_guard = 5000"
    by (simp_all add: demo_guard_def demo_lib_def)
  have other: "ur_namespace_access admin_row \<noteq> [''finance'']" by (simp add: admin_claims)
  obtain own where "ur_namespace_access admin_row = [own]"
    "fst (namespace_server demo_guard None admin_md quiet_guard) = Rejected 7 (cross_message own ''finance'')"
    using sessions_confined[OF demo_reach mem env(1-4) admin_parse demo_not_expired[folded env(5)] raw target other] by blast
  then show ?thesis by (simp only: admin_claims list.inject simp_thms)
qed

section \<open>What the guards leave open\<close>

text \<open>A delete call as a server runs it: the guards see the metadata, the handler the message.\<close>

definition guarded_delete ::
  "guard_env \<Rightarrow> string option \<Rightarrow> metadata \<Rightarrow> guard_state \<Rightarrow> agent_env \<Rightarrow> agent_call \<Rightarrow> string \<Rightarrow> string \<Rightarrow> 'b callback \<Rightarrow> service_state
     \<Rightarrow> (guard_fate \<times> guard_state) \<times> service_state" where
  "guarded_delete E token_env md g A c ns name cb s =
     (let r = server_guards E token_env (Some ''/egaop.v1.AgentService/DeleteAgent'') md g
      in (r, case fst r of Forwarded md' \<Rightarrow> snd (DeleteAgent A c ns name cb s) | _ \<Rightarrow> s))"

lemma softDelete_gone: "findByNamespaceAndName ns name (snd (softDelete now ns name d)) = None"
proof -
  have "\<not> live_agent ns name (r\<lparr>ag_deleted_at := Some now, ag_updated_at := now\<rparr>)" for r
    by (simp add: live_agent_def)
  then show ?thesis by (auto simp: softDelete_def findByNamespaceAndName_def update_live_def find_None_iff)
qed

lemma DeleteAgent_db: "sv_db (snd (DeleteAgent A c ns name cb s)) = snd (softDelete (ac_now c) ns name (sv_db s))"
  by (simp add: DeleteAgent_def audit_agent_def split: prod.split option.split)

lemma guards_Forwarded:
  assumes "fst (server_guards E token_env path md g) = Forwarded md'"
  shows "fst (namespace_server E path md g) = Forwarded md' \<and>
    (token_env = None \<or> token_env = Some [] \<or> md_first md' ''x-service-token'' = Some (JStr (the token_env)))"
  using assms
  by (auto simp: server_guards_def service_token_server_def Let_def jnullish_def nullish_def
      split: prod.splits guard_fate.splits if_splits option.splits json.splits)

text \<open>What the guards read of the message of a call: nothing. A caller that may pass at all, whatever its
  own namespace, deletes an agent of any other by naming that namespace in the message.\<close>

text \<open>The namespace guard does not protect what the message names: a call that passes, from a caller
  of another namespace without the administrators' role, deletes the agent of the namespace in its message.\<close>

theorem guard_ignores_message:
  assumes "fst (server_guards E token_env (Some ''/egaop.v1.AgentService/DeleteAgent'') md g) = Forwarded md'"
    and "callerNamespace (parseClaims E (raw_claims md)) \<noteq> JStr ns" and "callerRole (parseClaims E (raw_claims md)) \<noteq> platformAdminRole E"
  shows "md_first md' ''x-resolved-namespace'' \<noteq> Some (JStr ns) \<and>
    findByNamespaceAndName ns name (sv_db (snd (guarded_delete E token_env md g A c ns name cb s))) = None"
proof
  have "fst (namespace_server E (Some ''/egaop.v1.AgentService/DeleteAgent'') md g) = Forwarded md'"
    using guards_Forwarded[OF assms(1)] by blast
  from admit_Forwarded[OF this[unfolded namespace_server_def Let_def]] assms(2,3)
  show "md_first md' ''x-resolved-namespace'' \<noteq> Some (JStr ns)" by auto
  show "findByNamespaceAndName ns name (sv_db (snd (guarded_delete E token_env md g A c ns name cb s))) = None"
    by (simp add: guarded_delete_def Let_def assms(1) DeleteAgent_db softDelete_gone)
qed

lemma parseClaims_Some:
  assumes "parseClaims E (raw_claims md) = Some cl"
  shows "\<exists>token claims. md_first md ''x-agent-claims'' = Some (JStr token) \<and> truthy (ge_secret E) \<and>
    verifyJWT (ge_hmac E) (ge_now E) token (the (ge_secret E)) None = Inr (Some claims) \<and> cl = claims_of claims"
proof -
  obtain token where token: "raw_claims md = JStr token" "token \<noteq> []"
    using assms by (cases "raw_claims md") (auto simp: parseClaims_def json_truthy_def split: if_splits)
  obtain r where r: "verifyJWT (ge_hmac E) (ge_now E) token (the (ge_secret E)) None = Inr r" "json_truthy r" "cl = claims_of (the r)"
    and s: "truthy (ge_secret E)"
    using assms by (auto simp: parseClaims_def token split: if_splits sum.splits)
  obtain claims where "r = Some claims" using r(2) by (cases r) (auto simp: json_truthy_def)
  moreover have "md_first md ''x-agent-claims'' = Some (JStr token)"
    using token by (auto simp: raw_claims_def jnullish_def split: option.splits json.splits)
  ultimately show ?thesis using r s by auto
qed

lemma parseClaims_role:
  assumes "parseClaims E (raw_claims md) = Some cl" and "gc_role cl = role" and "role \<noteq> ''user''"
  shows "\<exists>token claims. md_first md ''x-agent-claims'' = Some (JStr token) \<and> truthy (ge_secret E) \<and>
    verifyJWT (ge_hmac E) (ge_now E) token (the (ge_secret E)) None = Inr (Some claims) \<and> jget claims ''role'' = Some (JStr role)"
proof -
  have "jget claims ''role'' = Some (JStr role)" if "cl = claims_of claims" for claims
    using assms(2,3) that by (auto simp: claims_of_def text_claim_def nullish_def split: option.splits json.splits)
  then show ?thesis using parseClaims_Some[OF assms(1)] by blast
qed


text \<open>A call is retried at most once, although three retries are configured, and the caller sees the
  status of the second call whatever it is.\<close>

theorem retried_at_most_once:
  "retried_call jitter path first again = (if first \<in> set RETRYABLE_CODES then (again, 2) else (first, 1))"
  by (simp add: retried_call_def retry_status_def MAX_RETRIES_def Let_def)

definition plain_call :: agent_call where
  "plain_call = \<lparr>ac_now = 9, ac_uuid = ''i'', ac_suffix = ''s'', ac_stamp = ''t'', ac_event = ''e''\<rparr>"

definition payroll :: agent_row where "payroll = (demo_agent ''f'' ''payroll'')\<lparr>ag_namespace := ''finance''\<rparr>"

definition finance_store :: service_state where
  "finance_store = \<lparr>sv_db = \<lparr>db_agents = [payroll], db_versions = []\<rparr>, sv_audit = no_audit\<rparr>"

definition service_md :: metadata where "service_md = [(''x-service-token'', [JStr ''t''])]"

lemma no_claims: "parseClaims E (raw_claims service_md) = None"
  by (simp add: raw_claims_def service_md_def md_first_def jnullish_def parseClaims_def json_truthy_def)

lemma plain_passes: "\<exists>md'. fst (server_guards demo_guard (Some ''t'') path service_md quiet_guard) = Forwarded md'"
proof -
  have "md_first service_md ''x-resolved-namespace'' = None" "md_first service_md ''x-service-token'' = Some (JStr ''t'')"
    by (simp_all add: service_md_def md_first_def)
  moreover have "grpc_metadata k (JStr ''default'') = None" "grpc_metadata k (JStr ''user'') = None" for k
    by (simp_all add: grpc_metadata_def printable_def)
  ultimately show ?thesis
    by (simp add: server_guards_def namespace_server_def no_claims callerNamespace_def callerRole_def admit_def Let_def jnullish_def
        getCachedNamespace_def quiet_guard_def demo_guard_def service_token_server_def md_first_set)
qed

theorem guard_ignores_message_witness:
  "findByNamespaceAndName ''finance'' ''payroll'' (sv_db finance_store) \<noteq> None \<and>
   findByNamespaceAndName ''finance'' ''payroll'' (sv_db (snd (guarded_delete demo_guard (Some ''t'') service_md quiet_guard
     \<lparr>ae_sha256 = id, ae_env = (\<lambda>_. None)\<rparr> plain_call ''finance'' ''payroll'' (\<lambda>_. Inr ()) finance_store))) = None"
proof -
  obtain md' where md': "fst (server_guards demo_guard (Some ''t'') (Some ''/egaop.v1.AgentService/DeleteAgent'') service_md quiet_guard) = Forwarded md'"
    using plain_passes by blast
  have "callerNamespace (parseClaims demo_guard (raw_claims service_md)) \<noteq> JStr ''finance''"
    "callerRole (parseClaims demo_guard (raw_claims service_md)) \<noteq> platformAdminRole demo_guard"
    by (simp_all add: no_claims callerNamespace_def callerRole_def platformAdminRole_def demo_guard_def)
  note gone = guard_ignores_message[OF md' this, THEN conjunct2]
  have "findByNamespaceAndName ''finance'' ''payroll'' (sv_db finance_store) \<noteq> None" by code_simp
  then show ?thesis using gone by (rule conjI)
qed


end
