(* ===== verification/MemoryQueue.thy ===== *)
theory MemoryQueue
  imports Errors
begin

text \<open>
  The write-ahead queue of the memory plane, \<open>memory-plane/src/write-queue.ts\<close>. The flush is a loop that is
  suspended while a write or a delay is awaited; \<open>enqueue\<close> and \<open>dispose\<close> run in between. The state holds
  where the loop is suspended; an event is one uninterrupted piece of code.
\<close>

section \<open>State\<close>

record mem_op =
  mo_namespace :: string
  mo_agentId :: string
  mo_key :: string
  mo_value :: json
  mo_ttl :: "int option"
  mo_attempts :: nat

text \<open>
  The loop holds a reference to the operation it writes. The reference is to the head of the queue
  until that head is dropped (\<open>Setting op True\<close>), then to an object outside the queue.
\<close>

datatype flush_phase = No_flush | Setting mem_op bool | Sleeping jint

record wal =
  wq_queue :: "mem_op list"
  wq_phase :: flush_phase
  wq_disposed :: bool
  wq_maxAttempts :: jint
  wq_backoff :: jint
  wq_maxQueue :: jint
  wq_log :: "string list"

definition wal_new :: "jint option \<Rightarrow> jint option \<Rightarrow> jint option \<Rightarrow> wal" where
  "wal_new maxAttempts backoffBaseMs maxQueueSize =
     \<lparr>wq_queue = [], wq_phase = No_flush, wq_disposed = False, wq_maxAttempts = nullish maxAttempts (JInt 5),
      wq_backoff = nullish backoffBaseMs (JInt 500), wq_maxQueue = nullish maxQueueSize (JInt 10000), wq_log = []\<rparr>"

section \<open>Operations\<close>

definition drop_message :: "mem_op \<Rightarrow> string" where
  "drop_message op = ''Memory write queue full; dropped oldest write for '' @ mo_agentId op @ ''/'' @ mo_key op"

definition fail_message :: "mem_op \<Rightarrow> string" where
  "fail_message op = ''Memory durable write permanently failed after '' @ show_int (int (mo_attempts op)) @ '' attempts for '' @
     mo_agentId op @ ''/'' @ mo_key op"

definition outside :: "flush_phase \<Rightarrow> flush_phase" where
  "outside p = (case p of Setting op b \<Rightarrow> Setting op False | _ \<Rightarrow> p)"

definition dropOldest :: "wal \<Rightarrow> wal" where
  "dropOldest w =
     (case wq_queue w of
        [] \<Rightarrow> w
      | dropped # rest \<Rightarrow> w\<lparr>wq_queue := rest, wq_phase := outside (wq_phase w), wq_log := wq_log w @ [drop_message dropped]\<rparr>)"

text \<open>The head of the loop: the next operation, or its end.\<close>

definition flush_next :: "wal \<Rightarrow> wal" where
  "flush_next w =
     (if \<not> wq_disposed w \<or> wq_queue w \<noteq> []
      then (case wq_queue w of [] \<Rightarrow> w\<lparr>wq_phase := No_flush\<rparr> | op # rest \<Rightarrow> w\<lparr>wq_phase := Setting op True\<rparr>)
      else w\<lparr>wq_phase := No_flush\<rparr>)"

definition enqueue :: "mem_op \<Rightarrow> wal \<Rightarrow> bool \<times> wal" where
  "enqueue op w =
     (if wq_disposed w then (False, w)
      else let w1 = (if jle (wq_maxQueue w) (JInt (int (length (wq_queue w)))) then dropOldest w else w);
               w2 = w1\<lparr>wq_queue := wq_queue w1 @ [op\<lparr>mo_attempts := 0\<rparr>]\<rparr>
           in (True, if wq_phase w2 = No_flush then flush_next w2 else w2))"

definition pending :: "wal \<Rightarrow> nat" where
  "pending w = length (wq_queue w)"

definition dispose :: "wal \<Rightarrow> wal" where
  "dispose w = w\<lparr>wq_disposed := True\<rparr>"

text \<open>The write of the operation in hand has succeeded: the head of the queue, whatever it is, is removed.\<close>

definition set_done :: "wal \<Rightarrow> wal" where
  "set_done w = flush_next (w\<lparr>wq_queue := tl (wq_queue w)\<rparr>)"

fun jtimes2pow :: "jint \<Rightarrow> nat \<Rightarrow> jint" where
  "jtimes2pow (JInt b) n = JInt (b * 2 ^ n)"
| "jtimes2pow NaN n = NaN"

text \<open>The write has failed: the operation counts the attempt, in the queue when it is still there.\<close>

definition set_failed :: "mem_op \<Rightarrow> bool \<Rightarrow> wal \<Rightarrow> wal" where
  "set_failed op inside w =
     (let op1 = op\<lparr>mo_attempts := Suc (mo_attempts op)\<rparr>;
          w1 = (if inside then w\<lparr>wq_queue := op1 # tl (wq_queue w)\<rparr> else w)
      in if jle (wq_maxAttempts w) (JInt (int (mo_attempts op1)))
         then flush_next (w1\<lparr>wq_queue := tl (wq_queue w1), wq_log := wq_log w1 @ [fail_message op1]\<rparr>)
         else w1\<lparr>wq_phase := Sleeping (jtimes2pow (wq_backoff w) (mo_attempts op))\<rparr>)"

section \<open>Events\<close>

datatype wal_event = Enqueue mem_op | Set_ok | Set_fails | Wake | Dispose

text \<open>One event: the new state and the operation that the table has got, if any.\<close>

fun wal_step :: "wal_event \<Rightarrow> wal \<Rightarrow> (mem_op option \<times> wal) option" where
  "wal_step (Enqueue op) w = Some (None, snd (enqueue op w))"
| "wal_step Set_ok w = (case wq_phase w of Setting op b \<Rightarrow> Some (Some op, set_done w) | _ \<Rightarrow> None)"
| "wal_step Set_fails w = (case wq_phase w of Setting op b \<Rightarrow> Some (None, set_failed op b w) | _ \<Rightarrow> None)"
| "wal_step Wake w = (case wq_phase w of Sleeping ms \<Rightarrow> Some (None, flush_next w) | _ \<Rightarrow> None)"
| "wal_step Dispose w = Some (None, dispose w)"

fun wal_run :: "wal_event list \<Rightarrow> wal \<Rightarrow> (mem_op list \<times> wal) option" where
  "wal_run [] w = Some ([], w)"
| "wal_run (e # es) w =
     (case wal_step e w of
        None \<Rightarrow> None
      | Some (out, w1) \<Rightarrow> (case wal_run es w1 of None \<Rightarrow> None | Some (outs, w2) \<Rightarrow> Some ((case out of Some op \<Rightarrow> [op] | None \<Rightarrow> []) @ outs, w2)))"

inductive wal_reach :: "jint \<Rightarrow> jint \<Rightarrow> jint \<Rightarrow> wal \<Rightarrow> bool" for a b q where
  New: "wal_reach a b q (wal_new (Some a) (Some b) (Some q))"
| Event: "wal_reach a b q w \<Longrightarrow> wal_step e w = Some (out, w') \<Longrightarrow> wal_reach a b q w'"

section \<open>The invariant\<close>

definition in_hand :: "flush_phase \<Rightarrow> mem_op list" where
  "in_hand p = (case p of Setting op b \<Rightarrow> [op] | _ \<Rightarrow> [])"

lemma in_hand_simps [simp]: "in_hand No_flush = []" "in_hand (Setting op b) = [op]" "in_hand (Sleeping ms) = []"
  by (simp_all add: in_hand_def)

definition attempts_ok :: "jint \<Rightarrow> mem_op \<Rightarrow> bool" where
  "attempts_ok limit op \<longleftrightarrow> (case limit of NaN \<Rightarrow> True | JInt m \<Rightarrow> int (mo_attempts op) < max 1 m)"

definition size_ok :: "jint \<Rightarrow> nat \<Rightarrow> bool" where
  "size_ok limit n \<longleftrightarrow> (case limit of NaN \<Rightarrow> True | JInt m \<Rightarrow> int n \<le> max 1 m)"

definition wal_ok :: "wal \<Rightarrow> bool" where
  "wal_ok w \<longleftrightarrow> (wq_phase w = No_flush \<longleftrightarrow> wq_queue w = []) \<and>
     (case wq_phase w of Setting op True \<Rightarrow> hd (wq_queue w) = op | _ \<Rightarrow> True) \<and>
     list_all (attempts_ok (wq_maxAttempts w)) (wq_queue w @ in_hand (wq_phase w)) \<and>
     size_ok (wq_maxQueue w) (length (wq_queue w))"

lemma wal_ok_phase: "wal_ok w \<Longrightarrow> (wq_phase w = No_flush) = (wq_queue w = [])"
  by (simp add: wal_ok_def)

lemma attempts_fresh [simp]: "attempts_ok limit (op\<lparr>mo_attempts := 0\<rparr>)"
  by (auto simp: attempts_ok_def split: jint.split)

lemma flush_next_simps [simp]:
  "wq_queue (flush_next w) = wq_queue w" "wq_disposed (flush_next w) = wq_disposed w" "wq_maxAttempts (flush_next w) = wq_maxAttempts w"
  "wq_backoff (flush_next w) = wq_backoff w" "wq_maxQueue (flush_next w) = wq_maxQueue w" "wq_log (flush_next w) = wq_log w"
  by (simp_all add: flush_next_def split: list.split)

lemma flush_next_phase: "wq_phase (flush_next w) = (case wq_queue w of [] \<Rightarrow> No_flush | op # rest \<Rightarrow> Setting op True)"
  by (simp add: flush_next_def split: list.split)

lemma flush_next_ok:
  "list_all (attempts_ok (wq_maxAttempts w)) (wq_queue w) \<Longrightarrow> size_ok (wq_maxQueue w) (length (wq_queue w)) \<Longrightarrow> wal_ok (flush_next w)"
  by (auto simp: wal_ok_def flush_next_phase in_hand_def split: list.split)

lemma size_ok_le: "size_ok limit n \<Longrightarrow> m \<le> n \<Longrightarrow> size_ok limit m"
  by (simp add: size_ok_def split: jint.splits)

lemma dropOldest_simps [simp]:
  "wq_queue (dropOldest w) = tl (wq_queue w)" "wq_disposed (dropOldest w) = wq_disposed w" "wq_maxAttempts (dropOldest w) = wq_maxAttempts w"
  "wq_maxQueue (dropOldest w) = wq_maxQueue w" "wq_backoff (dropOldest w) = wq_backoff w"
  "(wq_phase (dropOldest w) = No_flush) = (wq_phase w = No_flush)" "in_hand (wq_phase (dropOldest w)) = in_hand (wq_phase w)"
  by (auto simp: dropOldest_def outside_def in_hand_def split: list.split flush_phase.split)

lemma dropOldest_phase: "wq_queue w \<noteq> [] \<Longrightarrow> wq_phase (dropOldest w) \<noteq> Setting op True"
  by (auto simp: dropOldest_def outside_def split: list.split flush_phase.split)

lemma list_all_tl: "list_all P xs \<Longrightarrow> list_all P (tl xs)"
  by (cases xs) simp_all

lemma enqueue_room_ok:
  assumes ok: "wal_ok w" and room: "\<not> jle (wq_maxQueue w) (JInt (int (length (wq_queue w))))"
  shows "wal_ok (snd (enqueue op w))"
proof -
  have size: "size_ok (wq_maxQueue w) (Suc (length (wq_queue w)))"
    using room by (auto simp: size_ok_def split: jint.split)
  show ?thesis
  proof (cases "wq_queue w")
    case Nil
    with ok have "wq_phase w = No_flush" by (simp add: wal_ok_phase)
    with ok room size Nil show ?thesis by (simp add: enqueue_def Let_def flush_next_ok)
  next
    case (Cons h t)
    with ok have "wq_phase w \<noteq> No_flush" by (simp add: wal_ok_phase)
    with ok room size Cons show ?thesis by (auto simp: enqueue_def Let_def wal_ok_def split: flush_phase.splits bool.splits)
  qed
qed

lemma enqueue_full_ok:
  assumes ok: "wal_ok w" and full: "jle (wq_maxQueue w) (JInt (int (length (wq_queue w))))"
  shows "wal_ok (snd (enqueue op w))"
proof (cases "wq_queue w")
  case Nil
  with ok have p: "wq_phase w = No_flush" by (simp add: wal_ok_phase)
  have "size_ok (wq_maxQueue w) 1" by (simp add: size_ok_def split: jint.split)
  with p Nil full ok show ?thesis by (auto simp: enqueue_def Let_def dropOldest_def flush_next_ok)
next
  case (Cons h t)
  with ok have p: "wq_phase w \<noteq> No_flush" by (simp add: wal_ok_phase)
  have len: "length (wq_queue (dropOldest w) @ [op\<lparr>mo_attempts := 0\<rparr>]) = length (wq_queue w)" using Cons by simp
  have "list_all (attempts_ok (wq_maxAttempts w)) t" using ok Cons by (simp add: wal_ok_def)
  moreover have "list_all (attempts_ok (wq_maxAttempts w)) (in_hand (wq_phase w))" using ok by (simp add: wal_ok_def)
  moreover have "wq_phase (dropOldest w) \<noteq> Setting x True" for x using dropOldest_phase Cons by simp
  ultimately show ?thesis
    using ok p full Cons
    by (auto simp: enqueue_def Let_def wal_ok_def split: flush_phase.split bool.split)
qed

lemma set_failed_ok:
  assumes ok: "wal_ok w" and p: "wq_phase w = Setting op b"
  shows "wal_ok (set_failed op b w)"
proof -
  let ?op1 = "op\<lparr>mo_attempts := Suc (mo_attempts op)\<rparr>"
  have q: "wq_queue w \<noteq> []" using ok p by (simp add: wal_ok_phase[symmetric])
  then have len: "length (?op1 # tl (wq_queue w)) = length (wq_queue w)" by simp
  have size: "size_ok (wq_maxQueue w) (length (wq_queue w))" using ok by (simp add: wal_ok_def)
  then have smaller: "size_ok (wq_maxQueue w) (length (tl (wq_queue w)))" by (rule size_ok_le) simp
  have all: "list_all (attempts_ok (wq_maxAttempts w)) (wq_queue w)" "list_all (attempts_ok (wq_maxAttempts w)) (tl (wq_queue w))"
    using ok list_all_tl by (auto simp: wal_ok_def)
  show ?thesis
  proof (cases "jle (wq_maxAttempts w) (JInt (int (mo_attempts ?op1)))")
    case True
    then show ?thesis using all smaller by (auto simp: set_failed_def Let_def intro!: flush_next_ok)
  next
    case False
    then have "attempts_ok (wq_maxAttempts w) ?op1" by (auto simp: attempts_ok_def split: jint.split)
    with False all q size len show ?thesis
      by (auto simp: set_failed_def Let_def wal_ok_def in_hand_def)
  qed
qed

lemma wal_step_ok:
  assumes "wal_ok w" and "wal_step e w = Some (out, w')"
  shows "wal_ok w'"
proof (cases e)
  case (Enqueue op)
  then show ?thesis using assms enqueue_room_ok enqueue_full_ok by (cases "jle (wq_maxQueue w) (JInt (int (length (wq_queue w))))") auto
next
  case Set_ok
  have "list_all (attempts_ok (wq_maxAttempts w)) (tl (wq_queue w))" using assms(1) list_all_tl by (auto simp: wal_ok_def)
  moreover have "size_ok (wq_maxQueue w) (length (tl (wq_queue w)))" using assms(1) size_ok_le by (fastforce simp: wal_ok_def)
  ultimately show ?thesis
    using assms(2) Set_ok by (auto simp: set_done_def intro!: flush_next_ok split: flush_phase.splits)
next
  case Set_fails
  then show ?thesis using assms set_failed_ok by (auto split: flush_phase.splits)
next
  case Wake
  then show ?thesis using assms by (auto simp: wal_ok_def[of w] intro!: flush_next_ok split: flush_phase.splits)
next
  case Dispose
  then show ?thesis using assms by (auto simp: wal_ok_def dispose_def split: flush_phase.splits bool.splits)
qed

lemma wal_step_limits:
  assumes "wal_step e w = Some (out, w')"
  shows "wq_maxAttempts w' = wq_maxAttempts w" "wq_maxQueue w' = wq_maxQueue w" "wq_backoff w' = wq_backoff w"
  using assms
  by (cases e; auto simp: enqueue_def Let_def set_done_def set_failed_def dispose_def split: flush_phase.splits if_splits)+

lemma wal_reach_ok: "wal_reach a b q w \<Longrightarrow> wal_ok w \<and> wq_maxAttempts w = a \<and> wq_maxQueue w = q"
proof (induction rule: wal_reach.induct)
  case New
  have "size_ok q 0" by (auto simp: size_ok_def split: jint.split)
  then show ?case by (simp add: wal_new_def wal_ok_def in_hand_def)
next
  case (Event w e out w')
  then show ?case using wal_step_ok wal_step_limits by auto
qed

text \<open>A property of the writes that does not look at the attempts is kept by every event.\<close>

lemma wal_step_all:
  assumes "\<And>op n. P (op\<lparr>mo_attempts := n\<rparr>) = P op"
    and "list_all P (wq_queue w @ in_hand (wq_phase w))" and "(case e of Enqueue op \<Rightarrow> P op | _ \<Rightarrow> True)"
    and "wal_step e w = Some (out, w')"
  shows "list_all P (wq_queue w' @ in_hand (wq_phase w')) \<and> (case out of Some op \<Rightarrow> P op | None \<Rightarrow> True)"
proof -
  have next_all: "list_all P (wq_queue (flush_next v) @ in_hand (wq_phase (flush_next v)))" if "list_all P (wq_queue v)" for v
    using that by (auto simp: flush_next_phase in_hand_def split: list.split)
  have q: "list_all P (wq_queue w)" "list_all P (tl (wq_queue w))" using assms(2) list_all_tl by auto
  show ?thesis
  proof (cases e)
    case (Enqueue op)
    have "list_all P (wq_queue (snd (enqueue op w)) @ in_hand (wq_phase (snd (enqueue op w))))"
      using assms(1-3) q Enqueue next_all by (auto simp: enqueue_def Let_def)
    then show ?thesis using assms(4) Enqueue by auto
  next
    case Set_ok
    then show ?thesis using assms(2,4) q next_all by (auto simp: set_done_def split: flush_phase.splits)
  next
    case Set_fails
    then show ?thesis using assms(1,2,4) q next_all
      by (auto simp: set_failed_def Let_def split: flush_phase.splits if_splits)
  next
    case Wake
    then show ?thesis using assms(2,4) q next_all by (auto split: flush_phase.splits)
  next
    case Dispose
    then show ?thesis using assms(2,4) by (auto simp: dispose_def)
  qed
qed

text \<open>In every reachable state of the queue a flush is running exactly when there is something to write,
  the queue holds at most the configured number of writes (one, when none are allowed), and no write
  in it has used up its attempts.\<close>

theorem wal_never_stuck:
  assumes "wal_reach (JInt m) b (JInt n) w"
  shows "(wq_phase w = No_flush \<longleftrightarrow> wq_queue w = []) \<and> int (pending w) \<le> max 1 n \<and>
    list_all (\<lambda>op. int (mo_attempts op) < max 1 m) (wq_queue w)"
  using wal_reach_ok[OF assms] by (auto simp: wal_ok_def size_ok_def attempts_ok_def pending_def list_all_iff)

section \<open>The flush ends\<close>

definition is_flush :: "wal_event \<Rightarrow> bool" where
  "is_flush e \<longleftrightarrow> e = Set_ok \<or> e = Set_fails \<or> e = Wake"

definition tries_left :: "int \<Rightarrow> mem_op \<Rightarrow> nat" where
  "tries_left m op = nat (max 1 m) - mo_attempts op"

definition flush_work :: "int \<Rightarrow> wal \<Rightarrow> nat" where
  "flush_work m w = (\<Sum>op\<leftarrow>wq_queue w. 2 * tries_left m op) +
     (case wq_phase w of Setting op True \<Rightarrow> 0 | Setting op False \<Rightarrow> 2 | Sleeping ms \<Rightarrow> 1 | No_flush \<Rightarrow> 0)"

lemma flush_work_next: "flush_work m (flush_next w) = (\<Sum>op\<leftarrow>wq_queue w. 2 * tries_left m op)"
  by (simp add: flush_work_def flush_next_phase split: list.split)

lemma tries_left_pos: "attempts_ok (JInt m) op \<Longrightarrow> 1 \<le> tries_left m op"
  by (auto simp: attempts_ok_def tries_left_def)

lemma flush_work_decreases:
  assumes ok: "wal_ok w" and lim: "wq_maxAttempts w = JInt m" and e: "is_flush e" and step: "wal_step e w = Some (out, w')"
  shows "flush_work m w' < flush_work m w"
proof (cases "wq_phase w")
  case No_flush
  then show ?thesis using e step by (auto simp: is_flush_def)
next
  case (Sleeping ms)
  then have "w' = flush_next w" using e step by (auto simp: is_flush_def)
  then show ?thesis unfolding \<open>w' = _\<close> flush_work_next by (simp add: flush_work_def Sleeping)
next
  case (Setting op b)
  then obtain h t where q: "wq_queue w = h # t" using ok by (cases "wq_queue w") (auto simp: wal_ok_def)
  have h: "1 \<le> tries_left m h" by (rule tries_left_pos) (use ok lim q in \<open>simp add: wal_ok_def\<close>)
  have same: "b \<Longrightarrow> h = op" using ok Setting q by (auto simp: wal_ok_def)
  show ?thesis
  proof (cases "e = Set_ok")
    case True
    then have "w' = flush_next (w\<lparr>wq_queue := t\<rparr>)" using step Setting q by (simp add: set_done_def)
    then show ?thesis using h unfolding \<open>w' = _\<close> flush_work_next by (simp add: flush_work_def q)
  next
    case False
    then have w': "w' = set_failed op b w" using e step Setting by (auto simp: is_flush_def)
    let ?op1 = "op\<lparr>mo_attempts := Suc (mo_attempts op)\<rparr>"
    show ?thesis
    proof (cases "jle (wq_maxAttempts w) (JInt (int (mo_attempts ?op1)))")
      case True
      then show ?thesis using h by (auto simp: w' set_failed_def Let_def flush_work_next q) (simp_all add: flush_work_def q)
    next
      case False
      then have "b \<Longrightarrow> tries_left m ?op1 < tries_left m h" using lim same by (auto simp: tries_left_def)
      then show ?thesis using False by (auto simp: w' set_failed_def Let_def flush_work_def q Setting)
    qed
  qed
qed

lemma flush_enabled: "wal_ok w \<Longrightarrow> wq_queue w \<noteq> [] \<Longrightarrow> \<exists>e. is_flush e \<and> wal_step e w \<noteq> None"
  by (cases "wq_phase w") (auto simp: wal_ok_phase is_flush_def intro: exI[of _ Set_ok] exI[of _ Wake])

lemma flush_run_bound:
  assumes "wal_ok w" and "wq_maxAttempts w = JInt m" and "list_all is_flush es" and "wal_run es w = Some (outs, w')"
  shows "length es + flush_work m w' \<le> flush_work m w \<and> wal_ok w'"
  using assms
proof (induction es arbitrary: w outs)
  case (Cons e es)
  obtain out w1 outs1 where s: "wal_step e w = Some (out, w1)" "wal_run es w1 = Some (outs1, w')"
    using Cons.prems(4) by (auto split: option.splits)
  have "flush_work m w1 < flush_work m w" using flush_work_decreases[OF Cons.prems(1,2) _ s(1)] Cons.prems(3) by simp
  then show ?case using Cons.IH[OF wal_step_ok[OF Cons.prems(1) s(1)] _ _ s(2)] wal_step_limits[OF s(1)] Cons.prems(2,3) by simp
qed simp

lemma flush_work_le: "flush_work m w \<le> 2 * nat (max 1 m) * pending w + 2"
proof -
  have "(\<Sum>op\<leftarrow>q. 2 * tries_left m op) \<le> 2 * nat (max 1 m) * length q" for q
  proof (induction q)
    case (Cons op q)
    have "tries_left m op \<le> nat (max 1 m)" by (simp add: tries_left_def)
    with Cons show ?case by (simp add: add_mono)
  qed simp
  then have "(\<Sum>op\<leftarrow>wq_queue w. 2 * tries_left m op) \<le> 2 * nat (max 1 m) * pending w" unfolding pending_def .
  then show ?thesis by (auto simp: flush_work_def split: flush_phase.split bool.split)
qed

text \<open>After \<open>dispose\<close>, whose promise waits for the flush, the queue is written in a bounded number of
  steps whatever succeeds or fails: at most twice the attempts for each pending write, and a step is
  possible as long as anything is pending.\<close>

theorem dispose_finishes:
  assumes "wal_reach (JInt m) b q w" and "list_all is_flush es" and "wal_run es (dispose w) = Some (outs, w')"
  shows "length es \<le> 2 * nat (max 1 m) * pending w + 2 \<and> (wq_queue w' \<noteq> [] \<longrightarrow> (\<exists>e. is_flush e \<and> wal_step e w' \<noteq> None))"
proof -
  have ok: "wal_ok (dispose w)" "wq_maxAttempts (dispose w) = JInt m"
    using wal_reach_ok[OF assms(1)] wal_step_ok[of w Dispose None "dispose w"] by (simp_all add: dispose_def)
  have "pending (dispose w) = pending w" by (simp add: pending_def dispose_def)
  then show ?thesis
    using flush_run_bound[OF ok assms(2,3)] flush_work_le[of m "dispose w"] flush_enabled by fastforce
qed

section \<open>What becomes of the writes\<close>

abbreviation core :: "mem_op \<Rightarrow> mem_op" where "core op \<equiv> op\<lparr>mo_attempts := 0\<rparr>"

definition taken :: "wal_event \<Rightarrow> wal \<Rightarrow> mem_op list" where
  "taken e w = (case e of Enqueue op \<Rightarrow> if wq_disposed w then [] else [core op] | _ \<Rightarrow> [])"

fun accepted :: "wal_event list \<Rightarrow> wal \<Rightarrow> mem_op list" where
  "accepted [] w = []"
| "accepted (e # es) w = taken e w @ (case wal_step e w of Some (out, w1) \<Rightarrow> accepted es w1 | None \<Rightarrow> [])"

definition has_room :: "wal_event \<Rightarrow> wal \<Rightarrow> bool" where
  "has_room e w \<longleftrightarrow> (case e of Enqueue op \<Rightarrow> wq_disposed w \<or> \<not> jle (wq_maxQueue w) (JInt (int (length (wq_queue w)))) | _ \<Rightarrow> True)"

fun roomy :: "wal_event list \<Rightarrow> wal \<Rightarrow> bool" where
  "roomy [] w = True"
| "roomy (e # es) w = (has_room e w \<and> (case wal_step e w of Some (out, w1) \<Rightarrow> roomy es w1 | None \<Rightarrow> True))"

definition tidy :: "wal \<Rightarrow> bool" where
  "tidy w \<longleftrightarrow> wal_ok w \<and> (case wq_phase w of Setting op b \<Rightarrow> b | _ \<Rightarrow> True)"

lemma tidy_next: "wal_ok (flush_next w) \<Longrightarrow> tidy (flush_next w)"
  by (simp add: tidy_def flush_next_phase split: list.split)

abbreviation written :: "mem_op option \<Rightarrow> mem_op list" where
  "written out \<equiv> (case out of Some op \<Rightarrow> [op] | None \<Rightarrow> [])"

lemma step_accounts:
  assumes tidy: "tidy w" and room: "has_room e w" and step: "wal_step e w = Some (out, w1)"
  shows "tidy w1 \<and> subseq (map core (written out @ wq_queue w1)) (map core (wq_queue w) @ taken e w) \<and>
    length (written out) + length (wq_queue w1) + length (wq_log w1) = length (wq_queue w) + length (taken e w) + length (wq_log w)"
proof -
  have ok: "wal_ok w" using tidy by (simp add: tidy_def)
  have ok1: "wal_ok w1" using wal_step_ok[OF ok step] .
  show ?thesis
  proof (cases e)
    case (Enqueue op)
    with step have w1: "w1 = snd (enqueue op w)" and out: "out = None" by auto
    show ?thesis
    proof (cases "wq_disposed w")
      case True
      then show ?thesis using tidy by (simp add: w1 out enqueue_def taken_def Enqueue)
    next
      case False
      then have "\<not> jle (wq_maxQueue w) (JInt (int (length (wq_queue w))))" using room by (simp add: has_room_def Enqueue)
      then show ?thesis using False tidy ok1
        by (auto simp: w1 out enqueue_def Let_def taken_def Enqueue tidy_next) (auto simp: tidy_def)
    qed
  next
    case Set_ok
    then obtain op where p: "wq_phase w = Setting op True" and w1: "w1 = set_done w" "out = Some op"
      using step tidy by (auto simp: tidy_def split: flush_phase.splits)
    then obtain t where "wq_queue w = op # t" using ok by (cases "wq_queue w") (auto simp: wal_ok_def)
    then show ?thesis using ok1 by (auto simp: w1 set_done_def taken_def Set_ok tidy_next)
  next
    case Set_fails
    then obtain op where p: "wq_phase w = Setting op True" and w1: "w1 = set_failed op True w" "out = None"
      using step tidy by (auto simp: tidy_def split: flush_phase.splits)
    then obtain t where "wq_queue w = op # t" using ok by (cases "wq_queue w") (auto simp: wal_ok_def)
    then show ?thesis using ok1
      by (auto simp: w1 set_failed_def Let_def taken_def Set_fails tidy_next) (auto simp: tidy_def)
  next
    case Wake
    then have "w1 = flush_next w" "out = None" using step by (auto split: flush_phase.splits)
    then show ?thesis using ok1 by (auto simp: taken_def Wake tidy_next)
  next
    case Dispose
    then have "w1 = dispose w" "out = None" using step by auto
    then show ?thesis using tidy ok1 by (auto simp: taken_def Dispose tidy_def dispose_def)
  qed
qed

lemma run_accounts:
  assumes "tidy w" and "roomy es w" and "wal_run es w = Some (outs, w')"
  shows "subseq (map core (outs @ wq_queue w')) (map core (wq_queue w) @ accepted es w) \<and>
    length outs + length (wq_queue w') + length (wq_log w') = length (wq_queue w) + length (accepted es w) + length (wq_log w)"
  using assms
proof (induction es arbitrary: w outs)
  case (Cons e es)
  obtain out w1 outs1 where s: "wal_step e w = Some (out, w1)" "wal_run es w1 = Some (outs1, w')" "outs = written out @ outs1"
    using Cons.prems(3) by (auto split: option.splits)
  have room: "has_room e w" "roomy es w1" using Cons.prems(2) s(1) by simp_all
  note st = step_accounts[OF Cons.prems(1) room(1) s(1)]
  note IH = Cons.IH[OF st[THEN conjunct1] room(2) s(2)]
  have "subseq (map core (written out) @ map core (outs1 @ wq_queue w')) (map core (written out) @ map core (wq_queue w1) @ accepted es w1)"
    using IH by (intro list_emb_append_mono) auto
  also have "subseq (map core (written out) @ map core (wq_queue w1) @ accepted es w1) ((map core (wq_queue w) @ taken e w) @ accepted es w1)"
    using st list_emb_append_mono[of "(=)" "map core (written out @ wq_queue w1)" "map core (wq_queue w) @ taken e w" "accepted es w1" "accepted es w1"]
    by simp
  finally have "subseq (map core (outs @ wq_queue w')) (map core (wq_queue w) @ accepted (e # es) w)"
    by (simp add: s)
  moreover have "length outs + length (wq_queue w') + length (wq_log w') = length (wq_queue w) + length (accepted (e # es) w) + length (wq_log w)"
    using st IH by (simp add: s)
  ultimately show ?case by blast
qed simp

text \<open>C30. While the queue never overflows, the writes reach the table in the order in which they were
  accepted, and each accepted write is written, pending, or reported as failed in the log.\<close>

theorem wal_in_order:
  assumes "roomy es (wal_new a b q)" and "wal_run es (wal_new a b q) = Some (outs, w')"
  shows "subseq (map core (outs @ wq_queue w')) (accepted es (wal_new a b q)) \<and>
    length outs + pending w' + length (wq_log w') = length (accepted es (wal_new a b q))"
proof -
  have "tidy (wal_new a b q)"
    by (auto simp: tidy_def wal_ok_def wal_new_def in_hand_def size_ok_def split: jint.split)
  from run_accounts[OF this assms] show ?thesis by (simp add: wal_new_def pending_def)
qed

text \<open>An overflow while a write is under way loses another write without a trace: the dropped one is the
  one under way, which then succeeds although it was reported as dropped, and its success removes the next
  one from the queue, which is neither written nor reported.\<close>

theorem overflow_loses_silently:
  assumes "wq_phase w = Setting op True" and "wq_queue w = op # lost # rest" and "\<not> wq_disposed w"
    and "wq_maxQueue w = JInt (int (pending w))"
  shows "\<exists>w'. wal_run [Enqueue new, Set_ok] w = Some ([op], w') \<and> wq_queue w' = rest @ [core new] \<and>
    wq_log w' = wq_log w @ [drop_message op]"
  using assms by (simp add: enqueue_def Let_def dropOldest_def outside_def set_done_def pending_def)

section \<open>Examples\<close>

definition demo_op :: "string \<Rightarrow> mem_op" where
  "demo_op k = \<lparr>mo_namespace = ''ns'', mo_agentId = ''a'', mo_key = k, mo_value = JObj [], mo_ttl = None, mo_attempts = 0\<rparr>"

definition full_wal :: wal where
  "full_wal = snd (the (wal_run [Enqueue (demo_op ''1''), Enqueue (demo_op ''2''), Enqueue (demo_op ''3'')] (wal_new (Some (JInt 5)) (Some (JInt 500)) (Some (JInt 3)))))"

lemma full_wal_reach: "wal_reach (JInt 5) (JInt 500) (JInt 3) full_wal"
proof -
  let ?w = "\<lambda>n. snd (the (wal_run (take n [Enqueue (demo_op ''1''), Enqueue (demo_op ''2''), Enqueue (demo_op ''3'')])
    (wal_new (Some (JInt 5)) (Some (JInt 500)) (Some (JInt 3)))))"
  have "wal_reach (JInt 5) (JInt 500) (JInt 3) (?w 0)" using wal_reach.New by simp
  then have "wal_reach (JInt 5) (JInt 500) (JInt 3) (?w 1)" by (rule wal_reach.Event[where e = "Enqueue (demo_op ''1'')"]) simp
  then have "wal_reach (JInt 5) (JInt 500) (JInt 3) (?w 2)" by (rule wal_reach.Event[where e = "Enqueue (demo_op ''2'')"]) (simp add: numeral_2_eq_2)
  then show ?thesis unfolding full_wal_def by (rule wal_reach.Event[where e = "Enqueue (demo_op ''3'')"]) (simp add: numeral_2_eq_2)
qed

theorem wal_never_stuck_witness: "int (pending full_wal) \<le> 3 \<and> wq_phase full_wal \<noteq> No_flush"
proof -
  have "wq_queue full_wal \<noteq> []" by code_simp
  then show ?thesis using wal_never_stuck[OF full_wal_reach] by simp
qed

theorem dispose_finishes_witness:
  "\<exists>outs w'. wal_run [Set_ok, Set_fails, Wake, Set_ok, Set_ok] (dispose full_wal) = Some (outs, w') \<and>
     length [Set_ok, Set_fails, Wake, Set_ok, Set_ok] \<le> 2 * nat (max 1 5) * pending full_wal + 2"
proof -
  have "wal_run [Set_ok, Set_fails, Wake, Set_ok, Set_ok] (dispose full_wal) \<noteq> None" by code_simp
  then obtain outs w' where r: "wal_run [Set_ok, Set_fails, Wake, Set_ok, Set_ok] (dispose full_wal) = Some (outs, w')" by auto
  have "list_all is_flush [Set_ok, Set_fails, Wake, Set_ok, Set_ok]" by (simp add: is_flush_def)
  from dispose_finishes[OF full_wal_reach this r] r show ?thesis by blast
qed

theorem wal_in_order_witness:
  "\<exists>outs w'. wal_run [Enqueue (demo_op ''1''), Set_fails, Enqueue (demo_op ''2''), Wake, Set_ok, Set_ok] (wal_new None None None) = Some (outs, w') \<and>
     length outs + pending w' + length (wq_log w') = 2"
proof -
  let ?es = "[Enqueue (demo_op ''1''), Set_fails, Enqueue (demo_op ''2''), Wake, Set_ok, Set_ok]"
  have "roomy ?es (wal_new None None None)" by code_simp
  moreover have "wal_run ?es (wal_new None None None) \<noteq> None" by code_simp
  then obtain outs w' where "wal_run ?es (wal_new None None None) = Some (outs, w')" by auto
  moreover have "length (accepted ?es (wal_new None None None)) = 2" by code_simp
  ultimately show ?thesis using wal_in_order[of ?es None None None outs w'] by auto
qed

theorem overflow_loses_silently_witness:
  "\<exists>w'. wal_run [Enqueue (demo_op ''4''), Set_ok] full_wal = Some ([demo_op ''1''], w') \<and>
     wq_queue w' = [demo_op ''3'', demo_op ''4''] \<and> wq_log w' = [drop_message (demo_op ''1'')]"
proof -
  have "wq_phase full_wal = Setting (demo_op ''1'') True" "wq_queue full_wal = [demo_op ''1'', demo_op ''2'', demo_op ''3'']"
    "\<not> wq_disposed full_wal" "wq_maxQueue full_wal = JInt (int (pending full_wal))" "wq_log full_wal = []" "core (demo_op ''4'') = demo_op ''4''"
    by code_simp+
  then show ?thesis using overflow_loses_silently[of full_wal "demo_op ''1''" "demo_op ''2''" "[demo_op ''3'']" "demo_op ''4''"] by simp
qed

end
