(* ===== verification/Memory.thy ===== *)
theory Memory
  imports MemoryQueue AuditChain JsRegex
begin

text \<open>
  The memory plane: the table of \<open>memory-plane/src/repository.ts\<close> and the handlers of
  \<open>memory-plane/src/index.ts\<close>, which keep a copy with a lifetime in Redis and write to the table through the
  queue of \<open>MemoryQueue\<close>. Redis is a parameter; a call says whether the database answers it. The clock of
  the database is that of the service.
\<close>

section \<open>The table\<close>

record mem_row =
  me_id :: string
  me_namespace :: string
  me_agent :: string
  me_key :: string
  me_value :: json
  me_embedding :: "num list option"
  me_created :: int
  me_updated :: int
  me_expires :: "int option"

definition same_key :: "string \<Rightarrow> string \<Rightarrow> string \<Rightarrow> mem_row \<Rightarrow> bool" where
  "same_key ns agent key r \<longleftrightarrow> me_namespace r = ns \<and> me_agent r = agent \<and> me_key r = key"

definition unexpired :: "int \<Rightarrow> mem_row \<Rightarrow> bool" where
  "unexpired now r \<longleftrightarrow> (case me_expires r of None \<Rightarrow> True | Some t \<Rightarrow> now < t)"

definition coalesce :: "'a option \<Rightarrow> 'a option \<Rightarrow> 'a option" where
  "coalesce a b = (case a of None \<Rightarrow> b | Some x \<Rightarrow> Some x)"

lemma coalesce_simps [simp]: "coalesce None b = b" "coalesce (Some x) b = Some x"
  by (simp_all add: coalesce_def)

definition mem_set ::
  "string \<Rightarrow> int \<Rightarrow> string \<Rightarrow> string \<Rightarrow> string \<Rightarrow> json \<Rightarrow> int option \<Rightarrow> num list option \<Rightarrow> mem_row list \<Rightarrow> mem_row list" where
  "mem_set uuid now ns agent key v ttlSeconds embedding rows =
     (let expiresAt = (case ttlSeconds of None \<Rightarrow> None | Some t \<Rightarrow> if t = 0 then None else Some (now + t * 1000))
      in if list_ex (same_key ns agent key) rows
         then map (\<lambda>r. if same_key ns agent key r
                then r\<lparr>me_value := v, me_embedding := coalesce embedding (me_embedding r), me_expires := coalesce expiresAt (me_expires r), me_updated := now\<rparr>
                else r) rows
         else rows @ [\<lparr>me_id = uuid, me_namespace = ns, me_agent = agent, me_key = key, me_value = v, me_embedding = embedding,
                       me_created = now, me_updated = now, me_expires = expiresAt\<rparr>])"

definition mem_get :: "int \<Rightarrow> string \<Rightarrow> string \<Rightarrow> string \<Rightarrow> mem_row list \<Rightarrow> mem_row option" where
  "mem_get now ns agent key rows = find (\<lambda>r. same_key ns agent key r \<and> unexpired now r) rows"

definition mem_delete :: "int \<Rightarrow> string \<Rightarrow> string \<Rightarrow> string \<Rightarrow> mem_row list \<Rightarrow> bool \<times> mem_row list" where
  "mem_delete now ns agent key rows =
     (list_ex (\<lambda>r. same_key ns agent key r \<and> unexpired now r) rows,
      map (\<lambda>r. if same_key ns agent key r \<and> unexpired now r then r\<lparr>me_expires := Some now\<rparr> else r) rows)"

text \<open>\<open>near\<close> is the cosine distance; rows at the same distance keep the order of the table.\<close>

definition searchSimilar :: "(num list \<Rightarrow> num list \<Rightarrow> rat) \<Rightarrow> int \<Rightarrow> string \<Rightarrow> num list \<Rightarrow> nat \<Rightarrow> mem_row list \<Rightarrow> (mem_row \<times> num) list" where
  "searchSimilar near now ns embedding topK rows =
     (let d = (\<lambda>r. near (the (me_embedding r)) embedding)
      in map (\<lambda>r. (r, rnd (1 - d r)))
           (take topK (sort_key d (filter (\<lambda>r. me_namespace r = ns \<and> me_embedding r \<noteq> None \<and> unexpired now r) rows))))"

definition clearExpired :: "int \<Rightarrow> mem_row list \<Rightarrow> nat \<times> mem_row list" where
  "clearExpired now rows =
     (let gone = (\<lambda>r. case me_expires r of None \<Rightarrow> False | Some t \<Rightarrow> t < now)
      in (length (filter gone rows), filter (\<lambda>r. \<not> gone r) rows))"

definition mem_list :: "int \<Rightarrow> string \<Rightarrow> string \<Rightarrow> nat \<Rightarrow> nat \<Rightarrow> mem_row list \<Rightarrow> mem_row list" where
  "mem_list now ns agent limit offset rows =
     take limit (drop offset (sort_key (\<lambda>r. - me_updated r)
       (filter (\<lambda>r. me_namespace r = ns \<and> me_agent r = agent \<and> unexpired now r) rows)))"

text \<open>A transaction: an error of the body, or of the commit, leaves the table as it was.\<close>

definition transaction :: "('d \<Rightarrow> (string + 'a) \<times> 'd) \<Rightarrow> bool \<Rightarrow> 'd \<Rightarrow> (string + 'a) \<times> 'd" where
  "transaction body commits d =
     (case body d of
        (Inl e, d1) \<Rightarrow> (Inl e, d)
      | (Inr v, d1) \<Rightarrow> if commits then (Inr v, d1) else (Inl ''commit failed'', d))"

text \<open>The timer of the cleanup: its interval, if it runs.\<close>

definition stopCleanupInterval :: "int option \<Rightarrow> int option" where
  "stopCleanupInterval timer = None"

definition startCleanupInterval :: "int option \<Rightarrow> int option \<Rightarrow> int option" where
  "startCleanupInterval intervalMs timer = (case stopCleanupInterval timer of _ \<Rightarrow> Some (nullish intervalMs 300000))"

section \<open>The service\<close>

text \<open>Redis: an operation may fail (\<open>None\<close>). \<open>ml_scan\<close> yields the keys that match a pattern.\<close>

record 'r mem_lib =
  ml_get :: "int \<Rightarrow> string \<Rightarrow> 'r \<Rightarrow> string option option"
  ml_setex :: "int \<Rightarrow> string \<Rightarrow> int \<Rightarrow> string \<Rightarrow> 'r \<Rightarrow> 'r option"
  ml_del :: "string \<Rightarrow> 'r \<Rightarrow> 'r option"
  ml_scan :: "int \<Rightarrow> string \<Rightarrow> 'r \<Rightarrow> string list option"
  ml_sha256 :: "string \<Rightarrow> string"
  ml_env :: "string \<Rightarrow> string option"

record mem_call =
  mc_now :: int
  mc_db :: bool
  mc_uuid :: string
  mc_stamp :: string
  mc_event :: string

record mem_request =
  mq_agent :: string
  mq_namespace :: string
  mq_type :: string
  mq_key :: string

record 'r memory =
  mm_redis :: 'r
  mm_rows :: "mem_row list"
  mm_wal :: wal
  mm_audit :: audit_state

definition key_char :: "char \<Rightarrow> bool" where
  "key_char c \<longleftrightarrow> between (CHR ''a'') (CHR ''z'') c \<or> between (CHR ''A'') (CHR ''Z'') c \<or> is_digit c \<or> c \<in> set ''_.-''"

definition sanitizeKeyComponent :: "json \<Rightarrow> string" where
  "sanitizeKeyComponent v =
     (case v of
        JStr s \<Rightarrow> (let t = take 128 (map (\<lambda>c. if key_char c then c else CHR ''_'') s) in if t = [] then ''unknown'' else t)
      | _ \<Rightarrow> ''unknown'')"

abbreviation safe :: "string \<Rightarrow> string" where "safe s \<equiv> sanitizeKeyComponent (JStr s)"

definition redis_prefix :: "mem_request \<Rightarrow> string" where
  "redis_prefix q = ''egaop:'' @ safe (mq_namespace q) @ '':'' @ safe (mq_agent q) @ '':'' @ safe (mq_type q) @ '':''"

definition redis_key :: "mem_request \<Rightarrow> string" where
  "redis_key q = redis_prefix q @ safe (mq_key q)"

definition default_ttl :: "mem_request \<Rightarrow> int" where
  "default_ttl q = (if mq_type q = ''working'' then 300 else 86400)"

text \<open>The copy in Redis: an error, or the value when there is a text.\<close>

definition cached_value :: "'r mem_lib \<Rightarrow> int \<Rightarrow> string \<Rightarrow> 'r \<Rightarrow> string + json option" where
  "cached_value L now k r =
     (case ml_get L now k r of
        None \<Rightarrow> Inl ''Redis error''
      | Some raw \<Rightarrow> if \<not> truthy raw then Inr None
          else (case json_parse (the raw) of None \<Rightarrow> Inl ''Unexpected token'' | Some j \<Rightarrow> Inr (Some j)))"

definition read_answer :: "json option \<Rightarrow> json" where
  "read_answer data = JObj [(''data'', if json_truthy data then the data else JObj []), (''found'', JBool (json_truthy data))]"

definition mem_read :: "'r mem_lib \<Rightarrow> mem_call \<Rightarrow> mem_request \<Rightarrow> 'r memory \<Rightarrow> json \<times> 'r memory" where
  "mem_read L c q s =
     (case cached_value L (mc_now c) (redis_key q) (mm_redis s) of
        Inl e \<Rightarrow> (read_answer None, s)
      | Inr data \<Rightarrow>
          if json_truthy data then (read_answer data, s)
          else if \<not> mc_db c then (read_answer data, s)
          else (case mem_get (mc_now c) (mq_namespace q) (mq_agent q) (mq_key q) (mm_rows s) of
              None \<Rightarrow> (read_answer data, s)
            | Some r \<Rightarrow> (read_answer (Some (me_value r)),
                s\<lparr>mm_redis := nullish (ml_setex L (mc_now c) (redis_key q) (default_ttl q) (stringify (me_value r)) (mm_redis s)) (mm_redis s)\<rparr>)))"

definition mem_audit :: "'r mem_lib \<Rightarrow> mem_call \<Rightarrow> string \<Rightarrow> mem_request \<Rightarrow> 'r memory \<Rightarrow> 'r memory" where
  "mem_audit L c act q s =
     s\<lparr>mm_audit := snd (createAuditEntry (ml_sha256 L) (ml_env L) (mc_stamp c)
       \<lparr>ab_timestamp = mc_stamp c, ab_eventId = mc_event c, ab_eventType = ''agent.tool_call'', ab_severity = Sev_info,
        ab_actor = \<lparr>aa_type = ''agent'', aa_id = mq_agent q, aa_namespace = Some (mq_namespace q), aa_authMethod = None, aa_spiffeId = None\<rparr>,
        ab_target = Some \<lparr>at_type = ''memory'', at_id = mq_namespace q @ ''/'' @ mq_type q @ ''/'' @ mq_key q, at_namespace = Some (mq_namespace q)\<rparr>,
        ab_action = \<lparr>an_name = act, an_parameters = None, an_result = ''allowed'', an_reason = None\<rparr>,
        ab_context = \<lparr>ac_requestId = None, ac_sessionId = None, ac_ipAddress = None, ac_userAgent = None\<rparr>\<rparr> (mm_audit s))\<rparr>"

definition wal_op :: "mem_request \<Rightarrow> json \<Rightarrow> int \<Rightarrow> mem_op" where
  "wal_op q data ttl = \<lparr>mo_namespace = safe (mq_namespace q), mo_agentId = safe (mq_agent q), mo_key = safe (mq_key q), mo_value = data,
     mo_ttl = Some ttl, mo_attempts = 0\<rparr>"

definition write_answer :: "string \<Rightarrow> string \<Rightarrow> json" where
  "write_answer status version = JObj [(''status'', JStr status), (''version'', JStr version)]"

definition mem_write :: "'r mem_lib \<Rightarrow> mem_call \<Rightarrow> mem_request \<Rightarrow> json \<Rightarrow> int option \<Rightarrow> 'r memory \<Rightarrow> json \<times> 'r memory" where
  "mem_write L c q data ttl_seconds s =
     (let ttl = (case ttl_seconds of Some t \<Rightarrow> if t = 0 then default_ttl q else t | None \<Rightarrow> default_ttl q)
      in case ml_setex L (mc_now c) (redis_key q) ttl (stringify data) (mm_redis s) of
           None \<Rightarrow> (write_answer ''error'' [], s)
         | Some r \<Rightarrow>
             (write_answer ''success'' (''rev-'' @ show_int (mc_now c)),
              mem_audit L c ''memory.Write'' q (s\<lparr>mm_redis := r, mm_wal := snd (enqueue (wal_op q data ttl) (mm_wal s))\<rparr>)))"

text \<open>The deletion in the table is not awaited; when the database does not answer it is only logged.\<close>

definition mem_delete_handler :: "'r mem_lib \<Rightarrow> mem_call \<Rightarrow> mem_request \<Rightarrow> 'r memory \<Rightarrow> json \<times> 'r memory" where
  "mem_delete_handler L c q s =
     (case ml_del L (redis_key q) (mm_redis s) of
        None \<Rightarrow> (JObj [(''status'', JStr ''error'')], s)
      | Some r \<Rightarrow>
          (JObj [(''status'', JStr ''success'')],
           mem_audit L c ''memory.Delete'' q (s\<lparr>mm_redis := r, mm_rows :=
             (if mc_db c then snd (mem_delete (mc_now c) (mq_namespace q) (mq_agent q) (mq_key q) (mm_rows s)) else mm_rows s)\<rparr>)))"

fun join_on :: "string \<Rightarrow> string list \<Rightarrow> string" where
  "join_on sep [] = []"
| "join_on sep [x] = x"
| "join_on sep (x # xs) = x @ sep @ join_on sep xs"

definition entry_json :: "string \<Rightarrow> json \<Rightarrow> json" where
  "entry_json k v = JObj [(''key'', JStr k), (''data'', v)]"

definition entry_name :: "string \<Rightarrow> string" where
  "entry_name k = join_on '':'' (drop 4 (split_on (CHR '':'') k))"

text \<open>The values of the keys found; an error ends the call.\<close>

fun scan_entries :: "'r mem_lib \<Rightarrow> int \<Rightarrow> string list \<Rightarrow> 'r \<Rightarrow> string + json list" where
  "scan_entries L now [] r = Inr []"
| "scan_entries L now (k # ks) r =
     (case cached_value L now k r of
        Inl e \<Rightarrow> Inl e
      | Inr v \<Rightarrow> (case scan_entries L now ks r of Inl e \<Rightarrow> Inl e | Inr es \<Rightarrow> Inr (entry_json (entry_name k) (nullish v (JObj [])) # es)))"

definition entries_answer :: "json list \<Rightarrow> json" where
  "entries_answer es = JObj [(''entries'', JArr es)]"

definition mem_list_handler :: "'r mem_lib \<Rightarrow> mem_call \<Rightarrow> mem_request \<Rightarrow> 'r memory \<Rightarrow> json" where
  "mem_list_handler L c q s =
     (case ml_scan L (mc_now c) (redis_prefix q @ ''*'') (mm_redis s) of
        None \<Rightarrow> entries_answer []
      | Some ks \<Rightarrow>
          (case scan_entries L (mc_now c) ks (mm_redis s) of
             Inl e \<Rightarrow> entries_answer []
           | Inr [] \<Rightarrow> entries_answer (if mc_db c
               then map (\<lambda>r. entry_json (me_key r) (me_value r)) (mem_list (mc_now c) (mq_namespace q) (mq_agent q) 100 0 (mm_rows s)) else [])
           | Inr es \<Rightarrow> entries_answer es))"

definition mem_health :: "bool \<Rightarrow> bool \<Rightarrow> json" where
  "mem_health redis_ok db_ok = JObj [(''status'', JStr (if redis_ok \<and> db_ok then ''SERVING'' else ''NOT_SERVING''))]"

definition mem_healthz :: "bool \<Rightarrow> bool \<Rightarrow> nat \<times> json" where
  "mem_healthz redis_ok db_ok =
     (if redis_ok \<and> db_ok then (200, JObj [(''status'', JStr ''SERVING''), (''service'', JStr ''memory-plane'')])
      else (503, JObj [(''status'', JStr ''NOT_SERVING''), (''service'', JStr ''memory-plane'')]))"

section \<open>The search endpoint\<close>

definition verifyServiceToken :: "string option \<Rightarrow> string option \<Rightarrow> bool" where
  "verifyServiceToken token_env header =
     (let expectedToken = nullish token_env []; provided = nullish header []
      in expectedToken = [] \<or> length expectedToken = length provided \<and> expectedToken = provided)"

text \<open>
  \<open>vec\<close> is what the database makes of the text of an embedding and \<open>limit\<close> of a limit, if it accepts them.
\<close>

record pg_params =
  pp_vec :: "string \<Rightarrow> num list option"
  pp_limit :: "json \<Rightarrow> nat option"
  pp_text :: "json \<Rightarrow> string"
  pp_near :: "num list \<Rightarrow> num list \<Rightarrow> rat"

definition embedding_text :: "json \<Rightarrow> string option" where
  "embedding_text v = (case v of
     JArr xs \<Rightarrow> (case json_text (JArr xs) of Some t \<Rightarrow> Some (''['' @ t @ '']'') | None \<Rightarrow> None)
   | _ \<Rightarrow> None)"

definition result_json :: "mem_row \<times> num \<Rightarrow> json" where
  "result_json r = JObj [(''key'', JStr (me_key (fst r))), (''agent_id'', JStr (me_agent (fst r))), (''value'', me_value (fst r)), (''similarity'', JNum (snd r))]"

definition error_json :: "string \<Rightarrow> json" where
  "error_json m = JObj [(''error'', JStr m)]"

definition search_route :: "pg_params \<Rightarrow> string option \<Rightarrow> string option \<Rightarrow> mem_call \<Rightarrow> string \<Rightarrow> 'r memory \<Rightarrow> nat \<times> json" where
  "search_route P token_env header c body s =
     (if \<not> verifyServiceToken token_env header then (401, error_json ''Unauthorized'')
      else case json_parse body of
          None \<Rightarrow> (500, error_json ''Search failed'')
        | Some JNull \<Rightarrow> (500, error_json ''Search failed'')
        | Some b \<Rightarrow>
            if \<not> json_truthy (jget b ''namespace'') \<or> \<not> json_truthy (jget b ''embedding'')
            then (400, error_json ''namespace and embedding required'')
            else (let top_k = (if json_truthy (jget b ''top_k'') then the (jget b ''top_k'') else JNum (Num 10))
                  in case (Option.bind (embedding_text (the (jget b ''embedding''))) (pp_vec P), pp_limit P top_k) of
                       (Some v, Some n) \<Rightarrow>
                         if \<not> mc_db c then (500, error_json ''Search failed'')
                         else (200, JObj [(''results'', JArr (map result_json
                           (searchSimilar (pp_near P) (mc_now c) (pp_text P (the (jget b ''namespace''))) v n (mm_rows s))))])
                     | _ \<Rightarrow> (500, error_json ''Search failed'')))"

section \<open>The steps of the plane\<close>

text \<open>A step of the flush writes what the queue hands over; a write succeeds when the database answers.\<close>

definition wal_write :: "mem_call \<Rightarrow> mem_op option \<Rightarrow> mem_row list \<Rightarrow> mem_row list" where
  "wal_write c out rows =
     (case out of None \<Rightarrow> rows
      | Some op \<Rightarrow> mem_set (mc_uuid c) (mc_now c) (mo_namespace op) (mo_agentId op) (mo_key op) (mo_value op) (mo_ttl op) None rows)"

definition flush_event :: "mem_call \<Rightarrow> wal \<Rightarrow> wal_event" where
  "flush_event c w = (case wq_phase w of Sleeping ms \<Rightarrow> Wake | _ \<Rightarrow> if mc_db c then Set_ok else Set_fails)"

definition flush_step :: "mem_call \<Rightarrow> 'r memory \<Rightarrow> 'r memory option" where
  "flush_step c s =
     (case wal_step (flush_event c (mm_wal s)) (mm_wal s) of
        None \<Rightarrow> None
      | Some (out, w) \<Rightarrow> Some (s\<lparr>mm_wal := w, mm_rows := wal_write c out (mm_rows s)\<rparr>))"

inductive mem_step :: "'r mem_lib \<Rightarrow> 'r memory \<Rightarrow> 'r memory \<Rightarrow> bool" for L where
  Read: "mem_step L s (snd (mem_read L c q s))"
| Write: "mem_step L s (snd (mem_write L c q data ttl s))"
| Delete: "mem_step L s (snd (mem_delete_handler L c q s))"
| Flush: "flush_step c s = Some s' \<Longrightarrow> mem_step L s s'"
| Cleanup: "mem_step L s (s\<lparr>mm_rows := snd (clearExpired now (mm_rows s))\<rparr>)"
| Shutdown: "mem_step L s (s\<lparr>mm_wal := dispose (mm_wal s)\<rparr>)"
| Redis_changes: "mem_step L s (s\<lparr>mm_redis := r\<rparr>)"

definition fresh_memory :: "jint option \<Rightarrow> jint option \<Rightarrow> jint option \<Rightarrow> 'r \<Rightarrow> 'r memory" where
  "fresh_memory a b n r = \<lparr>mm_redis = r, mm_rows = [], mm_wal = wal_new a b n, mm_audit = \<lparr>as_chains = [], as_output = []\<rparr>\<rparr>"

inductive mem_reach :: "'r mem_lib \<Rightarrow> 'r memory \<Rightarrow> bool" for L where
  Fresh: "mem_reach L (fresh_memory a b n r)"
| Step: "mem_reach L s \<Longrightarrow> mem_step L s s' \<Longrightarrow> mem_reach L s'"

section \<open>Invariants of the table\<close>

definition row_key :: "mem_row \<Rightarrow> string \<times> string \<times> string" where
  "row_key r = (me_namespace r, me_agent r, me_key r)"

definition table_ok :: "mem_row list \<Rightarrow> bool" where
  "table_ok rows \<longleftrightarrow> distinct (map row_key rows) \<and> list_all (\<lambda>r. me_embedding r = None) rows \<and>
     list_all (\<lambda>r. safe (me_namespace r) = me_namespace r \<and> safe (me_agent r) = me_agent r \<and> safe (me_key r) = me_key r) rows"

lemma same_key_iff: "same_key ns agent key r \<longleftrightarrow> row_key r = (ns, agent, key)"
  by (auto simp: same_key_def row_key_def)

lemma mem_set_keys:
  "map row_key (mem_set uuid now ns agent key v ttl emb rows) =
     (if (ns, agent, key) \<in> row_key ` set rows then map row_key rows else map row_key rows @ [(ns, agent, key)])"
proof (cases "list_ex (same_key ns agent key) rows")
  case True
  then have "(ns, agent, key) \<in> row_key ` set rows" by (auto simp: list_ex_iff same_key_iff) (metis imageI)
  with True show ?thesis by (auto simp: mem_set_def Let_def row_key_def)
next
  case False
  then have "(ns, agent, key) \<notin> row_key ` set rows" by (auto simp: list_ex_iff same_key_iff)
  with False show ?thesis by (simp add: mem_set_def Let_def row_key_def)
qed

lemma mem_delete_keys: "map row_key (snd (mem_delete now ns agent key rows)) = map row_key rows"
  by (simp add: mem_delete_def row_key_def)

lemma safe_id: "list_all key_char s \<Longrightarrow> length s \<le> 128 \<Longrightarrow> s \<noteq> [] \<Longrightarrow> safe s = s"
  by (induction s) (simp_all add: sanitizeKeyComponent_def Let_def list_all_iff map_idI)

lemma safe_shape: "list_all key_char (safe s) \<and> length (safe s) \<le> 128 \<and> safe s \<noteq> []"
proof -
  have underscore: "key_char (CHR ''_'')" by code_simp
  have "list_all key_char (take 128 (map (\<lambda>c. if key_char c then c else CHR ''_'') s))"
    using underscore by (auto simp: list_all_iff dest!: in_set_takeD)
  moreover have "list_all key_char ''unknown''" by code_simp
  ultimately show ?thesis by (simp add: sanitizeKeyComponent_def Let_def)
qed

lemma safe_idem [simp]: "safe (safe s) = safe s"
  using safe_shape[of s] by (intro safe_id) auto

definition safe_op :: "mem_op \<Rightarrow> bool" where
  "safe_op op \<longleftrightarrow> safe (mo_namespace op) = mo_namespace op \<and> safe (mo_agentId op) = mo_agentId op \<and> safe (mo_key op) = mo_key op"

definition memory_ok :: "'r memory \<Rightarrow> bool" where
  "memory_ok s \<longleftrightarrow> table_ok (mm_rows s) \<and> list_all safe_op (wq_queue (mm_wal s) @ in_hand (wq_phase (mm_wal s)))"

lemma table_ok_set:
  assumes "table_ok rows" and "safe ns = ns" "safe agent = agent" "safe key = key"
  shows "table_ok (mem_set uuid now ns agent key v ttl None rows)"
proof -
  have "distinct (map row_key (mem_set uuid now ns agent key v ttl None rows))"
    using assms(1) unfolding mem_set_keys by (auto simp: table_ok_def)
  moreover have "list_all (\<lambda>r. me_embedding r = None) (mem_set uuid now ns agent key v ttl None rows)"
    using assms(1) by (auto simp: table_ok_def mem_set_def Let_def list_all_iff coalesce_def)
  moreover have "list_all (\<lambda>r. safe (me_namespace r) = me_namespace r \<and> safe (me_agent r) = me_agent r \<and> safe (me_key r) = me_key r)
      (mem_set uuid now ns agent key v ttl None rows)"
    using assms unfolding table_ok_def mem_set_def Let_def by (auto simp: list_all_iff)
  ultimately show ?thesis by (simp add: table_ok_def)
qed

lemma table_ok_delete: "table_ok rows \<Longrightarrow> table_ok (snd (mem_delete now ns agent key rows))"
  unfolding table_ok_def mem_delete_keys by (auto simp: mem_delete_def list_all_iff)

lemma table_ok_filter: "table_ok rows \<Longrightarrow> table_ok (filter P rows)"
  by (auto simp: table_ok_def list_all_iff distinct_map_filter)

lemma mem_read_keeps: "mm_rows (snd (mem_read L c q s)) = mm_rows s \<and> mm_wal (snd (mem_read L c q s)) = mm_wal s"
  by (simp add: mem_read_def split: sum.split option.split)

lemma mem_write_rows: "mm_rows (snd (mem_write L c q data ttl s)) = mm_rows s"
  by (simp add: mem_write_def Let_def mem_audit_def split: option.split)

lemma mem_write_wal:
  "mm_wal (snd (mem_write L c q data ttl s)) = mm_wal s \<or>
   (\<exists>t. mm_wal (snd (mem_write L c q data ttl s)) = snd (enqueue (wal_op q data t) (mm_wal s)))"
  by (auto simp: mem_write_def Let_def mem_audit_def split: option.split)

lemma mem_delete_state:
  "mm_wal (snd (mem_delete_handler L c q s)) = mm_wal s \<and>
   (mm_rows (snd (mem_delete_handler L c q s)) = mm_rows s \<or>
    mm_rows (snd (mem_delete_handler L c q s)) = snd (mem_delete (mc_now c) (mq_namespace q) (mq_agent q) (mq_key q) (mm_rows s)))"
  by (simp add: mem_delete_handler_def mem_audit_def split: option.split)

lemma safe_op_attempts [simp]: "safe_op (op\<lparr>mo_attempts := n\<rparr>) = safe_op op"
  by (simp add: safe_op_def)

lemma wal_op_safe: "safe_op (wal_op q data ttl)"
  by (simp add: safe_op_def wal_op_def)

lemma wal_write_ok: "table_ok rows \<Longrightarrow> (case out of Some op \<Rightarrow> safe_op op | None \<Rightarrow> True) \<Longrightarrow> table_ok (wal_write c out rows)"
  by (auto simp: wal_write_def safe_op_def table_ok_set split: option.splits)

lemma memory_ok_step:
  assumes "memory_ok s" and "mem_step L s s'"
  shows "memory_ok s'"
  using assms(2)
proof cases
  case (Read c q)
  then show ?thesis using assms(1) mem_read_keeps[of L c q s] by (simp add: memory_ok_def)
next
  case (Write c q data ttl)
  have "list_all safe_op (wq_queue (snd (enqueue (wal_op q data t) (mm_wal s))) @ in_hand (wq_phase (snd (enqueue (wal_op q data t) (mm_wal s)))))" for t
    using assms(1) wal_op_safe wal_step_all[of safe_op "mm_wal s" "Enqueue (wal_op q data t)"] by (auto simp: memory_ok_def)
  then show ?thesis using assms(1) Write mem_write_rows[of L c q data ttl s] mem_write_wal[of L c q data ttl s]
    by (auto simp: memory_ok_def)
next
  case (Delete c q)
  then show ?thesis using assms(1) mem_delete_state[of L c q s] by (auto simp: memory_ok_def table_ok_delete)
next
  case (Flush c)
  then obtain out w where st: "wal_step (flush_event c (mm_wal s)) (mm_wal s) = Some (out, w)"
      "s' = s\<lparr>mm_wal := w, mm_rows := wal_write c out (mm_rows s)\<rparr>"
    unfolding flush_step_def by (auto split: option.splits)
  have e: "case flush_event c (mm_wal s) of Enqueue op \<Rightarrow> safe_op op | _ \<Rightarrow> True"
    by (simp add: flush_event_def split: flush_phase.split)
  show ?thesis
    using wal_step_all[OF safe_op_attempts _ e st(1)] assms(1) wal_write_ok st(2) by (auto simp: memory_ok_def)
next
  case (Cleanup now)
  then show ?thesis using assms(1) by (auto simp: memory_ok_def clearExpired_def Let_def table_ok_filter)
next
  case Shutdown
  then show ?thesis using assms(1) by (simp add: memory_ok_def dispose_def)
next
  case (Redis_changes r)
  then show ?thesis using assms(1) by (simp add: memory_ok_def)
qed

lemma mem_reach_ok: "mem_reach L s \<Longrightarrow> memory_ok s"
proof (induction rule: mem_reach.induct)
  case (Fresh a b n r)
  show ?case by (simp add: memory_ok_def fresh_memory_def table_ok_def wal_new_def in_hand_def)
next
  case (Step s s')
  then show ?case using memory_ok_step by blast
qed

text \<open>The table of memories stays well-formed: one row for each namespace, agent and key, and every name in
  it is made of the characters that the service lets through.\<close>

theorem memory_table_ok:
  assumes "mem_reach L s"
  shows "table_ok (mm_rows s)"
  using mem_reach_ok[OF assms] by (simp add: memory_ok_def)

text \<open>The similarity search never finds anything: no path of the service stores an embedding.\<close>

theorem search_always_empty:
  assumes "mem_reach L s" and "fst (search_route P token_env header c body s) = 200"
  shows "snd (search_route P token_env header c body s) = JObj [(''results'', JArr [])]"
proof -
  have "list_all (\<lambda>r. me_embedding r = None) (mm_rows s)"
    using mem_reach_ok[OF assms(1)] by (simp add: memory_ok_def table_ok_def)
  then have "searchSimilar near now ns v n (mm_rows s) = []" for near now ns v n
    by (simp add: searchSimilar_def Let_def filter_empty_conv list_all_iff)
  then show ?thesis
    using assms(2) by (auto simp: search_route_def Let_def split: option.splits json.splits if_splits)
qed

section \<open>Copies and rows\<close>

definition copy_law :: "'r mem_lib \<Rightarrow> bool" where
  "copy_law L \<longleftrightarrow>
     (\<forall>now k ttl v r r'. ml_setex L now k ttl v r = Some r' \<longrightarrow>
        (\<forall>t. now \<le> t \<and> t < now + 1000 * ttl \<longrightarrow> ml_get L t k r' = Some (Some v)) \<and>
        (\<forall>t. now + 1000 * ttl \<le> t \<longrightarrow> ml_get L t k r' = Some None) \<and>
        (\<forall>t k'. k' \<noteq> k \<longrightarrow> ml_get L t k' r' = ml_get L t k' r)) \<and>
     (\<forall>k r r'. ml_del L k r = Some r' \<longrightarrow>
        (\<forall>t. ml_get L t k r' = Some None) \<and> (\<forall>t k'. k' \<noteq> k \<longrightarrow> ml_get L t k' r' = ml_get L t k' r))"

definition given_ttl :: "mem_request \<Rightarrow> int option \<Rightarrow> int" where
  "given_ttl q ttl = (case ttl of Some t \<Rightarrow> if t = 0 then default_ttl q else t | None \<Rightarrow> default_ttl q)"

definition success :: "mem_call \<Rightarrow> json" where
  "success c = write_answer ''success'' (''rev-'' @ show_int (mc_now c))"

lemma write_success:
  "fst (mem_write L c q data ttl s) = success c \<longleftrightarrow> ml_setex L (mc_now c) (redis_key q) (given_ttl q ttl) (stringify data) (mm_redis s) \<noteq> None"
  by (auto simp: mem_write_def given_ttl_def success_def write_answer_def Let_def split: option.splits)

lemma write_redis:
  assumes "fst (mem_write L c q data ttl s) = success c"
  shows "ml_setex L (mc_now c) (redis_key q) (given_ttl q ttl) (stringify data) (mm_redis s) = Some (mm_redis (snd (mem_write L c q data ttl s)))"
  using assms unfolding write_success
  by (auto simp: mem_write_def given_ttl_def mem_audit_def Let_def split: option.splits)

lemma write_enqueues:
  assumes "fst (mem_write L c q data ttl s) = success c"
  shows "mm_wal (snd (mem_write L c q data ttl s)) = snd (enqueue (wal_op q data (given_ttl q ttl)) (mm_wal s))"
  using assms unfolding write_success
  by (auto simp: mem_write_def given_ttl_def mem_audit_def Let_def split: option.splits)

lemma read_cached:
  assumes "ml_get L (mc_now c) (redis_key q) (mm_redis s) = Some (Some raw)" and "raw \<noteq> []" and "json_parse raw = Some j" and "json_truthy (Some j)"
  shows "mem_read L c q s = (read_answer (Some j), s)"
  using assms by (simp add: mem_read_def cached_value_def truthy_def)

lemma read_uncached:
  assumes "ml_get L (mc_now c) (redis_key q) (mm_redis s) = Some None"
  shows "fst (mem_read L c q s) = read_answer (if mc_db c then map_option me_value (mem_get (mc_now c) (mq_namespace q) (mq_agent q) (mq_key q) (mm_rows s)) else None)"
  using assms by (simp add: mem_read_def cached_value_def truthy_def json_truthy_def split: option.split)

lemma json_parse_Nil: "json_parse [] = None"
  by code_simp

text \<open>What was written is read back while the copy lives, whatever becomes of the table.\<close>

theorem read_your_write:
  assumes "copy_law L" and "fst (mem_write L c q data ttl s) = success c"
    and "mc_now c \<le> mc_now c'" and "mc_now c' < mc_now c + 1000 * given_ttl q ttl"
    and "json_parse (stringify data) = Some data" and "json_truthy (Some data)"
  shows "fst (mem_read L c' q (snd (mem_write L c q data ttl s))) = read_answer (Some data)"
proof -
  have "ml_get L (mc_now c') (redis_key q) (mm_redis (snd (mem_write L c q data ttl s))) = Some (Some (stringify data))"
    using assms(1,3,4) write_redis[OF assms(2)] unfolding copy_law_def by blast
  moreover have "stringify data \<noteq> []" using assms(5) json_parse_Nil by auto
  ultimately show ?thesis using read_cached assms(5,6) by fastforce
qed

text \<open>A memory whose namespace, agent or key has a character outside the set of the service, or more than
  128, cannot be read any more once its copy is gone: its row has the sanitized name, and the table is
  searched for the original one.\<close>

theorem unsafe_names_not_durable:
  assumes "mem_reach L s" and "ml_get L (mc_now c) (redis_key q) (mm_redis s) = Some None"
    and "\<not> (safe (mq_namespace q) = mq_namespace q \<and> safe (mq_agent q) = mq_agent q \<and> safe (mq_key q) = mq_key q)"
  shows "fst (mem_read L c q s) = read_answer None"
proof -
  have "list_all (\<lambda>r. safe (me_namespace r) = me_namespace r \<and> safe (me_agent r) = me_agent r \<and> safe (me_key r) = me_key r) (mm_rows s)"
    using mem_reach_ok[OF assms(1)] by (simp add: memory_ok_def table_ok_def)
  then have "mem_get (mc_now c) (mq_namespace q) (mq_agent q) (mq_key q) (mm_rows s) = None"
    using assms(3) by (auto simp: mem_get_def find_None_iff same_key_def list_all_iff)
  then show ?thesis using read_uncached[OF assms(2)] by simp
qed

section \<open>The queue and the rows\<close>

definition idle :: "'r memory \<Rightarrow> bool" where
  "idle s \<longleftrightarrow> wq_phase (mm_wal s) = No_flush \<and> wq_queue (mm_wal s) = [] \<and> \<not> wq_disposed (mm_wal s)"

lemma enqueue_idle:
  "wq_phase w = No_flush \<Longrightarrow> wq_queue w = [] \<Longrightarrow> \<not> wq_disposed w \<Longrightarrow>
   wq_queue (snd (enqueue op w)) = [core op] \<and> wq_phase (snd (enqueue op w)) = Setting (core op) True \<and> \<not> wq_disposed (snd (enqueue op w))"
  by (simp add: enqueue_def Let_def flush_next_phase dropOldest_def)

lemma flush_only:
  assumes "wq_queue (mm_wal s) = [op]" and "wq_phase (mm_wal s) = Setting op True" and "\<not> wq_disposed (mm_wal s)" and "mc_db c"
  shows "\<exists>w. flush_step c s = Some (s\<lparr>mm_wal := w, mm_rows := wal_write c (Some op) (mm_rows s)\<rparr>) \<and>
    wq_queue w = [] \<and> wq_phase w = No_flush \<and> \<not> wq_disposed w"
  using assms
  by (intro exI[of _ "flush_next (mm_wal s\<lparr>wq_queue := []\<rparr>)"])
    (simp add: flush_step_def flush_event_def set_done_def flush_next_phase)

lemma get_set:
  assumes "1 \<le> ttl" and "t < now + 1000 * ttl"
  shows "map_option me_value (mem_get t ns agent key (mem_set uuid now ns agent key v (Some ttl) emb rows)) = Some v"
proof (cases "list_ex (same_key ns agent key) rows")
  case True
  have "map_option me_value (mem_get t ns agent key (map (\<lambda>r. if same_key ns agent key r
      then r\<lparr>me_value := v, me_embedding := coalesce emb (me_embedding r), me_expires := Some (now + ttl * 1000), me_updated := now\<rparr> else r) rows)) = Some v"
    if "list_ex (same_key ns agent key) rows"
    using that assms by (induction rows) (auto simp: mem_get_def same_key_def unexpired_def)
  from this[OF True] show ?thesis using True assms by (simp add: mem_set_def Let_def cong: if_cong)
next
  case False
  then have "find (\<lambda>r. same_key ns agent key r \<and> unexpired t r) rows = None"
    by (auto simp: find_None_iff list_ex_iff)
  with False assms show ?thesis
    by (simp add: mem_set_def Let_def mem_get_def find_append_None) (simp add: same_key_def unexpired_def)
qed

text \<open>The state after a write to an idle plane and the flush that follows it.\<close>

lemma write_then_flush:
  assumes "idle s" and "fst (mem_write L c q data ttl s) = success c" and "mc_db c1"
  shows "\<exists>s2. flush_step c1 (snd (mem_write L c q data ttl s)) = Some s2 \<and> idle s2 \<and> mm_redis s2 = mm_redis (snd (mem_write L c q data ttl s)) \<and>
    mm_rows s2 = mem_set (mc_uuid c1) (mc_now c1) (safe (mq_namespace q)) (safe (mq_agent q)) (safe (mq_key q)) data (Some (given_ttl q ttl)) None (mm_rows s)"
proof -
  let ?s1 = "snd (mem_write L c q data ttl s)" and ?op = "wal_op q data (given_ttl q ttl)"
  have "core ?op = ?op" by (simp add: wal_op_def)
  then have "wq_queue (mm_wal ?s1) = [?op] \<and> wq_phase (mm_wal ?s1) = Setting ?op True \<and> \<not> wq_disposed (mm_wal ?s1)"
    using enqueue_idle[of "mm_wal s" ?op] assms(1) write_enqueues[OF assms(2)] by (simp add: idle_def)
  then obtain w where "flush_step c1 ?s1 = Some (?s1\<lparr>mm_wal := w, mm_rows := wal_write c1 (Some ?op) (mm_rows ?s1)\<rparr>)"
      "wq_queue w = [] \<and> wq_phase w = No_flush \<and> \<not> wq_disposed w"
    using flush_only[of ?s1 ?op c1] assms(3) by blast
  then show ?thesis by (simp add: idle_def wal_write_def wal_op_def mem_write_rows)
qed

definition plain_names :: "mem_request \<Rightarrow> bool" where
  "plain_names q \<longleftrightarrow> safe (mq_namespace q) = mq_namespace q \<and> safe (mq_agent q) = mq_agent q \<and> safe (mq_key q) = mq_key q"

lemma given_ttl_pos: "(case ttl of Some t \<Rightarrow> 0 \<le> t | None \<Rightarrow> True) \<Longrightarrow> 1 \<le> given_ttl q ttl"
  by (auto simp: given_ttl_def default_ttl_def split: option.splits)

text \<open>What was written is still read when Redis has lost its copy, once the queue has written it, as long as the
  names are plain and the lifetime has not ended.\<close>

theorem durable_roundtrip:
  assumes "idle s" and "fst (mem_write L c q data ttl s) = success c" and "mc_db c1"
    and "flush_step c1 (snd (mem_write L c q data ttl s)) = Some s2"
    and "plain_names q" and "1 \<le> given_ttl q ttl" and "mc_now c2 < mc_now c1 + 1000 * given_ttl q ttl" and "mc_db c2"
    and "ml_get L (mc_now c2) (redis_key q) r = Some None"
  shows "fst (mem_read L c2 q (s2\<lparr>mm_redis := r\<rparr>)) = read_answer (Some data)"
proof -
  have "mm_rows s2 = mem_set (mc_uuid c1) (mc_now c1) (safe (mq_namespace q)) (safe (mq_agent q)) (safe (mq_key q)) data (Some (given_ttl q ttl)) None (mm_rows s)"
    using write_then_flush[OF assms(1-3)] assms(4) by auto
  then show ?thesis
    using assms(5) read_uncached[of L c2 q "s2\<lparr>mm_redis := r\<rparr>"] assms(8,9) get_set[OF assms(6,7)] by (simp add: plain_names_def)
qed

text \<open>The types of memory share one row: a later write of another type under the same key is what a read of the
  first type returns once its own copy is gone.\<close>

theorem memory_types_share_row:
  assumes "idle s" and "fst (mem_write L c q data ttl s) = success c" and "mc_db c1"
    and "flush_step c1 (snd (mem_write L c q data ttl s)) = Some s2"
    and "fst (mem_write L c3 (q\<lparr>mq_type := other\<rparr>) data' ttl' s2) = success c3" and "mc_db c4"
    and "flush_step c4 (snd (mem_write L c3 (q\<lparr>mq_type := other\<rparr>) data' ttl' s2)) = Some s4"
    and "plain_names q" and "1 \<le> given_ttl (q\<lparr>mq_type := other\<rparr>) ttl'"
    and "mc_now c5 < mc_now c4 + 1000 * given_ttl (q\<lparr>mq_type := other\<rparr>) ttl'" and "mc_db c5"
    and "ml_get L (mc_now c5) (redis_key q) (mm_redis s4) = Some None"
  shows "fst (mem_read L c5 q s4) = read_answer (Some data')"
proof -
  have "idle s2" using write_then_flush[OF assms(1-3)] assms(4) by auto
  then have "mm_rows s4 = mem_set (mc_uuid c4) (mc_now c4) (safe (mq_namespace q)) (safe (mq_agent q)) (safe (mq_key q)) data'
      (Some (given_ttl (q\<lparr>mq_type := other\<rparr>) ttl')) None (mm_rows s2)"
    using write_then_flush[OF _ assms(5,6)] assms(7) by auto
  then show ?thesis
    using assms(8) read_uncached[OF assms(12)] assms(11) get_set[OF assms(9,10)] by (simp add: plain_names_def)
qed

text \<open>A deletion is undone by a write that is still in the queue: both calls answer success, in this order,
  and the memory is read again after the flush.\<close>

theorem delete_undone_by_queue:
  assumes "idle s" and "fst (mem_write L c q data ttl s) = success c"
    and "snd (mem_delete_handler L c1 q (snd (mem_write L c q data ttl s))) = s1"
    and "fst (mem_delete_handler L c1 q (snd (mem_write L c q data ttl s))) = JObj [(''status'', JStr ''success'')]"
    and "mc_db c2" and "copy_law L" and "plain_names q" and "1 \<le> given_ttl q ttl"
    and "mc_now c3 < mc_now c2 + 1000 * given_ttl q ttl" and "mc_db c3"
  shows "\<exists>s2. flush_step c2 s1 = Some s2 \<and> fst (mem_read L c3 q s2) = read_answer (Some data)"
proof -
  let ?w = "snd (mem_write L c q data ttl s)" and ?op = "wal_op q data (given_ttl q ttl)"
  obtain r where r: "ml_del L (redis_key q) (mm_redis ?w) = Some r"
    using assms(4) by (auto simp: mem_delete_handler_def split: option.splits)
  then have s1: "mm_redis s1 = r" "mm_wal s1 = mm_wal ?w"
    using assms(3) by (auto simp: mem_delete_handler_def mem_audit_def)
  have "core ?op = ?op" by (simp add: wal_op_def)
  then have "wq_queue (mm_wal s1) = [?op]" "wq_phase (mm_wal s1) = Setting ?op True" "\<not> wq_disposed (mm_wal s1)"
    using enqueue_idle[of "mm_wal s" ?op] assms(1) write_enqueues[OF assms(2)] by (simp_all add: idle_def s1)
  then obtain w where f: "flush_step c2 s1 = Some (s1\<lparr>mm_wal := w, mm_rows := wal_write c2 (Some ?op) (mm_rows s1)\<rparr>)"
    using flush_only assms(5) by blast
  have "ml_get L (mc_now c3) (redis_key q) r = Some None" using assms(6) r unfolding copy_law_def by blast
  then have "fst (mem_read L c3 q (s1\<lparr>mm_wal := w, mm_rows := wal_write c2 (Some ?op) (mm_rows s1)\<rparr>)) = read_answer (Some data)"
    using assms(7) read_uncached[of L c3 q "s1\<lparr>mm_wal := w, mm_rows := wal_write c2 (Some ?op) (mm_rows s1)\<rparr>"] assms(10) get_set[OF assms(8,9)]
    by (simp add: plain_names_def wal_write_def wal_op_def s1)
  with f show ?thesis by blast
qed

text \<open>The cleanup of expired rows changes no later read.\<close>

lemma cleanup_get: "now \<le> t \<Longrightarrow> mem_get t ns agent key (snd (clearExpired now rows)) = mem_get t ns agent key rows"
  by (induction rows) (auto simp: mem_get_def clearExpired_def Let_def unexpired_def split: option.splits)

text \<open>The periodic cleanup is invisible: later reads and lists of the table are the same.\<close>

theorem memory_cleanup_invisible:
  assumes "now \<le> t"
  shows "mem_get t ns agent key (snd (clearExpired now rows)) = mem_get t ns agent key rows \<and>
    mem_list t ns agent limit offset (snd (clearExpired now rows)) = mem_list t ns agent limit offset rows"
proof -
  have "filter (\<lambda>r. me_namespace r = ns \<and> me_agent r = agent \<and> unexpired t r) (snd (clearExpired now rows)) =
      filter (\<lambda>r. me_namespace r = ns \<and> me_agent r = agent \<and> unexpired t r) rows"
    using assms by (auto simp: clearExpired_def Let_def unexpired_def intro!: filter_cong split: option.splits)
  then show ?thesis using cleanup_get[OF assms] by (simp add: mem_list_def)
qed

section \<open>Examples\<close>

type_synonym copies = "(string \<times> string \<times> int) list"

definition demo_memory_lib :: "copies mem_lib" where
  "demo_memory_lib = \<lparr>ml_get = (\<lambda>now k r. Some (case map_of r k of Some (v, t) \<Rightarrow> if now < t then Some v else None | None \<Rightarrow> None)),
     ml_setex = (\<lambda>now k ttl v r. Some ((k, v, now + 1000 * ttl) # r)), ml_del = (\<lambda>k r. Some (filter (\<lambda>e. fst e \<noteq> k) r)),
     ml_scan = (\<lambda>now p r. Some (filter (prefix (butlast p)) (map fst r))), ml_sha256 = Cons (CHR ''h''), ml_env = (\<lambda>_. None)\<rparr>"

lemma map_of_filtered: "map_of (filter (\<lambda>e. fst e \<noteq> k) r) k' = (if k' = k then None else map_of r k')"
  by (induction r) auto

lemma demo_copy_law: "copy_law demo_memory_lib"
  by (auto simp: copy_law_def demo_memory_lib_def map_of_filtered)

definition tick :: "int \<Rightarrow> mem_call" where
  "tick now = \<lparr>mc_now = now, mc_db = True, mc_uuid = ''u'', mc_stamp = ''t'', mc_event = ''e''\<rparr>"

definition demo_memory :: "copies memory" where "demo_memory = fresh_memory None None None []"

definition memo :: mem_request where
  "memo = \<lparr>mq_agent = ''a'', mq_namespace = ''ns'', mq_type = ''working'', mq_key = ''k''\<rparr>"

definition note_data :: json where "note_data = JObj [(''v'', JBool True)]"

lemma demo_idle: "idle demo_memory"
  by (simp add: idle_def demo_memory_def fresh_memory_def wal_new_def)

lemma demo_writes: "fst (mem_write demo_memory_lib (tick n) q data ttl s) = success (tick n)"
  by (simp add: write_success) (simp add: demo_memory_lib_def)

lemma note_parses: "json_parse (stringify note_data) = Some note_data" "json_truthy (Some note_data)"
  by code_simp+

lemma note_plain: "plain_names memo" "plain_names (memo\<lparr>mq_type := ty\<rparr>)" by (unfold plain_names_def memo_def) (simp_all, code_simp+)

lemma note_ttl: "given_ttl memo None = 300" "given_ttl (memo\<lparr>mq_type := ''session''\<rparr>) None = 86400"
  by (simp_all add: given_ttl_def default_ttl_def memo_def)

lemma tick_simps [simp]: "mc_now (tick n) = n" "mc_db (tick n)"
  by (simp_all add: tick_def)

theorem memory_table_ok_witness: "table_ok (mm_rows demo_memory)"
  by (rule memory_table_ok[of demo_memory_lib]) (simp add: demo_memory_def mem_reach.Fresh)

theorem read_your_write_witness:
  "fst (mem_read demo_memory_lib (tick 200000) memo (snd (mem_write demo_memory_lib (tick 0) memo note_data None demo_memory))) =
     read_answer (Some note_data)"
  by (rule read_your_write[OF demo_copy_law demo_writes]) (simp_all add: note_ttl note_parses)

definition odd_note :: mem_request where "odd_note = memo\<lparr>mq_key := ''user name''\<rparr>"

theorem unsafe_names_not_durable_witness:
  "fst (mem_read demo_memory_lib (tick 0) odd_note demo_memory) = read_answer None"
proof (rule unsafe_names_not_durable)
  show "mem_reach demo_memory_lib demo_memory" by (simp add: demo_memory_def mem_reach.Fresh)
  show "ml_get demo_memory_lib (mc_now (tick 0)) (redis_key odd_note) (mm_redis demo_memory) = Some None"
    by (simp add: demo_memory_lib_def demo_memory_def fresh_memory_def)
  have "safe (mq_key odd_note) \<noteq> mq_key odd_note" by code_simp
  then show "\<not> (safe (mq_namespace odd_note) = mq_namespace odd_note \<and> safe (mq_agent odd_note) = mq_agent odd_note \<and> safe (mq_key odd_note) = mq_key odd_note)"
    by blast
qed

theorem durable_roundtrip_witness:
  "\<exists>s2. flush_step (tick 5) (snd (mem_write demo_memory_lib (tick 0) memo note_data None demo_memory)) = Some s2 \<and>
     fst (mem_read demo_memory_lib (tick 200000) memo (s2\<lparr>mm_redis := []\<rparr>)) = read_answer (Some note_data)"
proof -
  obtain s2 where f: "flush_step (tick 5) (snd (mem_write demo_memory_lib (tick 0) memo note_data None demo_memory)) = Some s2"
    using write_then_flush[OF demo_idle demo_writes[of 0 memo note_data None] tick_simps(2)[of 5]] by blast
  have "ml_get demo_memory_lib (mc_now (tick 200000)) (redis_key memo) [] = Some None" by (simp add: demo_memory_lib_def)
  from durable_roundtrip[OF demo_idle demo_writes _ f note_plain(1) _ _ _ this] f show ?thesis by (simp add: note_ttl)
qed

theorem memory_types_share_row_witness:
  "\<exists>s2 s4. flush_step (tick 5) (snd (mem_write demo_memory_lib (tick 0) memo note_data None demo_memory)) = Some s2 \<and>
     flush_step (tick 7) (snd (mem_write demo_memory_lib (tick 6) (memo\<lparr>mq_type := ''session''\<rparr>) (JObj [(''w'', JNull)]) None s2)) = Some s4 \<and>
     fst (mem_read demo_memory_lib (tick 400000) memo s4) = read_answer (Some (JObj [(''w'', JNull)]))"
proof -
  let ?n = "memo\<lparr>mq_type := ''session''\<rparr>" and ?w = "JObj [(''w'', JNull)]"
  obtain s2 where f: "flush_step (tick 5) (snd (mem_write demo_memory_lib (tick 0) memo note_data None demo_memory)) = Some s2"
    and s2: "idle s2" "mm_redis s2 = mm_redis (snd (mem_write demo_memory_lib (tick 0) memo note_data None demo_memory))"
    using write_then_flush[OF demo_idle demo_writes[of 0 memo note_data None] tick_simps(2)[of 5]] by blast
  obtain s4 where g: "flush_step (tick 7) (snd (mem_write demo_memory_lib (tick 6) ?n ?w None s2)) = Some s4"
    and s4: "mm_redis s4 = mm_redis (snd (mem_write demo_memory_lib (tick 6) ?n ?w None s2))"
    using write_then_flush[OF s2(1) demo_writes[of 6 ?n ?w None] tick_simps(2)[of 7]] by blast
  have other: "redis_key memo \<noteq> redis_key ?n" by code_simp
  have "ml_get demo_memory_lib 400000 (redis_key memo) (mm_redis s2) = Some None"
    using demo_copy_law write_redis[OF demo_writes[of 0 memo note_data None demo_memory]] unfolding copy_law_def s2(2) by (simp add: note_ttl)
  then have "ml_get demo_memory_lib 400000 (redis_key memo) (mm_redis s4) = Some None"
    using demo_copy_law write_redis[OF demo_writes[of 6 ?n ?w None s2]] other unfolding copy_law_def s4 by metis
  then show ?thesis
    using memory_types_share_row[OF demo_idle demo_writes _ f demo_writes _ g note_plain(1), of "tick 400000"] f g by (simp add: note_ttl)
qed

theorem delete_undone_by_queue_witness:
  "\<exists>s1 s2. snd (mem_delete_handler demo_memory_lib (tick 1) memo (snd (mem_write demo_memory_lib (tick 0) memo note_data None demo_memory))) = s1 \<and>
     flush_step (tick 2) s1 = Some s2 \<and> fst (mem_read demo_memory_lib (tick 9) memo s2) = read_answer (Some note_data)"
proof -
  have "fst (mem_delete_handler demo_memory_lib (tick 1) memo (snd (mem_write demo_memory_lib (tick 0) memo note_data None demo_memory))) =
      JObj [(''status'', JStr ''success'')]"
    by (simp add: mem_delete_handler_def demo_memory_lib_def)
  from delete_undone_by_queue[OF demo_idle demo_writes refl this _ demo_copy_law note_plain(1), of "tick 2" "tick 9"]
  show ?thesis by (auto simp: note_ttl)
qed

definition demo_pg :: pg_params where
  "demo_pg = \<lparr>pp_vec = (\<lambda>_. Some []), pp_limit = (\<lambda>_. Some 10), pp_text = (\<lambda>_. ''ns''), pp_near = (\<lambda>_ _. 0)\<rparr>"

definition search_body :: string where
  "search_body = stringify (JObj [(''namespace'', JStr ''ns''), (''embedding'', JArr [JNum (Num 1)])])"

theorem search_always_empty_witness:
  "search_route demo_pg None None (tick 0) search_body demo_memory = (200, JObj [(''results'', JArr [])])"
proof -
  have r: "mem_reach demo_memory_lib demo_memory" by (simp add: demo_memory_def mem_reach.Fresh)
  have "fst (search_route demo_pg None None (tick 0) search_body demo_memory) = 200" by code_simp
  then show ?thesis using search_always_empty[OF r] by (metis prod.collapse)
qed

theorem memory_cleanup_invisible_witness:
  "mem_get 5 ''ns'' ''a'' ''k'' (snd (clearExpired 4 (mem_set ''u'' 0 ''ns'' ''a'' ''k'' JNull None None []))) \<noteq> None"
proof -
  have "mem_get 5 ''ns'' ''a'' ''k'' (mem_set ''u'' 0 ''ns'' ''a'' ''k'' JNull None None []) \<noteq> None" by code_simp
  then show ?thesis using memory_cleanup_invisible[of 4 5] by simp
qed

end
