(* ===== verification/JsonRoundtrip.thy ===== *)
theory JsonRoundtrip
  imports Json
begin

text \<open>
  \<open>JSON.parse\<close> inverts \<open>JSON.stringify\<close> on the values that a program can have parsed: objects with distinct
  keys in the language's order, and numbers whose text reads back.
\<close>

section \<open>Strings\<close>

lemma hex_val_char: "n < 16 \<Longrightarrow> hex_val (hex_char n) = Some n"
  by (auto simp: hex_val_def hex_char_def Let_def)

lemma of_char_less_32_split: "(of_char c :: nat) < 32 \<Longrightarrow> of_char c div 16 < (2::nat) \<and> of_char c mod 16 < (16::nat)"
  by simp

lemma parse_escaped:
  "parse_string (escape_char c @ r) = map_option (\<lambda>(s, r'). (c # s, r')) (parse_string r)"
proof -
  let ?n = "of_char c :: nat"
  consider "c \<in> {CHR 0x22, CHR 0x5C, CHR 0x08, CHR 0x0C, CHR 0x0A, CHR 0x0D, CHR 0x09}"
    | "c \<notin> {CHR 0x22, CHR 0x5C, CHR 0x08, CHR 0x0C, CHR 0x0A, CHR 0x0D, CHR 0x09}" "?n < 32"
    | "c \<notin> {CHR 0x22, CHR 0x5C, CHR 0x08, CHR 0x0C, CHR 0x0A, CHR 0x0D, CHR 0x09}" "\<not> ?n < 32" by blast
  then show ?thesis
  proof cases
    case 1
    then show ?thesis by (auto simp: escape_char_def unescape_def)
  next
    case 2
    have "char_of (16 * (?n div 16) + ?n mod 16) = c" by (simp only: mult_div_mod_eq char_of_char)
    moreover have "hex_val (hex_char (?n div 16)) = Some (?n div 16)" "hex_val (hex_char (?n mod 16)) = Some (?n mod 16)"
      using 2(2) by (auto intro!: hex_val_char)
    moreover have "hex_val (CHR ''0'') = Some 0" by (simp add: hex_val_def)
    ultimately show ?thesis using 2 by (simp add: escape_char_def)
  next
    case 3
    then show ?thesis by (simp add: escape_char_def)
  qed
qed

lemma parse_quoted: "parse_string (concat (map escape_char s) @ CHR 0x22 # r) = Some (s, r)"
proof (induction s)
  case (Cons c s)
  have "parse_string (concat (map escape_char (c # s)) @ CHR 0x22 # r) =
      parse_string (escape_char c @ (concat (map escape_char s) @ CHR 0x22 # r))"
    by (simp del: parse_string.simps)
  also have "\<dots> = Some (c # s, r)" unfolding parse_escaped Cons.IH by simp
  finally show ?case .
qed simp

section \<open>Numbers\<close>

definition delim :: "string \<Rightarrow> bool" where
  "delim r \<longleftrightarrow> r = [] \<or> hd r \<in> {CHR '','', CHR '']'', CHR ''}''}"

lemma span_delim:
  assumes "delim r"
  shows "takeWhile is_digit (xs @ r) = takeWhile is_digit xs" "dropWhile is_digit (xs @ r) = dropWhile is_digit xs @ r"
proof -
  have "\<not> is_digit (CHR '','')" "\<not> is_digit (CHR '']'')" "\<not> is_digit (CHR ''}'')" by code_simp+
  then have "r = [] \<or> \<not> is_digit (hd r)" using assms by (auto simp: delim_def)
  then show "takeWhile is_digit (xs @ r) = takeWhile is_digit xs" "dropWhile is_digit (xs @ r) = dropWhile is_digit xs @ r"
    by (induction xs; cases r; auto)+
qed

definition lex_sign :: "string \<Rightarrow> string \<times> string" where
  "lex_sign s = (case s of c # cs \<Rightarrow> if c = CHR ''-'' then ([c], cs) else ([], s) | [] \<Rightarrow> ([], []))"

definition lex_fraction :: "string \<Rightarrow> string \<times> string" where
  "lex_fraction r1 = (case r1 of c # cs \<Rightarrow>
     if c = CHR ''.'' \<and> takeWhile is_digit cs \<noteq> [] then (c # takeWhile is_digit cs, dropWhile is_digit cs)
     else ([], r1) | [] \<Rightarrow> ([], []))"

definition lex_esign :: "string \<Rightarrow> string \<times> string" where
  "lex_esign cs = (case cs of d # ds \<Rightarrow> if d \<in> {CHR ''+'', CHR ''-''} then ([d], ds) else ([], cs) | [] \<Rightarrow> ([], []))"

definition lex_exponent :: "string \<Rightarrow> string \<times> string" where
  "lex_exponent r2 = (case r2 of c # cs \<Rightarrow>
     if c \<in> {CHR ''e'', CHR ''E''} then
       (let (es, r) = lex_esign cs
        in if takeWhile is_digit r \<noteq> [] then (c # es @ takeWhile is_digit r, dropWhile is_digit r) else ([], r2))
     else ([], r2) | [] \<Rightarrow> ([], []))"

lemma number_lexeme_parts:
  "number_lexeme s =
     (let (sg, r0) = lex_sign s; ip = takeWhile is_digit r0; (fr, r2) = lex_fraction (dropWhile is_digit r0); (ex, r3) = lex_exponent r2
      in if ip = [] \<or> (hd ip = CHR ''0'' \<and> length ip > 1) then ([], s) else (sg @ ip @ fr @ ex, r3))"
  unfolding number_lexeme_def lex_sign_def lex_fraction_def lex_exponent_def lex_esign_def Let_def by (rule refl)

lemma lex_empty:
  assumes "delim r"
  shows "lex_sign r = ([], r)" "lex_fraction r = ([], r)" "lex_esign r = ([], r)" "lex_exponent r = ([], r)"
  using assms by (cases r; simp add: delim_def lex_sign_def lex_fraction_def lex_esign_def lex_exponent_def; elim disjE; simp)+

lemma lex_append:
  assumes "delim r"
  shows "lex_sign (s @ r) = (case lex_sign s of (a, b) \<Rightarrow> (a, b @ r))"
    and "lex_fraction (s @ r) = (case lex_fraction s of (a, b) \<Rightarrow> (a, b @ r))"
    and "lex_esign (s @ r) = (case lex_esign s of (a, b) \<Rightarrow> (a, b @ r))"
proof -
  have empty: "lex_sign [] = ([], [])" "lex_fraction [] = ([], [])" "lex_esign [] = ([], [])"
    by (simp_all add: lex_sign_def lex_fraction_def lex_esign_def)
  show "lex_sign (s @ r) = (case lex_sign s of (a, b) \<Rightarrow> (a, b @ r))"
    by (cases s) (simp_all add: lex_empty[OF assms] empty, simp add: lex_sign_def)
  show "lex_fraction (s @ r) = (case lex_fraction s of (a, b) \<Rightarrow> (a, b @ r))"
    by (cases s) (simp_all add: lex_empty[OF assms] empty, simp add: lex_fraction_def span_delim[OF assms])
  show "lex_esign (s @ r) = (case lex_esign s of (a, b) \<Rightarrow> (a, b @ r))"
    by (cases s) (simp_all add: lex_empty[OF assms] empty, simp add: lex_esign_def)
qed

lemma lex_exponent_append:
  assumes "delim r"
  shows "lex_exponent (s @ r) = (case lex_exponent s of (a, b) \<Rightarrow> (a, b @ r))"
proof (cases s)
  case Nil
  have "lex_exponent [] = ([], [])" by (simp add: lex_exponent_def)
  then show ?thesis by (simp add: Nil lex_empty[OF assms])
next
  case (Cons c cs)
  obtain es t where e: "lex_esign cs = (es, t)" by fastforce
  then have "lex_esign (cs @ r) = (es, t @ r)" by (simp add: lex_append[OF assms])
  with e show ?thesis by (simp add: Cons lex_exponent_def Let_def span_delim[OF assms])
qed

lemma number_lexeme_append:
  assumes "delim r" and "number_lexeme s = (s, [])" and "s \<noteq> []"
  shows "number_lexeme (s @ r) = (s, r)"
proof -
  obtain sg r0 where sg: "lex_sign s = (sg, r0)" by fastforce
  obtain fr r2 where fr: "lex_fraction (dropWhile is_digit r0) = (fr, r2)" by fastforce
  obtain ex r3 where ex: "lex_exponent r2 = (ex, r3)" by fastforce
  let ?ip = "takeWhile is_digit r0"
  have good: "\<not> (?ip = [] \<or> (hd ?ip = CHR ''0'' \<and> length ?ip > 1))" and all: "sg @ ?ip @ fr @ ex = s" "r3 = []"
    using assms(2,3) by (auto simp: number_lexeme_parts sg fr ex Let_def split: if_splits)
  have "lex_sign (s @ r) = (sg, r0 @ r)" "lex_fraction (dropWhile is_digit r0 @ r) = (fr, r2 @ r)" "lex_exponent (r2 @ r) = (ex, r3 @ r)"
    by (simp_all add: lex_append[OF assms(1)] lex_exponent_append[OF assms(1)] sg fr ex)
  then show ?thesis using good all by (auto simp: number_lexeme_parts span_delim[OF assms(1)] Let_def)
qed

definition readable :: "num \<Rightarrow> bool" where
  "readable n \<longleftrightarrow> (case n of Num x \<Rightarrow> number_lexeme (num_text n) = (num_text n, []) \<and> parse_float (num_text n) = n \<and>
     num_text n \<noteq> [] \<and> (is_digit (hd (num_text n)) \<or> hd (num_text n) = CHR ''-'') | _ \<Rightarrow> False)"

lemma parse_readable:
  assumes "readable n" and "delim r"
  shows "parse_value (Suc k) (stringify (JNum n) @ r) = Some (JNum n, r)"
proof -
  let ?t = "num_text n"
  obtain x where n: "n = Num x" using assms(1) by (cases n) (simp_all add: readable_def)
  have t: "number_lexeme ?t = (?t, [])" "parse_float ?t = n" "?t \<noteq> []" "is_digit (hd ?t) \<or> hd ?t = CHR ''-''"
    using assms(1) by (simp_all add: readable_def n)
  then obtain c cs where c: "?t = c # cs" "is_digit c \<or> c = CHR ''-''" by (cases ?t) auto
  have "\<not> is_digit d \<and> d \<noteq> CHR ''-''" if "d \<in> {CHR 0x22, CHR ''['', CHR ''{'', CHR ''n'', CHR ''t'', CHR ''f'', CHR '' '', CHR 0x09, CHR 0x0A, CHR 0x0D}" for d
    using that by (elim insertE; simp add: is_digit_def)
  then have special: "c \<noteq> CHR 0x22" "c \<noteq> CHR ''[''" "c \<noteq> CHR ''{''" "c \<noteq> CHR ''n''" "c \<noteq> CHR ''t''" "c \<noteq> CHR ''f''" "\<not> json_ws c"
    using c(2) unfolding json_ws_def by blast+
  have "parse_number (?t @ r) = Some (JNum n, r)"
    using number_lexeme_append[OF assms(2) t(1,3)] t(2,3) by (simp add: parse_number_def)
  moreover have "stringify (JNum n) = ?t" by (simp add: n)
  ultimately show ?thesis using special by (simp add: c)
qed

section \<open>Values\<close>

fun clean :: "json \<Rightarrow> bool" where
  "clean (JNum n) = readable n"
| "clean (JArr xs) = list_all clean xs"
| "clean (JObj ps) = (list_all (\<lambda>p. clean (snd p)) ps \<and> distinct (map fst ps) \<and> own_order ps = ps)"
| "clean j = True"

lemma fold_js_set:
  "distinct (map fst ps) \<Longrightarrow> foldl (\<lambda>m (k, v). js_set k v m) [] ps = ps"
proof -
  have "distinct (map fst (qs @ ps)) \<Longrightarrow> foldl (\<lambda>m (k, v). js_set k v m) qs ps = qs @ ps" for qs
  proof (induction ps arbitrary: qs)
    case (Cons p ps)
    obtain k v where p: "p = (k, v)" by fastforce
    have "k \<notin> fst ` set qs" using Cons.prems by (auto simp: p)
    then have "js_set k v qs = qs @ [(k, v)]" by (induction qs) auto
    then show ?case using Cons.IH[of "qs @ [(k, v)]"] Cons.prems by (simp add: p)
  qed simp
  from this[of "[]"] show "distinct (map fst ps) \<Longrightarrow> foldl (\<lambda>m (k, v). js_set k v m) [] ps = ps" by simp
qed

definition reads_back :: "json \<Rightarrow> bool" where
  "reads_back j \<longleftrightarrow> (\<forall>n r. 2 * length (stringify j) + 1 \<le> n \<longrightarrow> delim r \<longrightarrow> parse_value n (stringify j @ r) = Some (j, r))"

lemma reads_backD: "reads_back j \<Longrightarrow> 2 * length (stringify j) + 1 \<le> n \<Longrightarrow> delim r \<Longrightarrow> parse_value n (stringify j @ r) = Some (j, r)"
  by (simp add: reads_back_def)

lemma first_char: "clean j \<Longrightarrow> \<exists>c cs. stringify j = c # cs \<and> \<not> json_ws c \<and> c \<noteq> CHR '']''"
proof (cases j)
  case (JNum n)
  assume "clean j"
  then have n: "num_text n \<noteq> []" "is_digit (hd (num_text n)) \<or> hd (num_text n) = CHR ''-''" "stringify j = num_text n"
    by (cases n; simp add: JNum readable_def)+
  have "\<not> is_digit d \<and> d \<noteq> CHR ''-''" if "d \<in> {CHR '']'', CHR '' '', CHR 0x09, CHR 0x0A, CHR 0x0D}" for d
    using that by (elim insertE; simp add: is_digit_def)
  then have "\<not> json_ws (hd (num_text n)) \<and> hd (num_text n) \<noteq> CHR '']''" using n(2) unfolding json_ws_def by blast
  then show ?thesis using n by (cases "num_text n") auto
qed (auto simp: json_ws_def quote_def)

lemma delim_simps [simp]: "delim []" "delim (CHR '','' # r)" "delim (CHR '']'' # r)" "delim (CHR ''}'' # r)"
  by (simp_all add: delim_def)

lemma json_ws_delims [simp]: "\<not> json_ws (CHR '','')" "\<not> json_ws (CHR '']'')" "\<not> json_ws (CHR ''}'')" "\<not> json_ws (CHR '':'')" "\<not> json_ws (CHR 0x22)"
  by (simp_all add: json_ws_def)

lemma items_read:
  assumes "xs \<noteq> []" and "\<forall>x\<in>set xs. reads_back x" and "2 * length (commas (map stringify xs)) + 2 \<le> n"
  shows "parse_items n (commas (map stringify xs) @ CHR '']'' # r) = Some (xs, r)"
  using assms
proof (induction xs arbitrary: n)
  case (Cons x xs)
  obtain m where n: "n = Suc m" using Cons.prems(3) by (cases n) auto
  show ?case
  proof (cases xs)
    case Nil
    have "parse_value m (stringify x @ CHR '']'' # r) = Some (x, CHR '']'' # r)"
      using Cons.prems n Nil by (intro reads_backD) auto
    then show ?thesis by (simp add: n Nil)
  next
    case (Cons y ys)
    let ?T = "commas (map stringify xs)"
    have T: "commas (map stringify (x # xs)) = stringify x @ CHR '','' # ?T" by (simp add: Cons)
    have "parse_value m (stringify x @ CHR '','' # (?T @ CHR '']'' # r)) = Some (x, CHR '','' # (?T @ CHR '']'' # r))"
      using Cons.prems n T by (intro reads_backD) auto
    moreover have "parse_items m (?T @ CHR '']'' # r) = Some (xs, r)"
      using Cons.prems n T Cons by (intro Cons.IH) auto
    ultimately show ?thesis unfolding T by (simp add: n)
  qed
qed simp

abbreviation member_text :: "string \<times> json \<Rightarrow> string" where
  "member_text \<equiv> \<lambda>(k, v). quote k @ '':'' @ stringify v"

lemma members_read:
  assumes "ps \<noteq> []" and "\<forall>p\<in>set ps. reads_back (snd p)" and "2 * length (commas (map member_text ps)) + 2 \<le> n"
  shows "parse_members n (commas (map member_text ps) @ CHR ''}'' # r) = Some (ps, r)"
  using assms
proof (induction ps arbitrary: n)
  case (Cons p ps)
  obtain m where n: "n = Suc m" using Cons.prems(3) by (cases n) auto
  obtain k v where p: "p = (k, v)" by fastforce
  have head: "parse_members (Suc m) (member_text (k, v) @ s) =
      (case parse_value m (stringify v @ s) of
         None \<Rightarrow> None
       | Some (v, r') \<Rightarrow>
           (case dropWhile json_ws r' of
              e # es \<Rightarrow> if e = CHR ''}'' then Some ([(k, v)], es)
                        else if e = CHR '','' then map_option (\<lambda>(ps, r''). ((k, v) # ps, r'')) (parse_members m es) else None
            | [] \<Rightarrow> None))" for s
    by (simp add: quote_def parse_quoted)
  show ?case
  proof (cases ps)
    case Nil
    have "parse_value m (stringify v @ CHR ''}'' # r) = Some (v, CHR ''}'' # r)"
      using Cons.prems n Nil p by (intro reads_backD) auto
    then show ?thesis using head[of "CHR ''}'' # r"] by (simp add: n Nil p)
  next
    case (Cons y ys)
    let ?T = "commas (map member_text ps)"
    have T: "commas (map member_text (p # ps)) = member_text (k, v) @ CHR '','' # ?T" by (simp add: Cons p)
    have "parse_value m (stringify v @ CHR '','' # (?T @ CHR ''}'' # r)) = Some (v, CHR '','' # (?T @ CHR ''}'' # r))"
      using Cons.prems n T p by (intro reads_backD) auto
    moreover have "parse_members m (?T @ CHR ''}'' # r) = Some (ps, r)"
      using Cons.prems n T Cons by (intro Cons.IH) auto
    ultimately show ?thesis using head[of "CHR '','' # (?T @ CHR ''}'' # r)"] unfolding T by (simp add: n p)
  qed
qed simp

lemma literal:
  assumes "1 \<le> n"
  shows "parse_value n (''null'' @ r) = Some (JNull, r)" "parse_value n (''true'' @ r) = Some (JBool True, r)"
    "parse_value n (''false'' @ r) = Some (JBool False, r)"
  using assms by (cases n; simp add: json_ws_def)+

lemma clean_reads_back: "clean j \<Longrightarrow> reads_back j"
proof (induction j)
  case (JNum n)
  then show ?case using parse_readable by (fastforce simp: reads_back_def elim: le_SucE dest!: Suc_le_D)
next
  case (JStr s)
  show ?case unfolding reads_back_def
  proof (intro allI impI)
    fix n r assume "2 * length (stringify (JStr s)) + 1 \<le> n"
    then obtain m where n: "n = Suc m" by (cases n) auto
    show "parse_value n (stringify (JStr s) @ r) = Some (JStr s, r)"
      by (simp add: n quote_def parse_quoted)
  qed
next
  case (JArr xs)
  show ?case unfolding reads_back_def
  proof (intro allI impI)
    fix n r assume big: "2 * length (stringify (JArr xs)) + 1 \<le> n"
    then obtain m where n: "n = Suc m" by (cases n) auto
    show "parse_value n (stringify (JArr xs) @ r) = Some (JArr xs, r)"
    proof (cases xs)
      case Nil
      then show ?thesis by (simp add: n json_ws_def)
    next
      case (Cons x ys)
      let ?T = "commas (map stringify xs)"
      obtain c cs where "stringify x = c # cs" "\<not> json_ws c" "c \<noteq> CHR '']''"
        using first_char[of x] JArr.prems Cons by auto
      then obtain cs' where T: "?T = c # cs'" "\<not> json_ws c" "c \<noteq> CHR '']''" using Cons by (cases ys) auto
      have "parse_items m (?T @ CHR '']'' # r) = Some (xs, r)"
        using JArr Cons big n by (intro items_read) (auto simp: list_all_iff)
      then show ?thesis using T by (simp add: n json_ws_def[of "CHR ''[''"])
    qed
  qed
next
  case (JObj ps)
  have all: "\<forall>p\<in>set ps. reads_back (snd p)"
  proof
    fix p assume "p \<in> set ps"
    moreover have "snd p \<in> Basic_BNFs.snds p" by (cases p) simp
    ultimately show "reads_back (snd p)" using JObj.IH JObj.prems by (auto simp: list_all_iff)
  qed
  show ?case unfolding reads_back_def
  proof (intro allI impI)
    fix n r assume big: "2 * length (stringify (JObj ps)) + 1 \<le> n"
    then obtain m where n: "n = Suc m" by (cases n) auto
    show "parse_value n (stringify (JObj ps) @ r) = Some (JObj ps, r)"
    proof (cases ps)
      case Nil
      then show ?thesis by (simp add: n json_ws_def)
    next
      case (Cons p qs)
      let ?T = "commas (map member_text ps)"
      obtain cs' where T: "?T = CHR 0x22 # cs'" using Cons by (cases qs; cases p) (auto simp: quote_def)
      have "parse_members m (?T @ CHR ''}'' # r) = Some (ps, r)"
        using all Cons big n by (intro members_read) auto
      moreover have "own_order (foldl (\<lambda>m (k, v). js_set k v m) [] ps) = ps"
        using JObj.prems fold_js_set[of ps] by simp
      ultimately show ?thesis using T by (simp add: n json_ws_def[of "CHR ''{''"])
    qed
  qed
qed (use literal in \<open>auto simp: reads_back_def\<close>)

text \<open>The round trip.\<close>

lemma parse_stringify:
  assumes "clean j"
  shows "json_parse (stringify j) = Some j"
  using reads_backD[OF clean_reads_back[OF assms], of "2 * length (stringify j) + 2" "[]"]
  by (simp add: json_parse_def)

end
