(* ===== verification/SecretStore.thy ===== *)
theory SecretStore
  imports Crypto AuditChain Budget JsonRoundtrip
begin

text \<open>
  The secret store: the table of \<open>control-plane/secret-store/src/repository.ts\<close> and the handlers of
  \<open>control-plane/secret-store/src/index.ts\<close>, over the encryption of \<open>Crypto\<close>. The random salt and nonce, the
  clock and whether the database answers are arguments of a call.
\<close>

section \<open>The table\<close>

record secret_row =
  sx_id :: string
  sx_namespace :: string
  sx_name :: string
  sx_encrypted :: string
  sx_type :: string
  sx_created :: int
  sx_updated :: int

definition secret_key :: "string \<Rightarrow> string \<Rightarrow> secret_row \<Rightarrow> bool" where
  "secret_key ns name r \<longleftrightarrow> sx_namespace r = ns \<and> sx_name r = name"

definition secret_upsert :: "string \<Rightarrow> int \<Rightarrow> string \<Rightarrow> string \<Rightarrow> string \<Rightarrow> string \<Rightarrow> secret_row list \<Rightarrow> secret_row list" where
  "secret_upsert uuid now ns name encryptedData ty rows =
     (if list_ex (secret_key ns name) rows
      then map (\<lambda>r. if secret_key ns name r then r\<lparr>sx_encrypted := encryptedData, sx_type := ty, sx_updated := now\<rparr> else r) rows
      else rows @ [\<lparr>sx_id = uuid, sx_namespace = ns, sx_name = name, sx_encrypted = encryptedData, sx_type = ty,
                    sx_created = now, sx_updated = now\<rparr>])"

definition secret_get :: "string \<Rightarrow> string \<Rightarrow> secret_row list \<Rightarrow> secret_row option" where
  "secret_get ns name rows = find (secret_key ns name) rows"

definition secret_delete :: "string \<Rightarrow> string \<Rightarrow> secret_row list \<Rightarrow> bool \<times> secret_row list" where
  "secret_delete ns name rows = (list_ex (secret_key ns name) rows, filter (\<lambda>r. \<not> secret_key ns name r) rows)"

definition secret_list :: "string \<Rightarrow> secret_row list \<Rightarrow> string list" where
  "secret_list ns rows = sort (map sx_name (filter (\<lambda>r. sx_namespace r = ns) rows))"

section \<open>The master key and the stored text\<close>

text \<open>The check when the service starts; without a key it ends.\<close>

definition master_key :: "string option \<Rightarrow> string option" where
  "master_key v =
     (if \<not> truthy v then None
      else if the v = ''default'' \<or> the v = ''dev-key-do-not-use-in-production'' \<or> length (the v) < 32 then None else v)"

definition payload_json :: "encrypted_payload \<Rightarrow> json" where
  "payload_json p = JObj
     [(''version'', JNum (num_of_int 2)), (''algorithm'', JStr ''aes-256-gcm''),
      (''kdf'', JObj [(''name'', JStr (ep_kdf_name p)), (''memoryCost'', JNum (num_of_int (ep_memoryCost p))),
         (''timeCost'', JNum (num_of_int (ep_timeCost p))), (''parallelism'', JNum (num_of_int (ep_parallelism p)))]),
      (''salt'', JStr (ep_salt p)), (''iv'', JStr (ep_iv p)), (''tag'', JStr (ep_tag p)), (''ciphertext'', JStr (ep_ciphertext p)),
      (''keyId'', JStr (ep_keyId p)), (''createdAt'', JStr (ep_createdAt p))]"

definition text_of :: "json \<Rightarrow> string \<Rightarrow> string option" where
  "text_of j k = (case jget j k of Some (JStr t) \<Rightarrow> Some t | _ \<Rightarrow> None)"

text \<open>
  A stored text as a payload. Only the four texts that \<open>decrypt\<close> reads matter, and \<open>Buffer.from\<close> throws on
  a missing one.
\<close>

definition payload_of :: "json \<Rightarrow> encrypted_payload option" where
  "payload_of j =
     (case (text_of j ''salt'', text_of j ''iv'', text_of j ''tag'', text_of j ''ciphertext'') of
        (Some salt, Some iv, Some tag, Some ct) \<Rightarrow>
          Some \<lparr>ep_kdf_name = ''argon2id'', ep_memoryCost = 65536, ep_timeCost = 3, ep_parallelism = 4,
            ep_salt = salt, ep_iv = iv, ep_tag = tag, ep_ciphertext = ct,
            ep_keyId = nullish (text_of j ''keyId'') [], ep_createdAt = nullish (text_of j ''createdAt'') []\<rparr>
      | _ \<Rightarrow> None)"

section \<open>Handlers\<close>

record secret_env =
  se_scrypt :: scrypt
  se_gcm :: gcm
  se_sha256 :: "string \<Rightarrow> string"
  se_env :: "string \<Rightarrow> string option"
  se_master :: string

record secret_call =
  sl_now :: int
  sl_salt :: string
  sl_iv :: string
  sl_stamp :: string
  sl_uuid :: string
  sl_event :: string
  sl_db :: bool

record secret_state =
  ss_secrets :: "secret_row list"
  ss_trail :: audit_state

datatype secret_reply = Secret_answer json | Secret_error int string

definition INTERNAL :: int where "INTERNAL = 13"
definition NOT_FOUND :: int where "NOT_FOUND = 5"
definition DENIED :: int where "DENIED = 7"

definition secret_audit ::
  "secret_env \<Rightarrow> secret_call \<Rightarrow> string \<Rightarrow> audit_severity \<Rightarrow> string \<Rightarrow> string \<Rightarrow> string option \<Rightarrow> string \<Rightarrow> string \<Rightarrow> secret_state \<Rightarrow> secret_state" where
  "secret_audit E c ev sev act res reason ns name s =
     s\<lparr>ss_trail := snd (createAuditEntry (se_sha256 E) (se_env E) (sl_stamp c)
       \<lparr>ab_timestamp = sl_stamp c, ab_eventId = sl_event c, ab_eventType = ev, ab_severity = sev,
        ab_actor = \<lparr>aa_type = ''service'', aa_id = ''secret-store'', aa_namespace = None, aa_authMethod = None, aa_spiffeId = None\<rparr>,
        ab_target = Some \<lparr>at_type = ''secret'', at_id = ns @ ''/'' @ name, at_namespace = Some ns\<rparr>,
        ab_action = \<lparr>an_name = act, an_parameters = None, an_result = res, an_reason = reason\<rparr>,
        ab_context = \<lparr>ac_requestId = None, ac_sessionId = None, ac_ipAddress = None, ac_userAgent = None\<rparr>\<rparr> (ss_trail s))\<rparr>"

record create_secret =
  cs_name :: string
  cs_namespace :: string
  cs_data :: json
  cs_type :: "string option"

definition created_secret :: "secret_call \<Rightarrow> create_secret \<Rightarrow> json" where
  "created_secret c q = JObj
     [(''api_version'', JStr ''egaop.io/v1''), (''kind'', JStr ''Secret''),
      (''metadata'', JObj [(''name'', JStr (cs_name q)), (''namespace'', JStr (cs_namespace q)),
         (''created_at'', JObj [(''seconds'', JNum (num_of_int (sl_now c div 1000)))])]),
      (''spec'', JObj ((case cs_type q of Some t \<Rightarrow> [(''type'', JStr t)] | None \<Rightarrow> []) @
         [(''data'', JObj [(''status'', JStr ''STORED_ENCRYPTED'')]),
          (''rotation'', JObj [(''enabled'', JBool True), (''interval'', JStr ''24h''), (''strategy'', JStr ''aes-256-gcm'')])]))]"

definition persist_failed :: "string \<Rightarrow> secret_reply" where
  "persist_failed m = Secret_error INTERNAL (''Encryption or persistence failed: '' @ m)"

definition CreateSecret :: "secret_env \<Rightarrow> secret_call \<Rightarrow> create_secret \<Rightarrow> secret_state \<Rightarrow> secret_reply \<times> secret_state" where
  "CreateSecret E c q s =
     (case encrypt (se_scrypt E) (se_gcm E) (sl_salt c) (sl_iv c) (sl_stamp c) (stringify (cs_data q)) (se_master E) of
        None \<Rightarrow> (persist_failed ''Invalid scrypt params'', s)
      | Some p \<Rightarrow>
          if \<not> sl_db c then (persist_failed ''database error'', s)
          else (Secret_answer (created_secret c q),
            secret_audit E c ''secret.create'' Sev_info ''CreateSecret'' ''allowed'' None (cs_namespace q) (cs_name q)
              (s\<lparr>ss_secrets := secret_upsert (sl_uuid c) (sl_now c) (cs_namespace q) (cs_name q) (stringify (payload_json p))
                 (nullish (cs_type q) ''api_key'') (ss_secrets s)\<rparr>)))"

definition retrieve_failed :: "string \<Rightarrow> secret_reply" where
  "retrieve_failed m = Secret_error INTERNAL (''Retrieval or decryption failed: '' @ m)"

text \<open>The decryption of a row: an error, or the data.\<close>

definition open_row :: "secret_env \<Rightarrow> secret_row \<Rightarrow> string + json" where
  "open_row E r =
     (case json_parse (sx_encrypted r) of
        None \<Rightarrow> Inl ''Unexpected token''
      | Some j \<Rightarrow>
          (case Option.bind (payload_of j) (\<lambda>p. decrypt (se_scrypt E) (se_gcm E) p (se_master E)) of
             None \<Rightarrow> Inl ''Unsupported state or unable to authenticate data''
           | Some text \<Rightarrow> (case json_parse text of None \<Rightarrow> Inl ''Unexpected token'' | Some d \<Rightarrow> Inr d)))"

record get_secret =
  gq_name :: string
  gq_namespace :: string
  gq_agent :: string

definition refuse_secret :: "secret_env \<Rightarrow> secret_call \<Rightarrow> string \<Rightarrow> get_secret \<Rightarrow> secret_state \<Rightarrow> secret_state" where
  "refuse_secret E c reason q s = secret_audit E c ''secret.access'' Sev_warn ''GetSecret'' ''denied'' (Some reason) (gq_namespace q) (gq_name q) s"

definition mismatch_message :: "string \<Rightarrow> string \<Rightarrow> string" where
  "mismatch_message a ns = ''Agent in '' @ [CHR 0x27] @ a @ [CHR 0x27] @ '' cannot access secret in '' @ [CHR 0x27] @ ns @ [CHR 0x27]"

definition GetSecret :: "secret_env \<Rightarrow> secret_call \<Rightarrow> get_secret \<Rightarrow> secret_state \<Rightarrow> secret_reply \<times> secret_state" where
  "GetSecret E c q s =
     (if gq_agent q = []
      then (Secret_error DENIED ''GetSecret requires agent_id for scoped access'', refuse_secret E c ''missing agent_id scope'' q s)
      else if extractNamespace (gq_agent q) \<noteq> gq_namespace q
      then (Secret_error DENIED (mismatch_message (extractNamespace (gq_agent q)) (gq_namespace q)), refuse_secret E c ''namespace mismatch'' q s)
      else if \<not> sl_db c then (retrieve_failed ''database error'', s)
      else case secret_get (gq_namespace q) (gq_name q) (ss_secrets s) of
          None \<Rightarrow> (Secret_error NOT_FOUND (''Secret '' @ gq_namespace q @ ''/'' @ gq_name q @ '' not found''), refuse_secret E c ''not found'' q s)
        | Some r \<Rightarrow>
            (case open_row E r of
               Inl e \<Rightarrow> (retrieve_failed e, s)
             | Inr d \<Rightarrow>
                 (Secret_answer (JObj [(''metadata'', JObj [(''name'', JStr (gq_name q)), (''namespace'', JStr (gq_namespace q))]),
                    (''spec'', JObj [(''type'', JStr (sx_type r)), (''data'', d)])]),
                  secret_audit E c ''secret.access'' Sev_info ''GetSecret'' ''allowed'' None (gq_namespace q) (gq_name q) s)))"

definition secret_health :: "bool \<Rightarrow> json" where
  "secret_health db_ok = JObj [(''status'', JStr (if db_ok then ''SERVING'' else ''NOT_SERVING''))]"

definition secret_healthz :: "string \<Rightarrow> bool \<Rightarrow> nat \<times> json" where
  "secret_healthz stamp db_ok =
     (if db_ok then 200 else 503,
      JObj [(''status'', JStr (if db_ok then ''SERVING'' else ''NOT_SERVING'')), (''service'', JStr ''secret-store''),
        (''postgres'', JStr (if db_ok then ''connected'' else ''unreachable'')), (''timestamp'', JStr stamp)])"

section \<open>Reachable states\<close>

text \<open>The two handlers are the only writers of the table; the service never calls \<open>delete\<close>.\<close>

inductive secrets_reach :: "secret_env \<Rightarrow> secret_state \<Rightarrow> bool" for E where
  Empty_store: "secrets_reach E \<lparr>ss_secrets = [], ss_trail = t\<rparr>"
| Create_one: "secrets_reach E s \<Longrightarrow> secrets_reach E (snd (CreateSecret E c q s))"
| Get_one: "secrets_reach E s \<Longrightarrow> secrets_reach E (snd (GetSecret E c q s))"

section \<open>Properties\<close>

lemma payload_clean: "encrypt scrypt G salt iv t text key = Some p \<Longrightarrow> clean (payload_json p)"
proof -
  assume e: "encrypt scrypt G salt iv t text key = Some p"
  have n: "readable (num_of_int 2)" "readable (num_of_int 65536)" "readable (num_of_int 3)" "readable (num_of_int 4)"
    unfolding num_of_int_def of_int_numeral by (simp_all add: rnd_numeral) code_simp+
  have i: "\<not> array_index k" if "k \<in> {''version'', ''algorithm'', ''kdf'', ''salt'', ''iv'', ''tag'', ''ciphertext'', ''keyId'', ''createdAt'',
      ''name'', ''memoryCost'', ''timeCost'', ''parallelism''}" for k
    using that by (elim insertE; simp add: array_index_def is_digit_def)
  have "ep_memoryCost p = 65536 \<and> ep_timeCost p = 3 \<and> ep_parallelism p = 4"
    using e by (auto simp: encrypt_def split: option.splits prod.splits)
  then show ?thesis by (simp add: payload_json_def own_order_def i n)
qed

lemma payload_of_json: "\<exists>p'. payload_of (payload_json p) = Some p' \<and> ep_salt p' = ep_salt p \<and> ep_iv p' = ep_iv p \<and> ep_tag p' = ep_tag p \<and>
    ep_ciphertext p' = ep_ciphertext p"
  by (simp add: payload_of_def payload_json_def text_of_def jget_def)

lemma decrypt_payload:
  assumes "gcm_law (se_gcm E)" and "encrypt (se_scrypt E) (se_gcm E) salt iv t text key = Some p"
  shows "Option.bind (payload_of (payload_json p)) (\<lambda>p. decrypt (se_scrypt E) (se_gcm E) p key) = Some text"
proof -
  obtain p' where p': "payload_of (payload_json p) = Some p'" "ep_salt p' = ep_salt p" "ep_iv p' = ep_iv p" "ep_tag p' = ep_tag p"
      "ep_ciphertext p' = ep_ciphertext p"
    using payload_of_json by blast
  have "decrypt (se_scrypt E) (se_gcm E) p' key = decrypt (se_scrypt E) (se_gcm E) p key" unfolding decrypt_def p'(2-5) ..
  then show ?thesis using p' decrypt_encrypt[OF assms] by simp
qed

lemma secret_get_upsert:
  "\<exists>r. secret_get ns name (secret_upsert uuid now ns name e ty rows) = Some r \<and> sx_encrypted r = e \<and> sx_type r = ty"
proof (cases "list_ex (secret_key ns name) rows")
  case True
  have "\<exists>r. find (secret_key ns name) (map (\<lambda>r. if secret_key ns name r then r\<lparr>sx_encrypted := e, sx_type := ty, sx_updated := now\<rparr> else r) rows) = Some r \<and>
      sx_encrypted r = e \<and> sx_type r = ty" if "list_ex (secret_key ns name) rows"
    using that by (induction rows) (auto simp: secret_key_def)
  with True show ?thesis by (simp add: secret_get_def secret_upsert_def)
next
  case False
  then have "find (secret_key ns name) rows = None" by (auto simp: find_None_iff list_ex_iff)
  with False show ?thesis by (simp add: secret_get_def secret_upsert_def find_append_None) (simp add: secret_key_def)
qed

lemma secret_audit_table [simp]: "ss_secrets (secret_audit E c ev sev act res reason ns name s) = ss_secrets s"
  by (simp add: secret_audit_def)

lemma CreateSecret_cases:
  "ss_secrets (snd (CreateSecret E c q s)) = ss_secrets s \<and> (\<exists>m. fst (CreateSecret E c q s) = persist_failed m) \<or>
   (\<exists>p. encrypt (se_scrypt E) (se_gcm E) (sl_salt c) (sl_iv c) (sl_stamp c) (stringify (cs_data q)) (se_master E) = Some p \<and>
     fst (CreateSecret E c q s) = Secret_answer (created_secret c q) \<and>
     ss_secrets (snd (CreateSecret E c q s)) = secret_upsert (sl_uuid c) (sl_now c) (cs_namespace q) (cs_name q) (stringify (payload_json p))
       (nullish (cs_type q) ''api_key'') (ss_secrets s))"
  by (auto simp: CreateSecret_def split: option.split)

lemma GetSecret_table [simp]: "ss_secrets (snd (GetSecret E c q s)) = ss_secrets s"
  by (auto simp: GetSecret_def refuse_secret_def split: option.split sum.split)

text \<open>C28. A secret that was stored is returned, decrypted, to any call that names an agent of its namespace.\<close>

theorem secret_roundtrip:
  assumes "gcm_law (se_gcm E)" and "clean (cs_data q)"
    and "fst (CreateSecret E c q s) = Secret_answer a"
    and "extractNamespace agent = cs_namespace q" and "agent \<noteq> []" and "sl_db c'"
  shows "fst (GetSecret E c' \<lparr>gq_name = cs_name q, gq_namespace = cs_namespace q, gq_agent = agent\<rparr> (snd (CreateSecret E c q s))) =
    Secret_answer (JObj [(''metadata'', JObj [(''name'', JStr (cs_name q)), (''namespace'', JStr (cs_namespace q))]),
      (''spec'', JObj [(''type'', JStr (nullish (cs_type q) ''api_key'')), (''data'', cs_data q)])])"
proof -
  let ?s = "snd (CreateSecret E c q s)"
  obtain p where p: "encrypt (se_scrypt E) (se_gcm E) (sl_salt c) (sl_iv c) (sl_stamp c) (stringify (cs_data q)) (se_master E) = Some p"
    and t: "ss_secrets ?s = secret_upsert (sl_uuid c) (sl_now c) (cs_namespace q) (cs_name q) (stringify (payload_json p))
       (nullish (cs_type q) ''api_key'') (ss_secrets s)"
    using CreateSecret_cases[of E c q s] assms(3) by (auto simp: persist_failed_def)
  obtain r where r: "secret_get (cs_namespace q) (cs_name q) (ss_secrets ?s) = Some r" "sx_encrypted r = stringify (payload_json p)"
      "sx_type r = nullish (cs_type q) ''api_key''"
    unfolding t using secret_get_upsert by blast
  have "open_row E r = Inr (cs_data q)"
    using parse_stringify[OF payload_clean[OF p]] parse_stringify[OF assms(2)] decrypt_payload[OF assms(1) p]
    by (simp add: open_row_def r(2))
  then show ?thesis using assms(4-6) r by (simp add: GetSecret_def)
qed

text \<open>What the row of a stored secret gives away: its text contains the key that decrypts it.\<close>

definition holds_key :: "secret_env \<Rightarrow> secret_row \<Rightarrow> bool" where
  "holds_key E r \<longleftrightarrow> (\<exists>j text. json_parse (sx_encrypted r) = Some j \<and> text_of j ''keyId'' = Some (se_master E) \<and>
     Option.bind (payload_of j) (\<lambda>p. decrypt (se_scrypt E) (se_gcm E) p (the (text_of j ''keyId''))) = Some text)"

lemma stored_holds_key:
  assumes "gcm_law (se_gcm E)" and "encrypt (se_scrypt E) (se_gcm E) salt iv t text (se_master E) = Some p" and "sx_encrypted r = stringify (payload_json p)"
  shows "holds_key E r"
proof -
  have "text_of (payload_json p) ''keyId'' = Some (se_master E)"
    using encrypt_keyId[OF assms(2)] by (simp add: payload_json_def text_of_def jget_def)
  then show ?thesis
    unfolding holds_key_def assms(3) parse_stringify[OF payload_clean[OF assms(2)]]
    using decrypt_payload[OF assms(1,2)] by auto
qed

text \<open>C7. The table of secrets contains the master key in clear text: every stored secret can be decrypted from its
  own row, without the environment of the service.\<close>

theorem table_reveals_master_key:
  assumes "gcm_law (se_gcm E)" and "secrets_reach E s"
  shows "list_all (holds_key E) (ss_secrets s)"
  using assms(2)
proof induction
  case (Create_one s c q)
  have "list_all (holds_key E) (secret_upsert uuid now ns name (stringify (payload_json p)) ty (ss_secrets s))"
    if "encrypt (se_scrypt E) (se_gcm E) salt iv t x (se_master E) = Some p" for uuid now ns name ty p salt iv t x
    using Create_one.IH stored_holds_key[OF assms(1) that] by (auto simp: secret_upsert_def list_all_iff)
  then show ?case using Create_one.IH CreateSecret_cases[of E c q s] by auto
qed simp_all

text \<open>A secret is handed out only under its own namespace, to a call that names an agent of this namespace, and
  no call that is refused or fails changes the table.\<close>

theorem secret_scoped:
  assumes "fst (GetSecret E c q s) = Secret_answer a"
  shows "extractNamespace (gq_agent q) = gq_namespace q \<and>
    (\<exists>r d. secret_get (gq_namespace q) (gq_name q) (ss_secrets s) = Some r \<and> open_row E r = Inr d \<and>
      a = JObj [(''metadata'', JObj [(''name'', JStr (gq_name q)), (''namespace'', JStr (gq_namespace q))]),
        (''spec'', JObj [(''type'', JStr (sx_type r)), (''data'', d)])]) \<and> ss_secrets (snd (GetSecret E c q s)) = ss_secrets s"
  using assms by (auto simp: GetSecret_def retrieve_failed_def refuse_secret_def split: if_splits option.splits sum.splits)

section \<open>Examples\<close>

definition demo_vault :: secret_env where
  "demo_vault = \<lparr>se_scrypt = demo_scrypt, se_gcm = demo_gcm, se_sha256 = Cons (CHR ''h''), se_env = (\<lambda>_. None), se_master = ''0123456789abcdef0123456789abcdef''\<rparr>"

definition demo_secret_call :: secret_call where
  "demo_secret_call = \<lparr>sl_now = 0, sl_salt = ''s'', sl_iv = ''i'', sl_stamp = ''t'', sl_uuid = ''u'', sl_event = ''e'', sl_db = True\<rparr>"

definition demo_create :: create_secret where
  "demo_create = \<lparr>cs_name = ''db'', cs_namespace = ''finance'', cs_data = JObj [(''password'', JStr ''x'')], cs_type = Some ''api_key''\<rparr>"

definition empty_vault :: secret_state where "empty_vault = \<lparr>ss_secrets = [], ss_trail = no_audit\<rparr>"

lemma demo_gcm_lawful: "gcm_law demo_gcm" by (simp add: gcm_law_def demo_gcm_def)

lemma demo_created: "\<exists>a. fst (CreateSecret demo_vault demo_secret_call demo_create empty_vault) = Secret_answer a"
  by (simp add: CreateSecret_def encrypt_def deriveKeyV2_def demo_vault_def demo_scrypt_def demo_secret_call_def split: prod.split)

theorem secret_roundtrip_witness:
  "\<exists>a. fst (GetSecret demo_vault demo_secret_call \<lparr>gq_name = ''db'', gq_namespace = ''finance'', gq_agent = ''finance/anyone''\<rparr>
     (snd (CreateSecret demo_vault demo_secret_call demo_create empty_vault))) = Secret_answer a"
proof -
  obtain a where a: "fst (CreateSecret demo_vault demo_secret_call demo_create empty_vault) = Secret_answer a" using demo_created by blast
  have f: "gcm_law (se_gcm demo_vault)" "sl_db demo_secret_call" by (simp_all add: demo_vault_def demo_gcm_lawful demo_secret_call_def)
  have q: "cs_name demo_create = ''db''" "cs_namespace demo_create = ''finance''" by (simp_all add: demo_create_def)
  have "clean (cs_data demo_create)" "extractNamespace ''finance/anyone'' = cs_namespace demo_create" by code_simp+
  from secret_roundtrip[OF f(1) this(1) a this(2) _ f(2)] show ?thesis by (simp add: q)
qed

theorem table_reveals_master_key_witness:
  "list_all (holds_key demo_vault) (ss_secrets (snd (CreateSecret demo_vault demo_secret_call demo_create empty_vault))) \<and>
   ss_secrets (snd (CreateSecret demo_vault demo_secret_call demo_create empty_vault)) \<noteq> []"
proof
  have r: "secrets_reach demo_vault (snd (CreateSecret demo_vault demo_secret_call demo_create empty_vault))"
    unfolding empty_vault_def by (intro secrets_reach.intros)
  have "gcm_law (se_gcm demo_vault)" by (simp add: demo_vault_def demo_gcm_lawful)
  from table_reveals_master_key[OF this r]
  show "list_all (holds_key demo_vault) (ss_secrets (snd (CreateSecret demo_vault demo_secret_call demo_create empty_vault)))" .
  show "ss_secrets (snd (CreateSecret demo_vault demo_secret_call demo_create empty_vault)) \<noteq> []"
    using CreateSecret_cases[of demo_vault demo_secret_call demo_create empty_vault] demo_created
    by (auto simp: persist_failed_def secret_upsert_def empty_vault_def)
qed

theorem secret_scoped_witness:
  "\<exists>a. fst (GetSecret demo_vault demo_secret_call \<lparr>gq_name = ''db'', gq_namespace = ''finance'', gq_agent = ''finance/anyone''\<rparr>
      \<lparr>ss_secrets = [\<lparr>sx_id = ''1'', sx_namespace = ''finance'', sx_name = ''db'', sx_encrypted =
         stringify (payload_json (the (encrypt demo_scrypt demo_gcm ''s'' ''i'' ''t'' ''null'' ''0123456789abcdef0123456789abcdef''))),
         sx_type = ''t'', sx_created = 0, sx_updated = 0\<rparr>], ss_trail = no_audit\<rparr>) = Secret_answer a \<and> extractNamespace ''finance/anyone'' = ''finance''"
proof -
  let ?q = "\<lparr>gq_name = ''db'', gq_namespace = ''finance'', gq_agent = ''finance/anyone''\<rparr>"
  let ?k = "''0123456789abcdef0123456789abcdef''"
  have "encrypt demo_scrypt demo_gcm ''s'' ''i'' ''t'' ''null'' ?k \<noteq> None"
    by (simp add: encrypt_def deriveKeyV2_def demo_scrypt_def split: prod.split)
  then obtain p where p: "encrypt demo_scrypt demo_gcm ''s'' ''i'' ''t'' ''null'' ?k = Some p" by blast
  let ?r = "\<lparr>sx_id = ''1'', sx_namespace = ''finance'', sx_name = ''db'', sx_encrypted = stringify (payload_json p), sx_type = ''t'', sx_created = 0, sx_updated = 0\<rparr>"
  have d: "Option.bind (payload_of (payload_json p)) (\<lambda>p. decrypt (se_scrypt demo_vault) (se_gcm demo_vault) p (se_master demo_vault)) = Some ''null''"
    by (rule decrypt_payload[where t = "''t''" and salt = "''s''" and iv = "''i''"]) (simp_all add: demo_vault_def demo_gcm_lawful p)
  have "open_row demo_vault ?r = Inr JNull"
    using parse_stringify[OF payload_clean[OF p]] d by (simp add: open_row_def) code_simp
  moreover have ns: "extractNamespace ''finance/anyone'' = ''finance''" by code_simp
  moreover have "secret_get ''finance'' ''db'' [?r] = Some ?r" by (simp add: secret_get_def secret_key_def)
  ultimately have "fst (GetSecret demo_vault demo_secret_call ?q \<lparr>ss_secrets = [?r], ss_trail = no_audit\<rparr>) =
      Secret_answer (JObj [(''metadata'', JObj [(''name'', JStr ''db''), (''namespace'', JStr ''finance'')]), (''spec'', JObj [(''type'', JStr ''t''), (''data'', JNull)])])"
    by (simp add: GetSecret_def demo_secret_call_def)
  then show ?thesis using secret_scoped[of demo_vault demo_secret_call ?q "\<lparr>ss_secrets = [?r], ss_trail = no_audit\<rparr>"] by (simp add: p)
qed

end
