(* ===== verification/Slo.thy ===== *)
theory Slo
  imports JsNumber
begin

text \<open>
  The tracker of service level objectives, \<open>packages/shared/src/slo/index.ts\<close>, in the language's numbers. The
  clock is an argument; one call reads it once.
\<close>

section \<open>State\<close>

record sli_sample =
  sp_total :: num
  sp_failed :: num
  sp_histogram :: "(num \<times> num) list option"

datatype slo_type = Availability | Latency

record tracked_slo =
  tk_name :: string
  tk_type :: slo_type
  tk_target :: num
  tk_history :: "(num \<times> sli_sample) list"

record slo_tracker =
  tr_slos :: "(string, tracked_slo) js_map"
  tr_max :: int

definition tracker_new :: "int option \<Rightarrow> slo_tracker" where
  "tracker_new m = \<lparr>tr_slos = [], tr_max = nullish m 1440\<rparr>"

definition define_slo :: "string \<Rightarrow> slo_type \<Rightarrow> num \<Rightarrow> slo_tracker \<Rightarrow> slo_tracker" where
  "define_slo name ty target t = t\<lparr>tr_slos := js_set name \<lparr>tk_name = name, tk_type = ty, tk_target = target, tk_history = []\<rparr> (tr_slos t)\<rparr>"

text \<open>\<open>slice(-n)\<close>: the last \<open>n\<close> elements, all of them for zero, and all but the first ones for a negative \<open>n\<close>.\<close>

definition slice_last :: "int \<Rightarrow> 'a list \<Rightarrow> 'a list" where
  "slice_last n xs = (if 0 < n then drop (length xs - nat n) xs else drop (nat (- n)) xs)"

definition not_defined :: "string \<Rightarrow> string" where
  "not_defined name = ''SLO '' @ [CHR 0x22] @ name @ [CHR 0x22] @ '' is not defined. Call define() first.''"

definition record_sample :: "string \<Rightarrow> sli_sample \<Rightarrow> num \<Rightarrow> slo_tracker \<Rightarrow> string + slo_tracker" where
  "record_sample name sample timestamp t =
     (case js_get (tr_slos t) name of
        None \<Rightarrow> Inl (not_defined name)
      | Some slo \<Rightarrow>
          (let h = tk_history slo @ [(timestamp, sample)];
               h1 = (if tr_max t < int (length h) then slice_last (tr_max t) h else h)
           in Inr (t\<lparr>tr_slos := js_set name (slo\<lparr>tk_history := h1\<rparr>) (tr_slos t)\<rparr>)))"

definition clear_history :: "slo_tracker \<Rightarrow> slo_tracker" where
  "clear_history t = t\<lparr>tr_slos := map (\<lambda>(k, slo). (k, slo\<lparr>tk_history := []\<rparr>)) (tr_slos t)\<rparr>"

definition reset_tracker :: "slo_tracker \<Rightarrow> slo_tracker" where
  "reset_tracker t = t\<lparr>tr_slos := []\<rparr>"

section \<open>Aggregation\<close>

definition num_ge :: "num \<Rightarrow> num \<Rightarrow> bool" where
  "num_ge a b = num_le b a"

definition round_to :: "num \<Rightarrow> nat \<Rightarrow> num" where
  "round_to v decimals = (let factor = Num (10 ^ decimals) in num_div (math_round (num_mul v factor)) factor)"

fun insert_bucket :: "num \<times> num \<Rightarrow> (num \<times> num) list \<Rightarrow> (num \<times> num) list" where
  "insert_bucket x [] = [x]"
| "insert_bucket x (y # ys) = (if num_lt (fst x) (fst y) then x # y # ys else y # insert_bucket x ys)"

definition sort_buckets :: "(num \<times> num) list \<Rightarrow> (num \<times> num) list" where
  "sort_buckets m = foldl (\<lambda>acc x. insert_bucket x acc) [] m"

fun first_reaching :: "num \<Rightarrow> num \<Rightarrow> (num \<times> num) list \<Rightarrow> num option" where
  "first_reaching target cumulative [] = None"
| "first_reaching target cumulative ((bucket, count) # bs) =
     (let c = num_add cumulative count in if num_ge c target then Some bucket else first_reaching target c bs)"

definition computePercentileFromBuckets :: "(num, num) js_map \<Rightarrow> num \<Rightarrow> num \<Rightarrow> num" where
  "computePercentileFromBuckets buckets percentile totalRequests =
     (if totalRequests = Num 0 \<or> buckets = [] then Num 0
      else let targetCount = math_ceil (num_mul (num_div percentile (Num 100)) totalRequests);
               sorted = sort_buckets buckets
           in case first_reaching targetCount (Num 0) sorted of
                Some b \<Rightarrow> b
              | None \<Rightarrow> (if sorted = [] then Num 0 else fst (last sorted)))"

record aggregated =
  ag_total :: num
  ag_failed :: num
  ag_histogram :: "(num \<times> num) list"
  ag_percentile :: num

definition add_bucket :: "(num, num) js_map \<Rightarrow> num \<times> num \<Rightarrow> (num, num) js_map" where
  "add_bucket m b = js_set (fst b) (num_add (nullish (js_get m (fst b)) (Num 0)) (snd b)) m"

definition add_sample :: "num \<times> num \<times> (num, num) js_map \<Rightarrow> sli_sample \<Rightarrow> num \<times> num \<times> (num, num) js_map" where
  "add_sample acc sp = (case acc of (t, f, m) \<Rightarrow>
     (num_add t (sp_total sp), num_add f (sp_failed sp), foldl add_bucket m (nullish (sp_histogram sp) [])))"

definition aggregateSamples :: "(num \<times> sli_sample) list \<Rightarrow> aggregated" where
  "aggregateSamples samples =
     (case foldl add_sample (Num 0, Num 0, []) (map snd samples) of (t, f, m) \<Rightarrow>
        \<lparr>ag_total = t, ag_failed = f, ag_histogram = m, ag_percentile = computePercentileFromBuckets m (Num 95) t\<rparr>)"

section \<open>Status\<close>

record error_budget =
  eb_total :: num
  eb_allowed :: num
  eb_actual :: num
  eb_remaining :: num
  eb_percent :: num
  eb_consumed :: bool

definition computeErrorBudget :: "slo_type \<Rightarrow> num \<Rightarrow> num \<Rightarrow> num \<Rightarrow> num \<Rightarrow> error_budget" where
  "computeErrorBudget ty target totalRequests actualFailures percentile =
     (case ty of
        Availability \<Rightarrow>
          (let allowed = math_floor (num_mul (num_sub (Num 1) target) totalRequests);
               remaining = num_max (Num 0) (num_sub allowed actualFailures)
           in \<lparr>eb_total = totalRequests, eb_allowed = allowed, eb_actual = actualFailures, eb_remaining = remaining,
               eb_percent = (if num_lt (Num 0) allowed then round_to (num_div remaining allowed) 4
                 else if actualFailures = Num 0 then Num 1 else Num 0),
               eb_consumed = num_ge actualFailures allowed\<rparr>)
      | Latency \<Rightarrow>
          (let excess = num_max (Num 0) (num_sub percentile target); remaining = num_max (Num 0) (num_sub target excess)
           in \<lparr>eb_total = totalRequests, eb_allowed = Num 0, eb_actual = Num 0, eb_remaining = math_round remaining,
               eb_percent = round_to (if num_lt (Num 0) target then num_div remaining target
                 else if num_le percentile target then Num 1 else Num 0) 4,
               eb_consumed = num_lt target percentile\<rparr>))"

record burn_rate =
  br_window :: num
  br_rate :: num
  br_burning :: bool

definition minutes_before :: "num \<Rightarrow> num \<Rightarrow> num" where
  "minutes_before now m = num_sub now (num_mul (num_mul m (Num 60)) (Num 1000))"

definition since :: "num \<Rightarrow> (num \<times> sli_sample) list \<Rightarrow> (num \<times> sli_sample) list" where
  "since cutoff samples = filter (\<lambda>s. num_ge (fst s) cutoff) samples"

definition rate_of :: "slo_type \<Rightarrow> num \<Rightarrow> aggregated \<Rightarrow> num" where
  "rate_of ty target a =
     (case ty of
        Availability \<Rightarrow>
          (let errorRate = (if num_lt (Num 0) (ag_total a) then num_div (ag_failed a) (ag_total a) else Num 0);
               allowedErrorRate = num_sub (Num 1) target
           in if num_lt (Num 0) allowedErrorRate then num_div errorRate allowedErrorRate
              else if num_lt (Num 0) errorRate then NInf False else Num 0)
      | Latency \<Rightarrow>
          (if num_lt (Num 0) target then num_div (ag_percentile a) target
           else if num_lt (Num 0) (ag_percentile a) then NInf False else Num 0))"

definition BURN_RATE_WINDOWS :: "num list" where "BURN_RATE_WINDOWS = [Num 5, Num 30, Num 60]"

definition computeBurnRates :: "slo_type \<Rightarrow> num \<Rightarrow> (num \<times> sli_sample) list \<Rightarrow> num \<Rightarrow> burn_rate list" where
  "computeBurnRates ty target samples now =
     map (\<lambda>w. let rate = rate_of ty target (aggregateSamples (since (minutes_before now w) samples))
              in \<lparr>br_window = w, br_rate = round_to rate 4, br_burning = num_lt (Num 1) rate\<rparr>) BURN_RATE_WINDOWS"

record slo_status =
  os_name :: string
  os_type :: slo_type
  os_target :: num
  os_sli :: num
  os_budget :: error_budget
  os_burn :: "burn_rate list"
  os_compliant :: bool

definition computeStatus :: "string \<Rightarrow> tracked_slo \<Rightarrow> num \<Rightarrow> num \<Rightarrow> slo_status" where
  "computeStatus name slo windowMinutes now =
     (let samples = since (minutes_before now windowMinutes) (tk_history slo);
          a = aggregateSamples samples;
          errorRate = (if num_lt (Num 0) (ag_total a) then num_div (ag_failed a) (ag_total a) else Num 0);
          sli = (case tk_type slo of
              Availability \<Rightarrow> if num_lt (Num 0) (ag_total a) then num_sub (Num 1) errorRate else Num 1
            | Latency \<Rightarrow> ag_percentile a)
      in \<lparr>os_name = name, os_type = tk_type slo, os_target = tk_target slo, os_sli = round_to sli 6,
          os_budget = computeErrorBudget (tk_type slo) (tk_target slo) (ag_total a) (ag_failed a) (ag_percentile a),
          os_burn = computeBurnRates (tk_type slo) (tk_target slo) samples now,
          os_compliant = (case tk_type slo of Availability \<Rightarrow> num_ge sli (tk_target slo) | Latency \<Rightarrow> num_le sli (tk_target slo))\<rparr>)"

record slo_snapshot =
  oz_timestamp :: string
  oz_window :: num
  oz_statuses :: "slo_status list"
  oz_compliant :: bool

definition take_snapshot :: "string \<Rightarrow> num \<Rightarrow> num option \<Rightarrow> slo_tracker \<Rightarrow> slo_snapshot" where
  "take_snapshot stamp now windowMinutes t =
     (let w = nullish windowMinutes (Num 30); st = map (\<lambda>(name, slo). computeStatus name slo w now) (tr_slos t)
      in \<lparr>oz_timestamp = stamp, oz_window = w, oz_statuses = st, oz_compliant = list_all os_compliant st\<rparr>)"

section \<open>Properties\<close>

definition histories_bounded :: "slo_tracker \<Rightarrow> bool" where
  "histories_bounded t \<longleftrightarrow> list_all (\<lambda>(k, slo). int (length (tk_history slo)) \<le> tr_max t) (tr_slos t)"

lemma js_set_all: "list_all P m \<Longrightarrow> P (k, v) \<Longrightarrow> list_all P (js_set k v m)"
  by (induction m) auto

text \<open>The operations of the tracker.\<close>

datatype slo_op = Define string slo_type num | Sample string sli_sample num | Clear | Reset

fun slo_run :: "slo_op \<Rightarrow> slo_tracker \<Rightarrow> slo_tracker" where
  "slo_run (Define n ty target) t = define_slo n ty target t"
| "slo_run (Sample n sp ts) t = (case record_sample n sp ts t of Inl e \<Rightarrow> t | Inr t' \<Rightarrow> t')"
| "slo_run Clear t = clear_history t"
| "slo_run Reset t = reset_tracker t"

lemma slo_run_bounded:
  assumes "1 \<le> tr_max t" and "histories_bounded t"
  shows "histories_bounded (slo_run op t) \<and> tr_max (slo_run op t) = tr_max t"
proof (cases op)
  case (Define n ty target)
  then show ?thesis using assms by (auto simp: histories_bounded_def define_slo_def intro: js_set_all)
next
  case (Sample n sp ts)
  then show ?thesis using assms
    by (auto simp: record_sample_def Let_def histories_bounded_def slice_last_def split: option.split intro!: js_set_all)
next
  case Clear
  have "int 0 \<le> tr_max t" using assms(1) by simp
  then show ?thesis by (simp add: Clear histories_bounded_def clear_history_def list_all_iff split_beta)
next
  case Reset
  then show ?thesis by (simp add: histories_bounded_def reset_tracker_def)
qed

text \<open>No history grows beyond the configured maximum, as long as this is positive.\<close>

theorem slo_history_bounded:
  assumes "1 \<le> m"
  shows "list_all (\<lambda>(k, slo). int (length (tk_history slo)) \<le> m) (tr_slos (foldl (\<lambda>t op. slo_run op t) (tracker_new (Some m)) ops))"
proof -
  have "histories_bounded (foldl (\<lambda>t op. slo_run op t) t ops) \<and> tr_max (foldl (\<lambda>t op. slo_run op t) t ops) = m"
    if "histories_bounded t" "tr_max t = m" for t
    using that by (induction ops arbitrary: t) (use slo_run_bounded assms in auto)
  moreover have "histories_bounded (tracker_new (Some m))" "tr_max (tracker_new (Some m)) = m"
    by (simp_all add: histories_bounded_def tracker_new_def)
  ultimately have a: "histories_bounded (foldl (\<lambda>t op. slo_run op t) (tracker_new (Some m)) ops)"
      "tr_max (foldl (\<lambda>t op. slo_run op t) (tracker_new (Some m)) ops) = m" by blast+
  from a(1) show ?thesis unfolding histories_bounded_def a(2) .
qed

text \<open>The burn rate over an hour is not computed over an hour: the samples were already cut to the window of
  the snapshot, so in the default snapshot it always equals the burn rate over half an hour.\<close>

theorem hourly_burn_rate_is_half_hourly:
  assumes "minutes_before now (Num 60) = Num c" and "minutes_before now (Num 30) = Num d" and "c \<le> d"
  shows "\<exists>r5 r. map br_rate (os_burn (computeStatus name slo (Num 30) now)) = [r5, r, r]"
proof -
  have sub: "num_ge x (Num d) \<Longrightarrow> num_ge x (Num c)" for x using assms(3) by (cases x) (auto simp: num_ge_def)
  have "since (Num c) (since (Num d) h) = since (Num d) h" for h
    by (simp add: since_def) (rule filter_cong, auto dest: sub)
  moreover have "since (Num d) (since (Num d) h) = since (Num d) h" for h by (simp add: since_def)
  ultimately show ?thesis
    by (simp add: computeStatus_def computeBurnRates_def BURN_RATE_WINDOWS_def Let_def assms(1,2))
qed

theorem slo_history_bounded_witness:
  "list_all (\<lambda>(k, slo). int (length (tk_history slo)) \<le> 2) (tr_slos (foldl (\<lambda>t op. slo_run op t) (tracker_new (Some 2))
     [Define ''a'' Availability (Num 1), Sample ''a'' \<lparr>sp_total = Num 1, sp_failed = Num 0, sp_histogram = None\<rparr> (Num 5)]))"
  by (rule slo_history_bounded) simp

theorem hourly_burn_rate_is_half_hourly_witness:
  "\<exists>r5 r. map br_rate (os_burn (computeStatus ''a'' slo (Num 30) (Num 7200000))) = [r5, r, r]"
proof -
  have m: "num_mul (num_mul (Num 60) (Num 60)) (Num 1000) = Num 3600000" "num_mul (num_mul (Num 30) (Num 60)) (Num 1000) = Num 1800000"
    by (simp_all add: rnd_numeral)
  have "minutes_before (Num 7200000) (Num 60) = Num 3600000" "minutes_before (Num 7200000) (Num 30) = Num 5400000"
    unfolding minutes_before_def m by (simp_all add: num_sub_def rnd_numeral)
  then show ?thesis by (rule hourly_burn_rate_is_half_hourly) simp
qed

end
