(* ===== verification/Observability.thy ===== *)
theory Observability
  imports AgentService Crypto
begin

text \<open>
  The observability plane: the tables of \<open>observability-plane/src/repository.ts\<close> and the handlers of
  \<open>observability-plane/src/index.ts\<close>, which also keep every exported span in memory. Times are milliseconds;
  whether the database answers is part of a call.
\<close>

section \<open>Spans\<close>

record span =
  sn_trace :: string
  sn_id :: string
  sn_parent :: "string option"
  sn_service :: string
  sn_operation :: string
  sn_namespace :: string
  sn_start :: int
  sn_end :: "int option"
  sn_status :: string
  sn_attributes :: json
  sn_events :: json

definition has_span :: "span list \<Rightarrow> string \<Rightarrow> bool" where
  "has_span rows i \<longleftrightarrow> list_ex (\<lambda>r. sn_id r = i) rows"

definition ingestSpan :: "span \<Rightarrow> span list \<Rightarrow> bool \<times> span list" where
  "ingestSpan sp rows = (if has_span rows (sn_id sp) then (False, rows) else (True, rows @ [sp]))"

definition by_start :: "span list \<Rightarrow> span list" where
  "by_start rows = sort_key sn_start rows"

definition by_start_desc :: "span list \<Rightarrow> span list" where
  "by_start_desc rows = sort_key (\<lambda>r. - sn_start r) rows"

definition getTrace :: "string \<Rightarrow> string \<Rightarrow> span list \<Rightarrow> span list" where
  "getTrace traceId ns rows = by_start (filter (\<lambda>r. sn_trace r = traceId \<and> sn_namespace r = ns) rows)"

record trace_page =
  tp_traces :: "span list list"
  tp_nextCursor :: "int option"

definition group_spans :: "span list \<Rightarrow> span list list" where
  "group_spans spans = map snd (foldl (\<lambda>m sp. js_set (sn_trace sp) (nullish (js_get m (sn_trace sp)) [] @ [sp]) m) [] spans)"

definition listTraces :: "string \<Rightarrow> int \<Rightarrow> int \<Rightarrow> nat \<Rightarrow> int option \<Rightarrow> span list \<Rightarrow> trace_page" where
  "listTraces ns from_ms to_ms limit cursor rows =
     (let found = take (limit + 1) (by_start_desc (filter (\<lambda>r. sn_namespace r = ns \<and> from_ms \<le> sn_start r \<and> sn_start r \<le> to_ms \<and>
            (case cursor of None \<Rightarrow> True | Some t \<Rightarrow> sn_start r < t)) rows));
          hasMore = limit < length found; traces = (if hasMore then take limit found else found)
      in \<lparr>tp_traces = group_spans traces, tp_nextCursor = (if hasMore \<and> traces \<noteq> [] then Some (sn_start (last traces)) else None)\<rparr>)"

text \<open>
  One \<open>INSERT\<close> for a batch, with \<open>ON CONFLICT DO NOTHING\<close>: a span is skipped when its identifier is in the
  table or earlier in the batch.
\<close>

fun new_spans :: "string list \<Rightarrow> span list \<Rightarrow> span list" where
  "new_spans seen [] = []"
| "new_spans seen (sp # sps) = (if sn_id sp \<in> set seen then new_spans seen sps else sp # new_spans (sn_id sp # seen) sps)"

definition batchIngest :: "span list \<Rightarrow> span list \<Rightarrow> nat \<times> span list" where
  "batchIngest spans rows = (let fresh = new_spans (map sn_id rows) spans in (length fresh, rows @ fresh))"

definition deleteTrace :: "string \<Rightarrow> string \<Rightarrow> span list \<Rightarrow> bool \<times> span list" where
  "deleteTrace traceId ns rows =
     (let hit = (\<lambda>r. sn_trace r = traceId \<and> sn_namespace r = ns) in (list_ex hit rows, filter (\<lambda>r. \<not> hit r) rows))"

definition in_namespace :: "string option \<Rightarrow> span \<Rightarrow> bool" where
  "in_namespace ns r \<longleftrightarrow> (if truthy ns then sn_namespace r = the ns else True)"

definition cost_value :: "json \<Rightarrow> json option" where
  "cost_value attributes = jopt (jopt (Some attributes) ''fields'') ''egaop.llm.cost''"

definition getTraceCost :: "string \<Rightarrow> string option \<Rightarrow> span list \<Rightarrow> string" where
  "getTraceCost traceId ns rows =
     (case by_start_desc (filter (\<lambda>r. sn_trace r = traceId \<and> in_namespace ns r \<and> cost_value (sn_attributes r) \<noteq> None) rows) of
        [] \<Rightarrow> ''$0.00''
      | r # rs \<Rightarrow> nullish (jtext (jopt (cost_value (sn_attributes r)) ''stringValue'')) ''$0.00'')"

section \<open>Replay sessions\<close>

record replay_row =
  ry_id :: string
  ry_trace :: string
  ry_created :: int
  ry_metadata :: json

record replay_session =
  rs_row :: replay_row
  rs_spans :: "span list"

definition createReplaySession :: "string \<Rightarrow> int \<Rightarrow> string \<Rightarrow> json option \<Rightarrow> replay_row list \<Rightarrow> replay_session \<times> replay_row list" where
  "createReplaySession uuid now traceId metadata sessions =
     (let r = \<lparr>ry_id = uuid, ry_trace = traceId, ry_created = now, ry_metadata = jnullish metadata (JObj [])\<rparr>
      in (\<lparr>rs_row = r, rs_spans = []\<rparr>, sessions @ [r]))"

definition getReplaySession :: "string \<Rightarrow> string option \<Rightarrow> replay_row list \<Rightarrow> span list \<Rightarrow> replay_session option" where
  "getReplaySession sessionId ns sessions rows =
     (case find (\<lambda>r. ry_id r = sessionId) sessions of
        None \<Rightarrow> None
      | Some r \<Rightarrow> Some \<lparr>rs_row = r, rs_spans = by_start (filter (\<lambda>s. sn_trace s = ry_trace r \<and> in_namespace ns s) rows)\<rparr>)"

section \<open>The service\<close>

record stored_span =
  sd_span_id :: "string option"
  sd_name :: "string option"
  sd_start :: "json option"
  sd_end :: "json option"
  sd_attributes :: "json option"

record obs_state =
  ob_rows :: "span list"
  ob_store :: "(string, stored_span list) js_map"

record obs_call =
  oc_now :: int
  oc_db :: bool

record export_request =
  xq_execution :: string
  xq_span :: string
  xq_name :: string
  xq_start :: "json option"
  xq_end :: "json option"
  xq_attributes :: "json option"

definition field_text :: "json option \<Rightarrow> string \<Rightarrow> string option" where
  "field_text attributes k = jtext (jopt (jopt (jopt attributes ''fields'') k) ''stringValue'')"

text \<open>\<open>new Date(n)\<close>: a number that is none, or out of range, gives an invalid date, which the database refuses.\<close>

definition date_ms :: "num \<Rightarrow> int option" where
  "date_ms n = (case n of
     Num x \<Rightarrow> (let t = (if 0 \<le> x then \<lfloor>x\<rfloor> else \<lceil>x\<rceil>) in if \<bar>t\<bar> \<le> 8640000000000000 then Some t else None)
   | _ \<Rightarrow> None)"

definition stamp_ms :: "json option \<Rightarrow> int option option" where
  "stamp_ms t = (let s = jopt t ''seconds'' in if json_truthy s then Some (date_ms (num_mul (to_number s) (Num 1000))) else None)"

definition export_span :: "obs_call \<Rightarrow> export_request \<Rightarrow> span option" where
  "export_span c q =
     (case (nullish (stamp_ms (xq_start q)) (Some (oc_now c)), nullish (map_option (map_option Some) (stamp_ms (xq_end q))) (Some None)) of
        (Some start, Some stop) \<Rightarrow> Some
          \<lparr>sn_trace = xq_execution q, sn_id = (if xq_span q = [] then ''span-'' @ show_int (oc_now c) else xq_span q), sn_parent = None,
           sn_service = ''egaop'', sn_operation = (if xq_name q = [] then ''unknown'' else xq_name q),
           sn_namespace = env_or (field_text (xq_attributes q) ''egaop.namespace'') ''default'', sn_start = start, sn_end = stop,
           sn_status = env_or (field_text (xq_attributes q) ''egaop.status'') ''ok'',
           sn_attributes = (if json_truthy (xq_attributes q) then the (xq_attributes q) else JObj []), sn_events = JArr []\<rparr>
      | _ \<Rightarrow> None)"

definition stored_of :: "export_request \<Rightarrow> stored_span" where
  "stored_of q = \<lparr>sd_span_id = Some (xq_span q), sd_name = Some (xq_name q), sd_start = xq_start q, sd_end = xq_end q, sd_attributes = xq_attributes q\<rparr>"

definition ExportTrace :: "obs_call \<Rightarrow> export_request \<Rightarrow> obs_state \<Rightarrow> json \<times> obs_state" where
  "ExportTrace c q s =
     (let existing = nullish (js_get (ob_store s) (xq_execution q)) [];
          s1 = s\<lparr>ob_store := js_set (xq_execution q) (existing @ [stored_of q]) (ob_store s)\<rparr>
      in (JObj [(''success'', JBool True)],
          case export_span c q of
            None \<Rightarrow> s1
          | Some sp \<Rightarrow> if oc_db c then s1\<lparr>ob_rows := snd (ingestSpan sp (ob_rows s1))\<rparr> else s1))"

definition seconds_json :: "int \<Rightarrow> json" where
  "seconds_json ms = JObj [(''seconds'', JNum (num_of_int (ms div 1000)))]"

definition stored_row :: "span \<Rightarrow> stored_span" where
  "stored_row r = \<lparr>sd_span_id = Some (sn_id r), sd_name = Some (sn_operation r), sd_start = Some (seconds_json (sn_start r)),
     sd_end = Some (case sn_end r of None \<Rightarrow> JNull | Some t \<Rightarrow> seconds_json t), sd_attributes = Some (sn_attributes r)\<rparr>"

definition drop_dollar :: "string \<Rightarrow> string" where
  "drop_dollar t = (if CHR ''$'' \<in> set t then takeWhile (\<lambda>c. c \<noteq> CHR ''$'') t @ tl (dropWhile (\<lambda>c. c \<noteq> CHR ''$'') t) else t)"

definition span_cost :: "stored_span \<Rightarrow> string" where
  "span_cost s = env_or (field_text (sd_attributes s) ''egaop.llm.cost'') ''$0.00''"

definition cost_number :: "string \<Rightarrow> num" where
  "cost_number t = (let n = parse_float (drop_dollar t) in if n = NNaN then Num 0 else n)"

definition span_duration :: "stored_span \<Rightarrow> num" where
  "span_duration s =
     (let startSec = (if json_truthy (jopt (sd_start s) ''seconds'') then jopt (sd_start s) ''seconds'' else Some (JNum (Num 0)));
          endSec = (if json_truthy (jopt (sd_end s) ''seconds'') then jopt (sd_end s) ''seconds'' else startSec)
      in num_mul (num_sub (to_number endSec) (to_number startSec)) (Num 1000))"

definition opt_member :: "string \<Rightarrow> json option \<Rightarrow> (string \<times> json) list" where
  "opt_member k v = (case v of None \<Rightarrow> [] | Some j \<Rightarrow> [(k, j)])"

definition step_json :: "nat \<Rightarrow> stored_span \<Rightarrow> json" where
  "step_json n s = JObj ([(''step'', JNum (num_of_int (int n)))] @ opt_member ''type'' (map_option JStr (sd_name s)) @
     opt_member ''name'' (map_option JStr (sd_name s)) @ [(''input'', JObj [])] @ opt_member ''output'' (sd_attributes s) @
     [(''cost'', JStr (span_cost s)), (''duration_ms'', JNum (span_duration s)), (''status'', JStr ''succeeded''), (''policy_decision'', JStr ''allow'')])"

definition replay_json :: "string \<Rightarrow> stored_span list \<Rightarrow> json" where
  "replay_json execution spans = JObj
     [(''execution_id'', JStr execution), (''agent_ref'', JStr (env_or (field_text (sd_attributes (hd spans)) ''egaop.agent_id'') ''unknown'')),
      (''inputs'', JObj []), (''steps'', JArr (map (\<lambda>(n, s). step_json (Suc n) s) (enumerate 0 spans))),
      (''outputs'', JObj [(''status'', JStr ''fulfilled'')]),
      (''total_cost'', JStr (CHR ''$'' # to_fixed 6 (foldl num_add (Num 0) (map (cost_number \<circ> span_cost) spans)))),
      (''total_duration_ms'', JNum (foldl num_add (Num 0) (map span_duration spans))), (''policy_violations'', JNum (Num 0))]"

datatype replay_reply = Replayed json | Replay_error int string

definition GetExecutionReplay :: "obs_call \<Rightarrow> string \<Rightarrow> obs_state \<Rightarrow> replay_reply" where
  "GetExecutionReplay c execution s =
     (let durable = (if oc_db c then map stored_row (getTrace execution ''default'' (ob_rows s)) else []);
          spans = (if durable = [] then nullish (js_get (ob_store s) execution) [] else durable)
      in if spans = [] then Replay_error 5 (''Execution '' @ execution @ '' not found.'') else Replayed (replay_json execution spans))"

definition obs_health :: "bool \<Rightarrow> json" where
  "obs_health db_ok = JObj [(''status'', JStr (if db_ok then ''SERVING'' else ''NOT_SERVING''))]"

definition obs_healthz :: "string \<Rightarrow> bool \<Rightarrow> nat \<times> json" where
  "obs_healthz stamp db_ok =
     (if db_ok then (200, JObj [(''status'', JStr ''SERVING''), (''service'', JStr ''observability-plane''), (''timestamp'', JStr stamp)])
      else (503, JObj [(''status'', JStr ''NOT_SERVING''), (''service'', JStr ''observability-plane'')]))"

text \<open>A restart loses what is in memory.\<close>

definition obs_restart :: "obs_state \<Rightarrow> obs_state" where
  "obs_restart s = s\<lparr>ob_store := []\<rparr>"

section \<open>Properties\<close>

lemma has_span_ids: "has_span rows i \<longleftrightarrow> i \<in> set (map sn_id rows)"
  by (induction rows) (auto simp: has_span_def)

lemma ingest_batch: "foldl (\<lambda>rows sp. snd (ingestSpan sp rows)) rows sps = rows @ new_spans (map sn_id rows) sps"
proof -
  have seen: "new_spans xs sps = new_spans ys sps" if "set xs = set ys" for xs ys sps
    using that
  proof (induction sps arbitrary: xs ys)
    case (Cons sp sps)
    have "set (sn_id sp # xs) = set (sn_id sp # ys)" using Cons.prems by simp
    from Cons.IH[OF this] Cons.IH[OF Cons.prems] show ?case unfolding new_spans.simps Cons.prems by simp
  qed simp
  show ?thesis
  proof (induction sps arbitrary: rows)
    case (Cons sp sps)
    have has: "has_span rows (sn_id sp) \<longleftrightarrow> sn_id sp \<in> set (map sn_id rows)" by (rule has_span_ids)
    show ?case
    proof (cases "has_span rows (sn_id sp)")
      case True
      with has Cons.IH[of rows] show ?thesis by (simp add: ingestSpan_def)
    next
      case False
      have "new_spans (map sn_id (rows @ [sp])) sps = new_spans (sn_id sp # map sn_id rows) sps" by (rule seen) simp
      with False has Cons.IH[of "rows @ [sp]"] show ?thesis by (simp add: ingestSpan_def)
    qed
  qed simp
qed

text \<open>A batch of spans has the effect of ingesting its spans one by one, and reports how many were new.\<close>

theorem batch_equals_single_ingests:
  "snd (batchIngest spans rows) = foldl (\<lambda>rows sp. snd (ingestSpan sp rows)) rows spans \<and>
   fst (batchIngest spans rows) + length rows = length (snd (batchIngest spans rows))"
  by (simp add: ingest_batch batchIngest_def Let_def)

lemma sort_key_Nil_iff: "sort_key f xs = [] \<longleftrightarrow> xs = []"
  by (metis length_0_conv length_sort)

lemma ingest_distinct: "distinct (map sn_id rows) \<Longrightarrow> distinct (map sn_id (snd (ingestSpan sp rows)))"
  by (auto simp: ingestSpan_def has_span_def list_ex_iff)

lemma ingest_member: "has_span rows i \<Longrightarrow> has_span (snd (ingestSpan sp rows)) i"
  by (auto simp: ingestSpan_def has_span_def)

lemma export_rows:
  "ob_rows (snd (ExportTrace c q s)) = (case export_span c q of
     Some sp \<Rightarrow> if oc_db c then snd (ingestSpan sp (ob_rows s)) else ob_rows s | None \<Rightarrow> ob_rows s)"
  by (simp add: ExportTrace_def Let_def split: option.split)

lemma export_trace_ns:
  assumes "export_span c q = Some sp"
  shows "sn_trace sp = xq_execution q" "sn_namespace sp = env_or (field_text (xq_attributes q) ''egaop.namespace'') ''default''"
  using assms by (auto simp: export_span_def split: option.splits)

text \<open>The replay of an execution outside the default namespace is lost with the process: its spans are in the
  table, but the replay asks the table for the default namespace only, and finds nothing after a restart.\<close>

theorem replay_lost_after_restart:
  assumes "export_span c q = Some sp" and "oc_db c" and "sn_namespace sp \<noteq> ''default''" and "\<not> has_span (ob_rows s) (sn_id sp)"
    and "getTrace (xq_execution q) ''default'' (ob_rows s) = []"
  shows "sp \<in> set (ob_rows (snd (ExportTrace c q s))) \<and> (\<exists>r. GetExecutionReplay c (xq_execution q) (snd (ExportTrace c q s)) = Replayed r) \<and>
    (\<exists>m. GetExecutionReplay c' (xq_execution q) (obs_restart (snd (ExportTrace c q s))) = Replay_error 5 m)"
proof -
  have rows: "ob_rows (snd (ExportTrace c q s)) = ob_rows s @ [sp]"
    using assms(1,2,4) by (simp add: export_rows ingestSpan_def)
  have "filter (\<lambda>r. sn_trace r = xq_execution q \<and> sn_namespace r = ''default'') (ob_rows s) = []"
    using assms(5) by (simp only: getTrace_def by_start_def sort_key_Nil_iff)
  then have none: "getTrace (xq_execution q) ''default'' (ob_rows (snd (ExportTrace c q s))) = []"
    using assms(3) by (simp add: rows getTrace_def by_start_def)
  have "js_get (ob_store (snd (ExportTrace c q s))) (xq_execution q) \<noteq> None \<and>
      the (js_get (ob_store (snd (ExportTrace c q s))) (xq_execution q)) \<noteq> []"
    by (simp add: ExportTrace_def Let_def js_get_set split: option.split)
  then show ?thesis
    using rows none by (auto simp: GetExecutionReplay_def Let_def obs_restart_def)
qed

abbreviation spans_of :: "(string, span list) js_map \<Rightarrow> span set" where
  "spans_of m \<equiv> set (concat (map snd m))"

definition add_to_group :: "(string, span list) js_map \<Rightarrow> span \<Rightarrow> (string, span list) js_map" where
  "add_to_group m sp = js_set (sn_trace sp) (nullish (js_get m (sn_trace sp)) [] @ [sp]) m"

lemma spans_of_add: "spans_of (add_to_group m sp) \<subseteq> spans_of m \<union> {sp}"
proof -
  have "spans_of (js_set k v m) \<subseteq> spans_of m \<union> set v" for k v by (induction m) auto
  from this[of "sn_trace sp" "nullish (js_get m (sn_trace sp)) [] @ [sp]"]
  have "spans_of (add_to_group m sp) \<subseteq> spans_of m \<union> (set (nullish (js_get m (sn_trace sp)) []) \<union> {sp})"
    unfolding add_to_group_def set_append list.set by simp
  moreover have "set (nullish (js_get m k) []) \<subseteq> spans_of m" for k
    by (cases "js_get m k") (auto dest!: map_of_SomeD)
  ultimately show ?thesis by blast
qed

lemma spans_of_fold: "spans_of (foldl add_to_group m spans) \<subseteq> spans_of m \<union> set spans"
proof (induction spans arbitrary: m)
  case (Cons x spans)
  have "spans_of (foldl add_to_group (add_to_group m x) spans) \<subseteq> spans_of (add_to_group m x) \<union> set spans" by (rule Cons.IH)
  also have "\<dots> \<subseteq> spans_of m \<union> {x} \<union> set spans" using spans_of_add by blast
  finally show ?case by auto
qed simp

lemma group_spans_set: "set (concat (group_spans spans)) \<subseteq> set spans"
  using spans_of_fold[of "[]" spans] unfolding group_spans_def add_to_group_def[abs_def] by simp

text \<open>Following the cursor of the trace list loses spans: a span with the start time of the last one on a page is on
  no later page.\<close>

theorem cursor_skips_equal_starts:
  assumes "tp_nextCursor (listTraces ns f t limit cur rows) = Some n"
    and "sn_start sp = n"
  shows "sp \<notin> set (concat (tp_traces (listTraces ns f t limit' (Some n) rows)))"
proof -
  let ?found = "take (limit' + 1) (by_start_desc (filter (\<lambda>r. sn_namespace r = ns \<and> f \<le> sn_start r \<and> sn_start r \<le> t \<and> sn_start r < n) rows))"
  have found: "set ?found \<subseteq> {r. sn_start r < n}"
    by (rule subset_trans[OF set_take_subset]) (auto simp: by_start_desc_def)
  have "tp_traces (listTraces ns f t limit' (Some n) rows) = group_spans (if limit' < length ?found then take limit' ?found else ?found)"
    by (simp add: listTraces_def Let_def)
  moreover have "set (if limit' < length ?found then take limit' ?found else ?found) \<subseteq> set ?found"
    by (simp add: set_take_subset_set_take)
  ultimately have "set (concat (tp_traces (listTraces ns f t limit' (Some n) rows))) \<subseteq> {r. sn_start r < n}"
    using group_spans_set found by (metis (no_types, lifting) subset_trans)
  with assms(2) show ?thesis by auto
qed

section \<open>Examples\<close>

definition demo_export :: export_request where
  "demo_export = \<lparr>xq_execution = ''x'', xq_span = ''s'', xq_name = ''llm'', xq_start = None, xq_end = None,
     xq_attributes = Some (JObj [(''fields'', JObj [(''egaop.namespace'', JObj [(''stringValue'', JStr ''finance'')])])])\<rparr>"

theorem replay_lost_after_restart_witness:
  "\<exists>m. GetExecutionReplay \<lparr>oc_now = 9, oc_db = True\<rparr> ''x'' (obs_restart (snd (ExportTrace \<lparr>oc_now = 5, oc_db = True\<rparr> demo_export
      \<lparr>ob_rows = [], ob_store = []\<rparr>))) = Replay_error 5 m"
proof -
  let ?c = "\<lparr>oc_now = 5, oc_db = True\<rparr>" and ?s = "\<lparr>ob_rows = [], ob_store = []\<rparr>"
  have "export_span ?c demo_export \<noteq> None" by code_simp
  then obtain sp where sp: "export_span ?c demo_export = Some sp" by blast
  have "env_or (field_text (xq_attributes demo_export) ''egaop.namespace'') ''default'' \<noteq> ''default''" by code_simp
  then have "sn_namespace sp \<noteq> ''default''" using export_trace_ns[OF sp] by simp
  from replay_lost_after_restart[OF sp _ this, of ?s "\<lparr>oc_now = 9, oc_db = True\<rparr>"]
  show ?thesis by (simp add: has_span_def getTrace_def by_start_def demo_export_def)
qed

definition demo_span :: "string \<Rightarrow> span" where
  "demo_span i = \<lparr>sn_trace = i, sn_id = i, sn_parent = None, sn_service = ''e'', sn_operation = ''o'', sn_namespace = ''n'', sn_start = 5,
     sn_end = None, sn_status = ''ok'', sn_attributes = JObj [], sn_events = JArr []\<rparr>"

theorem cursor_skips_equal_starts_witness:
  "tp_nextCursor (listTraces ''n'' 0 9 1 None [demo_span ''a'', demo_span ''b'']) = Some 5 \<and>
   demo_span ''b'' \<notin> set (concat (tp_traces (listTraces ''n'' 0 9 1 None [demo_span ''a'', demo_span ''b'']))) \<and>
   demo_span ''b'' \<notin> set (concat (tp_traces (listTraces ''n'' 0 9 1 (Some 5) [demo_span ''a'', demo_span ''b''])))"
proof -
  have next5: "tp_nextCursor (listTraces ''n'' 0 9 1 None [demo_span ''a'', demo_span ''b'']) = Some 5" by code_simp
  have first: "tp_traces (listTraces ''n'' 0 9 1 None [demo_span ''a'', demo_span ''b'']) = [[demo_span ''a'']]" by code_simp
  have other: "demo_span ''b'' \<noteq> demo_span ''a''" "sn_start (demo_span ''b'') = 5" by code_simp+
  show ?thesis using next5 other cursor_skips_equal_starts[OF next5 other(2), of 1] unfolding first by simp
qed

end
