(* ===== verification/Sandbox.thy ===== *)
theory Sandbox
  imports Crypto
begin

text \<open>
  What the sandbox drivers share: the types of \<open>packages/shared/src/sandbox/sandbox-driver.ts\<close>, the handling of
  the commands that are run in a new sandbox, and the parts of the language that only the drivers use.
\<close>

section \<open>The interface of a driver\<close>

record sandbox_spec =
  sp_executionId :: string
  sp_agentId :: string
  sp_namespace :: string
  sp_image :: string
  sp_isolationLevel :: "string option"
  sp_cpu :: "string option"
  sp_memory :: "string option"
  sp_envVars :: "(string \<times> json) list option"
  sp_initCommands :: "string list option"

record sandbox_made =
  sm_sandboxId :: string
  sm_status :: string
  sm_ipAddress :: string
  sm_initOutputs :: "string list"

record sandbox_status =
  sb_status :: string
  sb_cpu :: int
  sb_memory :: int
  sb_startedAt :: "int option"

text \<open>An error as the handlers see it: its message and the \<open>code\<close> that a driver may have attached.\<close>

record driver_error =
  de_message :: string
  de_code :: "string option"

definition status_only :: "string \<Rightarrow> sandbox_status" where
  "status_only t = \<lparr>sb_status = t, sb_cpu = 0, sb_memory = 0, sb_startedAt = None\<rparr>"

section \<open>Commands of a new sandbox\<close>

text \<open>
  Both drivers walk through the commands, refuse the ones their filter rejects, and record what the others
  printed or why they failed. \<open>run n\<close> is the answer to the \<open>n\<close>-th command of the list.
\<close>

definition blocked_text :: string where
  "blocked_text = ''BLOCKED: command rejected by security policy''"

fun run_init :: "(string \<Rightarrow> bool) \<Rightarrow> (nat \<Rightarrow> string \<Rightarrow> string + string) \<Rightarrow> nat \<Rightarrow> string list \<Rightarrow> string list" where
  "run_init safe run n [] = []"
| "run_init safe run n (cmd # cmds) =
     (if \<not> safe cmd then blocked_text
      else case run n cmd of Inr out \<Rightarrow> out | Inl e \<Rightarrow> ''ERROR: '' @ e) # run_init safe run (Suc n) cmds"

definition executed :: "(string \<Rightarrow> bool) \<Rightarrow> string list \<Rightarrow> string list" where
  "executed safe cmds = filter safe cmds"

text \<open>A filter of commands, and what every driver with one may rely on.\<close>

locale command_filter =
  fixes safe :: "string \<Rightarrow> bool"
  assumes safe_nonempty: "safe cmd \<Longrightarrow> cmd \<noteq> []"
    and safe_short: "safe cmd \<Longrightarrow> length cmd \<le> 4096"
begin

lemma one_answer_each: "length (run_init safe run n cmds) = length cmds"
  by (induction cmds arbitrary: n) auto

lemma blocked_not_run: "\<not> safe cmd \<Longrightarrow> run_init safe run n [cmd] = [blocked_text] \<and> executed safe [cmd] = []"
  by (simp add: executed_def)

lemma unsafe_never_asked: "(\<And>k c. safe c \<Longrightarrow> run k c = run' k c) \<Longrightarrow> run_init safe run n cmds = run_init safe run' n cmds"
  by (induction cmds arbitrary: n) auto

lemma executed_bounded: "list_all (\<lambda>c. c \<noteq> [] \<and> length c \<le> 4096) (executed safe cmds)"
  using safe_nonempty safe_short by (auto simp: executed_def list_all_iff)

end

section \<open>The language\<close>

text \<open>\<open>s.split(/\s+/)\<close> of a text without blanks at its ends: the words between runs of blanks.\<close>

fun split_spaces :: "string \<Rightarrow> string list" where
  "split_spaces [] = [[]]"
| "split_spaces (c # cs) =
     (if is_space c then (if cs = [] \<or> \<not> is_space (hd cs) then [] # split_spaces cs else split_spaces cs)
      else case split_spaces cs of w # ws \<Rightarrow> (c # w) # ws | [] \<Rightarrow> [[c]])"

definition tokens_of :: "string \<Rightarrow> string list" where
  "tokens_of cmd = split_spaces (trim cmd)"

text \<open>\<open>Object.entries(envVars)\<close> as the pairs of name and text that a template literal makes of them.\<close>

definition env_pairs :: "(string \<times> json) list option \<Rightarrow> (string \<times> string option) list" where
  "env_pairs env = map (\<lambda>(k, v). (k, json_text v)) (own_order (nullish env []))"

text \<open>\<open>parseInt(s)\<close> without a radix reads a hexadecimal number after \<open>0x\<close>.\<close>

definition hex_digits :: "string \<Rightarrow> jint" where
  "hex_digits s = (let ds = takeWhile (\<lambda>c. hex_val c \<noteq> None) s
     in if ds = [] then NaN else JInt (foldl (\<lambda>a c. 16 * a + int (the (hex_val c))) 0 ds))"

definition parse_int_auto :: "string \<Rightarrow> jint" where
  "parse_int_auto s =
     (let t = dropWhile is_space s; neg = (take 1 t = ''-''); u = (if t \<noteq> [] \<and> hd t \<in> {CHR ''-'', CHR ''+''} then tl t else t)
      in if take 2 u \<in> {''0x'', ''0X''} then (if neg then jsub (JInt 0) (hex_digits (drop 2 u)) else hex_digits (drop 2 u))
         else parse_int s)"

definition jint_num :: "jint \<Rightarrow> num" where
  "jint_num i = (case i of NaN \<Rightarrow> NNaN | JInt k \<Rightarrow> num_of_int k)"

lemma split_spaces_word: "list_all (\<lambda>c. \<not> is_space c) w \<Longrightarrow> split_spaces w = [w]"
  by (induction w) auto

lemma split_spaces_not_Nil: "split_spaces s \<noteq> []"
  by (induction s) (auto split: list.split)

lemma split_spaces_head: "\<not> is_space c \<Longrightarrow> \<exists>w ws. split_spaces (c # s) = (c # w) # ws"
  by (cases "split_spaces s") auto

lemma split_spaces_first:
  "list_all (\<lambda>c. \<not> is_space c) w \<Longrightarrow> is_space b \<Longrightarrow> s \<noteq> [] \<Longrightarrow> \<not> is_space (hd s) \<Longrightarrow> split_spaces (w @ b # s) = w # split_spaces s"
  by (induction w) auto

text \<open>Every character of the text is in a word or is a blank.\<close>

lemma split_spaces_chars: "set s \<subseteq> {c. is_space c} \<union> \<Union> (set ` set (split_spaces s))"
proof (induction s)
  case (Cons c s)
  then show ?case by (cases "split_spaces s") auto
qed simp

end
