(* ===== verification/DockerDriver.thy ===== *)
theory DockerDriver
  imports Sandbox Semaphore
begin

text \<open>
  The driver that runs sandboxes as containers, \<open>execution-plane/sandbox-runtime/src/docker-driver.ts\<close>. The
  daemon is a parameter: what it answers is part of an event. A creation is cut at its suspensions, so that
  creations, terminations and the clean-up interleave as they do in the service.
\<close>

section \<open>Filters\<close>

definition alphanumeric :: "char \<Rightarrow> bool" where
  "alphanumeric c \<longleftrightarrow> between (CHR ''a'') (CHR ''z'') c \<or> between (CHR ''A'') (CHR ''Z'') c \<or> between (CHR ''0'') (CHR ''9'') c"

definition token_char :: "char \<Rightarrow> bool" where
  "token_char c \<longleftrightarrow> alphanumeric c \<or> c \<in> set ''_-./:=+@%^''"

definition init_token_rx :: regex where
  "init_token_rx = Cat [Bol, Rep 1 None (Cls token_char), Eol]"

definition init_binary_rx :: regex where
  "init_binary_rx = Cat [Bol, Cls alphanumeric, Rep 0 None (Cls (\<lambda>c. alphanumeric c \<or> c \<in> set ''_.-'')), Eol]"

definition FORBIDDEN_INIT_BINARIES :: "string list" where
  "FORBIDDEN_INIT_BINARIES =
     [''rm'', ''dd'', ''mkfs'', ''mke2fs'', ''shred'', ''mount'', ''umount'', ''fdisk'', ''parted'',
      ''reboot'', ''halt'', ''poweroff'', ''shutdown'', ''kill'', ''killall'', ''pkill'',
      ''chmod'', ''chown'', ''usermod'', ''passwd'', ''su'', ''sudo'', ''nc'', ''ncat'', ''socat'']"

definition allowed_image_rx :: regex where
  "allowed_image_rx = Cat [Bol, Alt [Cat [Lit ''egaop-'', Rep 1 None (Alt [word, one_of ''-''])],
       Cat [Lit ''ghcr.io/ismael-2001/the-kubernetes-of-ai-agents/'', Rep 1 None (Alt [word, one_of ''-''])]],
     Lit '':'', Rep 1 None (Alt [word, one_of ''.-'']), Eol]"

definition binary_of :: "string list \<Rightarrow> string" where
  "binary_of tokens = last (split_on (CHR ''/'') (hd tokens))"

definition isInitCommandSafe :: "string \<Rightarrow> bool" where
  "isInitCommandSafe cmd =
     (if cmd = [] then False
      else if 4096 < length cmd then False
      else let tokens = tokens_of cmd
        in if tokens = [] \<or> 128 < length tokens then False
           else if \<not> rx_test init_binary_rx (binary_of tokens) \<or> binary_of tokens \<in> set FORBIDDEN_INIT_BINARIES then False
           else list_all (rx_test init_token_rx) tokens)"

section \<open>State\<close>

datatype creation =
    Waiting sandbox_spec
  | Granted sandbox_spec
  | Creating sandbox_spec
  | Starting sandbox_spec string
  | Removing driver_error
  | Setting_up sandbox_spec string
  | Finished "driver_error + sandbox_made"

record docker_driver =
  dd_maxContainers :: jint
  dd_seccompProfile :: "string option"
  dd_running :: int
  dd_waiters :: "nat list"
  dd_active :: "string list"
  dd_calls :: "(nat, creation) js_map"
  dd_cleanup :: "string list"

definition docker_new :: "(string \<Rightarrow> string option) \<Rightarrow> docker_driver" where
  "docker_new env =
     \<lparr>dd_maxContainers = jmax (JInt 1) (parse_int (env_or (env ''SANDBOX_MAX_CONTAINERS'') ''20'')),
      dd_seccompProfile = (case env ''SANDBOX_SECCOMP_PROFILE'' of
         None \<Rightarrow> None | Some p \<Rightarrow> if p \<noteq> [] \<and> trim p \<noteq> [] then Some (trim p) else None),
      dd_running = 0, dd_waiters = [], dd_active = [], dd_calls = [], dd_cleanup = []\<rparr>"

definition set_call :: "nat \<Rightarrow> creation \<Rightarrow> docker_driver \<Rightarrow> docker_driver" where
  "set_call i p d = d\<lparr>dd_calls := js_set i p (dd_calls d)\<rparr>"

section \<open>Slots\<close>

definition acquireContainerSlot :: "nat \<Rightarrow> sandbox_spec \<Rightarrow> docker_driver \<Rightarrow> docker_driver" where
  "acquireContainerSlot i spec d =
     (if jlt (JInt (dd_running d)) (dd_maxContainers d) then set_call i (Granted spec) (d\<lparr>dd_running := dd_running d + 1\<rparr>)
      else set_call i (Waiting spec) (d\<lparr>dd_waiters := dd_waiters d @ [i]\<rparr>))"

definition limit_text :: "jint \<Rightarrow> string" where
  "limit_text n = ''Sandbox container limit of '' @ (case n of NaN \<Rightarrow> ''NaN'' | JInt k \<Rightarrow> show_int k) @ '' reached''"

definition slot_timeout :: "nat \<Rightarrow> docker_driver \<Rightarrow> docker_driver" where
  "slot_timeout i d =
     (if i \<in> set (dd_waiters d)
      then set_call i (Finished (Inl \<lparr>de_message = limit_text (dd_maxContainers d), de_code = Some ''RESOURCE_EXHAUSTED''\<rparr>))
             (d\<lparr>dd_waiters := filter (\<lambda>w. w \<noteq> i) (dd_waiters d)\<rparr>)
      else d)"

text \<open>The waiter that takes over a slot goes on with its creation.\<close>

definition resume :: "nat \<Rightarrow> docker_driver \<Rightarrow> docker_driver" where
  "resume w d = (case js_get (dd_calls d) w of Some (Waiting spec) \<Rightarrow> set_call w (Granted spec) d | _ \<Rightarrow> d)"

definition releaseContainerSlot :: "docker_driver \<Rightarrow> docker_driver" where
  "releaseContainerSlot d =
     (case dd_waiters d of
        w # ws \<Rightarrow> resume w (d\<lparr>dd_waiters := ws\<rparr>)
      | [] \<Rightarrow> if 0 < dd_running d then d\<lparr>dd_running := dd_running d - 1\<rparr> else d)"

section \<open>The container\<close>

record host_config =
  hc_Memory :: num
  hc_NanoCpus :: num
  hc_NetworkMode :: string
  hc_SecurityOpt :: "string list"
  hc_CapDrop :: "string list"
  hc_ReadonlyRootfs :: bool
  hc_Runtime :: "string option"

record container_options =
  co_Image :: string
  co_name :: string
  co_Cmd :: "string list"
  co_Env :: "string list"
  co_HostConfig :: host_config
  co_Labels :: "(string \<times> string) list"

definition nano_cpus :: "string option \<Rightarrow> num" where
  "nano_cpus cpu = (if truthy cpu then math_round (num_mul (parse_float (the cpu)) (Num 1000000000)) else Num 500000000)"

definition memory_bytes :: "string option \<Rightarrow> num" where
  "memory_bytes mem = (if truthy mem then num_mul (num_mul (jint_num (parse_int_auto (the mem))) (Num 1024)) (Num 1024)
     else Num (512 * 1024 * 1024))"

definition isolation_runtime :: "string option \<Rightarrow> string option" where
  "isolation_runtime level =
     (if level = Some ''Enhanced'' then Some ''runsc'' else if level = Some ''Maximum'' then Some ''firecracker'' else None)"

definition host_config_of :: "string option \<Rightarrow> sandbox_spec \<Rightarrow> host_config" where
  "host_config_of seccomp spec =
     \<lparr>hc_Memory = memory_bytes (sp_memory spec), hc_NanoCpus = nano_cpus (sp_cpu spec), hc_NetworkMode = ''egaop-sandbox'',
      hc_SecurityOpt = ''no-new-privileges'' # (case seccomp of None \<Rightarrow> [] | Some p \<Rightarrow> [''seccomp='' @ p]),
      hc_CapDrop = [''ALL''], hc_ReadonlyRootfs = False, hc_Runtime = isolation_runtime (sp_isolationLevel spec)\<rparr>"

definition container_image :: "sandbox_spec \<Rightarrow> string" where
  "container_image spec = (if sp_image spec = [] then ''egaop-base-runtime:latest'' else sp_image spec)"

definition image_allowed :: "string \<Rightarrow> bool" where
  "image_allowed img = rx_test allowed_image_rx img"

text \<open>\<open>k=v\<close> for every variable; a value that has no text makes the template throw.\<close>

definition docker_env :: "(string \<times> json) list option \<Rightarrow> string list option" where
  "docker_env env = (let ps = env_pairs env
     in if list_all (\<lambda>(k, v). v \<noteq> None) ps then Some (map (\<lambda>(k, v). k @ ''='' @ the v) ps) else None)"

definition container_options_of :: "string option \<Rightarrow> sandbox_spec \<Rightarrow> container_options option" where
  "container_options_of seccomp spec =
     map_option (\<lambda>env. \<lparr>co_Image = container_image spec, co_name = ''egaop-agent-'' @ sp_executionId spec,
       co_Cmd = [''node'', ''/workspace/server.js''], co_Env = env, co_HostConfig = host_config_of seccomp spec,
       co_Labels = [(''egaop.agent.id'', sp_agentId spec), (''egaop.execution.id'', sp_executionId spec), (''egaop.plane'', ''execution'')]\<rparr>)
     (docker_env (sp_envVars spec))"

definition inspect_ip :: "json option \<Rightarrow> string" where
  "inspect_ip info =
     (let nets = Option.bind (Option.bind info (\<lambda>i. jget i ''NetworkSettings'')) (\<lambda>s. jget s ''Networks'');
          net = Option.bind nets (\<lambda>n. jget n ''egaop-sandbox''); ip = Option.bind net (\<lambda>n. jget n ''IPAddress'')
      in case ip of Some (JStr t) \<Rightarrow> if t = [] then ''unknown'' else t | _ \<Rightarrow> ''unknown'')"

section \<open>createSandbox\<close>

text \<open>What a creation does once it has its slot, up to the call that creates the container.\<close>

definition image_error :: "string \<Rightarrow> driver_error" where
  "image_error img = \<lparr>de_message = ''Image not in allowlist: '' @ img, de_code = Some ''INVALID_ARGUMENT''\<rparr>"

definition fail_call :: "nat \<Rightarrow> driver_error \<Rightarrow> docker_driver \<Rightarrow> docker_driver" where
  "fail_call i e d = releaseContainerSlot (set_call i (Finished (Inl e)) d)"

definition begin_creation :: "nat \<Rightarrow> sandbox_spec \<Rightarrow> docker_driver \<Rightarrow> container_options option \<times> docker_driver" where
  "begin_creation i spec d =
     (if \<not> image_allowed (container_image spec) then (None, fail_call i (image_error (container_image spec)) d)
      else case container_options_of (dd_seccompProfile d) spec of
          None \<Rightarrow> (None, fail_call i \<lparr>de_message = ''Cannot convert object to primitive value'', de_code = None\<rparr> d)
        | Some o' \<Rightarrow> (Some o', set_call i (Creating spec) d))"

definition container_created :: "nat \<Rightarrow> sandbox_spec \<Rightarrow> driver_error + string \<Rightarrow> docker_driver \<Rightarrow> docker_driver" where
  "container_created i spec answer d =
     (case answer of Inl e \<Rightarrow> fail_call i e d | Inr cid \<Rightarrow> set_call i (Starting spec cid) d)"

definition set_add :: "'a \<Rightarrow> 'a list \<Rightarrow> 'a list" where
  "set_add x xs = (if x \<in> set xs then xs else xs @ [x])"

definition container_started :: "nat \<Rightarrow> sandbox_spec \<Rightarrow> string \<Rightarrow> driver_error option \<Rightarrow> docker_driver \<Rightarrow> docker_driver" where
  "container_started i spec cid failure d =
     (case failure of
        Some e \<Rightarrow> set_call i (Removing e) d
      | None \<Rightarrow> set_call i (Setting_up spec cid) (d\<lparr>dd_active := set_add cid (dd_active d)\<rparr>))"

definition sandbox_ready :: "nat \<Rightarrow> sandbox_spec \<Rightarrow> string \<Rightarrow> json option \<Rightarrow> (nat \<Rightarrow> string \<Rightarrow> string + string) \<Rightarrow> docker_driver \<Rightarrow> docker_driver" where
  "sandbox_ready i spec cid info run d =
     set_call i (Finished (Inr \<lparr>sm_sandboxId = cid, sm_status = ''Running'', sm_ipAddress = inspect_ip info,
       sm_initOutputs = run_init isInitCommandSafe run 0 (nullish (sp_initCommands spec) [])\<rparr>)) d"

section \<open>The other operations\<close>

text \<open>The daemon's answer to the forced removal of any name or identifier it knows.\<close>

definition terminateSandbox :: "string \<Rightarrow> bool \<Rightarrow> docker_driver \<Rightarrow> bool \<times> docker_driver" where
  "terminateSandbox sandboxId removed d =
     (if removed then (True, releaseContainerSlot (d\<lparr>dd_active := remove1 sandboxId (dd_active d)\<rparr>)) else (False, d))"

definition cleanup_begin :: "docker_driver \<Rightarrow> docker_driver" where
  "cleanup_begin d = d\<lparr>dd_cleanup := dd_active d\<rparr>"

definition cleanup_next :: "docker_driver \<Rightarrow> docker_driver" where
  "cleanup_next d =
     (case dd_cleanup d of
        [] \<Rightarrow> d
      | cid # rest \<Rightarrow> releaseContainerSlot (d\<lparr>dd_cleanup := rest, dd_active := remove1 cid (dd_active d)\<rparr>))"

definition activeContainerCount :: "docker_driver \<Rightarrow> nat" where
  "activeContainerCount d = length (dd_active d)"

text \<open>The state of a container, or the status code of the daemon's refusal.\<close>

definition docker_status :: "int option + (string \<times> int option) \<Rightarrow> sandbox_status" where
  "docker_status answer =
     (case answer of
        Inr (state, started) \<Rightarrow> \<lparr>sb_status = (if state = [] then ''unknown'' else state), sb_cpu = 0, sb_memory = 0, sb_startedAt = started\<rparr>
      | Inl code \<Rightarrow> status_only (if code = Some 404 then ''NotFound'' else ''Unknown''))"

definition docker_health :: "bool \<Rightarrow> bool" where
  "docker_health ping = ping"

section \<open>Events\<close>

datatype docker_event =
    Call nat sandbox_spec
  | Slot_timer nat
  | Go_on nat
  | Created nat "driver_error + string"
  | Started nat "driver_error option"
  | Removed nat
  | Ready nat "json option" "nat \<Rightarrow> string \<Rightarrow> string + string"
  | Terminated string bool
  | Cleanup
  | Cleaned

fun docker_step :: "docker_event \<Rightarrow> docker_driver \<Rightarrow> docker_driver option" where
  "docker_step (Call i spec) d = (if js_get (dd_calls d) i = None then Some (acquireContainerSlot i spec d) else None)"
| "docker_step (Slot_timer i) d = Some (slot_timeout i d)"
| "docker_step (Go_on i) d = (case js_get (dd_calls d) i of Some (Granted spec) \<Rightarrow> Some (snd (begin_creation i spec d)) | _ \<Rightarrow> None)"
| "docker_step (Created i a) d = (case js_get (dd_calls d) i of Some (Creating spec) \<Rightarrow> Some (container_created i spec a d) | _ \<Rightarrow> None)"
| "docker_step (Started i f) d =
     (case js_get (dd_calls d) i of Some (Starting spec cid) \<Rightarrow> Some (container_started i spec cid f d) | _ \<Rightarrow> None)"
| "docker_step (Removed i) d = (case js_get (dd_calls d) i of Some (Removing e) \<Rightarrow> Some (fail_call i e d) | _ \<Rightarrow> None)"
| "docker_step (Ready i info run) d =
     (case js_get (dd_calls d) i of Some (Setting_up spec cid) \<Rightarrow> Some (sandbox_ready i spec cid info run d) | _ \<Rightarrow> None)"
| "docker_step (Terminated sid ok) d = Some (snd (terminateSandbox sid ok d))"
| "docker_step Cleanup d = Some (cleanup_begin d)"
| "docker_step Cleaned d = Some (cleanup_next d)"

fun docker_run :: "docker_event list \<Rightarrow> docker_driver \<Rightarrow> docker_driver option" where
  "docker_run [] d = Some d"
| "docker_run (e # es) d = Option.bind (docker_step e d) (docker_run es)"

section \<open>What the filter of commands lets through\<close>

interpretation docker_filter: command_filter isInitCommandSafe
  by unfold_locales (auto simp: isInitCommandSafe_def Let_def split: if_splits)

text \<open>A line without blanks at its ends.\<close>

definition edges :: "string \<Rightarrow> bool" where
  "edges s \<longleftrightarrow> s \<noteq> [] \<and> \<not> is_space (hd s) \<and> \<not> is_space (last s)"

lemma trim_edges: "edges s \<Longrightarrow> trim s = s"
proof -
  assume e: "edges s"
  then have "dropWhile is_space s = s" by (cases s) (auto simp: edges_def)
  moreover have "dropWhile is_space (rev s) = rev s" using e by (cases s rule: rev_cases) (auto simp: edges_def)
  ultimately show ?thesis by (simp add: trim_def)
qed

lemma split_spaces_lines:
  "a \<noteq> [] \<Longrightarrow> \<not> is_space (last a) \<Longrightarrow> is_space n \<Longrightarrow> b \<noteq> [] \<Longrightarrow> \<not> is_space (hd b) \<Longrightarrow>
   split_spaces (a @ n # b) = split_spaces a @ split_spaces b"
proof (induction a)
  case (Cons c a)
  show ?case
  proof (cases "a = []")
    case True
    with Cons.prems show ?thesis by simp
  next
    case False
    then have "split_spaces (a @ n # b) = split_spaces a @ split_spaces b" using Cons by simp
    then show ?thesis using False by (cases "split_spaces a") (auto simp: split_spaces_not_Nil)
  qed
qed simp

lemma tokens_of_lines:
  assumes "edges a" and "edges b" and "is_space n"
  shows "tokens_of (a @ n # b) = tokens_of a @ tokens_of b"
proof -
  have "edges (a @ n # b)" using assms by (simp add: edges_def)
  then show ?thesis using assms split_spaces_lines[of a n b] by (simp add: tokens_of_def trim_edges edges_def)
qed

lemma tokens_of_not_Nil: "tokens_of s \<noteq> []"
  by (simp add: tokens_of_def split_spaces_not_Nil)

text \<open>The filter of forbidden programs looks at the first word of a command only, and takes a line feed for a
  blank: behind any accepted line, a second line may name any program, a forbidden one included, and the shell
  that gets the command runs it.\<close>

theorem second_line_unfiltered:
  assumes "isInitCommandSafe first" and "edges first" and "edges second"
    and "list_all (rx_test init_token_rx) (tokens_of second)"
    and "length first + length second < 4096" and "length (tokens_of first) + length (tokens_of second) \<le> 128"
  shows "isInitCommandSafe (first @ CHR 0x0A # second)"
proof -
  have t: "tokens_of (first @ CHR 0x0A # second) = tokens_of first @ tokens_of second"
    by (rule tokens_of_lines[OF assms(2,3)]) (simp add: is_space_def)
  have b: "binary_of (tokens_of first @ tokens_of second) = binary_of (tokens_of first)"
    by (simp add: binary_of_def tokens_of_not_Nil)
  show ?thesis
    using assms(1,4,5,6) unfolding isInitCommandSafe_def Let_def t b by (auto simp: tokens_of_not_Nil split: if_splits)
qed

theorem second_line_unfiltered_witness:
  "isInitCommandSafe (''echo ok'' @ CHR 0x0A # ''rm -rf /workspace'') \<and> \<not> isInitCommandSafe ''rm -rf /workspace''"
proof -
  have "isInitCommandSafe ''echo ok''" "edges ''echo ok''" "edges ''rm -rf /workspace''"
    "list_all (rx_test init_token_rx) (tokens_of ''rm -rf /workspace'')"
    "length ''echo ok'' + length ''rm -rf /workspace'' < 4096"
    "length (tokens_of ''echo ok'') + length (tokens_of ''rm -rf /workspace'') \<le> 128"
    by code_simp+
  note second_line_unfiltered[OF this]
  moreover have "\<not> isInitCommandSafe ''rm -rf /workspace''" by code_simp
  ultimately show ?thesis by blast
qed

text \<open>What an accepted command is made of.\<close>

lemma safe_tokens: "isInitCommandSafe cmd \<Longrightarrow> t \<in> set (tokens_of cmd) \<Longrightarrow> t \<noteq> [] \<and> list_all token_char t"
  by (auto simp: isInitCommandSafe_def Let_def list_all_iff init_token_rx_def rx_test_class split: if_splits)

section \<open>Slots and containers\<close>

definition holding :: "creation \<Rightarrow> bool" where
  "holding p = (case p of Granted _ \<Rightarrow> True | Creating _ \<Rightarrow> True | Starting _ _ \<Rightarrow> True | Removing _ \<Rightarrow> True | _ \<Rightarrow> False)"

lemma holding_simps [simp]:
  "holding (Granted s)" "holding (Creating s)" "holding (Starting s c)" "holding (Removing e)"
  "\<not> holding (Waiting s)" "\<not> holding (Setting_up s c)" "\<not> holding (Finished r)"
  by (simp_all add: holding_def)

definition is_waiting :: "creation option \<Rightarrow> bool" where
  "is_waiting p = (case p of Some (Waiting _) \<Rightarrow> True | _ \<Rightarrow> False)"

lemma is_waiting_simps [simp]:
  "is_waiting (Some (Waiting s))" "\<not> is_waiting None" "\<not> is_waiting (Some (Granted s))" "\<not> is_waiting (Some (Creating s))"
  "\<not> is_waiting (Some (Starting s c))" "\<not> is_waiting (Some (Removing e))" "\<not> is_waiting (Some (Setting_up s c))"
  "\<not> is_waiting (Some (Finished r))"
  by (simp_all add: is_waiting_def)

lemma holding_not_waiting: "holding p \<Longrightarrow> \<not> is_waiting (Some p)"
  by (cases p) simp_all

lemma is_waitingE: "is_waiting p \<Longrightarrow> (\<And>s. p = Some (Waiting s) \<Longrightarrow> thesis) \<Longrightarrow> thesis"
  by (auto simp: is_waiting_def split: option.splits creation.splits)

definition holders :: "docker_driver \<Rightarrow> nat" where
  "holders d = length (filter (holding \<circ> snd) (dd_calls d))"

text \<open>
  The slots of a driver, while \<open>k\<close> of them are in the hands of the operation under way: the counter is the number
  of creations that hold one and of the containers that run, and nobody waits while a slot is free.
\<close>

definition slots_ok :: "int \<Rightarrow> int \<Rightarrow> docker_driver \<Rightarrow> bool" where
  "slots_ok m k d \<longleftrightarrow> dd_maxContainers d = JInt m \<and> distinct (js_keys (dd_calls d)) \<and> distinct (dd_waiters d) \<and> distinct (dd_active d) \<and>
     (\<forall>i. i \<in> set (dd_waiters d) \<longleftrightarrow> is_waiting (js_get (dd_calls d) i)) \<and>
     dd_running d = int (holders d + length (dd_active d)) + k \<and> dd_running d \<le> m \<and> (dd_waiters d \<noteq> [] \<longrightarrow> dd_running d = m)"

lemma count_update:
  "distinct (js_keys m) \<Longrightarrow>
   length (filter (P \<circ> snd) (js_set i q m)) + (case js_get m i of None \<Rightarrow> 0 | Some p \<Rightarrow> if P p then 1 else 0) =
   length (filter (P \<circ> snd) m) + (if P q then 1 else 0)"
  by (induction m) (auto split: option.splits dest: map_of_SomeD)

lemma holders_set_call:
  assumes "distinct (js_keys (dd_calls d))"
  shows "holders (set_call i q d) + (case js_get (dd_calls d) i of None \<Rightarrow> 0 | Some p \<Rightarrow> if holding p then 1 else 0) =
    holders d + (if holding q then 1 else 0)"
  using count_update[OF assms, of holding i q] by (simp add: holders_def set_call_def)

lemma holders_fields [simp]:
  "holders (d\<lparr>dd_running := r\<rparr>) = holders d" "holders (d\<lparr>dd_waiters := w\<rparr>) = holders d"
  "holders (d\<lparr>dd_active := a\<rparr>) = holders d" "holders (d\<lparr>dd_cleanup := u\<rparr>) = holders d"
  by (simp_all add: holders_def)

lemma set_call_fields [simp]:
  "dd_running (set_call i q d) = dd_running d" "dd_waiters (set_call i q d) = dd_waiters d" "dd_active (set_call i q d) = dd_active d"
  "dd_maxContainers (set_call i q d) = dd_maxContainers d" "dd_cleanup (set_call i q d) = dd_cleanup d"
  "dd_seccompProfile (set_call i q d) = dd_seccompProfile d" "dd_calls (set_call i q d) = js_set i q (dd_calls d)"
  by (simp_all add: set_call_def)

lemma set_call_comm:
  "(set_call i q d)\<lparr>dd_running := r\<rparr> = set_call i q (d\<lparr>dd_running := r\<rparr>)" "(set_call i q d)\<lparr>dd_waiters := w\<rparr> = set_call i q (d\<lparr>dd_waiters := w\<rparr>)"
  "(set_call i q d)\<lparr>dd_active := a\<rparr> = set_call i q (d\<lparr>dd_active := a\<rparr>)"
  by (simp_all add: set_call_def)

text \<open>A call that waits for nothing moves on: its slot, if it gives one up or needs one, is in hand.\<close>

declare map_of_eq_Some_iff [simp del]

lemma slots_ok_set_call:
  assumes "slots_ok m k d" and "js_get (dd_calls d) i = Some p" and "\<not> is_waiting (Some p)" and "\<not> is_waiting (Some q)"
  shows "slots_ok m (k + (if holding p then 1 else 0) - (if holding q then 1 else 0)) (set_call i q d)"
  using assms holders_set_call[of d i q] by (auto simp: slots_ok_def js_get_set distinct_update split: if_splits)

lemma slots_ok_release:
  assumes ok: "slots_ok m 1 d"
  shows "slots_ok m 0 (releaseContainerSlot d)"
proof (cases "dd_waiters d")
  case Nil
  with ok show ?thesis by (auto simp: slots_ok_def releaseContainerSlot_def)
next
  case (Cons w ws)
  then have "is_waiting (js_get (dd_calls d) w)" using ok by (metis list.set_intros(1) slots_ok_def)
  then obtain s where s: "js_get (dd_calls d) w = Some (Waiting s)" by (rule is_waitingE)
  have "releaseContainerSlot d = set_call w (Granted s) (d\<lparr>dd_waiters := ws\<rparr>)"
    by (simp add: releaseContainerSlot_def Cons resume_def s)
  moreover have "holders (set_call w (Granted s) (d\<lparr>dd_waiters := ws\<rparr>)) = holders d + 1"
    using holders_set_call[of "d\<lparr>dd_waiters := ws\<rparr>" w "Granted s"] ok s by (simp add: slots_ok_def)
  moreover have "i \<in> set ws \<longleftrightarrow> i \<noteq> w \<and> is_waiting (js_get (dd_calls d) i)" for i
    using ok Cons by (auto simp: slots_ok_def)
  ultimately show ?thesis using ok Cons by (auto simp: slots_ok_def js_get_set distinct_update split: if_splits)
qed

lemma slots_ok_fail:
  assumes "slots_ok m 0 d" and "js_get (dd_calls d) i = Some p" and "holding p"
  shows "slots_ok m 0 (fail_call i e d)"
  using slots_ok_set_call[OF assms(1,2) holding_not_waiting[OF assms(3)], of "Finished (Inl e)"] assms(3)
  by (auto simp: fail_call_def intro!: slots_ok_release)

lemma slots_ok_acquire:
  assumes "slots_ok m 0 d" and "js_get (dd_calls d) i = None"
  shows "slots_ok m 0 (acquireContainerSlot i spec d)"
  using assms holders_set_call[of d i "Granted spec"] holders_set_call[of d i "Waiting spec"]
  by (auto simp: slots_ok_def acquireContainerSlot_def set_call_comm[symmetric] js_get_set distinct_update split: if_splits)

lemma slots_ok_timeout:
  assumes "slots_ok m 0 d"
  shows "slots_ok m 0 (slot_timeout i d)"
proof (cases "i \<in> set (dd_waiters d)")
  case True
  then have "is_waiting (js_get (dd_calls d) i)" using assms by (simp add: slots_ok_def)
  then obtain s where "js_get (dd_calls d) i = Some (Waiting s)" by (rule is_waitingE)
  with assms True holders_set_call[of d i "Finished (Inl \<lparr>de_message = limit_text (dd_maxContainers d), de_code = Some ''RESOURCE_EXHAUSTED''\<rparr>)"]
  show ?thesis
    by (auto simp: slots_ok_def slot_timeout_def set_call_comm[symmetric] js_get_set distinct_update split: if_splits)
qed (use assms in \<open>simp add: slot_timeout_def\<close>)

text \<open>
  The environment that the driver relies on: the daemon never reuses an identifier, and a termination names a
  container that runs, by the identifier that its creation returned.
\<close>

fun honest :: "docker_event \<Rightarrow> docker_driver \<Rightarrow> bool" where
  "honest (Started i f) d \<longleftrightarrow> (case js_get (dd_calls d) i of Some (Starting s cid) \<Rightarrow> cid \<notin> set (dd_active d) | _ \<Rightarrow> True)"
| "honest (Terminated sid ok) d \<longleftrightarrow> ok \<longrightarrow> sid \<in> set (dd_active d)"
| "honest Cleanup d \<longleftrightarrow> False"
| "honest Cleaned d \<longleftrightarrow> False"
| "honest _ d \<longleftrightarrow> True"

fun honest_run :: "docker_event list \<Rightarrow> docker_driver \<Rightarrow> bool" where
  "honest_run [] d \<longleftrightarrow> True"
| "honest_run (e # es) d \<longleftrightarrow> honest e d \<and> (case docker_step e d of None \<Rightarrow> True | Some d' \<Rightarrow> honest_run es d')"

lemma slots_ok_started:
  assumes "slots_ok m 0 d" and "js_get (dd_calls d) i = Some (Starting s cid)" and "cid \<notin> set (dd_active d)"
  shows "slots_ok m 0 (container_started i s cid f d)"
proof (cases f)
  case None
  have "slots_ok m (-1) (d\<lparr>dd_active := set_add cid (dd_active d)\<rparr>)"
    using assms by (auto simp: slots_ok_def set_add_def)
  from slots_ok_set_call[OF this, of i "Starting s cid" "Setting_up s cid"] assms(2) None show ?thesis
    by (simp add: container_started_def)
next
  case (Some e)
  with slots_ok_set_call[OF assms(1,2), of "Removing e"] show ?thesis by (simp add: container_started_def)
qed

lemma length_remove1_in: "x \<in> set xs \<Longrightarrow> Suc (length (remove1 x xs)) = length xs"
  by (induction xs) auto

lemma slots_ok_terminated:
  assumes "slots_ok m 0 d" and "ok \<Longrightarrow> sid \<in> set (dd_active d)"
  shows "slots_ok m 0 (snd (terminateSandbox sid ok d))"
proof (cases ok)
  case True
  then have "sid \<in> set (dd_active d)" using assms(2) by simp
  then have "int (length (dd_active d)) = int (length (remove1 sid (dd_active d))) + 1"
    using length_remove1_in[of sid "dd_active d"] by linarith
  then have "slots_ok m 1 (d\<lparr>dd_active := remove1 sid (dd_active d)\<rparr>)"
    using assms(1) by (auto simp: slots_ok_def)
  with True show ?thesis by (simp add: terminateSandbox_def slots_ok_release)
qed (use assms in \<open>simp add: terminateSandbox_def\<close>)

lemma slots_ok_step:
  assumes "docker_step e d = Some d'" and "honest e d" and ok: "slots_ok m 0 d"
  shows "slots_ok m 0 d'"
  using assms
proof (cases e)
  case (Go_on i)
  then obtain s where s: "js_get (dd_calls d) i = Some (Granted s)" and d': "d' = snd (begin_creation i s d)"
    using assms(1) by (auto split: option.splits creation.splits)
  show ?thesis
    using slots_ok_fail[OF ok s] slots_ok_set_call[OF ok s, of "Creating s"]
    by (auto simp: d' begin_creation_def split: option.split)
next
  case (Created i a)
  then obtain s where s: "js_get (dd_calls d) i = Some (Creating s)" and d': "d' = container_created i s a d"
    using assms(1) by (auto split: option.splits creation.splits)
  show ?thesis
    using slots_ok_fail[OF ok s] slots_ok_set_call[OF ok s, of "Starting s c" for c]
    by (auto simp: d' container_created_def split: sum.split)
next
  case (Started i f)
  then obtain s cid where "js_get (dd_calls d) i = Some (Starting s cid)" "d' = container_started i s cid f d"
    using assms(1) by (auto split: option.splits creation.splits)
  then show ?thesis using slots_ok_started[OF ok] assms(2) Started by simp
next
  case (Removed i)
  then obtain x where "js_get (dd_calls d) i = Some (Removing x)" "d' = fail_call i x d"
    using assms(1) by (auto split: option.splits creation.splits)
  then show ?thesis using slots_ok_fail[OF ok] by simp
next
  case (Ready i info run)
  then obtain s cid where s: "js_get (dd_calls d) i = Some (Setting_up s cid)" and d': "d' = sandbox_ready i s cid info run d"
    using assms(1) by (auto split: option.splits creation.splits)
  show ?thesis using slots_ok_set_call[OF ok s, of "Finished (Inr r)" for r] by (simp add: d' sandbox_ready_def)
next
  case (Call i s)
  then show ?thesis using assms(1) slots_ok_acquire[OF ok] by (auto split: if_splits)
next
  case (Terminated sid b)
  then show ?thesis using assms(1,2) slots_ok_terminated[OF ok] by auto
qed (use slots_ok_timeout[OF ok] in auto)

lemma slots_ok_run: "docker_run es d = Some d' \<Longrightarrow> honest_run es d \<Longrightarrow> slots_ok m 0 d \<Longrightarrow> slots_ok m 0 d'"
proof (induction es arbitrary: d)
  case (Cons e es)
  then obtain d1 where "docker_step e d = Some d1" "docker_run es d1 = Some d'" by (cases "docker_step e d") auto
  with Cons slots_ok_step[of e d d1 m] show ?case by auto
qed simp


text \<open>
  The environment of the next theorems: a driver at its limit, and a name that the daemon knows but that no running
  sandbox has, such as the name of another container on the host, or the name that the driver gave one of its own.
\<close>

definition at_limit :: "int \<Rightarrow> docker_driver \<Rightarrow> bool" where
  "at_limit m d \<longleftrightarrow> 0 < m \<and> slots_ok m 0 d \<and> int (activeContainerCount d) = m \<and> dd_waiters d = []"

text \<open>A termination is not checked against the sandboxes of the driver: it removes any container whose name the
  daemon knows, and gives up a slot for it, after which one container more than the limit runs.\<close>

theorem foreign_termination_breaks_limit:
  assumes "at_limit m d" and "sid \<notin> set (dd_active d)" and "js_get (dd_calls d) i = None"
    and "image_allowed (container_image spec)" and "container_options_of (dd_seccompProfile d) spec = Some opts" and "cid \<notin> set (dd_active d)"
  shows "fst (terminateSandbox sid True d) \<and>
    (\<exists>d'. docker_run [Terminated sid True, Call i spec, Go_on i, Created i (Inr cid), Started i None] d = Some d' \<and>
       int (activeContainerCount d') = m + 1)"
proof -
  have m: "0 < m" "dd_running d = m" "dd_maxContainers d = JInt m" "dd_waiters d = []" "int (length (dd_active d)) = m"
    using assms(1) by (auto simp: at_limit_def slots_ok_def activeContainerCount_def)
  have "snd (terminateSandbox sid True d) = d\<lparr>dd_running := m - 1\<rparr>"
    using assms(2) m by (simp add: terminateSandbox_def releaseContainerSlot_def remove1_idem)
  then show ?thesis using assms(3-6) m
    by (simp add: terminateSandbox_def acquireContainerSlot_def begin_creation_def container_created_def container_started_def
        set_add_def activeContainerCount_def js_get_set)
qed

definition demo_spec :: "string \<Rightarrow> sandbox_spec" where
  "demo_spec x = \<lparr>sp_executionId = x, sp_agentId = ''agent'', sp_namespace = ''egaop'', sp_image = ''egaop-base-runtime:latest'',
     sp_isolationLevel = Some ''Enhanced'', sp_cpu = None, sp_memory = None, sp_envVars = None, sp_initCommands = None\<rparr>"

definition one_env :: "string \<Rightarrow> string option" where
  "one_env k = (if k = ''SANDBOX_MAX_CONTAINERS'' then Some ''1'' else None)"

definition demo_creation :: "docker_event list" where
  "demo_creation = [Call 0 (demo_spec ''x''), Go_on 0, Created 0 (Inr ''c0''), Started 0 None]"

definition full_driver :: docker_driver where
  "full_driver = the (docker_run demo_creation (docker_new one_env))"

lemma full_driver_run: "docker_run demo_creation (docker_new one_env) = Some full_driver"
proof -
  have "docker_run demo_creation (docker_new one_env) \<noteq> None" by code_simp
  then show ?thesis by (simp add: full_driver_def)
qed

lemma one_env_limit: "parse_int (env_or (one_env ''SANDBOX_MAX_CONTAINERS'') ''20'') = JInt 1"
  by code_simp

lemma full_driver_honest: "honest_run demo_creation (docker_new one_env)"
  by code_simp


theorem foreign_termination_breaks_limit_witness:
  "activeContainerCount full_driver = 1 \<and>
   (\<exists>d'. docker_run [Terminated ''postgres'' True, Call 1 (demo_spec ''y''), Go_on 1, Created 1 (Inr ''c1''), Started 1 None] full_driver = Some d' \<and>
      int (activeContainerCount d') = 1 + 1)"
proof -
  have "slots_ok 1 0 (docker_new one_env)" by (simp add: slots_ok_def docker_new_def holders_def one_env_limit)
  then have "slots_ok 1 0 full_driver" by (rule slots_ok_run[OF full_driver_run full_driver_honest])
  moreover have one: "activeContainerCount full_driver = 1" by code_simp
  moreover have "dd_waiters full_driver = []" by code_simp
  ultimately have full: "at_limit 1 full_driver" by (simp add: at_limit_def)
  have "container_options_of (dd_seccompProfile full_driver) (demo_spec ''y'') \<noteq> None" by code_simp
  then obtain opts where opts: "container_options_of (dd_seccompProfile full_driver) (demo_spec ''y'') = Some opts" by blast
  have "''postgres'' \<notin> set (dd_active full_driver)" "js_get (dd_calls full_driver) 1 = None"
    "image_allowed (container_image (demo_spec ''y''))" "''c1'' \<notin> set (dd_active full_driver)"
    by code_simp+
  with foreign_termination_breaks_limit[OF full _ _ _ opts] one show ?thesis by blast
qed

section \<open>The slots and the semaphore\<close>

text \<open>The driver repeats the semaphore of the shared library; \<open>r\<close> are the promises resolved so far.\<close>

definition slots_of :: "int \<Rightarrow> (nat \<times> bool) list \<Rightarrow> docker_driver \<Rightarrow> semaphore" where
  "slots_of m r d = \<lparr>s_max = m, s_current = dd_running d, s_waiters = map (\<lambda>i. \<lparr>w_id = i, w_timer = True\<rparr>) (dd_waiters d), s_resolved = r\<rparr>"

text \<open>Acquiring, giving up and timing out in the driver is what the shared semaphore does with a timeout of five
  seconds.\<close>

theorem slots_are_semaphore:
  "dd_maxContainers d = JInt m \<Longrightarrow>
     (\<exists>r'. sem_acquire i (Some 5000) (slots_of m r d) = slots_of m r' (acquireContainerSlot i spec d)) \<and>
     (\<exists>r'. sem_release (slots_of m r d) = slots_of m r' (releaseContainerSlot d)) \<and>
     (\<exists>r'. sem_timeout i (slots_of m r d) = slots_of m r' (slot_timeout i d))"
  by (auto simp: slots_of_def sem_acquire_def acquireContainerSlot_def set_call_def sem_release_def releaseContainerSlot_def resume_def
      sem_timeout_def slot_timeout_def image_image filter_map comp_def split: list.split option.split creation.split)

theorem slots_are_semaphore_witness:
  "\<exists>r'. sem_acquire 7 (Some 5000) (slots_of 1 [] full_driver) = slots_of 1 r' (acquireContainerSlot 7 (demo_spec ''z'') full_driver)"
proof -
  have "dd_maxContainers full_driver = JInt 1" by code_simp
  then show ?thesis using slots_are_semaphore[of full_driver 1 7 "[]" "demo_spec ''z''"] by blast
qed

section \<open>Resources\<close>

text \<open>The memory of a sandbox is read as megabytes whatever unit follows the number.\<close>

lemma memory_unit_ignored:
  "memory_bytes (Some ''1Gi'') = memory_bytes (Some ''1Mi'')" "memory_bytes (Some ''1Gi'') = Num (1024 * 1024)"
  "nano_cpus (Some ''500m'') = Num (500 * 1000000000)"
  by code_simp+

end
