(* ===== verification/K8sDriver.thy ===== *)
theory K8sDriver
  imports Sandbox
begin

text \<open>
  The driver that runs sandboxes as pods: \<open>packages/shared/src/sandbox/k8s-sandbox-runtime.ts\<close> and
  \<open>sandbox-driver-k8s.ts\<close>. What the cluster answers is an argument; the calls of its interface are recorded.
\<close>

section \<open>Commands\<close>

text \<open>
  The pattern is written with two backslashes before \<open>n\<close> and \<open>r\<close>: its class holds a backslash and the two letters,
  and no line break.
\<close>

definition BLOCKED_CMD_RE :: regex where
  "BLOCKED_CMD_RE = one_of ([CHR '';'', CHR ''&'', CHR ''|'', CHR 0x60, CHR ''$'', CHR ''('', CHR '')'', CHR ''{'', CHR ''}'', CHR ''!'',
     CHR ''<'', CHR ''>'', CHR 0x5C, CHR ''n'', CHR 0x5C, CHR ''r''])"

definition isCommandSafe :: "string \<Rightarrow> bool" where
  "isCommandSafe cmd = (if cmd = [] \<or> 4096 < length cmd then False else \<not> rx_test BLOCKED_CMD_RE cmd)"

section \<open>The runtime\<close>

text \<open>Whether the client of the cluster exists, and the namespace of the pods.\<close>

record k8s_runtime =
  kr_api :: bool
  kr_namespace :: string

datatype api_call = Create_pod json | Read_pod string | Exec_in string string | Delete_pod string | List_pods

record pod_answer =
  pn_phase :: "string option"
  pn_ip :: "string option"

text \<open>
  What the environment answers: whether the configuration of the cluster can be loaded, the name of the created
  pod, the state of the pod at each poll, the result of each command and of a deletion.
\<close>

record k8s_world =
  kw_config :: "string option"
  kw_create :: "string + string option"
  kw_reads :: "nat \<Rightarrow> string + pod_answer"
  kw_exec :: "nat \<Rightarrow> string \<Rightarrow> string \<times> string option option"
  kw_delete :: "string option"
  kw_list :: "string option"

definition k8s_new :: "(string \<Rightarrow> string option) \<Rightarrow> k8s_runtime" where
  "k8s_new env = \<lparr>kr_api = False, kr_namespace = env_or (env ''K8S_NAMESPACE'') ''egaop''\<rparr>"

definition ensureInit :: "k8s_world \<Rightarrow> k8s_runtime \<Rightarrow> string option \<times> k8s_runtime" where
  "ensureInit w r = (if kr_api r then (None, r) else case kw_config w of Some e \<Rightarrow> (Some e, r) | None \<Rightarrow> (None, r\<lparr>kr_api := True\<rparr>))"

definition runtime_class :: "string option \<Rightarrow> (string \<times> json) list" where
  "runtime_class level = (if level = Some ''enhanced'' \<or> level = Some ''Maximum'' then [(''runtimeClassName'', JStr ''gvisor'')] else [])"

definition resource_limits :: "sandbox_spec \<Rightarrow> (string \<times> json) list" where
  "resource_limits spec = (if truthy (sp_cpu spec) then [(''cpu'', JStr (the (sp_cpu spec)))] else []) @
     (if truthy (sp_memory spec) then [(''memory'', JStr (the (sp_memory spec)))] else [])"

definition pod_of :: "string \<Rightarrow> sandbox_spec \<Rightarrow> json" where
  "pod_of ns spec = JObj
     [(''metadata'', JObj
        [(''name'', JStr (''egaop-agent-'' @ sp_executionId spec)), (''namespace'', JStr ns),
         (''labels'', JObj [(''egaop.agent.id'', JStr (sp_agentId spec)), (''egaop.execution.id'', JStr (sp_executionId spec)),
            (''egaop.plane'', JStr ''execution''), (''app.kubernetes.io/name'', JStr ''sandbox-agent'')]),
         (''annotations'', JObj [(''seccomp.security.alpha.kubernetes.io/pod'', JStr ''runtime/default'')])]),
      (''spec'', JObj (runtime_class (sp_isolationLevel spec) @
        [(''securityContext'', JObj [(''runAsNonRoot'', JBool True), (''runAsUser'', JNum (Num 65534)),
            (''seccompProfile'', JObj [(''type'', JStr ''RuntimeDefault'')])]),
         (''automountServiceAccountToken'', JBool False), (''restartPolicy'', JStr ''Never''),
         (''containers'', JArr [JObj
           [(''name'', JStr ''runtime''), (''image'', JStr (if sp_image spec = [] then ''egaop-base-runtime:latest'' else sp_image spec)),
            (''imagePullPolicy'', JStr ''IfNotPresent''),
            (''env'', JArr (map (\<lambda>(k, v). JObj [(''name'', JStr k), (''value'', v)]) (own_order (nullish (sp_envVars spec) [])))),
            (''resources'', JObj [(''limits'', JObj (resource_limits spec @ [(''ephemeral-storage'', JStr ''1Gi'')])),
               (''requests'', JObj (resource_limits spec))]),
            (''securityContext'', JObj [(''allowPrivilegeEscalation'', JBool False), (''readOnlyRootFilesystem'', JBool True),
               (''capabilities'', JObj [(''drop'', JArr [JStr ''ALL''])]), (''runAsNonRoot'', JBool True),
               (''runAsUser'', JNum (Num 65534))])]])]))]"

definition MAX_POLLS :: nat where "MAX_POLLS = 30"

text \<open>The loop that waits for the pod: \<open>left\<close> polls are left, \<open>n\<close> were made; after the last one it just ends.\<close>

fun poll_pod :: "(nat \<Rightarrow> string + pod_answer) \<Rightarrow> nat \<Rightarrow> nat \<Rightarrow> string \<Rightarrow> (string + string) \<times> nat" where
  "poll_pod reads 0 n ip = (Inr ip, n)"
| "poll_pod reads (Suc left) n ip =
     (case reads n of
        Inl e \<Rightarrow> (Inl e, Suc n)
      | Inr p \<Rightarrow> (let ip' = nullish (pn_ip p) ip
          in if pn_phase p = Some ''Running'' \<or> pn_phase p = Some ''Succeeded'' then (Inr ip', Suc n)
             else if pn_phase p = Some ''Failed'' \<or> pn_phase p = Some ''Unknown''
             then (Inl (''Sandbox pod entered phase: '' @ the (pn_phase p)), Suc n)
             else poll_pod reads left (Suc n) ip'))"

definition exec_result :: "string \<times> string option option \<Rightarrow> string + string" where
  "exec_result a = (case a of (out, status) \<Rightarrow>
     if status = Some (Some ''Success'') then Inr out else Inl (''exec returned '' @ nullish (nullish status None) ''Failure''))"

definition k8s_create :: "k8s_world \<Rightarrow> sandbox_spec \<Rightarrow> k8s_runtime \<Rightarrow> (string + sandbox_made) \<times> api_call list \<times> k8s_runtime" where
  "k8s_create w spec r =
     (case ensureInit w r of
        (Some e, r') \<Rightarrow> (Inl e, [], r')
      | (None, r') \<Rightarrow>
          (let create = Create_pod (pod_of (kr_namespace r') spec)
           in case kw_create w of
               Inl e \<Rightarrow> (Inl e, [create], r')
             | Inr name \<Rightarrow>
                 (let podName = nullish name []; polled = poll_pod (kw_reads w) MAX_POLLS 0 ''unknown'';
                      calls = create # replicate (snd polled) (Read_pod podName); cmds = nullish (sp_initCommands spec) []
                  in case fst polled of
                      Inl e \<Rightarrow> (Inl e, calls, r')
                    | Inr ip \<Rightarrow>
                        (Inr \<lparr>sm_sandboxId = podName, sm_status = ''Running'', sm_ipAddress = ip,
                           sm_initOutputs = run_init isCommandSafe (\<lambda>n c. exec_result (kw_exec w n c)) 0 cmds\<rparr>,
                         calls @ map (Exec_in podName) (executed isCommandSafe cmds), r'))))"

text \<open>A deletion that fails is ignored.\<close>

definition k8s_terminate :: "k8s_world \<Rightarrow> string \<Rightarrow> k8s_runtime \<Rightarrow> string option \<times> api_call list \<times> k8s_runtime" where
  "k8s_terminate w podName r =
     (case ensureInit w r of (Some e, r') \<Rightarrow> (Some e, [], r') | (None, r') \<Rightarrow> (None, [Delete_pod podName], r'))"

section \<open>The driver\<close>

text \<open>The driver makes its runtime at the first call; \<open>None\<close> before.\<close>

definition ensure :: "(string \<Rightarrow> string option) \<Rightarrow> k8s_runtime option \<Rightarrow> k8s_runtime" where
  "ensure env r = nullish r (k8s_new env)"

definition driver_create ::
  "(string \<Rightarrow> string option) \<Rightarrow> k8s_world \<Rightarrow> sandbox_spec \<Rightarrow> k8s_runtime option \<Rightarrow> (string + sandbox_made) \<times> api_call list \<times> k8s_runtime option" where
  "driver_create env w spec d = (case k8s_create w spec (ensure env d) of (res, calls, r) \<Rightarrow> (res, calls, Some r))"

definition driver_terminate ::
  "(string \<Rightarrow> string option) \<Rightarrow> k8s_world \<Rightarrow> string \<Rightarrow> k8s_runtime option \<Rightarrow> bool \<times> api_call list \<times> k8s_runtime option" where
  "driver_terminate env w sid d = (case k8s_terminate w sid (ensure env d) of (e, calls, r) \<Rightarrow> (e = None, calls, Some r))"

text \<open>\<open>getApi\<close> throws while the client does not exist, and both callers catch what it throws.\<close>

definition driver_status ::
  "(string \<Rightarrow> string option) \<Rightarrow> k8s_world \<Rightarrow> string \<Rightarrow> k8s_runtime option \<Rightarrow> sandbox_status \<times> api_call list \<times> k8s_runtime option" where
  "driver_status env w sid d =
     (let r = ensure env d
      in if \<not> kr_api r then (status_only ''NotFound'', [], Some r)
         else (case kw_reads w 0 of Inl e \<Rightarrow> status_only ''NotFound'' | Inr p \<Rightarrow> status_only (nullish (pn_phase p) ''Unknown''),
               [Read_pod sid], Some r))"

definition driver_health :: "(string \<Rightarrow> string option) \<Rightarrow> k8s_world \<Rightarrow> k8s_runtime option \<Rightarrow> bool \<times> api_call list \<times> k8s_runtime option" where
  "driver_health env w d =
     (let r = ensure env d in if \<not> kr_api r then (False, [], Some r) else (kw_list w = None, [List_pods], Some r))"

section \<open>Facts about the driver\<close>

interpretation k8s_filter: command_filter isCommandSafe
  by unfold_locales (auto simp: isCommandSafe_def split: if_splits)

definition is_read :: "api_call \<Rightarrow> bool" where
  "is_read c = (case c of Read_pod _ \<Rightarrow> True | _ \<Rightarrow> False)"

definition is_delete :: "api_call \<Rightarrow> bool" where
  "is_delete c = (case c of Delete_pod _ \<Rightarrow> True | _ \<Rightarrow> False)"

lemma call_kinds [simp]:
  "\<not> is_read (Create_pod j)" "is_read (Read_pod n)" "\<not> is_read (Exec_in n c)" "\<not> is_read (Delete_pod n)"
  "\<not> is_delete (Create_pod j)" "\<not> is_delete (Read_pod n)" "\<not> is_delete (Exec_in n c)" "is_delete (Delete_pod n)"
  by (simp_all add: is_read_def is_delete_def)

lemma poll_pod_bound: "snd (poll_pod reads left n ip) \<le> left + n"
proof (induction left arbitrary: n ip)
  case (Suc left)
  show ?case
  proof (cases "reads n")
    case (Inr p)
    then show ?thesis using Suc[of "Suc n" "nullish (pn_ip p) ip"] by (auto simp: Let_def)
  qed simp
qed simp

lemma no_exec_read [simp]: "filter is_read (map (Exec_in p) cs) = []" "filter is_delete (map (Exec_in p) cs) = []"
  by (induction cs) auto

lemma filter_replicate_read [simp]:
  "filter is_read (replicate n (Read_pod p)) = replicate n (Read_pod p)" "filter is_delete (replicate n (Read_pod p)) = []"
  by (induction n) auto

lemma driver_create_calls: "fst (snd (driver_create env w spec d)) = fst (snd (k8s_create w spec (ensure env d)))"
  by (simp add: driver_create_def split: prod.split)

lemma ensureInit_ok: "kw_config w = None \<Longrightarrow> \<exists>r'. ensureInit w r = (None, r') \<and> kr_api r'"
  by (simp add: ensureInit_def)

text \<open>A creation polls the pod at most thirty times, and it never deletes the pod it made: not when the pod
  fails, and not when a poll is refused.\<close>

theorem creation_polls_and_leaks:
  "length (filter is_read (fst (snd (driver_create env w spec d)))) \<le> 30 \<and>
   filter is_delete (fst (snd (driver_create env w spec d))) = []"
proof -
  have "snd (poll_pod (kw_reads w) MAX_POLLS 0 ''unknown'') \<le> 30" using poll_pod_bound[of "kw_reads w" MAX_POLLS 0] by (simp add: MAX_POLLS_def)
  then have "length (filter is_read (fst (snd (k8s_create w spec r)))) \<le> 30 \<and> filter is_delete (fst (snd (k8s_create w spec r))) = []" for r
    by (cases "ensureInit w r") (auto simp: k8s_create_def Let_def split: option.split sum.split)
  then show ?thesis by (simp add: driver_create_calls)
qed

definition never_runs :: "k8s_world \<Rightarrow> bool" where
  "never_runs w \<longleftrightarrow> kw_config w = None \<and> (\<exists>name. kw_create w = Inr (Some name)) \<and>
     (\<forall>n. \<exists>p. kw_reads w n = Inr p \<and> (pn_phase p = None \<or> pn_phase p = Some ''Pending''))"

lemma poll_pending:
  assumes "\<forall>n. \<exists>p. reads n = Inr p \<and> (pn_phase p = None \<or> pn_phase p = Some ''Pending'')"
  shows "\<exists>ip'. poll_pod reads left n ip = (Inr ip', left + n)"
proof (induction left arbitrary: n ip)
  case (Suc left)
  obtain p where "reads n = Inr p" "pn_phase p = None \<or> pn_phase p = Some ''Pending''" using assms by blast
  then show ?case using Suc[of "Suc n" "nullish (pn_ip p) ip"] by (auto simp: Let_def)
qed simp

text \<open>A pod that never leaves the phase Pending is reported as running after half a minute, and the commands are
  sent to it.\<close>

theorem pending_pod_reported_running:
  assumes "never_runs w"
  shows "\<exists>made calls d'. driver_create env w spec d = (Inr made, calls, d') \<and> sm_status made = ''Running'' \<and>
    length (filter is_read calls) = 30"
proof -
  obtain name where w: "kw_config w = None" "kw_create w = Inr (Some name)" using assms by (auto simp: never_runs_def)
  obtain ip where ip: "poll_pod (kw_reads w) MAX_POLLS 0 ''unknown'' = (Inr ip, 30)"
    using poll_pending[of "kw_reads w" MAX_POLLS 0 "''unknown''"] assms by (auto simp: never_runs_def MAX_POLLS_def)
  obtain r where r: "ensureInit w (ensure env d) = (None, r)" using ensureInit_ok[OF w(1)] by blast
  show ?thesis by (simp add: driver_create_def k8s_create_def r w(2) ip Let_def)
qed

definition pending_world :: k8s_world where
  "pending_world = \<lparr>kw_config = None, kw_create = Inr (Some ''egaop-agent-x''), kw_reads = (\<lambda>_. Inr \<lparr>pn_phase = Some ''Pending'', pn_ip = None\<rparr>),
     kw_exec = (\<lambda>_ _. ([], None)), kw_delete = None, kw_list = None\<rparr>"

definition plain_spec :: sandbox_spec where
  "plain_spec = \<lparr>sp_executionId = ''x'', sp_agentId = ''a'', sp_namespace = ''egaop'', sp_image = [], sp_isolationLevel = Some ''Enhanced'',
     sp_cpu = None, sp_memory = None, sp_envVars = None, sp_initCommands = None\<rparr>"

theorem pending_pod_reported_running_witness:
  "\<exists>made calls d'. driver_create (\<lambda>_. None) pending_world plain_spec None = (Inr made, calls, d') \<and> sm_status made = ''Running'' \<and>
    length (filter is_read calls) = 30"
  by (rule pending_pod_reported_running) (simp add: never_runs_def pending_world_def)

section \<open>Readiness\<close>

text \<open>A health check, or the status of a sandbox, each with what the cluster would answer.\<close>

datatype probe = Health_probe k8s_world | Status_probe k8s_world string

fun probe_answers :: "(string \<Rightarrow> string option) \<Rightarrow> probe list \<Rightarrow> k8s_runtime option \<Rightarrow> (bool + sandbox_status) list \<times> k8s_runtime option" where
  "probe_answers env [] d = ([], d)"
| "probe_answers env (Health_probe w # ps) d =
     (let (b, _, d') = driver_health env w d; (as, d'') = probe_answers env ps d' in (Inl b # as, d''))"
| "probe_answers env (Status_probe w sid # ps) d =
     (let (st, _, d') = driver_status env w sid d; (as, d'') = probe_answers env ps d' in (Inr st # as, d''))"

definition no_client :: "k8s_runtime option \<Rightarrow> bool" where
  "no_client d = (case d of None \<Rightarrow> True | Some r \<Rightarrow> \<not> kr_api r)"

lemma no_client_probe:
  assumes "no_client d"
  shows "\<exists>d'. driver_health env w d = (False, [], d') \<and> no_client d'"
    and "\<exists>d'. driver_status env w sid d = (status_only ''NotFound'', [], d') \<and> no_client d'"
  using assms by (auto simp: driver_health_def driver_status_def no_client_def ensure_def k8s_new_def Let_def split: option.splits)

lemma probes_refused:
  "no_client d \<Longrightarrow> list_all (\<lambda>x. x = Inl False \<or> x = Inr (status_only ''NotFound'')) (fst (probe_answers env ps d)) \<and>
     no_client (snd (probe_answers env ps d))"
proof (induction ps arbitrary: d)
  case (Cons p ps)
  show ?case
  proof (cases p)
    case (Health_probe w)
    obtain d' where d': "driver_health env w d = (False, [], d')" "no_client d'" using no_client_probe(1)[OF Cons.prems] by blast
    from Cons.IH[OF d'(2)] show ?thesis by (cases "probe_answers env ps d'") (simp add: Health_probe d'(1))
  next
    case (Status_probe w sid)
    obtain d' where d': "driver_status env w sid d = (status_only ''NotFound'', [], d')" "no_client d'"
      using no_client_probe(2)[OF Cons.prems] by blast
    from Cons.IH[OF d'(2)] show ?thesis by (cases "probe_answers env ps d'") (simp add: Status_probe d'(1))
  qed
qed simp

text \<open>C29. A freshly started driver is never ready: until a sandbox is created or terminated, every health check
  fails and every sandbox is reported as not found, whatever the cluster would answer; only a creation makes the
  client, and a service that is not ready gets none.\<close>

theorem fresh_driver_never_ready:
  "list_all (\<lambda>x. x = Inl False \<or> x = Inr (status_only ''NotFound'')) (fst (probe_answers env ps None))"
  using probes_refused[of None env ps] by (simp add: no_client_def)

text \<open>After a creation the cluster is asked.\<close>

lemma creation_makes_client:
  assumes "kw_config w = None"
  shows "\<not> no_client (snd (snd (driver_create env w spec d)))"
proof -
  obtain r' where r': "ensureInit w (ensure env d) = (None, r')" "kr_api r'" using ensureInit_ok[OF assms] by blast
  have "snd (snd (k8s_create w spec (ensure env d))) = r'"
    by (simp add: k8s_create_def r'(1) Let_def split: sum.split)
  then show ?thesis using r'(2) by (cases "k8s_create w spec (ensure env d)") (simp add: driver_create_def no_client_def)
qed

end
