(* ===== verification/SandboxService.thy ===== *)
theory SandboxService
  imports DockerDriver K8sDriver AuditChain ReactWorkflow
begin

text \<open>
  The sandbox service, \<open>execution-plane/sandbox-runtime/src/index.ts\<close>: its handlers over the answer of a driver,
  and what the workflow engine's request means to the two drivers.
\<close>

section \<open>Requests\<close>

record create_request =
  kq_agent_id :: string
  kq_execution_id :: string
  kq_image :: string
  kq_isolation_level :: string
  kq_resources :: "(string \<times> string) option"
  kq_env_vars :: "json option"
  kq_init_commands :: "string list"

definition spec_of_request :: "(string \<Rightarrow> string option) \<Rightarrow> create_request \<Rightarrow> sandbox_spec" where
  "spec_of_request env q =
     \<lparr>sp_executionId = kq_execution_id q, sp_agentId = kq_agent_id q, sp_namespace = env_or (env ''POD_NAMESPACE'') ''egaop'',
      sp_image = (if kq_image q = [] then ''egaop-base-runtime:latest'' else kq_image q), sp_isolationLevel = Some (kq_isolation_level q),
      sp_cpu = map_option fst (kq_resources q), sp_memory = map_option snd (kq_resources q),
      sp_envVars = Some (case kq_env_vars q of Some (JObj ps) \<Rightarrow> ps | _ \<Rightarrow> []), sp_initCommands = Some (kq_init_commands q)\<rparr>"

text \<open>The request of the activity \<open>createSandbox\<close>, as it arrives: absent texts are empty, the resources are there.\<close>

definition string_value :: "string \<Rightarrow> json" where
  "string_value t = JObj [(''stringValue'', JStr t)]"

definition request_of :: "create_args \<Rightarrow> create_request" where
  "request_of p =
     \<lparr>kq_agent_id = ca_agentId p, kq_execution_id = ca_executionId p, kq_image = [], kq_isolation_level = ca_isolationLevel p,
      kq_resources = Some ([], []),
      kq_env_vars = Some (JObj [(''fields'', JObj [(''EGAOP_AGENT_ID'', string_value (ca_agentId p)),
        (''EGAOP_EXECUTION_ID'', string_value (ca_executionId p)), (''EGAOP_NAMESPACE'', string_value (ca_namespace p))])]),
      kq_init_commands = ca_initCommands p\<rparr>"

section \<open>Handlers\<close>

datatype sandbox_reply = Sandbox_answer json | Sandbox_error int string

record sandbox_env =
  sx_sha256 :: "string \<Rightarrow> string"
  sx_env :: "string \<Rightarrow> string option"

record sandbox_call =
  sl_stamp :: string
  sl_event :: string

definition sandbox_audit ::
  "sandbox_env \<Rightarrow> sandbox_call \<Rightarrow> string \<Rightarrow> string \<Rightarrow> string \<Rightarrow> string option \<Rightarrow> string \<Rightarrow> audit_state \<Rightarrow> audit_state" where
  "sandbox_audit E c ev act res reason sid s =
     snd (createAuditEntry (sx_sha256 E) (sx_env E) (sl_stamp c)
       \<lparr>ab_timestamp = sl_stamp c, ab_eventId = sl_event c, ab_eventType = ev, ab_severity = Sev_info,
        ab_actor = \<lparr>aa_type = ''service'', aa_id = ''sandbox-runtime'', aa_namespace = None, aa_authMethod = None, aa_spiffeId = None\<rparr>,
        ab_target = Some \<lparr>at_type = ''sandbox'', at_id = sid, at_namespace = None\<rparr>,
        ab_action = \<lparr>an_name = act, an_parameters = None, an_result = res, an_reason = reason\<rparr>,
        ab_context = \<lparr>ac_requestId = None, ac_sessionId = None, ac_ipAddress = None, ac_userAgent = None\<rparr>\<rparr> s)"

definition CreateSandbox :: "sandbox_env \<Rightarrow> sandbox_call \<Rightarrow> driver_error + sandbox_made \<Rightarrow> audit_state \<Rightarrow> sandbox_reply \<times> audit_state" where
  "CreateSandbox E c answer s =
     (case answer of
        Inr r \<Rightarrow>
          (Sandbox_answer (JObj [(''sandbox_id'', JStr (sm_sandboxId r)), (''status'', JStr (sm_status r)), (''ip_address'', JStr (sm_ipAddress r)),
             (''init_outputs'', JArr (map JStr (sm_initOutputs r)))]),
           sandbox_audit E c ''sandbox.create'' ''CreateSandbox'' ''allowed'' None (sm_sandboxId r) s)
      | Inl e \<Rightarrow>
          (if de_code e = Some ''INVALID_ARGUMENT'' then Sandbox_error 3 (de_message e) else Sandbox_error 13 ''Sandbox creation failed'', s))"

definition TerminateSandbox ::
  "sandbox_env \<Rightarrow> sandbox_call \<Rightarrow> string \<Rightarrow> string \<Rightarrow> driver_error + bool \<Rightarrow> audit_state \<Rightarrow> sandbox_reply \<times> audit_state" where
  "TerminateSandbox E c sid reason answer s =
     (case answer of
        Inr success \<Rightarrow>
          (Sandbox_answer (JObj [(''success'', JBool success)]),
           sandbox_audit E c ''sandbox.destroy'' ''TerminateSandbox'' (if success then ''allowed'' else ''error'')
             (Some (if reason = [] then ''unknown'' else reason)) sid s)
      | Inl e \<Rightarrow> (Sandbox_answer (JObj [(''success'', JBool False)]), s))"

definition GetSandboxStatus :: "sandbox_env \<Rightarrow> sandbox_call \<Rightarrow> string \<Rightarrow> driver_error + sandbox_status \<Rightarrow> audit_state \<Rightarrow> sandbox_reply \<times> audit_state" where
  "GetSandboxStatus E c sid answer s =
     (case answer of
        Inr t \<Rightarrow>
          (Sandbox_answer (JObj ([(''status'', JStr (sb_status t)), (''cpu_usage'', JNum (num_of_int (sb_cpu t))),
             (''memory_usage'', JNum (num_of_int (sb_memory t)))] @
             (case sb_startedAt t of None \<Rightarrow> [] | Some ms \<Rightarrow> [(''started_at'', JObj [(''seconds'', JNum (num_of_int (ms div 1000)))])]))),
           sandbox_audit E c ''sandbox.exec'' ''GetSandboxStatus'' ''allowed'' None sid s)
      | Inl e \<Rightarrow> (Sandbox_answer (JObj [(''status'', JStr ''Unknown''), (''cpu_usage'', JNum (Num 0)), (''memory_usage'', JNum (Num 0))]), s))"

definition sandbox_check :: "driver_error + bool \<Rightarrow> json" where
  "sandbox_check answer = JObj [(''status'', JStr (if answer = Inr True then ''SERVING'' else ''NOT_SERVING''))]"

definition sandbox_healthz :: "string \<Rightarrow> driver_error + bool \<Rightarrow> nat \<times> json option" where
  "sandbox_healthz url answer =
     (if url \<noteq> ''/healthz'' \<and> url \<noteq> ''/readyz'' then (404, None)
      else (if answer = Inr True then 200 else 503,
            Some (JObj [(''status'', JStr (if answer = Inr True then ''SERVING'' else ''NOT_SERVING'')), (''service'', JStr ''sandbox-runtime'')])))"

text \<open>The choice of the driver, and the way the errors of the cluster reach the handlers: they carry no code.\<close>

datatype driver_kind = Docker_driver | K8s_driver

definition createDriver :: "(string \<Rightarrow> string option) \<Rightarrow> driver_kind" where
  "createDriver env = (if nullish (env ''SANDBOX_DRIVER'') ''docker'' = ''k8s'' then K8s_driver else Docker_driver)"

definition k8s_answer :: "string + 'a \<Rightarrow> driver_error + 'a" where
  "k8s_answer r = (case r of Inl e \<Rightarrow> Inl \<lparr>de_message = e, de_code = None\<rparr> | Inr a \<Rightarrow> Inr a)"

section \<open>The platform's own requests\<close>

text \<open>The command that the workflow sends into every sandbox.\<close>

definition own_init_command :: "string \<Rightarrow> string" where
  "own_init_command executionId = ''echo \"Sandbox '' @ executionId @ '' ready\"''"

lemma own_init_quote: "own_init_command x = ''echo'' @ CHR '' '' # CHR 0x22 # (''Sandbox '' @ x @ '' ready'' @ [CHR 0x22])"
  by (simp add: own_init_command_def)

lemma not_space: "\<not> is_space (CHR 0x22)"
  by code_simp

lemma quote_not_token: "\<not> token_char (CHR 0x22)"
  by code_simp

lemma own_init_not_docker: "\<not> isInitCommandSafe (own_init_command x)"
proof
  assume safe: "isInitCommandSafe (own_init_command x)"
  let ?rest = "CHR 0x22 # (''Sandbox '' @ x @ '' ready'' @ [CHR 0x22])"
  have "edges (own_init_command x)" by (simp add: own_init_command_def edges_def is_space_def)
  then have "tokens_of (own_init_command x) = split_spaces (''echo'' @ CHR '' '' # ?rest)"
    by (simp add: tokens_of_def trim_edges own_init_quote)
  also have "\<dots> = ''echo'' # split_spaces ?rest"
    by (rule split_spaces_first) (simp_all add: is_space_def)
  finally have t: "tokens_of (own_init_command x) = ''echo'' # split_spaces ?rest" .
  obtain w ws where w: "split_spaces ?rest = (CHR 0x22 # w) # ws"
    using split_spaces_head[of "CHR 0x22" "''Sandbox '' @ x @ '' ready'' @ [CHR 0x22]"] not_space by blast
  have "list_all token_char (CHR 0x22 # w)" using safe_tokens[OF safe, of "CHR 0x22 # w"] unfolding t w by simp
  then show False using quote_not_token by simp
qed

lemma own_init_not_k8s: "\<not> isCommandSafe (own_init_command x)"
proof -
  have hit: "rx_ends BLOCKED_CMD_RE (b, CHR ''n'' # s) \<noteq> []" for b s
    by (simp add: BLOCKED_CMD_RE_def one_of_def)
  have "own_init_command x = ''echo \"Sa'' @ CHR ''n'' # (''dbox '' @ x @ '' ready\"'')" by (simp add: own_init_command_def)
  then have "\<exists>b s. (b, CHR ''n'' # s) \<in> set (positions None (own_init_command x))"
    using positions_append[of "''echo \"Sa''" None "CHR ''n'' # (''dbox '' @ x @ '' ready\"'')"] by metis
  then have "rx_test BLOCKED_CMD_RE (own_init_command x)" using hit by (auto simp: rx_test_def list_ex_iff)
  then show ?thesis by (simp add: isCommandSafe_def)
qed

text \<open>The command that the platform itself sends into every sandbox is refused by both drivers, whatever the
  execution is called.\<close>

theorem own_init_command_blocked:
  "run_init isInitCommandSafe run 0 [own_init_command x] = [blocked_text] \<and>
   run_init isCommandSafe run 0 [own_init_command x] = [blocked_text]"
  using docker_filter.blocked_not_run[OF own_init_not_docker] k8s_filter.blocked_not_run[OF own_init_not_k8s] by blast

text \<open>What the workflow engine asks for is not what the sandbox gets: Docker puts one variable named fields with the
  text of an object into its environment, and Kubernetes, which looks for a lower-case level, runs the default level
  Enhanced without the isolating runtime that Docker gives it.\<close>

theorem sandbox_request_misread:
  assumes "ca_isolationLevel p = ''Enhanced''"
  shows "docker_env (sp_envVars (spec_of_request env (request_of p))) = Some [''fields=[object Object]''] \<and>
    isolation_runtime (sp_isolationLevel (spec_of_request env (request_of p))) = Some ''runsc'' \<and>
    runtime_class (sp_isolationLevel (spec_of_request env (request_of p))) = []"
proof -
  have "own_order [(''fields'', j)] = [(''fields'', j)]" for j
  proof -
    have "\<not> array_index ''fields''" by code_simp
    then show ?thesis by (simp add: own_order_def)
  qed
  then show ?thesis
    using assms by (simp add: docker_env_def env_pairs_def spec_of_request_def request_of_def isolation_runtime_def runtime_class_def)
qed

definition demo_args :: create_args where
  "demo_args = \<lparr>ca_agentId = ''a'', ca_executionId = ''x'', ca_namespace = ''default'', ca_isolationLevel = ''Enhanced'',
     ca_initCommands = [own_init_command ''x'']\<rparr>"

theorem sandbox_request_misread_witness:
  "docker_env (sp_envVars (spec_of_request (\<lambda>_. None) (request_of demo_args))) = Some [''fields=[object Object]'']"
  using sandbox_request_misread[of demo_args "\<lambda>_. None"] by (simp add: demo_args_def)

text \<open>The limit of containers is hidden from the caller: a creation that found no slot is answered as an internal
  error, exactly like any other failure that is not an invalid argument.\<close>

theorem limit_reported_as_internal:
  "i \<in> set (dd_waiters d) \<Longrightarrow>
   (\<exists>e. js_get (dd_calls (slot_timeout i d)) i = Some (Finished (Inl e)) \<and> de_code e = Some ''RESOURCE_EXHAUSTED'' \<and>
      fst (CreateSandbox E c (Inl e) s) = Sandbox_error 13 ''Sandbox creation failed'')"
  by (simp add: slot_timeout_def CreateSandbox_def js_get_set)

theorem limit_reported_as_internal_witness:
  "\<exists>e. js_get (dd_calls (slot_timeout 1 (acquireContainerSlot 1 (demo_spec ''y'') full_driver))) 1 = Some (Finished (Inl e)) \<and>
     de_code e = Some ''RESOURCE_EXHAUSTED'' \<and>
     fst (CreateSandbox \<lparr>sx_sha256 = id, sx_env = (\<lambda>_. None)\<rparr> \<lparr>sl_stamp = [], sl_event = []\<rparr> (Inl e) \<lparr>as_chains = [], as_output = []\<rparr>) =
       Sandbox_error 13 ''Sandbox creation failed''"
proof -
  have "1 \<in> set (dd_waiters (acquireContainerSlot 1 (demo_spec ''y'') full_driver))" by code_simp
  from limit_reported_as_internal[OF this] show ?thesis by blast
qed

text \<open>There is an answer for every command.\<close>

lemma created_sandbox_outputs:
  "js_get (dd_calls (sandbox_ready i spec cid info run d)) i = Some (Finished (Inr r')) \<Longrightarrow>
    length (sm_initOutputs r') = length (nullish (sp_initCommands spec) [])"
  by (auto simp: sandbox_ready_def js_get_set docker_filter.one_answer_each)

end
