(* ===== verification/NumBounds.thy ===== *)
theory NumBounds
  imports JsNumber
begin

text \<open>How far a rounded result is from the exact one, for numbers of moderate size.\<close>

lemma ilog_upper: "1 \<le> n \<Longrightarrow> n < 2 ^ nat (ilog 2 n + 1)"
proof (induction n rule: measure_induct_rule[of nat])
  case (less n)
  show ?case
  proof (cases "n < 2")
    case True
    then show ?thesis using less.prems by (simp add: ilog.simps[of 2 n])
  next
    case False
    then have ih: "n div 2 < 2 ^ nat (ilog 2 (n div 2) + 1)" by (intro less.IH) auto
    have "ilog 2 n = 1 + ilog 2 (n div 2)" using False by (subst ilog.simps) simp
    then have "(2::int) ^ nat (ilog 2 n + 1) = 2 * 2 ^ nat (ilog 2 (n div 2) + 1)"
      using ilog_nonneg[of 2 "n div 2"] by (simp add: nat_add_distrib)
    with ih show ?thesis by linarith
  qed
qed

lemma pow2_add: "pow2 (a + b) = pow2 a * pow2 b"
proof -
  have p: "pow2 e = 2 powi e" for e by (simp add: pow2_def power_int_def inverse_eq_divide power_divide)
  show ?thesis unfolding p by (simp add: power_int_add)
qed

lemma pow2_neg: "pow2 (- a) = 1 / pow2 a"
  using pow2_add[of a "- a"] pow2_pos[of a] by (simp add: field_simps) (simp add: pow2_def)

lemma pow2_mono: "a \<le> b \<Longrightarrow> pow2 a \<le> pow2 b"
proof -
  assume "a \<le> b"
  then have "1 \<le> pow2 (b - a)" by (simp add: pow2_def)
  then have "pow2 a * 1 \<le> pow2 a * pow2 (b - a)" by (intro mult_left_mono) (simp_all add: less_imp_le)
  then show ?thesis using pow2_add[of a "b - a"] by simp
qed

lemma pow2_ilog: "0 \<le> ilog 2 n" "1 \<le> n \<Longrightarrow> pow2 (ilog 2 n) \<le> of_int n" "1 \<le> n \<Longrightarrow> of_int n < pow2 (ilog 2 n + 1)"
proof -
  show nn: "0 \<le> ilog 2 n" by (rule ilog_nonneg)
  show "1 \<le> n \<Longrightarrow> pow2 (ilog 2 n) \<le> of_int n"
  proof -
    assume "1 \<le> n"
    then have "(of_int (2 ^ nat (ilog 2 n)) :: rat) \<le> of_int n" using ilog_power[of n] by (intro of_int_le_iff[THEN iffD2])
    then show ?thesis using nn by (simp add: pow2_def)
  qed
  show "1 \<le> n \<Longrightarrow> of_int n < pow2 (ilog 2 n + 1)"
  proof -
    assume "1 \<le> n"
    then have "(of_int n :: rat) < of_int (2 ^ nat (ilog 2 n + 1))" using ilog_upper[of n] by (intro of_int_less_iff[THEN iffD2])
    then show ?thesis using nn by (simp add: pow2_def)
  qed
qed

text \<open>The exponent found for a positive number is a lower bound of it.\<close>

lemma floor_exp_le:
  assumes "0 < x"
  shows "pow2 (floor_exp 2 pow2 x) \<le> x"
proof -
  obtain p q where pq: "quotient_of x = (p, q)" by fastforce
  have q: "0 < q" by (rule quotient_of_denom_pos[OF pq])
  have x: "x = of_int p / of_int q" by (rule quotient_of_div[OF pq])
  have p: "1 \<le> p" using assms q by (simp add: x zero_less_divide_iff)
  define e where "e = exp_guess 2 x"
  have e: "e = ilog 2 p - ilog 2 q" by (simp add: e_def exp_guess_def pq)
  have "pow2 (e - 1) * pow2 (ilog 2 q + 1) = pow2 (ilog 2 p)" by (simp add: pow2_add[symmetric] e)
  also have "\<dots> \<le> of_int p" using p by (rule pow2_ilog)
  finally have le: "pow2 (e - 1) * pow2 (ilog 2 q + 1) \<le> of_int p" .
  have "pow2 (e - 1) * of_int q \<le> pow2 (e - 1) * pow2 (ilog 2 q + 1)"
    using pow2_ilog(3)[of q] q by (intro mult_left_mono) (simp_all add: less_imp_le)
  with le have "pow2 (e - 1) * of_int q \<le> of_int p" by (rule order_trans[rotated])
  then have "pow2 (e - 1) \<le> x" using q by (simp add: x pos_le_divide_eq)
  then show ?thesis by (auto simp: floor_exp_def Let_def e_def)
qed

lemma pow2_bound: "pow2 e \<le> x \<Longrightarrow> x < pow2 k \<Longrightarrow> e < k"
  using pow2_mono[of k e] by (meson leI less_le_trans order.strict_trans2 not_le)

lemma round_half_even_err: "\<bar>of_int (round_half_even y) - y\<bar> \<le> 1"
  by (auto simp: round_half_even_def Let_def) linarith+

text \<open>Below sixteen, rounding is exact to 2 to the power of minus 49.\<close>

definition tiny :: rat where "tiny = 1 / 562949953421312"

lemma tiny_pos: "0 < tiny"
  by (simp add: tiny_def)

lemma rnd_pos_err:
  assumes "0 < x" and "x < 16"
  shows "\<exists>y. rnd_pos x = Num y \<and> \<bar>y - x\<bar> \<le> tiny"
proof -
  have "pow2 4 = 16" by (simp add: pow2_def)
  with pow2_bound[OF floor_exp_le[OF assms(1)], of 4] assms(2) have e: "floor_exp 2 pow2 x \<le> 3" by simp
  define ulp where "ulp = pow2 (max (floor_exp 2 pow2 x - 52) (- 1074))"
  have "ulp \<le> pow2 (- 49)" unfolding ulp_def using e by (intro pow2_mono) simp
  moreover have "pow2 (- 49) = tiny" by (simp add: pow2_def tiny_def)
  ultimately have ulp: "0 < ulp" "ulp \<le> tiny" by (simp_all add: ulp_def)
  define y where "y = of_int (round_half_even (x / ulp)) * ulp"
  have "y - x = (of_int (round_half_even (x / ulp)) - x / ulp) * ulp" using ulp(1) by (simp add: y_def field_simps)
  then have "\<bar>y - x\<bar> \<le> 1 * ulp" using round_half_even_err[of "x / ulp"] ulp(1) by (simp add: abs_mult mult_right_mono)
  then have err: "\<bar>y - x\<bar> \<le> tiny" using ulp(2) by simp
  have "tiny < 1" by (simp add: tiny_def)
  with err assms(2) have y17: "y < 17" by linarith
  have "(17::rat) \<le> pow2 5" by (simp add: pow2_def)
  also have "\<dots> \<le> pow2 1024" by (rule pow2_mono) simp
  finally have "\<not> pow2 1024 \<le> y" using y17 by linarith
  then have "rnd_pos x = Num y" by (simp add: rnd_pos_def Let_def ulp_def[symmetric] y_def[symmetric])
  with err show ?thesis by blast
qed

lemma rnd_err:
  assumes "\<bar>x\<bar> < 16"
  shows "\<exists>y. rnd x = Num y \<and> \<bar>y - x\<bar> \<le> tiny"
proof -
  consider "x = 0" | "0 < x" | "x < 0" by linarith
  then show ?thesis
  proof cases
    case 3
    then obtain y where "rnd_pos (- x) = Num y" "\<bar>y - - x\<bar> \<le> tiny" using rnd_pos_err[of "- x"] assms by auto
    with 3 show ?thesis by (intro exI[of _ "- y"]) (auto simp: rnd_def)
  qed (use rnd_pos_err[of x] assms tiny_pos in \<open>auto simp: rnd_def\<close>)
qed

end
