(* ===== verification/StartupConfig.thy ===== *)
theory StartupConfig
  imports Crypto Errors NumBounds "HOL-Library.Multiset"
begin

text \<open>
  The configuration a service starts with: \<open>packages/shared/src/config/secrets.ts\<close>, which reads secrets from files and
  from the environment, and \<open>validate-secrets.ts\<close>, which refuses to start on weak ones. The files are a parameter, the
  environment is a function that is updated. \<open>Math.log2\<close>, which the language leaves to the implementation, is a
  parameter too. The messages are constructors, because their texts have characters that the model's text lacks.
\<close>

section \<open>Reading secrets\<close>

type_synonym files = "string \<Rightarrow> string option"
type_synonym process_env = "string \<Rightarrow> string option"

definition secret_path :: "string \<Rightarrow> string" where
  "secret_path name = ''/run/secrets/'' @ lower name"

definition getSecret :: "files \<Rightarrow> process_env \<Rightarrow> string \<Rightarrow> string option" where
  "getSecret files env name =
     (case map_option trim (files (secret_path name)) of
        Some (c # cs) \<Rightarrow> Some (c # cs)
      | _ \<Rightarrow> (case env name of None \<Rightarrow> None | Some v \<Rightarrow> if v \<noteq> [] \<and> trim v \<noteq> [] then Some (trim v) else None))"

definition loaded_names :: "string list" where
  "loaded_names = [''JWT_SECRET'', ''EGAOP_MASTER_ENCRYPTION_KEY'', ''POSTGRES_PASSWORD'', ''OPENAI_API_KEY'', ''GRAFANA_PASSWORD'',
     ''INTERNAL_SERVICE_TOKEN'']"

definition blank :: "string option \<Rightarrow> bool" where
  "blank v \<longleftrightarrow> (case v of None \<Rightarrow> True | Some s \<Rightarrow> s = [] \<or> trim s = [])"

definition load_name :: "files \<Rightarrow> string \<Rightarrow> process_env \<Rightarrow> process_env" where
  "load_name files name env =
     (if blank (env name) then (case getSecret files env name of None \<Rightarrow> env | Some v \<Rightarrow> env(name := Some v)) else env)"

definition loadSecretsIntoEnv :: "files \<Rightarrow> process_env \<Rightarrow> process_env" where
  "loadSecretsIntoEnv files env = fold (load_name files) loaded_names env"

section \<open>Checking secrets\<close>

definition KNOWN_BAD_VALUES :: "string list" where
  "KNOWN_BAD_VALUES = [''default'', ''changeme'', ''secret'', ''password'', ''admin'', ''dev-key-do-not-use-in-production'',
     ''dev-key-do-not-use-in-production-32-chars!!'', ''your-secret-key'', ''supersecret'', ''1234567890'', ''jwt-secret'', ''change-me'',
     ''test-secret'', ''key'']"

definition HEX_ENTROPY_THRESHOLD :: num where
  "HEX_ENTROPY_THRESHOLD = rnd (43 / 10)"

text \<open>How often each character occurs; the object lists digits first, in ascending order.\<close>

definition count_char :: "(char, int) js_map \<Rightarrow> char \<Rightarrow> (char, int) js_map" where
  "count_char freq ch = js_set ch (nullish (js_get freq ch) 0 + 1) freq"

definition freq_values :: "(char, int) js_map \<Rightarrow> int list" where
  "freq_values freq = map snd (sort_key (\<lambda>p. of_char (fst p) :: nat) (filter (\<lambda>p. is_digit (fst p)) freq)) @
     map snd (filter (\<lambda>p. \<not> is_digit (fst p)) freq)"

definition entropy_step :: "(num \<Rightarrow> num) \<Rightarrow> int \<Rightarrow> num \<Rightarrow> int \<Rightarrow> num" where
  "entropy_step log2 len entropy occ =
     (let p = num_div (num_of_int occ) (num_of_int len) in num_sub entropy (num_mul p (log2 p)))"

definition calculateShannonEntropy :: "(num \<Rightarrow> num) \<Rightarrow> string \<Rightarrow> num" where
  "calculateShannonEntropy log2 v =
     (if v = [] then Num 0
      else foldl (entropy_step log2 (int (length v))) (Num 0) (freq_values (foldl count_char [] v)))"

record secret_spec =
  ks_name :: string
  ks_minLength :: "nat option"
  ks_rejectValues :: "string list option"
  ks_requireEntropy :: bool

definition REQUIRED_SECRETS :: "secret_spec list" where
  "REQUIRED_SECRETS =
     [\<lparr>ks_name = ''EGAOP_MASTER_ENCRYPTION_KEY'', ks_minLength = Some 64, ks_rejectValues = None, ks_requireEntropy = False\<rparr>,
      \<lparr>ks_name = ''JWT_SECRET'', ks_minLength = Some 64, ks_rejectValues = None, ks_requireEntropy = True\<rparr>,
      \<lparr>ks_name = ''POSTGRES_PASSWORD'', ks_minLength = Some 24, ks_rejectValues = None, ks_requireEntropy = False\<rparr>,
      \<lparr>ks_name = ''OPENAI_API_KEY'', ks_minLength = Some 10, ks_rejectValues = None, ks_requireEntropy = False\<rparr>,
      \<lparr>ks_name = ''GRAFANA_PASSWORD'', ks_minLength = Some 24, ks_rejectValues = None, ks_requireEntropy = False\<rparr>,
      \<lparr>ks_name = ''INTERNAL_SERVICE_TOKEN'', ks_minLength = Some 48, ks_rejectValues = None, ks_requireEntropy = False\<rparr>,
      \<lparr>ks_name = ''REDIS_PASSWORD'', ks_minLength = Some 24, ks_rejectValues = None, ks_requireEntropy = False\<rparr>]"

datatype secret_fault = Not_set string | Known_bad string | Too_short string nat nat | Low_entropy string string | From_file

definition validateValue :: "(num \<Rightarrow> num) \<Rightarrow> process_env \<Rightarrow> secret_spec \<Rightarrow> string \<Rightarrow> secret_fault option" where
  "validateValue log2 env spec v =
     (if v = [] \<or> trim v = [] then Some (Not_set (ks_name spec))
      else if lower (trim v) \<in> set (KNOWN_BAD_VALUES @ nullish (ks_rejectValues spec) []) then Some (Known_bad (ks_name spec))
      else if nullish (ks_minLength spec) 0 \<noteq> 0 \<and> length v < nullish (ks_minLength spec) 0
      then Some (Too_short (ks_name spec) (length v) (nullish (ks_minLength spec) 0))
      else if ks_requireEntropy spec \<and> num_lt (calculateShannonEntropy log2 v) HEX_ENTROPY_THRESHOLD
      then Some (Low_entropy (ks_name spec) (to_fixed 2 (calculateShannonEntropy log2 v)))
      else if ks_name spec = ''JWT_SECRET'' \<and> env ''NODE_ENV'' = Some ''production'' \<and>
              (CHR 0x0A \<in> set v \<or> CHR 0x0D \<in> set v \<or> truthy (env ''JWT_SECRET_FILE''))
      then Some From_file
      else None)"

text \<open>The faults that make the process end; none, and it goes on.\<close>

definition validateSecrets :: "(num \<Rightarrow> num) \<Rightarrow> files \<Rightarrow> process_env \<Rightarrow> secret_spec list option \<Rightarrow> secret_fault list" where
  "validateSecrets log2 files env extra =
     concat (map (\<lambda>spec. case validateValue log2 env spec (nullish (getSecret files env (ks_name spec)) []) of None \<Rightarrow> [] | Some f \<Rightarrow> [f])
       (REQUIRED_SECRETS @ nullish extra []))"

definition validateJWTSecret :: "(num \<Rightarrow> num) \<Rightarrow> files \<Rightarrow> process_env \<Rightarrow> secret_fault option" where
  "validateJWTSecret log2 files env =
     validateValue log2 env \<lparr>ks_name = ''JWT_SECRET'', ks_minLength = Some 64, ks_rejectValues = None, ks_requireEntropy = True\<rparr>
       (nullish (getSecret files env ''JWT_SECRET'') [])"

section \<open>Two sources of a secret\<close>

lemma getSecret_cong: "env name = env' name \<Longrightarrow> getSecret files env name = getSecret files env' name"
  unfolding getSecret_def by (rule arg_cong)

lemma getSecret_trimmed: "getSecret files env name = Some v \<Longrightarrow> v \<noteq> []"
  by (auto simp: getSecret_def split: option.splits list.splits if_splits)

lemma load_name_other: "name' \<noteq> name \<Longrightarrow> load_name files name env name' = env name'"
  by (simp add: load_name_def split: option.split)

lemma load_name_same:
  "load_name files name env name = (if blank (env name) \<and> getSecret files env name \<noteq> None then getSecret files env name else env name)"
  by (auto simp: load_name_def split: option.split)

lemma fold_load:
  "distinct names \<Longrightarrow> fold (load_name files) names env name =
     (if name \<in> set names then load_name files name env name else env name)"
proof (induction names arbitrary: env)
  case (Cons n names)
  show ?case
  proof (cases "name = n")
    case False
    then have "load_name files name (load_name files n env) name = load_name files name env name"
      unfolding load_name_same load_name_other[OF False] using getSecret_cong[of "load_name files n env" name env, OF load_name_other[OF False]] by auto
    with Cons False show ?thesis by (simp add: load_name_other)
  qed (use Cons in simp)
qed simp

lemma load_result:
  "loadSecretsIntoEnv files env name =
     (if name \<in> set loaded_names \<and> blank (env name) \<and> getSecret files env name \<noteq> None then getSecret files env name else env name)"
proof -
  have "distinct loaded_names" by code_simp
  then show ?thesis by (auto simp: loadSecretsIntoEnv_def fold_load load_name_same)
qed

text \<open>Loading the secrets touches no variable that is set, fills the listed ones that are blank from their
  files, and leaves everything else alone.\<close>

theorem loading_fills_blanks:
  "loadSecretsIntoEnv files env name =
     (if name \<in> set loaded_names \<and> blank (env name) \<and> getSecret files env name \<noteq> None then getSecret files env name else env name)"
  by (rule load_result)

text \<open>Where a secret is both in a file and in the environment, the check that guards the start looks at the file and
  the services use the environment: the value in use is not checked.\<close>

theorem checked_secret_not_used:
  assumes "files (secret_path name) = Some f" and "trim f \<noteq> []" and "env name = Some v" and "v \<noteq> []" and "trim v \<noteq> []"
  shows "getSecret files (loadSecretsIntoEnv files env) name = Some (trim f) \<and> loadSecretsIntoEnv files env name = Some v"
proof -
  have "loadSecretsIntoEnv files env name = env name" using assms(3-5) by (simp add: load_result blank_def)
  then show ?thesis using assms by (auto simp: getSecret_def split: list.split)
qed

section \<open>Entropy\<close>

text \<open>What the language promises of \<open>Math.log2\<close>: an approximation of the logarithm.\<close>

definition log2_close :: "(num \<Rightarrow> num) \<Rightarrow> bool" where
  "log2_close L \<longleftrightarrow> (\<forall>x. 0 < x \<and> x \<le> 2 \<longrightarrow> (\<exists>y. L (Num x) = Num y \<and> \<bar>real_of_rat y - log 2 (real_of_rat x)\<bar> \<le> 1 / 1000))"

lemma rat_abs: "real_of_rat \<bar>x\<bar> = \<bar>real_of_rat x\<bar>"
  by (cases "0 \<le> x") (auto simp: abs_if of_rat_minus)

definition K2 :: real where "K2 = 1 / ln 2"

lemma K2_bounds: "0 < K2" "K2 \<le> 2"
proof -
  have "ln (1 / 2 :: real) \<le> 1 / 2 - 1" by (rule ln_le_minus_one) simp
  then have "1 / 2 \<le> ln (2 :: real)" by (simp add: ln_div)
  then show "0 < K2" "K2 \<le> 2" by (simp_all add: K2_def divide_le_eq)
qed

lemma log2_K2: "log 2 x = ln x * K2"
  by (simp add: log_def K2_def)

text \<open>The tangent of \<open>- p log p\<close> at one sixteenth lies above it.\<close>

lemma entropy_tangent:
  assumes "0 < p"
  shows "- (p * log 2 p) \<le> 4 * p + (1 / 16 - p) * K2"
proof -
  have "ln (1 / (16 * p)) \<le> 1 / (16 * p) - 1" using assms by (intro ln_le_minus_one) simp
  then have "p * (- ln 16 - ln p) \<le> p * (1 / (16 * p) - 1)"
    using assms by (intro mult_left_mono) (simp_all add: ln_div ln_mult)
  also have "\<dots> = 1 / 16 - p" using assms by (simp add: field_simps)
  finally have "(p * (- ln 16 - ln p)) * K2 \<le> (1 / 16 - p) * K2" using K2_bounds by (intro mult_right_mono) simp_all
  moreover have ln16: "ln (16 :: real) * K2 = 4"
  proof -
    have "(16 :: real) = 2 ^ 4" by simp
    then have "ln (16 :: real) = 4 * ln 2" by (simp only: ln_realpow)
    then show ?thesis by (simp add: K2_def)
  qed
  moreover have "(p * (- ln 16 - ln p)) * K2 = - (p * (ln 16 * K2)) - p * log 2 p"
    by (simp add: log2_K2 right_diff_distrib left_diff_distrib mult.assoc)
  ultimately show ?thesis unfolding ln16 by linarith
qed

lemma log2_upper: "0 < p \<Longrightarrow> log 2 p \<le> (p - 1) * K2"
  using ln_le_minus_one[of p] K2_bounds by (simp add: log2_K2 mult_right_mono)

text \<open>One term of the sum, as the code computes it.\<close>

lemma entropy_term:
  assumes L: "log2_close L" and c: "1 \<le> c" "c \<le> n" "n \<le> 1000000"
  shows "\<exists>t. num_mul (num_div (num_of_int c) (num_of_int n)) (L (num_div (num_of_int c) (num_of_int n))) = Num t \<and>
    real_of_rat t \<le> 1 / 200 \<and> - real_of_rat t \<le> 4 * (of_int c / of_int n) + (1 / 16 - of_int c / of_int n) * K2 + 1 / 200"
proof -
  define x :: rat where "x = of_int c / of_int n"
  have x: "1 / 1000000 \<le> x" "x \<le> 1"
  proof -
    have "(1 :: rat) / 1000000 \<le> 1 / of_int n" using c by (intro divide_left_mono) simp_all
    also have "\<dots> \<le> x" unfolding x_def using c by (intro divide_right_mono) simp_all
    finally show "1 / 1000000 \<le> x" .
    show "x \<le> 1" using c by (simp add: x_def)
  qed
  have "num_of_int c = Num (of_int c)" "num_of_int n = Num (of_int n)"
    using c rnd_of_int[of c] rnd_of_int[of n] by (simp_all add: num_of_int_def)
  then have "num_div (num_of_int c) (num_of_int n) = rnd x" using c by (simp add: x_def)
  moreover obtain p where p: "rnd x = Num p" "\<bar>p - x\<bar> \<le> tiny" using rnd_err[of x] x by auto
  ultimately have d: "num_div (num_of_int c) (num_of_int n) = Num p" by simp
  have tiny: "0 < tiny" "tiny < 1 / 1000000" by (simp_all add: tiny_def)
  then have p0: "0 < p" "p \<le> 1 + tiny" "p \<le> 2" using p(2) x by (auto simp: abs_le_iff)
  then obtain l where l: "L (Num p) = Num l" "\<bar>real_of_rat l - log 2 (real_of_rat p)\<bar> \<le> 1 / 1000"
    using L by (auto simp: log2_close_def)
  define P where "P = real_of_rat p"
  define T where "T = real_of_rat tiny"
  define X where "X = real_of_rat x"
  have T: "0 < T" "T \<le> 1 / 1000000" by (simp_all add: T_def tiny_def of_rat_divide)
  have "real_of_rat p \<le> real_of_rat (1 + tiny)" using p0 by (simp only: of_rat_less_eq)
  then have P: "0 < P" "P \<le> 1 + T" using p0 by (simp_all add: P_def T_def of_rat_add)
  have "real_of_rat \<bar>p - x\<bar> \<le> T" using p(2) by (simp only: T_def of_rat_less_eq)
  then have PX: "\<bar>P - X\<bar> \<le> T" by (simp add: P_def X_def of_rat_diff rat_abs)
  have X: "0 < X" "X \<le> 1" using x by (auto simp: X_def)
  define Lr where "Lr = real_of_rat l"
  have l': "\<bar>Lr - log 2 P\<bar> \<le> 1 / 1000" using l(2) by (simp add: Lr_def P_def)
  have up: "P * Lr \<le> 1 / 250"
  proof -
    have "Lr \<le> (P - 1) * K2 + 1 / 1000" using l' log2_upper[OF P(1)] by linarith
    also have "\<dots> \<le> T * 2 + 1 / 1000"
    proof -
      have "(P - 1) * K2 \<le> T * K2" using P K2_bounds by (intro mult_right_mono) simp_all
      also have "\<dots> \<le> T * 2" using T K2_bounds by (intro mult_left_mono) simp_all
      finally show ?thesis by simp
    qed
    finally have "Lr \<le> 1 / 500" using T by linarith
    then have "P * Lr \<le> P * (1 / 500)" using P by (intro mult_left_mono) simp_all
    then show ?thesis using P T by linarith
  qed
  have lo: "- (P * Lr) \<le> 4 * X + (1 / 16 - X) * K2 + 1 / 250"
  proof -
    have "- Lr \<le> - log 2 P + 1 / 1000" using l' by linarith
    then have "P * (- Lr) \<le> P * (- log 2 P + 1 / 1000)" using P by (intro mult_left_mono) simp_all
    then have "- (P * Lr) \<le> - (P * log 2 P) + P * (1 / 1000)" by (simp add: algebra_simps)
    also have "\<dots> \<le> 4 * P + (1 / 16 - P) * K2 + 1 / 500" using entropy_tangent[OF P(1)] P T by linarith
    also have "\<dots> \<le> 4 * X + (1 / 16 - X) * K2 + 1 / 250"
    proof -
      have "(X - P) * K2 \<le> T * K2" using PX K2_bounds by (intro mult_right_mono) simp_all
      also have "\<dots> \<le> T * 2" using T K2_bounds by (intro mult_left_mono) simp_all
      finally have k: "(X - P) * K2 \<le> 2 * T" by simp
      have "(1 / 16 - P) * K2 = (1 / 16 - X) * K2 + (X - P) * K2" by (simp add: algebra_simps)
      with k PX T show ?thesis by linarith
    qed
    finally show ?thesis .
  qed
  have "\<bar>P * Lr\<bar> < 16"
  proof -
    have "(1 / 16 - X) * K2 \<le> (1 / 16) * 2" using X K2_bounds by (intro mult_mono) simp_all
    with lo up X show ?thesis by linarith
  qed
  then have "\<bar>p * l\<bar> < 16"
    by (metis P_def Lr_def rat_abs of_rat_less of_rat_mult of_rat_numeral_eq)
  then obtain t where t: "rnd (p * l) = Num t" "\<bar>t - p * l\<bar> \<le> tiny" using rnd_err by blast
  have "real_of_rat \<bar>t - p * l\<bar> \<le> T" using t(2) by (simp only: T_def of_rat_less_eq)
  then have tr: "\<bar>real_of_rat t - P * Lr\<bar> \<le> T" by (simp add: P_def Lr_def of_rat_diff of_rat_mult rat_abs)
  have XX: "X = of_int c / of_int n" by (simp add: X_def x_def of_rat_divide)
  show ?thesis
    using t(1) tr up lo T unfolding d l(1) XX by (intro exI[of _ t]) (simp, linarith)
qed

definition entropy_cap :: "int \<Rightarrow> int \<Rightarrow> real" where
  "entropy_cap n c = 4 * (of_int c / of_int n) + (1 / 16 - of_int c / of_int n) * K2 + 1 / 100"

lemma entropy_cap_nonneg:
  assumes "0 \<le> c" and "c \<le> n" and "0 < n"
  shows "0 \<le> entropy_cap n c"
proof -
  define x where "x = (of_int c / of_int n :: real)"
  have x: "0 \<le> x" "x \<le> 1" using assms by (simp_all add: x_def)
  have "x * K2 \<le> x * 2" using x K2_bounds by (intro mult_left_mono) simp_all
  moreover have "(1 / 16 - x) * K2 = K2 / 16 - x * K2" by (simp add: algebra_simps)
  ultimately show ?thesis using x K2_bounds unfolding entropy_cap_def x_def[symmetric] by linarith
qed

lemma entropy_step_bound:
  assumes "log2_close L" and "1 \<le> c" "c \<le> n" "n \<le> 1000000" and "- 5 \<le> real_of_rat e" and "real_of_rat e \<le> 5"
  shows "\<exists>e'. entropy_step L n (Num e) c = Num e' \<and> real_of_rat e - 1 / 100 \<le> real_of_rat e' \<and>
    real_of_rat e' \<le> real_of_rat e + entropy_cap n c"
proof -
  obtain t where t: "num_mul (num_div (num_of_int c) (num_of_int n)) (L (num_div (num_of_int c) (num_of_int n))) = Num t"
    "real_of_rat t \<le> 1 / 200" "- real_of_rat t \<le> 4 * (of_int c / of_int n) + (1 / 16 - of_int c / of_int n) * K2 + 1 / 200"
    using entropy_term[OF assms(1-4)] by blast
  have "(of_int c / of_int n :: real) \<le> 1" "0 \<le> (of_int c / of_int n :: real)" using assms by simp_all
  moreover have "(1 / 16 - of_int c / of_int n :: real) * K2 \<le> (1 / 16) * 2"
    using K2_bounds calculation by (intro mult_mono) (simp_all only: le_diff_eq diff_le_eq)
  ultimately have "- 16 < real_of_rat e - real_of_rat t" "real_of_rat e - real_of_rat t < 16"
    using t(2,3) assms(5,6) by (linarith, argo)
  then have "real_of_rat (- 16) < real_of_rat (e - t)" "real_of_rat (e - t) < real_of_rat 16"
    by (simp_all add: of_rat_diff of_rat_minus)
  then have "\<bar>e - t\<bar> < 16" unfolding of_rat_less by (simp add: abs_less_iff)
  then obtain e' where e': "rnd (e - t) = Num e'" "\<bar>e' - (e - t)\<bar> \<le> tiny" using rnd_err by blast
  have "real_of_rat \<bar>e' - (e - t)\<bar> \<le> real_of_rat tiny" using e'(2) by (simp only: of_rat_less_eq)
  then have "\<bar>real_of_rat e' - (real_of_rat e - real_of_rat t)\<bar> \<le> 1 / 1000000"
    by (simp add: of_rat_diff rat_abs tiny_def of_rat_divide)
  then have "real_of_rat e - 1 / 100 \<le> real_of_rat e'" "real_of_rat e' \<le> real_of_rat e + entropy_cap n c"
    using t(2,3) unfolding entropy_cap_def by linarith+
  moreover have "entropy_step L n (Num e) c = Num e'" using e'(1) t(1) by (simp add: entropy_step_def Let_def num_sub_def)
  ultimately show ?thesis by blast
qed

lemma entropy_steps_bound:
  assumes "log2_close L" and "n \<le> 1000000"
  shows "list_all (\<lambda>c. 1 \<le> c \<and> c \<le> n) cs \<Longrightarrow> - 5 \<le> real_of_rat e - of_nat (length cs) / 100 \<Longrightarrow>
    real_of_rat e + (\<Sum>c\<leftarrow>cs. entropy_cap n c) \<le> 5 \<Longrightarrow>
    \<exists>e'. foldl (entropy_step L n) (Num e) cs = Num e' \<and> real_of_rat e' \<le> real_of_rat e + (\<Sum>c\<leftarrow>cs. entropy_cap n c)"
proof (induction cs arbitrary: e)
  case (Cons c cs)
  have caps: "0 \<le> (\<Sum>c\<leftarrow>cs. entropy_cap n c)" "0 \<le> entropy_cap n c"
    using Cons.prems(1) by (auto intro!: sum_list_nonneg simp: list_all_iff) (auto intro!: entropy_cap_nonneg)
  have "real_of_rat e \<le> 5" using Cons.prems(3) caps by simp
  moreover have "- 5 \<le> real_of_rat e" using Cons.prems(2) by (simp add: field_simps)
  ultimately obtain e1 where e1: "entropy_step L n (Num e) c = Num e1" "real_of_rat e - 1 / 100 \<le> real_of_rat e1"
      "real_of_rat e1 \<le> real_of_rat e + entropy_cap n c"
    using entropy_step_bound[OF assms(1) _ _ assms(2), of c e] Cons.prems(1) by auto
  have "\<exists>e'. foldl (entropy_step L n) (Num e1) cs = Num e' \<and> real_of_rat e' \<le> real_of_rat e1 + (\<Sum>c\<leftarrow>cs. entropy_cap n c)"
    using Cons.prems e1 by (intro Cons.IH) (auto simp: add_divide_distrib)
  with e1 show ?case by (auto intro: order_trans)
qed simp

text \<open>The counts of the characters of a text.\<close>

definition counts_ok :: "string \<Rightarrow> (char, int) js_map \<Rightarrow> bool" where
  "counts_ok s m \<longleftrightarrow> distinct (js_keys m) \<and> set (js_keys m) = set s \<and> sum_list (map snd m) = int (length s) \<and> list_all (\<lambda>p. 1 \<le> snd p) m"

lemma sum_update:
  "distinct (js_keys m) \<Longrightarrow> sum_list (map snd (js_set k (nullish (js_get m k) 0 + 1) m)) = sum_list (map snd m) + (1 :: int)"
  by (induction m) auto

lemma list_all_update: "list_all P m \<Longrightarrow> P (k, v) \<Longrightarrow> list_all P (js_set k v m)"
  by (induction m) auto

lemma counts_step: "counts_ok s m \<Longrightarrow> counts_ok (s @ [ch]) (count_char m ch)"
proof -
  assume ok: "counts_ok s m"
  have "1 \<le> nullish (js_get m ch) 0 + (1 :: int)"
    using ok by (cases "js_get m ch") (auto simp: counts_ok_def list_all_iff dest: map_of_SomeD)
  with ok show ?thesis
    by (auto simp: counts_ok_def count_char_def sum_update dom_update distinct_update intro!: list_all_update)
qed

lemma counts_text: "counts_ok s (foldl count_char [] s)"
proof (induction s rule: rev_induct)
  case (snoc c s)
  then show ?case using counts_step by simp
qed (simp add: counts_ok_def)

lemma freq_values_mset: "mset (freq_values m) = mset (map snd m)"
proof -
  have "mset (freq_values m) = image_mset snd (filter_mset (\<lambda>p. is_digit (fst p)) (mset m)) + image_mset snd (filter_mset (\<lambda>p. \<not> is_digit (fst p)) (mset m))"
    by (simp add: freq_values_def)
  also have "\<dots> = image_mset snd (mset m)"
    by (metis image_mset_union multiset_partition)
  finally show ?thesis by simp
qed

lemma sum_caps:
  "(\<Sum>c\<leftarrow>cs. entropy_cap n c) = 4 * (of_int (sum_list cs) / of_int n) + (of_nat (length cs) / 16 - of_int (sum_list cs) / of_int n) * K2 +
     of_nat (length cs) / 100"
  by (induction cs) (simp_all add: entropy_cap_def add_divide_distrib algebra_simps)

lemma entropy_bounded:
  assumes L: "log2_close L" and s: "s \<noteq> []" "length s \<le> 1000000" "length (remdups s) \<le> 16"
  shows "\<exists>e. calculateShannonEntropy L s = Num e \<and> real_of_rat e \<le> 4.2"
proof -
  define n where "n = int (length s)"
  define m where "m = foldl count_char [] s"
  define cs where "cs = freq_values m"
  have ok: "counts_ok s m" unfolding m_def by (rule counts_text)
  have ms: "mset cs = mset (map snd m)" by (simp add: cs_def freq_values_mset)
  have "card (set (js_keys m)) = length m" using ok by (metis counts_ok_def distinct_card length_map)
  then have "length m = length (remdups s)" using ok by (simp add: counts_ok_def length_remdups_card_conv)
  then have len: "length cs \<le> 16" using s(3) ms by (metis length_map size_mset)
  have sum: "sum_list cs = n" using ok ms by (metis counts_ok_def n_def sum_mset_sum_list)
  have pos: "1 \<le> c" if "c \<in> set cs" for c
  proof -
    have "c \<in> set (map snd m)" using that ms by (metis set_mset_mset)
    then show ?thesis using ok by (auto simp: counts_ok_def list_all_iff)
  qed
  have "c \<le> sum_list cs" if "c \<in> set cs" for c
    using that pos by (intro member_le_sum_list) (auto intro: order_trans[of 0 1])
  with pos sum have all: "list_all (\<lambda>c. 1 \<le> c \<and> c \<le> n) cs" by (simp add: list_all_iff)
  have n: "0 < n" "n \<le> 1000000" using s by (simp_all add: n_def)
  have "(of_nat (length cs) / 16 - 1) * K2 \<le> 0 * K2"
    using len K2_bounds by (intro mult_right_mono) simp_all
  then have caps: "(\<Sum>c\<leftarrow>cs. entropy_cap n c) \<le> 4.2"
    using len n(1) by (simp add: sum_caps sum)
  obtain e where "foldl (entropy_step L n) (Num 0) cs = Num e" "real_of_rat e \<le> (\<Sum>c\<leftarrow>cs. entropy_cap n c)"
    using entropy_steps_bound[OF L n(2) all, of 0] len caps by auto
  then show ?thesis using caps s(1) by (auto simp: calculateShannonEntropy_def n_def m_def cs_def)
qed

lemma num_lt_le: "x \<le> y \<Longrightarrow> num_lt (Num y) z \<Longrightarrow> num_lt (Num x) z"
  by (cases z) auto

text \<open>C8. A secret of at most sixteen different characters never passes the check of entropy, however long and however
  random it is: such a text has at most four bits a character, and the check asks for 4.3. The hexadecimal text that
  the message of the check itself recommends is always refused.\<close>

theorem hex_secret_refused:
  assumes "log2_close L" and "length v \<le> 1000000" and "length (remdups v) \<le> 16" and "ks_requireEntropy spec"
  shows "validateValue L env spec v \<noteq> None"
proof (cases "v = []")
  case False
  then obtain e where e: "calculateShannonEntropy L v = Num e" "real_of_rat e \<le> 4.2" using entropy_bounded[OF assms(1) _ assms(2,3)] by blast
  have "real_of_rat e \<le> real_of_rat (21 / 5)" using e(2) by (simp add: of_rat_divide)
  then have "e \<le> 21 / 5" by (simp only: of_rat_less_eq)
  moreover have "num_lt (Num (21 / 5)) HEX_ENTROPY_THRESHOLD" by code_simp
  ultimately have "num_lt (Num e) HEX_ENTROPY_THRESHOLD" by (rule num_lt_le)
  with e(1) assms(4) show ?thesis by (simp add: validateValue_def)
qed (simp add: validateValue_def)

definition floor_log2 :: "num \<Rightarrow> num" where
  "floor_log2 x = (case x of Num r \<Rightarrow> Num (of_int \<lfloor>log 2 (real_of_rat r) * 1000\<rfloor> / 1000) | _ \<Rightarrow> NNaN)"

lemma floor_log2_close: "log2_close floor_log2"
proof -
  have "\<bar>real_of_rat (of_int \<lfloor>z * 1000\<rfloor> / 1000) - z\<bar> \<le> 1 / 1000" for z :: real
    using floor_correct[of "z * 1000"] by (simp add: of_rat_divide) linarith
  then show ?thesis unfolding log2_close_def floor_log2_def num.case by blast
qed

definition demo_hex :: string where
  "demo_hex = ''3f9a1c0e5b7d2846f0e1d2c3b4a5968778695a4b3c2d1e0f9b8a7c6d5e4f3021''"

theorem hex_secret_refused_witness:
  "length demo_hex = 64 \<and> validateValue floor_log2 (\<lambda>_. None) (REQUIRED_SECRETS ! 1) demo_hex \<noteq> None"
proof -
  have "length demo_hex = 64" "length demo_hex \<le> 1000000" "ks_requireEntropy (REQUIRED_SECRETS ! 1)"
    by (simp_all add: demo_hex_def REQUIRED_SECRETS_def)
  moreover have "length (remdups demo_hex) \<le> 16" by code_simp
  ultimately show ?thesis using hex_secret_refused[OF floor_log2_close] by blast
qed

theorem checked_secret_not_used_witness:
  "getSecret (\<lambda>_. Some ''fromfile'') (loadSecretsIntoEnv (\<lambda>_. Some ''fromfile'') (\<lambda>_. Some ''fromenv'')) ''JWT_SECRET'' = Some ''fromfile'' \<and>
   loadSecretsIntoEnv (\<lambda>_. Some ''fromfile'') (\<lambda>_. Some ''fromenv'') ''JWT_SECRET'' = Some ''fromenv''"
proof -
  have t: "trim ''fromfile'' = ''fromfile''" "trim ''fromenv'' \<noteq> []" by code_simp+
  then show ?thesis using checked_secret_not_used[of "\<lambda>_. Some ''fromfile''" "''JWT_SECRET''" "''fromfile''" "\<lambda>_. Some ''fromenv''" "''fromenv''"] by simp
qed

end
