(* ===== verification/Migrations.thy ===== *)
theory Migrations
  imports Crypto "HOL-Library.Char_ord" "HOL-Library.List_Lexorder"
begin

text \<open>
  The migration runner \<open>scripts/migrate.mjs\<close>: its options, the migration files, and the commands up, down and create.
  A file's SQL is a list of statements that a parameter reads from its text; a statement that is no transaction
  command changes the user's part of the database or fails. Sessions have the transactions of PostgreSQL: a query
  outside a transaction is a block of its own, \<open>BEGIN\<close> inside one has no effect, and \<open>COMMIT\<close> ends it wherever it stands.
\<close>

section \<open>Options\<close>

record options =
  op_dryRun :: bool
  op_name :: "string option"
  op_count :: "jint option"
  op_connection :: "string option"
  op_dir :: "string option"

text \<open>\<open>arg.split("=")[1]\<close>\<close>

definition option_value :: "string \<Rightarrow> string option" where
  "option_value arg = (case split_on (CHR ''='') arg of a # b # _ \<Rightarrow> Some b | _ \<Rightarrow> None)"

definition count_value :: "string \<Rightarrow> jint" where
  "count_value t = (let n = parse_int t in if n = NaN \<or> n = JInt 0 then JInt 1 else n)"

definition read_option :: "string \<Rightarrow> options \<Rightarrow> options" where
  "read_option arg opts =
     (if arg = ''--dry-run'' then opts\<lparr>op_dryRun := True\<rparr>
      else if prefix ''--name='' arg then opts\<lparr>op_name := option_value arg\<rparr>
      else if prefix ''--count='' arg then opts\<lparr>op_count := map_option count_value (option_value arg)\<rparr>
      else if prefix ''--connection='' arg then opts\<lparr>op_connection := option_value arg\<rparr>
      else if prefix ''--dir='' arg then opts\<lparr>op_dir := option_value arg\<rparr>
      else opts)"

definition parseArgs :: "string option \<Rightarrow> string \<Rightarrow> string list \<Rightarrow> (string \<times> options) option" where
  "parseArgs postgres_url migrations_dir args =
     (let command = (case find (\<lambda>a. \<not> prefix ''--'' a) args of Some c \<Rightarrow> if c = [] then ''help'' else c | None \<Rightarrow> ''help'');
          opts = fold read_option args \<lparr>op_dryRun = False, op_name = None, op_count = None, op_connection = None, op_dir = None\<rparr>;
          conn = (if truthy (op_connection opts) then op_connection opts else postgres_url)
      in if \<not> truthy conn then None
         else Some (command, opts\<lparr>op_connection := conn, op_dir := Some (env_or (op_dir opts) migrations_dir)\<rparr>))"

section \<open>Migration files\<close>

record migration =
  mg_version :: int
  mg_name :: string
  mg_file :: string
  mg_upSql :: string
  mg_downSql :: "string option"

type_synonym directory = "(string \<times> string) list"

definition ends_with :: "string \<Rightarrow> string \<Rightarrow> bool" where
  "ends_with s t \<longleftrightarrow> suffix t s"

text \<open>\<open>s.replace(".sql", ".down.sql")\<close> replaces the first occurrence.\<close>

fun replace_first :: "string \<Rightarrow> string \<Rightarrow> string \<Rightarrow> string" where
  "replace_first t u [] = (if t = [] then u else [])"
| "replace_first t u (c # cs) = (if prefix t (c # cs) then u @ drop (length t) (c # cs) else c # replace_first t u cs)"

definition down_file :: "string \<Rightarrow> string" where
  "down_file file = replace_first ''.sql'' ''.down.sql'' file"

text \<open>\<open>/^(\d+)[_-]*(.*)\.sql$/\<close> on a name that ends in \<open>.sql\<close>; the dot matches no line break.\<close>

definition file_match :: "string \<Rightarrow> (string \<times> string) option" where
  "file_match file =
     (let ds = takeWhile is_digit file; rest = dropWhile (\<lambda>c. c \<in> {CHR ''_'', CHR ''-''}) (dropWhile is_digit file);
          name = take (length rest - 4) rest
      in if ds = [] \<or> CHR 0x0A \<in> set name \<or> CHR 0x0D \<in> set name then None else Some (ds, name))"

definition load_file :: "directory \<Rightarrow> string \<times> string \<Rightarrow> migration list" where
  "load_file dir f =
     (case file_match (fst f) of
        None \<Rightarrow> []
      | Some (ds, name) \<Rightarrow>
          [\<lparr>mg_version = digits_val 0 ds, mg_name = map (\<lambda>c. if c \<in> {CHR ''_'', CHR ''-''} then CHR '' '' else c) name, mg_file = fst f,
            mg_upSql = snd f, mg_downSql = map_of dir (down_file (fst f))\<rparr>])"

definition loadMigrations :: "directory \<Rightarrow> migration list" where
  "loadMigrations dir =
     concat (map (load_file dir)
       (sort_key fst (filter (\<lambda>f. ends_with (fst f) ''.sql'' \<and> \<not> ends_with (fst f) ''.down.sql'') dir)))"

section \<open>Sessions\<close>

record version_row =
  vr_version :: int
  vr_name :: string
  vr_checksum :: string

record 'u mig_db =
  md_versions :: "version_row list"
  md_user :: 'u

datatype 'u sql = Sql_begin | Sql_commit | Sql_rollback | Sql_do "'u \<Rightarrow> string + 'u" | Sql_insert version_row | Sql_delete int

text \<open>The committed state, and the open transaction: whether it is the implicit block of one query, and its state.\<close>

record 'u session =
  se_committed :: "'u mig_db"
  se_open :: "(bool \<times> 'u mig_db) option"

definition insert_version :: "version_row \<Rightarrow> 'u mig_db \<Rightarrow> string + 'u mig_db" where
  "insert_version r db =
     (if 2147483647 < vr_version r then Inl ''integer out of range''
      else if 255 < length (vr_name r) then Inl ''value too long for type character varying(255)''
      else if list_ex (\<lambda>v. vr_version v = vr_version r) (md_versions db) then Inl ''duplicate key value violates unique constraint''
      else Inr (db\<lparr>md_versions := insort_key vr_version r (md_versions db)\<rparr>))"

fun sql_step :: "'u sql \<Rightarrow> 'u mig_db \<times> bool \<times> 'u mig_db \<Rightarrow> string + ('u mig_db \<times> bool \<times> 'u mig_db)" where
  "sql_step Sql_begin (c, i, w) = Inr (c, False, w)"
| "sql_step Sql_commit (c, i, w) = Inr (w, True, w)"
| "sql_step Sql_rollback (c, i, w) = Inr (c, True, c)"
| "sql_step (Sql_do f) (c, i, w) = (case f (md_user w) of Inl e \<Rightarrow> Inl e | Inr u \<Rightarrow> Inr (c, i, w\<lparr>md_user := u\<rparr>))"
| "sql_step (Sql_insert r) (c, i, w) = (case insert_version r w of Inl e \<Rightarrow> Inl e | Inr w' \<Rightarrow> Inr (c, i, w'))"
| "sql_step (Sql_delete v) (c, i, w) = Inr (c, i, w\<lparr>md_versions := filter (\<lambda>r. vr_version r \<noteq> v) (md_versions w)\<rparr>)"

text \<open>A query: its statements in order. An error leaves what was committed before it.\<close>

fun sql_steps :: "'u sql list \<Rightarrow> 'u mig_db \<times> bool \<times> 'u mig_db \<Rightarrow> string option \<times> 'u mig_db \<times> bool \<times> 'u mig_db" where
  "sql_steps [] s = (None, s)"
| "sql_steps (x # xs) s = (case sql_step x s of Inl e \<Rightarrow> (Some e, s) | Inr s' \<Rightarrow> sql_steps xs s')"

definition run_query :: "'u sql list \<Rightarrow> 'u session \<Rightarrow> string option \<times> 'u session" where
  "run_query xs s =
     (case sql_steps xs (case se_open s of None \<Rightarrow> (se_committed s, True, se_committed s) | Some (i, w) \<Rightarrow> (se_committed s, i, w)) of
        (None, c, True, w) \<Rightarrow> (None, \<lparr>se_committed = w, se_open = None\<rparr>)
      | (None, c, False, w) \<Rightarrow> (None, \<lparr>se_committed = c, se_open = Some (False, w)\<rparr>)
      | (Some e, c, True, w) \<Rightarrow> (Some e, \<lparr>se_committed = c, se_open = None\<rparr>)
      | (Some e, c, False, w) \<Rightarrow> (Some e, \<lparr>se_committed = c, se_open = Some (False, w)\<rparr>))"

text \<open>Queries until one fails, and then \<open>ROLLBACK\<close>.\<close>

fun run_queries :: "'u sql list list \<Rightarrow> 'u session \<Rightarrow> string option \<times> 'u session" where
  "run_queries [] s = (None, s)"
| "run_queries (q # qs) s = (case run_query q s of (None, s') \<Rightarrow> run_queries qs s' | (Some e, s') \<Rightarrow> (Some e, snd (run_query [Sql_rollback] s')))"

section \<open>Commands\<close>

definition cryptoHash :: "(string \<Rightarrow> string) \<Rightarrow> string \<Rightarrow> string" where
  "cryptoHash sha256 t = take 16 (sha256 t)"

datatype outcome = Done | Failed int string

record 'u mig_lib =
  ml_sha256 :: "string \<Rightarrow> string"
  ml_parse :: "string \<Rightarrow> 'u sql list"

definition apply_queries :: "'u mig_lib \<Rightarrow> migration \<Rightarrow> 'u sql list list" where
  "apply_queries L m =
     [[Sql_begin], ml_parse L (mg_upSql m),
      [Sql_insert \<lparr>vr_version = mg_version m, vr_name = mg_name m, vr_checksum = cryptoHash (ml_sha256 L) (mg_upSql m)\<rparr>], [Sql_commit]]"

fun apply_all :: "'u mig_lib \<Rightarrow> migration list \<Rightarrow> 'u session \<Rightarrow> outcome \<times> 'u session" where
  "apply_all L [] s = (Done, s)"
| "apply_all L (m # ms) s =
     (case run_queries (apply_queries L m) s of
        (None, s') \<Rightarrow> apply_all L ms s'
      | (Some e, s') \<Rightarrow> (Failed (mg_version m) e, s'))"

definition pending_of :: "migration list \<Rightarrow> 'u session \<Rightarrow> migration list" where
  "pending_of ms s = filter (\<lambda>m. mg_version m \<notin> vr_version ` set (md_versions (se_committed s))) ms"

definition cmdUp :: "'u mig_lib \<Rightarrow> directory \<Rightarrow> bool \<Rightarrow> 'u session \<Rightarrow> outcome \<times> 'u session" where
  "cmdUp L dir dryRun s = (if dryRun then (Done, s) else apply_all L (pending_of (loadMigrations dir) s) s)"

text \<open>\<open>applied.slice(-count).reverse()\<close>: a negative count skips rows from the front.\<close>

definition to_revert :: "jint option \<Rightarrow> version_row list \<Rightarrow> version_row list" where
  "to_revert cnt applied =
     (case nullish cnt (JInt 1) of
        NaN \<Rightarrow> rev applied
      | JInt n \<Rightarrow> rev (if 0 < n then drop (length applied - nat n) applied else drop (nat (- n)) applied))"

definition revert_queries :: "'u mig_lib \<Rightarrow> string \<Rightarrow> int \<Rightarrow> 'u sql list list" where
  "revert_queries L downSql version = [[Sql_begin], ml_parse L downSql, [Sql_delete version], [Sql_commit]]"

fun revert_all :: "'u mig_lib \<Rightarrow> migration list \<Rightarrow> bool \<Rightarrow> version_row list \<Rightarrow> 'u session \<Rightarrow> outcome \<times> 'u session" where
  "revert_all L ms dry [] s = (Done, s)"
| "revert_all L ms dry (r # rs) s =
     (case Option.bind (find (\<lambda>m. mg_version m = vr_version r) ms) mg_downSql of
        None \<Rightarrow> (Failed (vr_version r) ''no down migration found'', s)
      | Some d \<Rightarrow>
          (if d = [] then (Failed (vr_version r) ''no down migration found'', s)
           else if dry then revert_all L ms dry rs s
           else case run_queries (revert_queries L d (vr_version r)) s of
               (None, s') \<Rightarrow> revert_all L ms dry rs s'
             | (Some e, s') \<Rightarrow> (Failed (vr_version r) e, s')))"

definition cmdDown :: "'u mig_lib \<Rightarrow> directory \<Rightarrow> jint option \<Rightarrow> bool \<Rightarrow> 'u session \<Rightarrow> outcome \<times> 'u session" where
  "cmdDown L dir cnt dry s = revert_all L (loadMigrations dir) dry (to_revert cnt (md_versions (se_committed s))) s"

section \<open>create\<close>

definition next_version :: "directory \<Rightarrow> int" where
  "next_version dir = 1 + fold (\<lambda>f n. if ends_with (fst f) ''.sql'' \<and> takeWhile is_digit (fst f) \<noteq> [] then max n (digits_val 0 (takeWhile is_digit (fst f))) else n) dir 0"

definition pad_start :: "nat \<Rightarrow> char \<Rightarrow> string \<Rightarrow> string" where
  "pad_start n c t = replicate (n - length t) c @ t"

definition slug_of :: "string \<Rightarrow> string" where
  "slug_of name =
     (let t = replace_all (Rep 1 None (Cls (\<lambda>c. \<not> (between (CHR ''a'') (CHR ''z'') c \<or> is_digit c)))) ''_'' (lower name);
          u = (if take 1 t = ''_'' then tl t else t)
      in if u \<noteq> [] \<and> last u = CHR ''_'' then butlast u else u)"

definition new_file :: "directory \<Rightarrow> string \<Rightarrow> string" where
  "new_file dir name = pad_start 3 (CHR ''0'') (show_int (next_version dir)) @ ''_'' @ slug_of name @ ''.sql''"

text \<open>The texts of the new files are a parameter: they carry the time.\<close>

definition cmdCreate :: "string \<Rightarrow> string \<Rightarrow> string option \<Rightarrow> directory \<Rightarrow> string + directory" where
  "cmdCreate template downTemplate name dir =
     (if \<not> truthy name then Inl ''--name is required''
      else let file = new_file dir (the name)
        in if map_of dir file \<noteq> None then Inl (file @ '' already exists'')
           else let dir' = dir @ [(file, template)]
             in Inr (if map_of dir' (down_file file) = None then dir' @ [(down_file file, downTemplate)] else dir'))"

section \<open>What a run of up does\<close>

text \<open>A script without transaction commands, and its effect on the user's part.\<close>

definition plain :: "'u sql list \<Rightarrow> bool" where
  "plain xs \<longleftrightarrow> list_all (\<lambda>x. case x of Sql_do _ \<Rightarrow> True | _ \<Rightarrow> False) xs"

fun run_user :: "'u sql list \<Rightarrow> 'u \<Rightarrow> string + 'u" where
  "run_user [] u = Inr u"
| "run_user (Sql_do f # xs) u = (case f u of Inl e \<Rightarrow> Inl e | Inr u' \<Rightarrow> run_user xs u')"
| "run_user (_ # xs) u = run_user xs u"

definition row_of :: "'u mig_lib \<Rightarrow> migration \<Rightarrow> version_row" where
  "row_of L m = \<lparr>vr_version = mg_version m, vr_name = mg_name m, vr_checksum = cryptoHash (ml_sha256 L) (mg_upSql m)\<rparr>"

text \<open>The specification: one migration after the other takes effect as a whole, up to the first that fails.\<close>

fun up_spec :: "'u mig_lib \<Rightarrow> migration list \<Rightarrow> 'u mig_db \<Rightarrow> outcome \<times> 'u mig_db" where
  "up_spec L [] db = (Done, db)"
| "up_spec L (m # ms) db =
     (case run_user (ml_parse L (mg_upSql m)) (md_user db) of
        Inl e \<Rightarrow> (Failed (mg_version m) e, db)
      | Inr u \<Rightarrow> (case insert_version (row_of L m) (db\<lparr>md_user := u\<rparr>) of
          Inl e \<Rightarrow> (Failed (mg_version m) e, db)
        | Inr db' \<Rightarrow> up_spec L ms db'))"

definition idle :: "'u mig_db \<Rightarrow> 'u session" where
  "idle db = \<lparr>se_committed = db, se_open = None\<rparr>"

lemma idle_iff: "se_open s = None \<Longrightarrow> s = idle (se_committed s)"
  by (simp add: idle_def)

lemma idle_committed [simp]: "se_committed (idle db) = db"
  by (simp add: idle_def)

lemma run_begin: "run_query [Sql_begin] (idle c) = (None, \<lparr>se_committed = c, se_open = Some (False, c)\<rparr>)"
  by (simp add: run_query_def idle_def)

lemma run_commit: "run_query [Sql_commit] \<lparr>se_committed = c, se_open = Some (False, w)\<rparr> = (None, idle w)"
  by (simp add: run_query_def idle_def)

lemma run_rollback: "snd (run_query [Sql_rollback] \<lparr>se_committed = c, se_open = Some (False, w)\<rparr>) = idle c"
  by (simp add: run_query_def idle_def)

lemma steps_plain:
  "plain xs \<Longrightarrow> sql_steps xs (c, i, w) =
     (case run_user xs (md_user w) of
        Inr u \<Rightarrow> (None, c, i, w\<lparr>md_user := u\<rparr>)
      | Inl e \<Rightarrow> (Some e, c, i, snd (snd (snd (sql_steps xs (c, i, w))))))"
proof (induction xs arbitrary: w)
  case (Cons x xs)
  then obtain f where x: "x = Sql_do f" "plain xs" by (auto simp: plain_def split: sql.splits)
  show ?case
  proof (cases "f (md_user w)")
    case (Inr u)
    then show ?thesis using Cons.IH[OF x(2), of "w\<lparr>md_user := u\<rparr>"] by (cases "run_user xs u") (simp_all add: x(1) Inr)
  qed (simp add: x(1))
qed simp

lemma run_plain:
  assumes "plain xs"
  shows "\<exists>w'. run_query xs \<lparr>se_committed = c, se_open = Some (False, w)\<rparr> =
    (case run_user xs (md_user w) of
       Inr u \<Rightarrow> (None, \<lparr>se_committed = c, se_open = Some (False, w\<lparr>md_user := u\<rparr>)\<rparr>)
     | Inl e \<Rightarrow> (Some e, \<lparr>se_committed = c, se_open = Some (False, w')\<rparr>))"
proof (cases "run_user xs (md_user w)")
  case (Inl e)
  then have "sql_steps xs (c, False, w) = (Some e, c, False, snd (snd (snd (sql_steps xs (c, False, w)))))"
    using steps_plain[OF assms, of c False w] by simp
  then obtain w' where "sql_steps xs (c, False, w) = (Some e, c, False, w')" by blast
  then show ?thesis by (simp add: run_query_def Inl)
next
  case (Inr u)
  then show ?thesis using steps_plain[OF assms, of c False w] by (simp add: run_query_def)
qed

lemma run_insert:
  "run_query [Sql_insert r] \<lparr>se_committed = c, se_open = Some (False, w)\<rparr> =
     (case insert_version r w of Inl e \<Rightarrow> (Some e, \<lparr>se_committed = c, se_open = Some (False, w)\<rparr>)
      | Inr w' \<Rightarrow> (None, \<lparr>se_committed = c, se_open = Some (False, w')\<rparr>))"
  by (simp add: run_query_def split: sum.split)

lemma run_delete:
  "run_query [Sql_delete v] \<lparr>se_committed = c, se_open = Some (False, w)\<rparr> =
     (None, \<lparr>se_committed = c, se_open = Some (False, w\<lparr>md_versions := filter (\<lambda>r. vr_version r \<noteq> v) (md_versions w)\<rparr>)\<rparr>)"
  by (simp add: run_query_def)

lemma apply_plain:
  assumes "plain (ml_parse L (mg_upSql m))"
  shows "run_queries (apply_queries L m) (idle db) =
    (case run_user (ml_parse L (mg_upSql m)) (md_user db) of
       Inl e \<Rightarrow> (Some e, idle db)
     | Inr u \<Rightarrow> (case insert_version (row_of L m) (db\<lparr>md_user := u\<rparr>) of Inl e \<Rightarrow> (Some e, idle db) | Inr db' \<Rightarrow> (None, idle db')))"
proof -
  obtain w' where "run_query (ml_parse L (mg_upSql m)) \<lparr>se_committed = db, se_open = Some (False, db)\<rparr> =
    (case run_user (ml_parse L (mg_upSql m)) (md_user db) of
       Inr u \<Rightarrow> (None, \<lparr>se_committed = db, se_open = Some (False, db\<lparr>md_user := u\<rparr>)\<rparr>)
     | Inl e \<Rightarrow> (Some e, \<lparr>se_committed = db, se_open = Some (False, w')\<rparr>))"
    using run_plain[OF assms] by blast
  then show ?thesis
    by (simp add: apply_queries_def run_begin run_insert run_commit run_rollback row_of_def[symmetric] split: sum.split)
qed

lemma apply_all_plain:
  "list_all (\<lambda>m. plain (ml_parse L (mg_upSql m))) ms \<Longrightarrow>
   apply_all L ms (idle db) = (fst (up_spec L ms db), idle (snd (up_spec L ms db)))"
  by (induction ms arbitrary: db) (simp_all add: apply_plain split: sum.split)

text \<open>C23. When no script contains a transaction command, a run of up refines the specification: every pending migration
  takes effect as a whole, in the order of the files, up to the first that fails, whose effect is undone.\<close>

theorem up_refines_spec:
  assumes "se_open s = None" and "list_all (\<lambda>m. plain (ml_parse L (mg_upSql m))) (loadMigrations dir)"
  shows "cmdUp L dir False s =
    (let r = up_spec L (pending_of (loadMigrations dir) s) (se_committed s) in (fst r, \<lparr>se_committed = snd r, se_open = None\<rparr>))"
proof -
  have "list_all (\<lambda>m. plain (ml_parse L (mg_upSql m))) (pending_of (loadMigrations dir) s)"
    using assms(2) by (simp add: pending_of_def list_all_iff)
  from apply_all_plain[OF this, of "se_committed s"] show ?thesis
    using idle_iff[OF assms(1)] by (simp add: cmdUp_def Let_def idle_def)
qed

lemma insert_version_versions:
  "insert_version r db = Inr db' \<Longrightarrow> vr_version ` set (md_versions db') = insert (vr_version r) (vr_version ` set (md_versions db))"
  by (auto simp: insert_version_def set_insort_key split: if_splits)

lemma up_spec_versions:
  "up_spec L ms db = (Done, db') \<Longrightarrow> vr_version ` set (md_versions db') = vr_version ` set (md_versions db) \<union> mg_version ` set ms"
proof (induction ms arbitrary: db)
  case (Cons m ms)
  then obtain u db1 where "insert_version (row_of L m) (db\<lparr>md_user := u\<rparr>) = Inr db1" "up_spec L ms db1 = (Done, db')"
    by (auto split: sum.splits)
  with Cons.IH[OF this(2)] insert_version_versions[OF this(1)] show ?case by (simp add: row_of_def)
qed simp

text \<open>A run of up that succeeds leaves nothing pending: another run changes nothing.\<close>

theorem up_idempotent:
  assumes "se_open s = None" and "list_all (\<lambda>m. plain (ml_parse L (mg_upSql m))) (loadMigrations dir)"
    and "cmdUp L dir False s = (Done, s')"
  shows "cmdUp L dir False s' = (Done, s')"
proof -
  let ?ms = "pending_of (loadMigrations dir) s"
  have "list_all (\<lambda>m. plain (ml_parse L (mg_upSql m))) ?ms" using assms(2) by (simp add: pending_of_def list_all_iff)
  from apply_all_plain[OF this, of "se_committed s", folded idle_iff[OF assms(1)]] assms(3)
  have "fst (up_spec L ?ms (se_committed s)) = Done" "s' = idle (snd (up_spec L ?ms (se_committed s)))"
    by (simp_all add: cmdUp_def)
  then have r: "up_spec L ?ms (se_committed s) = (Done, se_committed s')" by (simp add: prod_eq_iff)
  have "pending_of (loadMigrations dir) s' = []"
    using up_spec_versions[OF r] by (auto simp: pending_of_def filter_empty_conv)
  then show ?thesis by (simp add: cmdUp_def)
qed

text \<open>C26. A script in the form that the command create writes, between \<open>BEGIN\<close> and \<open>COMMIT\<close>, escapes the transaction of
  the runner: when the row of its version cannot be inserted, the run reports a failure and the script stays applied.\<close>

theorem template_escapes_transaction:
  assumes "se_open s = None" and "ml_parse L (mg_upSql m) = [Sql_begin, Sql_do f, Sql_commit]"
    and "f (md_user (se_committed s)) = Inr u" and "insert_version (row_of L m) ((se_committed s)\<lparr>md_user := u\<rparr>) = Inl e"
  shows "apply_all L [m] s = (Failed (mg_version m) e, \<lparr>se_committed = (se_committed s)\<lparr>md_user := u\<rparr>, se_open = None\<rparr>)"
proof -
  obtain c where s: "s = idle c" using idle_iff[OF assms(1)] by blast
  have "run_query [Sql_begin, Sql_do f, Sql_commit] \<lparr>se_committed = c, se_open = Some (False, c)\<rparr> = (None, idle (c\<lparr>md_user := u\<rparr>))"
    using assms(3) by (simp add: run_query_def s idle_def)
  moreover have "run_query [Sql_insert (row_of L m)] (idle (c\<lparr>md_user := u\<rparr>)) = (Some e, idle (c\<lparr>md_user := u\<rparr>))"
    using assms(4) by (simp add: run_query_def s idle_def)
  moreover have "run_query [Sql_rollback] (idle (c\<lparr>md_user := u\<rparr>)) = (None, idle (c\<lparr>md_user := u\<rparr>))"
    by (simp add: run_query_def idle_def)
  ultimately show ?thesis
    by (simp add: s apply_queries_def run_begin assms(2) row_of_def[symmetric] idle_def[symmetric])
qed

definition lib0 :: "nat mig_lib" where
  "lib0 = \<lparr>ml_sha256 = \<lambda>t. t,
     ml_parse = \<lambda>t. if t = ''inc'' then [Sql_do (\<lambda>n. Inr (n + 1))] else if t = ''dec'' then [Sql_do (\<lambda>n. Inr (n - 1))]
       else if t = ''own'' then [Sql_begin, Sql_do (\<lambda>n. Inr (n + 1)), Sql_commit] else []\<rparr>"

definition dir0 :: directory where
  "dir0 = [(''002_b.sql'', ''inc''), (''001_a.sql'', ''inc''), (''001_a.down.sql'', ''dec'')]"

lemma load_dir0: "loadMigrations dir0 =
  [\<lparr>mg_version = 1, mg_name = ''a'', mg_file = ''001_a.sql'', mg_upSql = ''inc'', mg_downSql = Some ''dec''\<rparr>,
   \<lparr>mg_version = 2, mg_name = ''b'', mg_file = ''002_b.sql'', mg_upSql = ''inc'', mg_downSql = None\<rparr>]"
  by code_simp

lemma plain_dir0: "list_all (\<lambda>m. plain (ml_parse lib0 (mg_upSql m))) (loadMigrations dir0)"
  by (simp add: load_dir0 lib0_def plain_def)

definition db0 :: "nat mig_db" where
  "db0 = \<lparr>md_versions = [], md_user = 5\<rparr>"

lemma spec_dir0: "up_spec lib0 (loadMigrations dir0) db0 =
  (Done, \<lparr>md_versions = [\<lparr>vr_version = 1, vr_name = ''a'', vr_checksum = ''inc''\<rparr>, \<lparr>vr_version = 2, vr_name = ''b'', vr_checksum = ''inc''\<rparr>], md_user = 7\<rparr>)"
  by (simp add: load_dir0 lib0_def db0_def row_of_def cryptoHash_def insert_version_def)

lemma pending_dir0: "pending_of (loadMigrations dir0) (idle db0) = loadMigrations dir0"
  by (simp add: pending_of_def db0_def)

theorem up_refines_spec_witness:
  "cmdUp lib0 dir0 False (idle db0) =
     (Done, idle \<lparr>md_versions = [\<lparr>vr_version = 1, vr_name = ''a'', vr_checksum = ''inc''\<rparr>, \<lparr>vr_version = 2, vr_name = ''b'', vr_checksum = ''inc''\<rparr>],
        md_user = 7\<rparr>)"
  using up_refines_spec[of "idle db0", OF _ plain_dir0] by (simp add: pending_dir0 spec_dir0) (simp add: idle_def)

lemma up_dir0: "cmdUp lib0 dir0 False (idle db0) =
  (Done, idle \<lparr>md_versions = [\<lparr>vr_version = 1, vr_name = ''a'', vr_checksum = ''inc''\<rparr>, \<lparr>vr_version = 2, vr_name = ''b'', vr_checksum = ''inc''\<rparr>], md_user = 7\<rparr>)"
  using apply_all_plain[OF plain_dir0, of db0] by (simp add: cmdUp_def pending_dir0 spec_dir0)

theorem up_idempotent_witness:
  "cmdUp lib0 dir0 False (snd (cmdUp lib0 dir0 False (idle db0))) = (Done, snd (cmdUp lib0 dir0 False (idle db0)))"
  using up_idempotent[OF _ plain_dir0, of "idle db0"] by (simp add: up_dir0) (simp add: idle_def)

theorem template_escapes_transaction_witness:
  "apply_all lib0 [\<lparr>mg_version = 3, mg_name = replicate 256 (CHR ''n''), mg_file = ''f'', mg_upSql = ''own'', mg_downSql = None\<rparr>] (idle db0) =
     (Failed 3 ''value too long for type character varying(255)'', idle (db0\<lparr>md_user := 6\<rparr>))"
  using template_escapes_transaction[of "idle db0" lib0 "\<lparr>mg_version = 3, mg_name = replicate 256 (CHR ''n''), mg_file = ''f'', mg_upSql = ''own'', mg_downSql = None\<rparr>" "\<lambda>n. Inr (n + 1)" 6 "''value too long for type character varying(255)''"]
  by (simp add: lib0_def db0_def idle_def row_of_def insert_version_def)

section \<open>A run of down\<close>

lemma revert_plain:
  assumes "plain (ml_parse L d)" and "run_user (ml_parse L d) (md_user db) = Inr u"
  shows "run_queries (revert_queries L d v) (idle db) =
    (None, idle (db\<lparr>md_user := u, md_versions := filter (\<lambda>r. vr_version r \<noteq> v) (md_versions db)\<rparr>))"
proof -
  have "run_query (ml_parse L d) \<lparr>se_committed = db, se_open = Some (False, db)\<rparr> =
    (None, \<lparr>se_committed = db, se_open = Some (False, db\<lparr>md_user := u\<rparr>)\<rparr>)"
    using run_plain[OF assms(1), of db db] assms(2) by simp
  then show ?thesis by (simp add: revert_queries_def run_begin run_delete run_commit)
qed

lemma insert_last:
  "\<lbrakk>insert_version r db = Inr db'; \<forall>v \<in> set (md_versions db). vr_version v < vr_version r\<rbrakk> \<Longrightarrow> md_versions db' = md_versions db @ [r]"
proof -
  assume "insert_version r db = Inr db'" and m: "\<forall>v \<in> set (md_versions db). vr_version v < vr_version r"
  moreover have "insort_key vr_version r vs = vs @ [r]" if "\<forall>v \<in> set vs. vr_version v < vr_version r" for vs
    using that by (induction vs) auto
  ultimately show ?thesis by (auto simp: insert_version_def split: if_splits)
qed

text \<open>Down undoes up: when the last applied script has a down script that undoes it, down takes the database back to
  what it was before that script.\<close>

theorem down_undoes_up:
  assumes "se_open s = None" and "find (\<lambda>m'. mg_version m' = mg_version m) (loadMigrations dir) = Some m"
    and "mg_downSql m = Some d" "d \<noteq> []" "plain (ml_parse L (mg_upSql m))" "plain (ml_parse L d)"
    and "\<forall>v \<in> set (md_versions (se_committed s)). vr_version v < mg_version m"
    and "run_user (ml_parse L d) (md_user (se_committed s')) = Inr (md_user (se_committed s))"
    and "apply_all L [m] s = (Done, s')"
  shows "cmdDown L dir None False s' = (Done, s)"
proof -
  obtain c where s: "s = idle c" using idle_iff[OF assms(1)] by blast
  obtain u db' where u: "run_user (ml_parse L (mg_upSql m)) (md_user c) = Inr u"
    and i: "insert_version (row_of L m) (c\<lparr>md_user := u\<rparr>) = Inr db'" and s': "s' = idle db'"
    using assms(9) by (auto simp: s apply_plain[OF assms(5)] split: sum.splits)
  have v: "md_versions db' = md_versions c @ [row_of L m]"
    using insert_last[OF i] assms(7) by (simp add: s row_of_def)
  have f: "filter (\<lambda>r. vr_version r \<noteq> mg_version m) (md_versions db') = md_versions c"
    using assms(7) by (auto simp: s v row_of_def filter_id_conv)
  have e: "db'\<lparr>md_user := md_user c, md_versions := md_versions c\<rparr> = c" by (cases c) (cases db', simp)
  have "run_queries (revert_queries L d (mg_version m)) (idle db') = (None, idle c)"
    using revert_plain[OF assms(6), of db' "md_user c" "mg_version m"] assms(8) unfolding f e by (simp add: s s')
  moreover have "to_revert None (md_versions db') = [row_of L m]" by (simp add: to_revert_def nullish_def v)
  ultimately show ?thesis using assms(2,3,4) by (simp add: cmdDown_def s s' row_of_def)
qed

theorem down_undoes_up_witness:
  "cmdDown lib0 [(''001_a.sql'', ''inc''), (''001_a.down.sql'', ''dec'')] None False
     (snd (apply_all lib0 (loadMigrations [(''001_a.sql'', ''inc''), (''001_a.down.sql'', ''dec'')]) (idle db0))) = (Done, idle db0)"
proof -
  let ?dir = "[(''001_a.sql'', ''inc''), (''001_a.down.sql'', ''dec'')]"
  let ?m = "\<lparr>mg_version = 1, mg_name = ''a'', mg_file = ''001_a.sql'', mg_upSql = ''inc'', mg_downSql = Some ''dec''\<rparr>"
  have l: "loadMigrations ?dir = [?m]" by code_simp
  have a: "apply_all lib0 [?m] (idle db0) = (Done, idle \<lparr>md_versions = [row_of lib0 ?m], md_user = 6\<rparr>)"
    by (simp add: apply_plain plain_def lib0_def db0_def insert_version_def row_of_def)
  have o: "se_open (idle db0) = None" by (simp add: idle_def)
  have "cmdDown lib0 ?dir None False (idle \<lparr>md_versions = [row_of lib0 ?m], md_user = 6\<rparr>) = (Done, idle db0)"
    by (rule down_undoes_up[OF o _ _ _ _ _ _ _ a, of ?dir "''dec''"]) (simp_all add: l plain_def, simp_all add: lib0_def db0_def)
  then show ?thesis by (simp only: l a snd_conv)
qed

section \<open>The order of the files, and the values of options\<close>

text \<open>The files are sorted as texts: a version of four digits runs before one of three.\<close>

lemma text_order: "map mg_version (loadMigrations [(''999_a.sql'', []), (''1000_b.sql'', [])]) = [1000, 999]"
  by code_simp

text \<open>The value of an option ends at its second equals sign: a connection string with a parameter loses it.\<close>

theorem option_value_cut:
  assumes "CHR ''='' \<notin> set u" "CHR ''='' \<notin> set v"
  shows "op_connection (read_option (''--connection='' @ u @ ''='' @ v) opts) = Some u"
proof -
  have p: "''--connection='' @ u @ ''='' @ v = ''--connection'' @ CHR ''='' # u @ CHR ''='' # v" by simp
  show ?thesis
    unfolding read_option_def option_value_def p using assms by (simp add: split_on_first split_on_last)
qed

theorem option_value_cut_witness:
  "op_connection (read_option ''--connection=postgres://db?sslmode=require'' \<lparr>op_dryRun = False, op_name = None, op_count = None, op_connection = None, op_dir = None\<rparr>)
     = Some ''postgres://db?sslmode''"
  using option_value_cut[of "''postgres://db?sslmode''" "''require''"] by simp

end
