(* ===== verification/LlmStream.thy ===== *)
theory LlmStream
  imports Activities
begin

text \<open>
  The streaming LLM call of the workflow engine, \<open>callLLMStream\<close> in \<open>temporal/activities/index.ts\<close>: an asynchronous
  generator that turns the events of a server stream into a sequence of chunks. The events of the stream, the
  consumer's requests and the microtask that resumes a woken generator interleave freely.
\<close>

section \<open>Chunks and the request\<close>

record stream_chunk =
  sc_content :: string
  sc_done :: bool
  sc_modelUsed :: string
  sc_usage :: "(num \<times> num \<times> num) option"
  sc_cost :: "string option"
  sc_finishReason :: "string option"

text \<open>A message of the stream, with the members that may be absent.\<close>

record stream_data =
  sd_content :: "string option"
  sd_done :: bool
  sd_model_used :: "string option"
  sd_usage :: "(num option \<times> num option \<times> num option) option"
  sd_cost :: "string option"
  sd_finish_reason :: "string option"

definition chunk_of :: "stream_data \<Rightarrow> stream_chunk" where
  "chunk_of d =
     \<lparr>sc_content = nullish (sd_content d) [], sc_done = sd_done d, sc_modelUsed = nullish (sd_model_used d) ''unknown'',
      sc_usage = (case sd_usage d of None \<Rightarrow> None | Some (p, c, t) \<Rightarrow> Some (nullish p (Num 0), nullish c (Num 0), nullish t (Num 0))),
      sc_cost = sd_cost d, sc_finishReason = sd_finish_reason d\<rparr>"

text \<open>The request names no tools: the field keeps its default.\<close>

definition stream_request :: "llm_args \<Rightarrow> llm_proto_request" where
  "stream_request p =
     \<lparr>lp_agent_id = la_agentId p, lp_execution_id = la_executionId p, lp_namespace = la_namespace p,
      lp_messages = map (\<lambda>m. \<lparr>lm_role = role_text (m_role m), lm_content = m_content m,
        lm_tool_call_id = nullish (m_toolCallId m) [], lm_tool_calls = nullish (m_toolCalls m) []\<rparr>) (la_messages p),
      lp_tool_definitions = [], lp_model = nullish (la_model p) []\<rparr>"

section \<open>The generator\<close>

datatype outcome = Returned | Thrown string

datatype generator = At_yield stream_chunk | Awaiting bool | Finished outcome

text \<open>\<open>Awaiting w\<close>: the generator waits on a promise, which is resolved when \<open>w\<close>.\<close>

record stream_call =
  sk_queue :: "stream_chunk list"
  sk_closed :: bool
  sk_error :: "string option"
  sk_gen :: generator
  sk_yielded :: "stream_chunk list"
  sk_cancelled :: bool

definition wake :: "stream_call \<Rightarrow> stream_call" where
  "wake s = (case sk_gen s of Awaiting _ \<Rightarrow> s\<lparr>sk_gen := Awaiting True\<rparr> | _ \<Rightarrow> s)"

definition on_data :: "stream_data \<Rightarrow> stream_call \<Rightarrow> stream_call" where
  "on_data d s = wake (s\<lparr>sk_queue := sk_queue s @ [chunk_of d]\<rparr>)"

definition on_error :: "string \<Rightarrow> stream_call \<Rightarrow> stream_call" where
  "on_error e s = wake (s\<lparr>sk_error := Some e, sk_closed := True\<rparr>)"

definition on_end :: "stream_call \<Rightarrow> stream_call" where
  "on_end s = wake (s\<lparr>sk_closed := True\<rparr>)"

text \<open>The generator ends: its \<open>finally\<close> cancels the call.\<close>

definition finish :: "outcome \<Rightarrow> stream_call \<Rightarrow> stream_call" where
  "finish r s = s\<lparr>sk_gen := Finished r, sk_cancelled := True\<rparr>"

definition loop :: "stream_call \<Rightarrow> stream_call" where
  "loop s =
     (case sk_queue s of
        x # xs \<Rightarrow> s\<lparr>sk_queue := xs, sk_gen := At_yield x, sk_yielded := sk_yielded s @ [x]\<rparr>
      | [] \<Rightarrow>
          (case sk_error s of
             Some e \<Rightarrow> finish (Thrown e) s
           | None \<Rightarrow> if sk_closed s then finish Returned s else s\<lparr>sk_gen := Awaiting False\<rparr>))"

definition next_chunk :: "stream_call \<Rightarrow> stream_call" where
  "next_chunk s = (case sk_gen s of At_yield x \<Rightarrow> if sc_done x then finish Returned s else loop s | _ \<Rightarrow> s)"

definition resume_woken :: "stream_call \<Rightarrow> stream_call" where
  "resume_woken s = (case sk_gen s of Awaiting True \<Rightarrow> loop s | _ \<Rightarrow> s)"

text \<open>The consumer leaves its loop.\<close>

definition return_early :: "stream_call \<Rightarrow> stream_call" where
  "return_early s = (case sk_gen s of At_yield _ \<Rightarrow> finish Returned s | _ \<Rightarrow> s)"

text \<open>The first request makes the call. A call that is no stream is closed at once.\<close>

definition start_stream :: "bool \<Rightarrow> stream_call" where
  "start_stream streaming =
     loop \<lparr>sk_queue = [], sk_closed = \<not> streaming, sk_error = None, sk_gen = Awaiting True, sk_yielded = [], sk_cancelled = False\<rparr>"

datatype stream_event = Data stream_data | Failure string | End_of_stream | Next | Microtask | Leave

fun stream_step :: "stream_event \<Rightarrow> stream_call \<Rightarrow> stream_call" where
  "stream_step (Data d) s = on_data d s"
| "stream_step (Failure e) s = on_error e s"
| "stream_step End_of_stream s = on_end s"
| "stream_step Next s = next_chunk s"
| "stream_step Microtask s = resume_woken s"
| "stream_step Leave s = return_early s"

definition run_stream :: "stream_event list \<Rightarrow> stream_call" where
  "run_stream evs = fold stream_step evs (start_stream True)"

text \<open>What the stream delivered.\<close>

fun received :: "stream_event list \<Rightarrow> stream_chunk list" where
  "received [] = []"
| "received (Data d # evs) = chunk_of d # received evs"
| "received (_ # evs) = received evs"

lemma received_append: "received (evs @ [ev]) = received evs @ (case ev of Data d \<Rightarrow> [chunk_of d] | _ \<Rightarrow> [])"
  by (induction evs rule: received.induct) (auto split: stream_event.split)

section \<open>What reaches the consumer\<close>

text \<open>Chunks pass in order, a wait has a reason, and the generator ends only for a reason.\<close>

definition delivered_before :: "stream_event \<Rightarrow> stream_event list \<Rightarrow> stream_call \<Rightarrow> bool" where
  "delivered_before ev evs s \<longleftrightarrow> (\<exists>us vs. evs = us @ ev # vs \<and> prefix (received us) (sk_yielded s))"

definition ends_for :: "outcome \<Rightarrow> stream_event list \<Rightarrow> stream_call \<Rightarrow> bool" where
  "ends_for r evs s \<longleftrightarrow>
     (case r of
        Thrown e \<Rightarrow> delivered_before (Failure e) evs s
      | Returned \<Rightarrow> (sk_yielded s \<noteq> [] \<and> sc_done (last (sk_yielded s))) \<or> delivered_before End_of_stream evs s \<or> Leave \<in> set evs)"

definition ended :: "stream_event list \<Rightarrow> bool" where
  "ended evs \<longleftrightarrow> list_ex (\<lambda>ev. case ev of Failure _ \<Rightarrow> True | End_of_stream \<Rightarrow> True | _ \<Rightarrow> False) evs"

definition stream_ok :: "stream_event list \<Rightarrow> stream_call \<Rightarrow> bool" where
  "stream_ok evs s \<longleftrightarrow>
     sk_yielded s @ sk_queue s = received evs \<and>
     (sk_gen s = Awaiting False \<longrightarrow> sk_queue s = [] \<and> \<not> sk_closed s \<and> sk_error s = None) \<and>
     (sk_closed s \<longrightarrow> sk_error s \<noteq> None \<or> End_of_stream \<in> set evs) \<and>
     (case sk_error s of Some e \<Rightarrow> Failure e \<in> set evs | None \<Rightarrow> True) \<and>
     sk_closed s = ended evs \<and>
     (case sk_gen s of
        At_yield x \<Rightarrow> sk_yielded s \<noteq> [] \<and> last (sk_yielded s) = x
      | Finished r \<Rightarrow> ends_for r evs s
      | _ \<Rightarrow> True)"

lemma received_split: "received (us @ vs) = received us @ received vs"
  by (induction us rule: received.induct) auto

lemma delivered_beforeI:
  assumes "ev \<in> set evs" "sk_yielded s = received evs"
  shows "delivered_before ev evs s"
proof -
  obtain us vs where "evs = us @ ev # vs" using assms(1) by (meson split_list)
  then show ?thesis using assms(2) by (auto simp: delivered_before_def received_split)
qed

lemma delivered_before_more: "delivered_before ev evs s \<Longrightarrow> sk_yielded s' = sk_yielded s \<Longrightarrow> delivered_before ev (evs @ vs) s'"
  unfolding delivered_before_def by (metis append.assoc append_Cons)

lemma stream_ok_loop:
  assumes "stream_ok evs s" "\<And>r. sk_gen s \<noteq> Finished r"
  shows "stream_ok evs (loop s)"
proof (cases "sk_queue s")
  case Nil
  then have "delivered_before ev evs (finish r s)" if "ev \<in> set evs" for ev r
    using delivered_beforeI[OF that] assms(1) by (auto simp: stream_ok_def finish_def)
  then show ?thesis using assms Nil
    by (auto simp: stream_ok_def loop_def ends_for_def finish_def split: option.splits)
next
  case (Cons x xs)
  then show ?thesis using assms by (auto simp: stream_ok_def loop_def split: option.splits)
qed

lemma ends_for_more: "ends_for r evs s \<Longrightarrow> sk_yielded s' = sk_yielded s \<Longrightarrow> ends_for r (evs @ vs) s'"
  unfolding ends_for_def by (cases r) (auto dest: delivered_before_more)

lemma stream_ok_quiet:
  assumes "stream_ok evs s" and "\<And>r. ev \<noteq> Data r" "\<not> ended [ev]"
  shows "stream_ok (evs @ [ev]) s"
  using assms by (auto simp: stream_ok_def received_append ended_def ends_for_more split: option.splits generator.splits stream_event.splits)

lemma stream_ok_data: "stream_ok evs s \<Longrightarrow> stream_ok (evs @ [Data d]) (on_data d s)"
  by (auto simp: stream_ok_def on_data_def wake_def received_append ended_def ends_for_more split: option.splits generator.splits)

lemma stream_ok_error: "stream_ok evs s \<Longrightarrow> stream_ok (evs @ [Failure e]) (on_error e s)"
  by (auto simp: stream_ok_def on_error_def wake_def received_append ended_def ends_for_more split: option.splits generator.splits)

lemma stream_ok_end: "stream_ok evs s \<Longrightarrow> stream_ok (evs @ [End_of_stream]) (on_end s)"
  by (auto simp: stream_ok_def on_end_def wake_def received_append ended_def ends_for_more split: option.splits generator.splits)

lemma stream_ok_finish_done:
  "\<lbrakk>stream_ok evs s; sk_gen s = At_yield x; sc_done x \<or> Leave \<in> set evs\<rbrakk> \<Longrightarrow> stream_ok evs (finish Returned s)"
  by (auto simp: stream_ok_def finish_def ends_for_def split: option.splits)

lemma stream_ok_step:
  assumes "stream_ok evs s"
  shows "stream_ok (evs @ [ev]) (stream_step ev s)"
proof -
  have q: "stream_ok (evs @ [ev]) s" if "\<And>r. ev \<noteq> Data r" "\<not> ended [ev]" using stream_ok_quiet[OF assms that] .
  show ?thesis
  proof (cases ev)
    case Next
    then show ?thesis using q stream_ok_loop[of "evs @ [ev]" s] stream_ok_finish_done[of "evs @ [ev]" s]
      by (auto simp: next_chunk_def ended_def split: generator.split bool.split)
  next
    case Microtask
    then show ?thesis using q stream_ok_loop[of "evs @ [ev]" s]
      by (auto simp: resume_woken_def ended_def split: generator.split bool.split)
  next
    case Leave
    then show ?thesis using q stream_ok_finish_done[of "evs @ [ev]" s]
      by (auto simp: return_early_def ended_def split: generator.split)
  qed (use assms in \<open>simp_all add: stream_ok_data stream_ok_error stream_ok_end\<close>)
qed

lemma stream_ok_run: "stream_ok evs (run_stream evs)"
proof (induction evs rule: rev_induct)
  case Nil
  show ?case by (simp add: run_stream_def start_stream_def loop_def stream_ok_def ended_def)
next
  case (snoc ev evs)
  then show ?case using stream_ok_step by (simp add: run_stream_def)
qed

text \<open>C27. The consumer of a streamed answer gets the chunks of the stream in order and without gaps, under every interleaving
  of the stream's events with its own requests. The generator throws only an error that the stream
  reported and after everything received before it; it returns only after a final chunk, after the end of the stream, with
  everything received before, or because the consumer left.\<close>

theorem stream_faithful:
  "prefix (sk_yielded (run_stream evs)) (received evs) \<and>
   (case sk_gen (run_stream evs) of Finished r \<Rightarrow> ends_for r evs (run_stream evs) | _ \<Rightarrow> True)"
proof -
  let ?s = "run_stream evs"
  have "received evs = sk_yielded ?s @ sk_queue ?s" using stream_ok_run[of evs] by (simp add: stream_ok_def)
  then show ?thesis using stream_ok_run[of evs] by (auto simp: stream_ok_def split: generator.splits)
qed

section \<open>No stream hangs\<close>

definition round_of :: "stream_call \<Rightarrow> stream_call" where
  "round_of s = next_chunk (resume_woken s)"

definition over :: "stream_call \<Rightarrow> bool" where
  "over s \<longleftrightarrow> (\<exists>r. sk_gen s = Finished r)"

text \<open>A stream that has ended leaves its generator running, not waiting.\<close>

definition winding_down :: "stream_call \<Rightarrow> bool" where
  "winding_down s \<longleftrightarrow> sk_closed s \<and> sk_gen s \<noteq> Awaiting False"

lemma winding_down_loop: "sk_closed s \<Longrightarrow> winding_down (loop s) \<and> (over (loop s) \<or> (\<exists>x. sk_gen (loop s) = At_yield x)) \<and>
    (over (loop s) \<or> length (sk_queue (loop s)) < length (sk_queue s))"
  by (auto simp: loop_def winding_down_def over_def finish_def split: list.split option.split)

lemma loop_shrinks: "length (sk_queue (loop s)) \<le> length (sk_queue s)"
  by (auto simp: loop_def finish_def split: list.split option.split)

lemma round_progress:
  assumes "winding_down s"
  shows "winding_down (round_of s) \<and> (over (round_of s) \<or> length (sk_queue (round_of s)) < length (sk_queue s))"
proof (cases "sk_gen s")
  case (At_yield x)
  then show ?thesis using assms winding_down_loop[of s]
    by (auto simp: round_of_def resume_woken_def next_chunk_def winding_down_def over_def finish_def)
next
  case (Awaiting b)
  then have b: "b" and c: "sk_closed s" using assms by (auto simp: winding_down_def)
  have r: "resume_woken s = loop s" using Awaiting b by (simp add: resume_woken_def)
  let ?t = "loop s"
  have t: "sk_closed ?t" "over ?t \<or> (\<exists>x. sk_gen ?t = At_yield x)" "over ?t \<or> length (sk_queue ?t) < length (sk_queue s)"
    using winding_down_loop[OF c] by (auto simp: winding_down_def)
  show ?thesis
    using t winding_down_loop[OF t(1)] loop_shrinks[of ?t]
    by (auto simp: round_of_def r next_chunk_def over_def finish_def winding_down_def split: generator.splits)
next
  case (Finished r)
  then show ?thesis using assms by (simp add: round_of_def resume_woken_def next_chunk_def over_def)
qed

lemma rounds_end: "\<lbrakk>winding_down s; length (sk_queue s) < n\<rbrakk> \<Longrightarrow> over ((round_of ^^ n) s)"
proof (induction n arbitrary: s)
  case (Suc n)
  note p = round_progress[OF Suc.prems(1)]
  show ?case
  proof (cases "over (round_of s)")
    case True
    have "round_of t = t" if "over t" for t using that by (auto simp: over_def round_of_def resume_woken_def next_chunk_def)
    then have "(round_of ^^ k) (round_of s) = round_of s" for k using True by (induction k) auto
    then show ?thesis using True by (simp add: funpow_Suc_right del: funpow.simps)
  next
    case False
    then show ?thesis using Suc.IH[of "round_of s"] Suc.prems(2) p by (simp add: funpow_Suc_right del: funpow.simps)
  qed
qed simp

text \<open>C37. No streamed call hangs: from any reachable state whose stream has ended or failed, a consumer that keeps asking
  comes to the end of the generator after one request more than chunks are queued.\<close>

theorem stream_terminates:
  assumes "ended evs"
  shows "\<exists>r. sk_gen ((round_of ^^ Suc (length (sk_queue (run_stream evs)))) (run_stream evs)) = Finished r"
proof -
  have "winding_down (run_stream evs)" using stream_ok_run[of evs] assms by (auto simp: stream_ok_def winding_down_def)
  from rounds_end[OF this lessI] show ?thesis unfolding over_def .
qed

definition demo_data :: stream_data where
  "demo_data = \<lparr>sd_content = Some ''Hel'', sd_done = False, sd_model_used = None, sd_usage = None, sd_cost = None, sd_finish_reason = None\<rparr>"

theorem stream_terminates_witness:
  "\<exists>r. sk_gen ((round_of ^^ Suc (length (sk_queue (run_stream [Data demo_data, Data demo_data, Failure ''14 UNAVAILABLE''])))) (run_stream [Data demo_data, Data demo_data, Failure ''14 UNAVAILABLE''])) = Finished r"
  by (rule stream_terminates) (simp add: ended_def)

text \<open>The streaming request is the plain one without its tools.\<close>

lemma stream_request_drops_tools: "stream_request p = (llm_request p)\<lparr>lp_tool_definitions := []\<rparr>"
  by (simp add: stream_request_def llm_request_def)

text \<open>A stream that ends without its final chunk returns like a complete one.\<close>

lemma truncated_stream: "sk_gen (run_stream [Data demo_data, Microtask, End_of_stream, Next]) = Finished Returned"
  by code_simp

end
