(* ===== verification/SandboxAgent.thy ===== *)
theory SandboxAgent
  imports JsRegex Json
begin

text \<open>
  The program inside a sandbox, \<open>execution-plane/sandbox-runtime/base-runtime/server.js\<close>: its tools, the list of
  blocked patterns for commands, and its HTTP interface; and the executor of the same tools on a host,
  \<open>packages/shared/src/sandbox/executor.ts\<close>. Processes are a parameter: what a started program prints and how it ends.
\<close>

section \<open>Processes\<close>

record exec_result =
  er_stdout :: string
  er_stderr :: string
  er_exitCode :: int

datatype proc_end = Closed string string "int option" | Spawn_failed string string

record proc_start =
  ps_argv :: "string list"
  ps_stdin :: "string option"

type_synonym os = "proc_start \<Rightarrow> proc_end"

definition spawnTool :: "os \<Rightarrow> proc_start \<Rightarrow> exec_result" where
  "spawnTool os p =
     (case os p of
        Closed so se code \<Rightarrow> \<lparr>er_stdout = so, er_stderr = se, er_exitCode = nullish code 1\<rparr>
      | Spawn_failed so se \<Rightarrow> \<lparr>er_stdout = so, er_stderr = se, er_exitCode = 1\<rparr>)"

definition refused :: "string \<Rightarrow> exec_result" where
  "refused m = \<lparr>er_stdout = [], er_stderr = m, er_exitCode = 1\<rparr>"

text \<open>A tool refuses its arguments or starts one program.\<close>

type_synonym tool_plan = "exec_result + proc_start"

section \<open>Tools\<close>

definition meta_char :: "char \<Rightarrow> bool" where
  "meta_char c \<longleftrightarrow> c \<in> set '';&|`$(){}!<>''"

definition code_char :: "char \<Rightarrow> bool" where
  "code_char c \<longleftrightarrow> (let n = (of_char c :: nat) in 32 \<le> n \<and> n \<le> 126 \<or> n = 10 \<or> n = 13 \<or> n = 9)"

definition path_char :: "char \<Rightarrow> bool" where
  "path_char c \<longleftrightarrow> between (CHR ''a'') (CHR ''z'') c \<or> between (CHR ''A'') (CHR ''Z'') c \<or> between (CHR ''0'') (CHR ''9'') c \<or> c \<in> set ''_/.-''"

definition path_rx :: regex where
  "path_rx = Cat [Bol, Rep 1 None (Cls path_char), Eol]"

definition code_interpreter :: "json \<Rightarrow> tool_plan" where
  "code_interpreter args =
     (case jget args ''code'' of
        Some (JStr code) \<Rightarrow>
          (if 10000 < length code then Inl (refused ''Invalid code'')
           else if rx_test (Cls (\<lambda>c. \<not> code_char c)) code then Inl (refused ''Invalid characters in code'')
           else Inr \<lparr>ps_argv = [''python3'', ''-c'', code], ps_stdin = None\<rparr>)
      | _ \<Rightarrow> Inl (refused ''Invalid code''))"

definition valid_path :: "json \<Rightarrow> string option" where
  "valid_path args =
     (case jget args ''path'' of
        Some (JStr path) \<Rightarrow> if str_includes path ''..'' \<or> \<not> rx_test path_rx path then None else Some path
      | _ \<Rightarrow> None)"

definition file_read :: "json \<Rightarrow> tool_plan" where
  "file_read args =
     (case valid_path args of None \<Rightarrow> Inl (refused ''Invalid path'') | Some path \<Rightarrow> Inr \<lparr>ps_argv = [''cat'', path], ps_stdin = None\<rparr>)"

definition file_write :: "json \<Rightarrow> tool_plan" where
  "file_write args =
     (case valid_path args of
        None \<Rightarrow> Inl (refused ''Invalid path'')
      | Some path \<Rightarrow>
          (let content = (case jget args ''content'' of Some (JStr c) \<Rightarrow> c | _ \<Rightarrow> [])
           in if 1000000 < length content then Inl (refused ''Content too large'')
              else Inr \<lparr>ps_argv = [''tee'', path], ps_stdin = Some content\<rparr>))"

definition database_query :: "json \<Rightarrow> tool_plan" where
  "database_query args =
     (case jget args ''query'' of
        Some (JStr query) \<Rightarrow>
          (if 10000 < length query then Inl (refused ''Invalid query'')
           else if rx_test (Cls meta_char) query then Inl (refused ''Blocked characters in query'')
           else Inr \<lparr>ps_argv = [''sqlite3'', ''/tmp/data.db'', query], ps_stdin = None\<rparr>)
      | _ \<Rightarrow> Inl (refused ''Invalid query''))"

definition TOOLS :: "(string \<times> (json \<Rightarrow> tool_plan)) list" where
  "TOOLS = [(''code_interpreter'', code_interpreter), (''file_read'', file_read), (''file_write'', file_write), (''database_query'', database_query)]"

section \<open>Commands\<close>

definition fork_bomb :: regex where
  "fork_bomb = Cat [Lit '':'', Rep 0 None spaces, Lit ''{'', Rep 0 None spaces, Lit '':|:&'', Rep 0 None spaces, Lit ''};'']"

definition destructive :: regex where
  "destructive = Cat [WordB, Alt [Cat [Lit ''rm'', Rep 1 None spaces, Lit ''-rf''], Lit ''mkfs'', Cat [Lit ''dd'', Rep 1 None spaces, Lit ''if=''], fork_bomb], WordB]"

definition download :: regex where
  "download = Cat [WordB, alts [''curl'', ''wget''], Rep 1 None spaces, Rep 0 None dot, Lit ''|'', Rep 0 None spaces,
     alts [''bash'', ''sh'', ''python'', ''node''], WordB]"

definition decode :: regex where
  "decode = Cat [WordB, Lit ''base64'', Rep 1 None spaces, Lit ''--decode'', WordB]"

definition BLOCKED_PATTERNS :: "regex list" where
  "BLOCKED_PATTERNS = [Cls meta_char, destructive, download, decode]"

definition isCommandSafe :: "string \<Rightarrow> bool" where
  "isCommandSafe command \<longleftrightarrow>
     command \<noteq> [] \<and> \<not> 4096 < length command \<and> list_all (\<lambda>p. \<not> rx_test p command) BLOCKED_PATTERNS"

section \<open>The interface\<close>

datatype agent_reply =
    Health
  | Result exec_result
  | Rejected nat string
  | Not_found

text \<open>A program whose arguments contain a zero character cannot be started: \<open>spawn\<close> throws, which the handler takes for a body that is no JSON.\<close>

definition startable :: "proc_start \<Rightarrow> bool" where
  "startable p \<longleftrightarrow> list_all (\<lambda>a. CHR 0x00 \<notin> set a) (ps_argv p)"

definition launch :: "proc_start \<Rightarrow> agent_reply + proc_start" where
  "launch p = (if startable p then Inr p else Inl (Rejected 400 ''Invalid JSON body''))"

text \<open>A request to \<open>/exec\<close> is answered at once, or after the program that it starts.\<close>

definition exec_plan :: "string \<Rightarrow> agent_reply + proc_start" where
  "exec_plan body =
     (case json_parse body of
        None \<Rightarrow> Inl (Rejected 400 ''Invalid JSON body'')
      | Some JNull \<Rightarrow> Inl (Rejected 400 ''Invalid JSON body'')
      | Some parsed \<Rightarrow>
          (case (case jget parsed ''tool'' of Some (JStr t) \<Rightarrow> map_of TOOLS t | _ \<Rightarrow> None) of
             Some handler \<Rightarrow>
               (case handler (if json_truthy (jget parsed ''args'') then the (jget parsed ''args'') else JObj []) of
                  Inl r \<Rightarrow> Inl (Result r)
                | Inr p \<Rightarrow> launch p)
           | None \<Rightarrow>
               (if json_truthy (jget parsed ''command'')
                then (case jget parsed ''command'' of
                        Some (JStr c) \<Rightarrow>
                          (if isCommandSafe c then launch \<lparr>ps_argv = [''/bin/sh'', ''-c'', c], ps_stdin = None\<rparr>
                           else Inl (Rejected 403 ''command rejected by security policy''))
                      | _ \<Rightarrow> Inl (Rejected 403 ''command rejected by security policy''))
                else Inl (Rejected 400 ''tool or command required''))))"

definition serve_agent :: "os \<Rightarrow> string \<Rightarrow> string \<Rightarrow> string \<Rightarrow> agent_reply \<times> proc_start list" where
  "serve_agent os verb url body =
     (if url = ''/healthz'' \<and> verb = ''GET'' then (Health, [])
      else if url = ''/exec'' \<and> verb = ''POST''
           then (case exec_plan body of Inl r \<Rightarrow> (r, []) | Inr p \<Rightarrow> (Result (spawnTool os p), [p]))
      else (Not_found, []))"

section \<open>The executor on a host\<close>

text \<open>The schemas: an object with exactly the named members, each within its bounds.\<close>

definition only_members :: "string list \<Rightarrow> json \<Rightarrow> bool" where
  "only_members ks args \<longleftrightarrow> (case args of JObj ps \<Rightarrow> set (map fst ps) \<subseteq> set ks | _ \<Rightarrow> False)"

definition bounded_text :: "nat \<Rightarrow> nat \<Rightarrow> json option \<Rightarrow> string option" where
  "bounded_text lo hi v = (case v of Some (JStr t) \<Rightarrow> if lo \<le> length t \<and> length t \<le> hi then Some t else None | _ \<Rightarrow> None)"

definition host_path :: "json \<Rightarrow> string option" where
  "host_path args =
     (case bounded_text 1 4096 (jget args ''path'') of
        None \<Rightarrow> None
      | Some path \<Rightarrow> if rx_test path_rx path \<and> \<not> str_includes path ''..'' then Some path else None)"

definition host_only_text :: string where
  "host_only_text = ''code_interpreter is not allowed on the host. Use the K8s sandbox runtime (K8sSandboxDriver) for code execution.''"

text \<open>\<open>None\<close>: the schema refuses the arguments.\<close>

definition host_code :: "json \<Rightarrow> tool_plan option" where
  "host_code args =
     (if only_members [''code''] args \<and> bounded_text 1 10000 (jget args ''code'') \<noteq> None then Some (Inl (refused host_only_text)) else None)"

definition host_read :: "json \<Rightarrow> tool_plan option" where
  "host_read args =
     (case host_path args of
        Some path \<Rightarrow> if only_members [''path''] args then Some (Inr \<lparr>ps_argv = [''cat'', path], ps_stdin = None\<rparr>) else None
      | None \<Rightarrow> None)"

definition host_write :: "json \<Rightarrow> tool_plan option" where
  "host_write args =
     (case (host_path args, bounded_text 0 1000000 (jget args ''content'')) of
        (Some path, Some content) \<Rightarrow>
          if only_members [''path'', ''content''] args then Some (Inr \<lparr>ps_argv = [''tee'', path], ps_stdin = Some content\<rparr>) else None
      | _ \<Rightarrow> None)"

definition host_query :: "json \<Rightarrow> tool_plan option" where
  "host_query args =
     (case bounded_text 1 10000 (jget args ''query'') of
        Some query \<Rightarrow> if only_members [''query''] args then Some (Inr \<lparr>ps_argv = [''sqlite3'', ''/tmp/data.db'', query], ps_stdin = None\<rparr>) else None
      | None \<Rightarrow> None)"

definition TOOL_EXECUTORS :: "(string \<times> (json \<Rightarrow> tool_plan option)) list" where
  "TOOL_EXECUTORS = [(''code_interpreter'', host_code), (''file_read'', host_read), (''file_write'', host_write), (''database_query'', host_query)]"

definition isAllowedTool :: "string \<Rightarrow> bool" where
  "isAllowedTool tool \<longleftrightarrow> tool \<in> set (map fst TOOL_EXECUTORS)"

text \<open>The text of a failed validation is the schema library's.\<close>

definition executeSandboxTool :: "os \<Rightarrow> (string \<Rightarrow> json \<Rightarrow> string) \<Rightarrow> string \<Rightarrow> json \<Rightarrow> exec_result" where
  "executeSandboxTool os zod tool args =
     (case map_of TOOL_EXECUTORS tool of
        None \<Rightarrow> refused (''Unknown tool: '' @ tool)
      | Some f \<Rightarrow>
          (case f args of
             None \<Rightarrow> refused (''Validation error: '' @ zod tool args)
           | Some (Inl r) \<Rightarrow> r
           | Some (Inr p) \<Rightarrow>
               if \<not> startable p then refused (''Execution error: '' @ tool)
               else let r = spawnTool os p in r\<lparr>er_stdout := take 100000 (er_stdout r), er_stderr := take 10000 (er_stderr r)\<rparr>))"

section \<open>What is started\<close>

definition admissible :: "proc_start \<Rightarrow> bool" where
  "admissible p \<longleftrightarrow>
     (\<exists>code. ps_argv p = [''python3'', ''-c'', code] \<and> list_all code_char code \<and> length code \<le> 10000) \<or>
     (\<exists>program path. ps_argv p = [program, path] \<and> program \<in> {''cat'', ''tee''} \<and> path \<noteq> [] \<and> list_all path_char path \<and> \<not> sublist ''..'' path) \<or>
     (\<exists>query. ps_argv p = [''sqlite3'', ''/tmp/data.db'', query] \<and> list_all (\<lambda>c. \<not> meta_char c) query \<and> length query \<le> 10000) \<or>
     (\<exists>c. ps_argv p = [''/bin/sh'', ''-c'', c] \<and> list_all (\<lambda>c. \<not> meta_char c) c \<and> c \<noteq> [] \<and> length c \<le> 4096)"

lemma path_rx_iff: "rx_test path_rx s \<longleftrightarrow> s \<noteq> [] \<and> list_all path_char s"
  unfolding path_rx_def rx_test_class by (cases s) auto

lemma valid_path_Some: "valid_path args = Some path \<Longrightarrow> path \<noteq> [] \<and> list_all path_char path \<and> \<not> sublist ''..'' path"
  by (auto simp: valid_path_def path_rx_iff str_includes_sublist split: option.splits json.splits if_splits)

lemma tool_admissible:
  assumes "map_of TOOLS t = Some f" "f args = Inr p"
  shows "admissible p"
proof -
  have "f = code_interpreter \<or> f = file_read \<or> f = file_write \<or> f = database_query"
    using assms(1) by (auto simp: TOOLS_def split: if_splits)
  then show ?thesis
    using assms(2) valid_path_Some
    by (auto simp: code_interpreter_def file_read_def file_write_def database_query_def admissible_def rx_test_Cls not_list_ex Let_def
        split: option.splits json.splits if_splits)
qed

lemma safe_command: "isCommandSafe c \<Longrightarrow> list_all (\<lambda>c. \<not> meta_char c) c \<and> c \<noteq> [] \<and> length c \<le> 4096"
  by (auto simp: isCommandSafe_def BLOCKED_PATTERNS_def rx_test_Cls not_list_ex)

lemma plan_admissible: "exec_plan body = Inr p \<Longrightarrow> admissible p"
  using tool_admissible safe_command
  by (auto simp: exec_plan_def launch_def split: option.splits json.splits if_splits sum.splits) (auto simp: admissible_def)

text \<open>C14. One request starts at most one program, and only one of the four tools' programs on a validated argument, or a shell on a
  command without shell metacharacters.\<close>

theorem agent_starts_filtered:
  "length (snd (serve_agent os verb url body)) \<le> 1 \<and> list_all admissible (snd (serve_agent os verb url body))"
  using plan_admissible by (auto simp: serve_agent_def split: sum.split)

section \<open>What the patterns block\<close>

text \<open>A pattern with alternatives at its second place is the alternative of its instances.\<close>

lemma test_alt_second: "rx_test (Cat (a # Alt rs # bs)) s \<longleftrightarrow> (\<exists>r \<in> set rs. rx_test (Cat (a # r # bs)) s)"
proof -
  have "(\<exists>q \<in> set (rx_ends_alt rs p'). rx_ends_seq bs q \<noteq> []) \<longleftrightarrow> (\<exists>r \<in> set rs. \<exists>q \<in> set (rx_ends r p'). rx_ends_seq bs q \<noteq> [])" for p'
    by (induction rs) auto
  then show ?thesis unfolding rx_test_def list_ex_iff by simp blast
qed

text \<open>A pattern nested at the second place needs its literals too.\<close>

lemma test_needs_nested:
  assumes "rx_test (Cat (a # Cat rs # bs)) s" "Lit t \<in> set rs"
  shows "sublist t s"
proof -
  from assms(1) obtain p p' where p: "p \<in> set (positions None s)" "p' \<in> set (rx_ends a p)" "rx_ends_seq rs p' \<noteq> []"
    by (elim rx_testE) fastforce
  have "sublist t (snd p')" using seq_needs_literal[OF p(3) assms(2)] .
  then show ?thesis using shrinksD[OF rx_ends_shrinks p(2)] positions_sublist[OF p(1)]
    by (meson sublist_order.order.trans suffix_imp_sublist)
qed

lemma destructive_needs: "rx_test destructive s \<Longrightarrow> sublist ''-rf'' s \<or> sublist ''mkfs'' s \<or> sublist ''if='' s \<or> sublist ''{'' s"
  unfolding destructive_def test_alt_second fork_bomb_def
  by (auto dest: test_needs_nested[where t = "''-rf''"] test_needs_nested[where t = "''if=''"] test_needs_nested[where t = "''{''"]
      test_needs_literal[where t = "''mkfs''"])

lemma meta_absent: "list_all (\<lambda>c. \<not> meta_char c) s \<Longrightarrow> meta_char c \<Longrightarrow> \<not> sublist [c] s"
  by (auto simp: list_all_iff sublist_def)



text \<open>The pattern for raw writes asks for a word character after its equals sign, which a path does not start with.\<close>

lemma raw_write_passes: "isCommandSafe ''dd if=/dev/zero of=/dev/sda''" "\<not> isCommandSafe ''dd if=zero of=/dev/sda''"
  by code_simp+

text \<open>A query that is a command of the database shell passes both filters.\<close>

lemma shell_query_passes:
  "database_query (JObj [(''query'', JStr ''.shell reboot'')]) = Inr \<lparr>ps_argv = [''sqlite3'', ''/tmp/data.db'', ''.shell reboot''], ps_stdin = None\<rparr>"
  by code_simp

text \<open>Where the executor on a host starts a program for a file, the program in a sandbox starts the same one for the same arguments.\<close>

theorem host_refines_agent:
  assumes "tool \<in> {''file_read'', ''file_write''}" and "map_of TOOL_EXECUTORS tool = Some h" "h args = Some (Inr p)"
  shows "\<exists>f. map_of TOOLS tool = Some f \<and> f args = Inr p"
proof -
  have v: "valid_path args = Some path" if "host_path args = Some path" for path
    using that by (auto simp: host_path_def valid_path_def bounded_text_def split: option.splits json.splits if_splits)
  show ?thesis
    using assms v
    by (auto simp: TOOL_EXECUTORS_def TOOLS_def host_read_def file_read_def host_write_def file_write_def bounded_text_def
        split: option.splits json.splits if_splits)
qed

theorem host_refines_agent_witness:
  "\<exists>f. map_of TOOLS ''file_read'' = Some f \<and> f (JObj [(''path'', JStr ''/etc/shadow'')]) = Inr \<lparr>ps_argv = [''cat'', ''/etc/shadow''], ps_stdin = None\<rparr>"
proof (rule host_refines_agent)
  show "host_read (JObj [(''path'', JStr ''/etc/shadow'')]) = Some (Inr \<lparr>ps_argv = [''cat'', ''/etc/shadow''], ps_stdin = None\<rparr>)" by code_simp
qed (simp_all add: TOOL_EXECUTORS_def)

end
