(* ===== verification/ConsoleClient.thy ===== *)
theory ConsoleClient
  imports ApiServer
begin

text \<open>
  How the admin console calls the platform: \<open>admin-console/src/lib/api/client.ts\<close> (headers, retries, the merging of
  equal requests) and \<open>lib/api/queries.ts\<close> (endpoints, query keys and the optimistic deletion of an agent). What
  \<open>fetch\<close> answers is a parameter; cookies are those of the browser, of which a script sees the ones that are not
  marked \<open>HttpOnly\<close>.
\<close>

section \<open>Cookies\<close>

record cookie =
  ck_name :: string
  ck_value :: string
  ck_httpOnly :: bool

fun cookie_text :: "cookie list \<Rightarrow> string" where
  "cookie_text [] = []"
| "cookie_text [c] = ck_name c @ ''='' @ ck_value c"
| "cookie_text (c # cs) = ck_name c @ ''='' @ ck_value c @ ''; '' @ cookie_text cs"

definition document_cookie :: "cookie list \<Rightarrow> string" where
  "document_cookie jar = cookie_text (filter (\<lambda>c. \<not> ck_httpOnly c) jar)"

definition token_rx :: regex where
  "token_rx = Cat [Lit ''egaop_token='', Rep 1 None (Cls (\<lambda>c. c \<noteq> CHR '';''))]"

definition token_in :: "string \<Rightarrow> string option" where
  "token_in t = (case rx_find token_rx t of None \<Rightarrow> None | Some (_, m, _) \<Rightarrow> Some (drop 12 m))"

text \<open>\<open>None\<close>: there is no document.\<close>

definition getAuthToken :: "cookie list option \<Rightarrow> string option" where
  "getAuthToken browser = (case browser of None \<Rightarrow> None | Some jar \<Rightarrow> token_in (document_cookie jar))"

section \<open>A request\<close>

record fetch_init =
  fi_method :: "string option"
  fi_headers :: "(string \<times> string) list"
  fi_body :: "string option"

record http_answer =
  ha_status :: nat
  ha_statusText :: string
  ha_body :: "json option"

datatype api_failure = Api_error json nat json json | Fetch_failed string | Type_error | Bad_body

text \<open>Names of headers are compared in lower case.\<close>

definition has_header :: "string \<Rightarrow> (string \<times> string) list \<Rightarrow> bool" where
  "has_header k hs \<longleftrightarrow> (\<exists>h \<in> set hs. lower (fst h) = lower k)"

definition set_header :: "string \<Rightarrow> string \<Rightarrow> (string \<times> string) list \<Rightarrow> (string \<times> string) list" where
  "set_header k v hs = filter (\<lambda>h. lower (fst h) \<noteq> lower k) hs @ [(k, v)]"

definition request_headers :: "cookie list option \<Rightarrow> fetch_init \<Rightarrow> (string \<times> string) list" where
  "request_headers browser init =
     (let headers = set_header ''Content-Type'' ''application/json'' (fi_headers init); token = getAuthToken browser
      in if truthy token \<and> \<not> has_header ''Authorization'' headers then set_header ''Authorization'' (''Bearer '' @ the token) headers else headers)"

definition backoffMs :: "nat \<Rightarrow> int" where
  "backoffMs attempt_no = min (1000 * 2 ^ (attempt_no - 1)) 8000"

definition max_attempts :: nat where "max_attempts = 3"

text \<open>A member of a JSON value; a member of \<open>null\<close> throws.\<close>

definition error_of :: "http_answer \<Rightarrow> (json \<times> json \<times> json) option" where
  "error_of a =
     (case ha_body a of
        None \<Rightarrow> Some (JStr (ha_statusText a), JStr [], JStr ''UNKNOWN_ERROR'')
      | Some JNull \<Rightarrow> None
      | Some j \<Rightarrow> Some
          (jnullish (jget j ''message'') (JStr (ha_statusText a)), jnullish (jopt (jget j ''meta'') ''traceId'') (JStr []),
           jnullish (jget j ''code'') (JStr ''UNKNOWN_ERROR'')))"

text \<open>
  The answers come from \<open>net\<close>, by the number of the attempt. The result has the outcome, the number of requests
  sent, the waits between them, and whether the browser is sent to the login page.
\<close>

record call_log =
  cg_sent :: nat
  cg_waits :: "int list"
  cg_to_login :: bool

fun executeRequest :: "(nat \<Rightarrow> string + http_answer) \<Rightarrow> bool \<Rightarrow> nat \<Rightarrow> nat \<Rightarrow> call_log \<Rightarrow> (api_failure + json) \<times> call_log" where
  "executeRequest net window left n g =
     (let g' = g\<lparr>cg_sent := cg_sent g + 1\<rparr>
      in case net n of
           Inl e \<Rightarrow> (Inl (Fetch_failed e), g')
         | Inr a \<Rightarrow>
             if ha_status a = 401 then (Inl (Api_error (JStr ''Unauthorized'') 401 (JStr []) (JStr ''UNAUTHORIZED'')), g'\<lparr>cg_to_login := cg_to_login g' \<or> window\<rparr>)
             else if \<not> (200 \<le> ha_status a \<and> ha_status a < 300)
                  then (case error_of a of
                          None \<Rightarrow> (Inl Type_error, g')
                        | Some (message, traceId, code) \<Rightarrow>
                            (case left of
                               Suc left' \<Rightarrow>
                                 if 500 \<le> ha_status a then executeRequest net window left' (Suc n) (g'\<lparr>cg_waits := cg_waits g' @ [backoffMs n]\<rparr>)
                                 else (Inl (Api_error message (ha_status a) traceId code), g')
                             | 0 \<Rightarrow> (Inl (Api_error message (ha_status a) traceId code), g')))
                  else (case ha_body a of None \<Rightarrow> (Inl Bad_body, g') | Some j \<Rightarrow> (Inr j, g')))"

declare executeRequest.simps [simp del]

definition first_request :: "(nat \<Rightarrow> string + http_answer) \<Rightarrow> bool \<Rightarrow> (api_failure + json) \<times> call_log" where
  "first_request net window = executeRequest net window (max_attempts - 1) 1 \<lparr>cg_sent = 0, cg_waits = [], cg_to_login = False\<rparr>"

section \<open>Merging equal requests\<close>

text \<open>
  A request without a method other than \<open>GET\<close> joins the flight that is stored for its address, when that is young
  enough. The caller that started a flight removes what is then stored for its address when the flight ends.
\<close>

record dedup_state =
  dp_cache :: "(string, nat \<times> int) js_map"
  dp_next :: nat
  dp_owner :: "(nat \<times> string \<times> int) list"

definition DEDUP_WINDOW_MS :: int where "DEDUP_WINDOW_MS = 100"

definition getDedupeKey :: "string \<Rightarrow> string option \<Rightarrow> string option" where
  "getDedupeKey url verb = (if truthy verb \<and> verb \<noteq> Some ''GET'' then None else Some url)"

definition cleanupDedup :: "int \<Rightarrow> dedup_state \<Rightarrow> dedup_state" where
  "cleanupDedup now s = s\<lparr>dp_cache := filter (\<lambda>e. \<not> DEDUP_WINDOW_MS * 2 < now - snd (snd e)) (dp_cache s)\<rparr>"

datatype served_by = Joined nat | Own nat

definition start_flight :: "string option \<Rightarrow> string \<Rightarrow> int \<Rightarrow> dedup_state \<Rightarrow> served_by \<times> dedup_state" where
  "start_flight key url now s =
     (Own (dp_next s),
      s\<lparr>dp_next := Suc (dp_next s), dp_owner := (dp_next s, url, now) # dp_owner s,
        dp_cache := (case key of None \<Rightarrow> dp_cache s | Some k \<Rightarrow> js_set k (dp_next s, now) (dp_cache s))\<rparr>)"

definition apiRequest :: "string \<Rightarrow> string option \<Rightarrow> int \<Rightarrow> dedup_state \<Rightarrow> served_by \<times> dedup_state" where
  "apiRequest url verb now s =
     (case getDedupeKey url verb of
        None \<Rightarrow> start_flight None url now s
      | Some key \<Rightarrow>
          (let s' = cleanupDedup now s
           in case js_get (dp_cache s') key of
                Some (f, t) \<Rightarrow> if now - t < DEDUP_WINDOW_MS then (Joined f, s') else start_flight (Some key) url now s'
              | None \<Rightarrow> start_flight (Some key) url now s'))"

definition flight_ends :: "string \<Rightarrow> string option \<Rightarrow> dedup_state \<Rightarrow> dedup_state" where
  "flight_ends url verb s = (case getDedupeKey url verb of None \<Rightarrow> s | Some key \<Rightarrow> s\<lparr>dp_cache := js_del key (dp_cache s)\<rparr>)"

datatype dedup_event = Request string "string option" int | Ends string "string option"

fun dedup_step :: "dedup_event \<Rightarrow> dedup_state \<Rightarrow> dedup_state" where
  "dedup_step (Request url verb now) s = snd (apiRequest url verb now s)"
| "dedup_step (Ends url verb) s = flight_ends url verb s"

definition dedup_run :: "dedup_event list \<Rightarrow> dedup_state" where
  "dedup_run evs = fold dedup_step evs \<lparr>dp_cache = [], dp_next = 0, dp_owner = []\<rparr>"

section \<open>Endpoints and query keys\<close>

definition hex_upper :: "nat \<Rightarrow> char" where
  "hex_upper n = (if n < 10 then char_of (48 + n) else char_of (55 + n))"

definition form_byte :: "nat \<Rightarrow> string" where
  "form_byte b = [CHR ''%'', hex_upper (b div 16), hex_upper (b mod 16)]"

definition form_char :: "char \<Rightarrow> string" where
  "form_char c =
     (let n = (of_char c :: nat)
      in if is_word c \<or> c \<in> set ''*-.'' then [c] else if c = CHR '' '' then ''+''
         else if n < 128 then form_byte n else form_byte (192 + n div 64) @ form_byte (128 + n mod 64))"

fun form_text :: "(string \<times> string) list \<Rightarrow> string" where
  "form_text [] = []"
| "form_text [(k, v)] = concat (map form_char k) @ ''='' @ concat (map form_char v)"
| "form_text ((k, v) # ps) = concat (map form_char k) @ ''='' @ concat (map form_char v) @ ''&'' @ form_text ps"

definition text_param :: "string \<Rightarrow> string option \<Rightarrow> (string \<times> string) list" where
  "text_param k v = (if truthy v then [(k, the v)] else [])"

definition page_param :: "string \<Rightarrow> int option \<Rightarrow> (string \<times> string) list" where
  "page_param k v = (case v of None \<Rightarrow> [] | Some n \<Rightarrow> if n = 0 then [] else [(k, show_int n)])"

definition endpoint :: "string \<Rightarrow> (string \<times> string) list \<Rightarrow> string" where
  "endpoint base ps = (let qs = form_text ps in if qs = [] then base else base @ ''?'' @ qs)"

text \<open>A query key leaves out what is absent, so its elements do not tell which filter they belong to.\<close>

definition qk :: "json option list \<Rightarrow> json list" where
  "qk parts = filter (\<lambda>p. p \<noteq> JNull) (map the (filter (\<lambda>p. p \<noteq> None) parts))"

definition jstr_opt :: "string option \<Rightarrow> json option" where "jstr_opt v = map_option JStr v"
definition jint_opt :: "int option \<Rightarrow> json option" where "jint_opt v = map_option (\<lambda>n. JNum (Num (rat_of_int n))) v"

record agent_filters =
  gf_namespace :: "string option"
  gf_status :: "string option"
  gf_search :: "string option"
  gf_page :: "int option"
  gf_limit :: "int option"

definition agents_endpoint :: "agent_filters \<Rightarrow> string" where
  "agents_endpoint f = endpoint ''/api/agents''
     (text_param ''namespace'' (gf_namespace f) @ text_param ''status'' (gf_status f) @ text_param ''search'' (gf_search f) @
      page_param ''page'' (gf_page f) @ page_param ''limit'' (gf_limit f))"

definition agents_key :: "agent_filters \<Rightarrow> json list" where
  "agents_key f = qk [Some (JStr ''agents''), jstr_opt (gf_namespace f), jstr_opt (gf_status f), jstr_opt (gf_search f), jint_opt (gf_page f), jint_opt (gf_limit f)]"

record trace_filters =
  tf_namespace :: "string option"
  tf_from :: "string option"
  tf_to :: "string option"
  tf_page :: "int option"
  tf_limit :: "int option"

definition traces_endpoint :: "trace_filters \<Rightarrow> string" where
  "traces_endpoint f = endpoint ''/api/traces''
     (text_param ''namespace'' (tf_namespace f) @ text_param ''from'' (tf_from f) @ text_param ''to'' (tf_to f) @
      page_param ''page'' (tf_page f) @ page_param ''limit'' (tf_limit f))"

definition traces_key :: "trace_filters \<Rightarrow> json list" where
  "traces_key f = qk [Some (JStr ''traces''), jstr_opt (tf_namespace f), jstr_opt (tf_from f), jstr_opt (tf_to f), jint_opt (tf_page f), jint_opt (tf_limit f)]"

definition metrics_endpoint :: "string option \<Rightarrow> string option \<Rightarrow> string" where
  "metrics_endpoint namespace window = endpoint ''/api/metrics'' (text_param ''namespace'' namespace @ text_param ''window'' window)"

definition metrics_key :: "string option \<Rightarrow> string option \<Rightarrow> json list" where
  "metrics_key namespace window = qk [Some (JStr ''metrics''), jstr_opt namespace, jstr_opt window]"

definition agent_endpoint :: "string \<Rightarrow> string" where "agent_endpoint i = ''/api/agents/'' @ i"
definition executions_endpoint :: "string \<Rightarrow> int \<Rightarrow> int \<Rightarrow> string" where
  "executions_endpoint i page limit = ''/api/agents/'' @ i @ ''/executions?page='' @ show_int page @ ''&limit='' @ show_int limit"

section \<open>The optimistic deletion of an agent\<close>

record agents_page =
  pg_ids :: "string list"
  pg_total :: int

type_synonym query_cache = "(json list, agents_page option) js_map"

definition under_key :: "json list \<Rightarrow> json list \<Rightarrow> bool" where
  "under_key k key \<longleftrightarrow> prefix k key"

definition getQueriesData :: "json list \<Rightarrow> query_cache \<Rightarrow> query_cache" where
  "getQueriesData k c = filter (\<lambda>e. under_key k (fst e)) c"

definition without_agent :: "string \<Rightarrow> agents_page \<Rightarrow> agents_page" where
  "without_agent i p = p\<lparr>pg_ids := filter (\<lambda>a. a \<noteq> i) (pg_ids p), pg_total := pg_total p - 1\<rparr>"

definition delete_mutate :: "string \<Rightarrow> query_cache \<Rightarrow> query_cache \<times> query_cache" where
  "delete_mutate i c =
     (getQueriesData [JStr ''agents''] c,
      map (\<lambda>(k, p). (k, if under_key [JStr ''agents''] k then map_option (without_agent i) p else p)) c)"

definition delete_error :: "query_cache \<Rightarrow> query_cache \<Rightarrow> query_cache" where
  "delete_error previous c = fold (\<lambda>(k, p) c'. case p of None \<Rightarrow> c' | Some _ \<Rightarrow> js_set k p c') previous c"

section \<open>What the client shows\<close>

text \<open>One attempt: it is the last, or it waits and tries again.\<close>

abbreviation retried :: "nat \<Rightarrow> call_log \<Rightarrow> call_log" where
  "retried n g \<equiv> g\<lparr>cg_sent := cg_sent g + 1, cg_waits := cg_waits g @ [backoffMs n]\<rparr>"

lemma one_attempt:
  "cg_sent (snd (executeRequest net window left n g)) = Suc (cg_sent g) \<and> cg_waits (snd (executeRequest net window left n g)) = cg_waits g \<or>
   (\<exists>left'. left = Suc left' \<and> executeRequest net window left n g = executeRequest net window left' (Suc n) (retried n g))"
proof (cases "net n")
  case (Inr a)
  then show ?thesis
    using executeRequest.simps[of net window left n g]
    by (cases "error_of a"; cases left; cases "ha_body a") (auto simp: Let_def split: if_splits)
qed (simp add: executeRequest.simps[of net window left n g] Let_def)

lemma attempts_bounded:
  "cg_sent (snd (executeRequest net window left n g)) \<le> cg_sent g + Suc left \<and>
   (\<exists>ws. cg_waits (snd (executeRequest net window left n g)) = cg_waits g @ ws \<and> length ws \<le> left \<and>
     (\<forall>i < length ws. ws ! i = backoffMs (n + i)))"
proof (induction left arbitrary: n g)
  case 0
  then show ?case using one_attempt[of net window 0 n g] by auto
next
  case (Suc left)
  obtain ws where ws: "cg_waits (snd (executeRequest net window left (Suc n) (retried n g))) = cg_waits g @ backoffMs n # ws" "length ws \<le> left"
      "\<forall>i < length ws. ws ! i = backoffMs (Suc n + i)"
    and sent: "cg_sent (snd (executeRequest net window left (Suc n) (retried n g))) \<le> cg_sent g + Suc (Suc left)"
    using Suc.IH[of "Suc n" "retried n g"] by auto
  consider "cg_sent (snd (executeRequest net window (Suc left) n g)) = Suc (cg_sent g)" "cg_waits (snd (executeRequest net window (Suc left) n g)) = cg_waits g"
    | "executeRequest net window (Suc left) n g = executeRequest net window left (Suc n) (retried n g)"
    using one_attempt[of net window "Suc left" n g] by auto
  then show ?case
  proof cases
    case 2
    have "\<forall>i < length (backoffMs n # ws). (backoffMs n # ws) ! i = backoffMs (n + i)"
      using ws(3) by (auto simp: nth_Cons split: nat.split)
    then show ?thesis unfolding 2 using ws(1,2) sent by (intro conjI exI[of _ "backoffMs n # ws"]) auto
  qed auto
qed

text \<open>One call of the console sends at most three requests and waits at most three seconds in between.\<close>

theorem console_call_bounded:
  "cg_sent (snd (first_request net window)) \<le> 3 \<and> sum_list (cg_waits (snd (first_request net window))) \<le> 3000"
proof -
  obtain ws where ws: "cg_waits (snd (first_request net window)) = ws" "length ws \<le> 2" "\<forall>i < length ws. ws ! i = backoffMs (1 + i)"
    and s: "cg_sent (snd (first_request net window)) \<le> 3"
    using attempts_bounded[of net window 2 1 "\<lparr>cg_sent = 0, cg_waits = [], cg_to_login = False\<rparr>"]
    by (auto simp: first_request_def max_attempts_def)
  have "sum_list ws \<le> 3000"
  proof (cases ws)
    case (Cons w vs)
    have "w = 1000" using ws(3)[rule_format, of 0] by (simp add: Cons backoffMs_def)
    moreover have "vs = [] \<or> vs = [2000]"
      using ws(2) ws(3)[rule_format, of 1] by (cases vs) (auto simp: Cons backoffMs_def)
    ultimately show ?thesis using Cons by auto
  qed simp
  then show ?thesis using s ws(1) by simp
qed

text \<open>The console never shows what the server said was wrong: the error answers of the REST interface carry message and
  code in a member that the client does not read, so the error it throws has the text of the status line and an
  unknown code.\<close>

theorem console_hides_server_message:
  assumes "api_error status msg code = Rest status body" "400 \<le> status" "status \<noteq> 401"
    and "\<And>n. net n = Inr \<lparr>ha_status = status, ha_statusText = line, ha_body = Some body\<rparr>"
  shows "fst (first_request net window) = Inl (Api_error (JStr line) status (JStr []) (JStr ''UNKNOWN_ERROR''))"
proof -
  have e: "error_of \<lparr>ha_status = status, ha_statusText = line, ha_body = Some body\<rparr> = Some (JStr line, JStr [], JStr ''UNKNOWN_ERROR'')"
    using assms(1) by (auto simp: error_of_def api_error_def jget_def jopt_def jnullish_def)
  have net: "net = (\<lambda>_. Inr \<lparr>ha_status = status, ha_statusText = line, ha_body = Some body\<rparr>)" using assms(4) by blast
  have "fst (executeRequest net window left n g) = Inl (Api_error (JStr line) status (JStr []) (JStr ''UNKNOWN_ERROR''))" for left n g
  proof (induction left arbitrary: n g)
    case 0
    then show ?case using assms(2,3) unfolding net by (subst executeRequest.simps) (simp add: e)
  next
    case (Suc left)
    then show ?case using assms(2,3) unfolding net by (subst executeRequest.simps) (simp add: e Let_def)
  qed
  then show ?thesis by (simp add: first_request_def)
qed

theorem console_hides_server_message_witness:
  "\<exists>body. api_error 404 ''Agent not found'' ''NOT_FOUND'' = Rest 404 body \<and>
    fst (first_request (\<lambda>_. Inr \<lparr>ha_status = 404, ha_statusText = ''Not Found'', ha_body = Some body\<rparr>) True) =
      Inl (Api_error (JStr ''Not Found'') 404 (JStr []) (JStr ''UNKNOWN_ERROR''))"
proof -
  obtain body where b: "api_error 404 ''Agent not found'' ''NOT_FOUND'' = Rest 404 body" by (simp add: api_error_def)
  show ?thesis using console_hides_server_message[OF b, of "\<lambda>_. Inr \<lparr>ha_status = 404, ha_statusText = ''Not Found'', ha_body = Some body\<rparr>" "''Not Found''" True] b by auto
qed

text \<open>A write that the server answers with an error of its own is sent again.\<close>

lemma failed_write_sent_thrice: "cg_sent (snd (first_request (\<lambda>_. Inr \<lparr>ha_status = 502, ha_statusText = ''Bad Gateway'', ha_body = None\<rparr>) True)) = 3"
  by code_simp

definition owned :: "dedup_state \<Rightarrow> bool" where
  "owned s \<longleftrightarrow> (\<forall>k f t. (k, f, t) \<in> set (dp_cache s) \<longrightarrow> (f, k, t) \<in> set (dp_owner s))"

lemma owned_cleanup: "owned s \<Longrightarrow> owned (cleanupDedup now s)"
  by (simp add: owned_def cleanupDedup_def)

lemma owned_start: "owned s \<Longrightarrow> key = None \<or> key = Some url \<Longrightarrow> owned (snd (start_flight key url now s))"
proof -
  have upd: "(k, v) \<in> set (js_set k' v' m) \<Longrightarrow> (k, v) = (k', v') \<or> (k, v) \<in> set m" for k k' and v v' :: "nat \<times> int" and m
    by (induction m) (auto split: if_splits)
  show "owned s \<Longrightarrow> key = None \<or> key = Some url \<Longrightarrow> ?thesis"
    by (auto simp: owned_def start_flight_def dest!: upd)
qed

lemma owned_run: "owned (dedup_run evs)"
proof (induction evs rule: rev_induct)
  case Nil
  then show ?case by (simp add: dedup_run_def owned_def)
next
  case (snoc ev evs)
  have step: "dedup_run (evs @ [ev]) = dedup_step ev (dedup_run evs)" by (simp add: dedup_run_def)
  show ?case
  proof (cases ev)
    case (Request url verb now)
    have "owned (snd (apiRequest url verb now (dedup_run evs)))"
      using snoc owned_start owned_cleanup by (auto simp: apiRequest_def getDedupeKey_def Let_def split: option.split)
    then show ?thesis by (simp only: step) (simp add: Request)
  next
    case (Ends url verb)
    show ?thesis using snoc
      by (simp only: step) (auto simp: Ends flight_ends_def owned_def AList.delete_eq split: option.split)
  qed
qed

text \<open>A request is answered from another's flight only when both read the same address and the flight is younger than 100 ms,
  after any sequence of requests and ends of flights.\<close>

theorem dedup_joins_same_request:
  assumes "fst (apiRequest url verb now (dedup_run evs)) = Joined f"
  shows "\<exists>t. (f, url, t) \<in> set (dp_owner (dedup_run evs)) \<and> now - t < 100 \<and> (verb = None \<or> verb = Some [] \<or> verb = Some ''GET'')"
proof -
  have key: "getDedupeKey url verb = Some url" and v: "\<not> truthy verb \<or> verb = Some ''GET''"
    using assms by (auto simp: apiRequest_def getDedupeKey_def start_flight_def split: if_splits)
  obtain t where t: "js_get (dp_cache (cleanupDedup now (dedup_run evs))) url = Some (f, t)" "now - t < 100"
    using assms by (auto simp: apiRequest_def key start_flight_def Let_def DEDUP_WINDOW_MS_def split: option.splits if_splits)
  have "(url, f, t) \<in> set (dp_cache (dedup_run evs))" using map_of_SomeD[OF t(1)] by (simp add: cleanupDedup_def)
  then have "(f, url, t) \<in> set (dp_owner (dedup_run evs))"
    using owned_run[of evs] by (simp add: owned_def)
  then show ?thesis using t(2) v by (auto simp: truthy_def)
qed

theorem dedup_joins_same_request_witness:
  "\<exists>t. (0, ''/api/agents'', t) \<in> set (dp_owner (dedup_run [Request ''/api/agents'' None 5])) \<and> 60 - t < 100 \<and>
     (None = (None :: string option) \<or> None = Some ([] :: string) \<or> None = Some ''GET'')"
  by (rule dedup_joins_same_request[of "''/api/agents''" None 60 "[Request ''/api/agents'' None 5]" 0]) code_simp

text \<open>The end of an old flight makes the client forget a younger one of the same address.\<close>

lemma dedup_forgets:
  "fst (apiRequest ''/api/agents'' None 170 (dedup_run [Request ''/api/agents'' None 0, Request ''/api/agents'' None 150, Ends ''/api/agents'' None])) = Own 2"
  by code_simp

lemma qk_single: "qk [Some (JStr a), x, y, z, u, v] = JStr a # qk [x, y, z, u, v]"
  by (simp add: qk_def)

text \<open>The agents of a namespace and the agents found by a search for its name share one entry of the console's cache, although
  they are read from different addresses: the console shows one list for the other.\<close>

theorem agents_key_collision:
  assumes "t \<noteq> []"
  shows "agents_key \<lparr>gf_namespace = Some t, gf_status = None, gf_search = None, gf_page = p, gf_limit = l\<rparr> =
      agents_key \<lparr>gf_namespace = None, gf_status = None, gf_search = Some t, gf_page = p, gf_limit = l\<rparr> \<and>
    agents_endpoint \<lparr>gf_namespace = Some t, gf_status = None, gf_search = None, gf_page = p, gf_limit = l\<rparr> \<noteq>
      agents_endpoint \<lparr>gf_namespace = None, gf_status = None, gf_search = Some t, gf_page = p, gf_limit = l\<rparr>"
proof
  show "agents_key \<lparr>gf_namespace = Some t, gf_status = None, gf_search = None, gf_page = p, gf_limit = l\<rparr> =
      agents_key \<lparr>gf_namespace = None, gf_status = None, gf_search = Some t, gf_page = p, gf_limit = l\<rparr>"
    by (simp add: agents_key_def qk_def jstr_opt_def)
  have "concat (map form_char ''namespace'') = ''namespace''" "concat (map form_char ''search'') = ''search''" by code_simp+
  then have n: "take 1 (form_text ((''namespace'', t) # ps)) = ''n''" and s: "take 1 (form_text ((''search'', t) # ps)) = ''s''" for ps
    by (cases ps; simp)+
  have e: "endpoint b ps \<noteq> endpoint b qs" if "take 1 (form_text ps) = ''n''" "take 1 (form_text qs) = ''s''" for b ps qs
    using that by (auto simp: endpoint_def Let_def)
  show "agents_endpoint \<lparr>gf_namespace = Some t, gf_status = None, gf_search = None, gf_page = p, gf_limit = l\<rparr> \<noteq>
      agents_endpoint \<lparr>gf_namespace = None, gf_status = None, gf_search = Some t, gf_page = p, gf_limit = l\<rparr>"
    unfolding agents_endpoint_def by (rule e) (simp_all add: text_param_def truthy_def assms n[unfolded One_nat_def] s[unfolded One_nat_def])
qed

theorem agents_key_collision_witness:
  "agents_key \<lparr>gf_namespace = Some ''prod'', gf_status = None, gf_search = None, gf_page = None, gf_limit = None\<rparr> =
      agents_key \<lparr>gf_namespace = None, gf_status = None, gf_search = Some ''prod'', gf_page = None, gf_limit = None\<rparr>"
  using agents_key_collision[of "''prod''" None None] by simp

text \<open>A deletion that fails leaves the console's lists as they were.\<close>

theorem failed_delete_restores:
  assumes "js_map_ok c"
  shows "delete_error (fst (delete_mutate i c)) (snd (delete_mutate i c)) = c"
proof -
  let ?k = "[JStr ''agents'']"
  let ?f = "\<lambda>(k, p). (k, if under_key ?k k then map_option (without_agent i) p else p)"
  have "delete_error (getQueriesData ?k c) (pre @ map ?f c) = pre @ c" if "js_map_ok (pre @ c)" for pre
    using that
  proof (induction c arbitrary: pre)
    case (Cons e c)
    obtain k p where e: "e = (k, p)" by (cases e)
    have "k \<notin> fst ` set pre" using Cons.prems by (auto simp: js_map_ok_def e)
    then have set: "js_set k q (pre @ (k, p') # m) = pre @ (k, q) # m" for q p' and m :: query_cache
      by (induction pre) auto
    have "js_map_ok ((pre @ [(k, p)]) @ c)" using Cons.prems by (simp add: e)
    from Cons.IH[OF this] show ?case
      by (cases p) (auto simp: e delete_error_def getQueriesData_def set)
  qed (simp add: delete_error_def getQueriesData_def)
  from this[of "[]"] show ?thesis using assms by (simp add: delete_mutate_def)
qed

definition demo_cache :: query_cache where
  "demo_cache = [([JStr ''agents''], Some \<lparr>pg_ids = [''a'', ''b''], pg_total = 2\<rparr>), ([JStr ''metrics''], None)]"

theorem failed_delete_restores_witness: "delete_error (fst (delete_mutate ''a'' demo_cache)) (snd (delete_mutate ''a'' demo_cache)) = demo_cache"
  by (rule failed_delete_restores) code_simp

end
