(* ===== verification/ConsoleRoutes.thy ===== *)
theory ConsoleRoutes
  imports ConsoleClient
begin

text \<open>
  The routes of the admin console under \<open>admin-console/src/app/api\<close> (login, logout, me, register, events, health) and
  the listener for events, \<open>lib/realtime.ts\<close>. What the API server answers is a parameter.
\<close>

section \<open>Routes\<close>

datatype upstream = Unreachable | Answered nat "json option"

text \<open>The cookie that an answer sets: its value and its lifetime in seconds.\<close>

record route_reply =
  rp_status :: nat
  rp_body :: json
  rp_cookie :: "(json \<times> int) option"

definition plain_reply :: "nat \<Rightarrow> json \<Rightarrow> route_reply" where
  "plain_reply status body = \<lparr>rp_status = status, rp_body = body, rp_cookie = None\<rparr>"

definition route_error :: "nat \<Rightarrow> string \<Rightarrow> string \<Rightarrow> route_reply" where
  "route_error status message code =
     plain_reply status (JObj [(''error'', JObj [(''message'', JStr message), (''code'', JStr code)])])"

definition unavailable :: route_reply where
  "unavailable = route_error 503 ''Auth service unavailable'' ''SERVICE_UNAVAILABLE''"

definition is_ok :: "nat \<Rightarrow> bool" where
  "is_ok status \<longleftrightarrow> 200 \<le> status \<and> status < 300"

text \<open>\<open>None\<close> is a body that is no JSON. The member of an answer that is \<open>null\<close> throws, which counts as unavailable.\<close>

definition login_route :: "json option \<Rightarrow> (json \<Rightarrow> upstream) \<Rightarrow> route_reply" where
  "login_route body server =
     (case body of
        None \<Rightarrow> unavailable
      | Some b \<Rightarrow>
          (case server b of
             Answered status (Some data) \<Rightarrow>
               (if \<not> is_ok status then plain_reply status data
                else if data = JNull then unavailable
                else (let token = jopt (jget data ''data'') ''token''
                      in if json_truthy token then \<lparr>rp_status = 200, rp_body = data, rp_cookie = Some (the token, 86400)\<rparr>
                         else plain_reply 200 data))
           | _ \<Rightarrow> unavailable))"

definition logout_route :: route_reply where
  "logout_route = \<lparr>rp_status = 200, rp_body = JObj [(''data'', JObj [(''message'', JStr ''Logged out'')])], rp_cookie = Some (JStr [], 0)\<rparr>"

text \<open>The token is searched in the text of the header.\<close>

definition me_route :: "string option \<Rightarrow> (string \<Rightarrow> upstream) \<Rightarrow> route_reply" where
  "me_route cookieHeader server =
     (case token_in (nullish cookieHeader []) of
        None \<Rightarrow> route_error 401 ''Not authenticated'' ''UNAUTHORIZED''
      | Some token \<Rightarrow>
          (case server (''Bearer '' @ token) of
             Answered status (Some data) \<Rightarrow> plain_reply status data
           | _ \<Rightarrow> unavailable))"

definition register_route :: "json option \<Rightarrow> (json \<Rightarrow> upstream) \<Rightarrow> route_reply" where
  "register_route body server =
     (case body of
        None \<Rightarrow> unavailable
      | Some b \<Rightarrow> (case server b of Answered status (Some data) \<Rightarrow> plain_reply status data | _ \<Rightarrow> unavailable))"

definition health_route :: "upstream \<Rightarrow> route_reply" where
  "health_route u =
     (let reachable = (case u of Answered status _ \<Rightarrow> is_ok status | Unreachable \<Rightarrow> False)
      in plain_reply (if reachable then 200 else 503)
           (JObj [(''status'', JStr (if reachable then ''ok'' else ''degraded'')), (''apiServerReachable'', JBool reachable)]))"

text \<open>The browser stores the cookie of an answer, and drops one without lifetime.\<close>

definition store_cookie :: "route_reply \<Rightarrow> cookie list \<Rightarrow> cookie list" where
  "store_cookie r jar =
     (case rp_cookie r of
        None \<Rightarrow> jar
      | Some (v, age) \<Rightarrow>
          (let jar' = filter (\<lambda>c. ck_name c \<noteq> ''egaop_token'') jar
           in if age \<le> 0 then jar' else case v of JStr t \<Rightarrow> jar' @ [\<lparr>ck_name = ''egaop_token'', ck_value = t, ck_httpOnly = True\<rparr>] | _ \<Rightarrow> jar'))"

section \<open>Events\<close>

text \<open>A message of an event stream: the name in its \<open>event\<close> field (\<open>message\<close> when it has none) and its data.\<close>

record sse_message =
  se_event :: string
  se_data :: string

definition send_event :: "string \<Rightarrow> json \<Rightarrow> sse_message" where
  "send_event event data = \<lparr>se_event = event, se_data = stringify data\<rparr>"

text \<open>What the route sends, at every tick of its timer.\<close>

definition heartbeat :: "string \<Rightarrow> sse_message" where
  "heartbeat now = send_event ''heartbeat'' (JObj [(''timestamp'', JStr now)])"

definition MAX_RECONNECT_DELAY :: int where "MAX_RECONNECT_DELAY = 30000"
definition INITIAL_RECONNECT_DELAY :: int where "INITIAL_RECONNECT_DELAY = 1000"

text \<open>The listener: the delay before the next connection, the query keys it made stale, and its connection.\<close>

record listener =
  ls_delay :: int
  ls_stale :: "json option list list"
  ls_connected :: bool
  ls_pending :: nat
  ls_waits :: "int list"
  ls_cancelled :: bool

definition key_texts :: "string list \<Rightarrow> json option list" where
  "key_texts ks = map (\<lambda>k. Some (JStr k)) ks"

text \<open>The handler of unnamed messages. Data that is no JSON, or lacks a member the handler reads, changes nothing.\<close>

definition handleEvent :: "string \<Rightarrow> listener \<Rightarrow> listener" where
  "handleEvent data s =
     (case json_parse data of
        None \<Rightarrow> s
      | Some JNull \<Rightarrow> s
      | Some parsed \<Rightarrow>
          (let reset = s\<lparr>ls_delay := INITIAL_RECONNECT_DELAY\<rparr>
           in case jget parsed ''type'' of
                Some (JStr t) \<Rightarrow>
                  (if t = ''agent.status_changed''
                   then (case jget parsed ''data'' of
                           None \<Rightarrow> s
                         | Some JNull \<Rightarrow> s
                         | Some d \<Rightarrow> reset\<lparr>ls_stale := ls_stale s @ [[Some (JStr ''agent''), jget d ''agentId''], key_texts [''agents'']]\<rparr>)
                   else if t = ''execution.completed'' then reset\<lparr>ls_stale := ls_stale s @ [key_texts [''traces''], key_texts [''metrics'']]\<rparr>
                   else if t = ''execution.started'' then reset\<lparr>ls_stale := ls_stale s @ [key_texts [''traces'']]\<rparr>
                   else reset)
              | _ \<Rightarrow> reset))"

definition on_message :: "sse_message \<Rightarrow> listener \<Rightarrow> listener" where
  "on_message m s = (if ls_connected s \<and> se_event m = ''message'' then handleEvent (se_data m) s else s)"

definition connect :: "listener \<Rightarrow> listener" where
  "connect s = (if ls_cancelled s then s else s\<lparr>ls_connected := True\<rparr>)"

definition on_failure :: "listener \<Rightarrow> listener" where
  "on_failure s =
     (if \<not> ls_connected s then s
      else let s' = s\<lparr>ls_connected := False\<rparr>
        in if ls_cancelled s then s' else s'\<lparr>ls_pending := ls_pending s + 1, ls_waits := ls_waits s @ [ls_delay s]\<rparr>)"

definition on_timer :: "listener \<Rightarrow> listener" where
  "on_timer s =
     (if ls_pending s = 0 then s
      else connect (s\<lparr>ls_pending := ls_pending s - 1, ls_delay := min (ls_delay s * 2) MAX_RECONNECT_DELAY\<rparr>))"

definition unmount :: "listener \<Rightarrow> listener" where
  "unmount s = s\<lparr>ls_cancelled := True, ls_connected := False\<rparr>"

datatype sse_event = Message sse_message | Failure | Timer | Unmount

fun listen :: "sse_event \<Rightarrow> listener \<Rightarrow> listener" where
  "listen (Message m) s = on_message m s"
| "listen Failure s = on_failure s"
| "listen Timer s = on_timer s"
| "listen Unmount s = unmount s"

definition mounted :: listener where
  "mounted = connect \<lparr>ls_delay = INITIAL_RECONNECT_DELAY, ls_stale = [], ls_connected = False, ls_pending = 0, ls_waits = [], ls_cancelled = False\<rparr>"

definition listen_all :: "sse_event list \<Rightarrow> listener" where
  "listen_all evs = fold listen evs mounted"

section \<open>Sessions of the console\<close>

lemma cookie_in_text: "c \<in> set jar \<Longrightarrow> sublist (ck_name c @ ''='') (cookie_text jar)"
proof (induction jar rule: cookie_text.induct)
  case (3 c' c'' cs)
  then show ?case
    by (auto intro: sublist_order.order.trans[OF _ sublist_appendI[of _ "_ @ ''='' @ _ @ ''; ''" "[]", simplified]])
qed (auto simp: sublist_def)

lemma token_in_needs: "token_in t = Some k \<Longrightarrow> sublist ''egaop_token='' t"
  unfolding token_in_def token_rx_def by (auto split: option.splits dest!: rx_find_test test_needs_literal[where t = "''egaop_token=''"])

text \<open>The session that a login gives the browser is invisible to the console's own client: its cookie is marked \<open>HttpOnly\<close>,
  so the header that the client builds from the cookies it sees is never sent.\<close>

theorem login_token_stays_hidden:
  assumes "\<not> sublist ''egaop_token='' (document_cookie jar)" and "\<not> has_header ''Authorization'' (fi_headers init)"
  shows "\<not> has_header ''Authorization'' (request_headers (Some (store_cookie (login_route body server) jar)) init)"
proof -
  have vis: "filter (\<lambda>c. \<not> ck_httpOnly c) (filter (\<lambda>c. ck_name c \<noteq> ''egaop_token'') jar) = filter (\<lambda>c. \<not> ck_httpOnly c) jar"
  proof -
    have "ck_name c \<noteq> ''egaop_token''" if "c \<in> set (filter (\<lambda>c. \<not> ck_httpOnly c) jar)" for c
      using cookie_in_text[OF that] assms(1) by (auto simp: document_cookie_def)
    then show ?thesis by (auto simp: filter_filter intro!: filter_cong)
  qed
  have "filter (\<lambda>c. \<not> ck_httpOnly c) (store_cookie r jar) = filter (\<lambda>c. \<not> ck_httpOnly c) jar" for r
    using vis by (auto simp: store_cookie_def Let_def conj_commute split: option.split json.split)
  then have "document_cookie (store_cookie (login_route body server) jar) = document_cookie jar" by (simp add: document_cookie_def)
  then have none: "getAuthToken (Some (store_cookie (login_route body server) jar)) = None"
    using token_in_needs[of "document_cookie jar"] assms(1) by (cases "token_in (document_cookie jar)") (auto simp: getAuthToken_def)
  have "\<not> has_header ''Authorization'' (set_header ''Content-Type'' ''application/json'' (fi_headers init))"
  proof -
    have "lower ''Content-Type'' \<noteq> lower ''Authorization''" by code_simp
    then show ?thesis using assms(2) by (auto simp: has_header_def set_header_def)
  qed
  then show ?thesis by (simp add: request_headers_def none truthy_def Let_def)
qed

definition login_answer :: json where
  "login_answer = JObj [(''data'', JObj [(''token'', JStr ''h.p.s'')])]"

theorem login_token_stays_hidden_witness:
  "\<not> has_header ''Authorization'' (request_headers (Some (store_cookie (login_route (Some JNull) (\<lambda>_. Answered 200 (Some login_answer))) []))
      \<lparr>fi_method = None, fi_headers = [], fi_body = None\<rparr>)"
  by (rule login_token_stays_hidden) (simp_all add: document_cookie_def has_header_def)

text \<open>The login of the witness does store its token.\<close>

lemma login_stores_token:
  "store_cookie (login_route (Some JNull) (\<lambda>_. Answered 200 (Some login_answer))) [] = [\<lparr>ck_name = ''egaop_token'', ck_value = ''h.p.s'', ck_httpOnly = True\<rparr>]"
  by code_simp

text \<open>A cookie whose name ends in the searched one is taken for it.\<close>

lemma me_reads_foreign_cookie:
  "me_route (Some ''not_egaop_token=x; egaop_token=h.p.s'') (\<lambda>h. Answered 200 (Some (JStr h))) = plain_reply 200 (JStr ''Bearer x'')"
  by code_simp

section \<open>Events of the console\<close>

lemma listener_bounds:
  "1000 \<le> ls_delay (listen_all evs) \<and> ls_delay (listen_all evs) \<le> 30000 \<and> list_all (\<lambda>w. 1000 \<le> w \<and> w \<le> 30000) (ls_waits (listen_all evs))"
proof (induction evs rule: rev_induct)
  case Nil
  then show ?case by (simp add: listen_all_def mounted_def connect_def INITIAL_RECONNECT_DELAY_def)
next
  case (snoc ev evs)
  let ?s = "listen_all evs"
  have handle: "ls_delay (handleEvent d ?s) \<in> {ls_delay ?s, 1000} \<and> ls_waits (handleEvent d ?s) = ls_waits ?s" for d
    by (auto simp: handleEvent_def Let_def INITIAL_RECONNECT_DELAY_def split: option.split json.split)
  show ?case
  proof (cases ev)
    case (Message m)
    then show ?thesis using snoc handle[of "se_data m"] by (auto simp: listen_all_def on_message_def)
  qed (use snoc in \<open>auto simp: listen_all_def on_failure_def on_timer_def connect_def unmount_def Let_def MAX_RECONNECT_DELAY_def\<close>)
qed

text \<open>The console waits between one and thirty seconds before it connects again, whatever it receives.\<close>

theorem reconnect_bounded:
  "list_all (\<lambda>w. 1000 \<le> w \<and> w \<le> 30000) (ls_waits (listen_all evs))"
  using listener_bounds[of evs] by blast

definition only_heartbeats :: "sse_event list \<Rightarrow> bool" where
  "only_heartbeats evs \<longleftrightarrow> (\<forall>m. Message m \<in> set evs \<longrightarrow> (\<exists>now. m = heartbeat now))"

text \<open>The console's live updates never update anything: every message of its own route has a name, and the listener hears
  only messages without one. No query is ever made stale, and the delay doubles with every reconnection and is never
  reset.\<close>

theorem realtime_never_updates:
  assumes "only_heartbeats evs"
  shows "ls_stale (listen_all evs) = [] \<and>
    ls_delay (listen_all evs) = min (1000 * 2 ^ (length (ls_waits (listen_all evs)) - ls_pending (listen_all evs))) 30000"
proof -
  have double: "min (min (1000 * 2 ^ k) 30000 * 2) 30000 = min (1000 * 2 ^ Suc k) (30000 :: int)" for k by (auto simp: min_def)
  have "ls_pending (listen_all evs) \<le> length (ls_waits (listen_all evs)) \<and> ?thesis" using assms
  proof (induction evs rule: rev_induct)
    case Nil
    then show ?case by (simp add: listen_all_def mounted_def connect_def INITIAL_RECONNECT_DELAY_def)
  next
    case (snoc ev evs)
    have h: "only_heartbeats evs" using snoc.prems by (simp add: only_heartbeats_def)
    let ?s = "listen_all evs"
    have step: "listen_all (evs @ [ev]) = listen ev ?s" by (simp add: listen_all_def)
    show ?case
    proof (cases ev)
      case (Message m)
      then have "listen ev ?s = ?s" using snoc.prems by (auto simp: only_heartbeats_def on_message_def heartbeat_def send_event_def)
      then show ?thesis using snoc.IH[OF h] by (simp only: step)
    next
      case Timer
      show ?thesis
      proof (cases "ls_pending ?s")
        case (Suc k)
        have "ls_pending ?s \<le> length (ls_waits ?s)" using snoc.IH[OF h] by blast
        then have "length (ls_waits ?s) - k = Suc (length (ls_waits ?s) - ls_pending ?s)" using Suc by simp
        then show ?thesis using snoc.IH[OF h] Suc double[of "length (ls_waits ?s) - ls_pending ?s"]
          by (simp only: step) (simp add: Timer on_timer_def connect_def MAX_RECONNECT_DELAY_def)
      next
        case 0
        then have "listen ev ?s = ?s" by (simp add: Timer on_timer_def)
        then show ?thesis using snoc.IH[OF h] by (simp only: step)
      qed
    next
      case Failure
      have "ls_pending ?s \<le> length (ls_waits ?s)" using snoc.IH[OF h] by blast
      then have "ls_delay (listen ev ?s) = ls_delay ?s" "ls_stale (listen ev ?s) = ls_stale ?s"
        "ls_pending (listen ev ?s) \<le> length (ls_waits (listen ev ?s))"
        "length (ls_waits (listen ev ?s)) - ls_pending (listen ev ?s) = length (ls_waits ?s) - ls_pending ?s"
        by (simp_all add: Failure on_failure_def Let_def)
      then show ?thesis using snoc.IH[OF h] by (simp only: step)
    next
      case Unmount
      have "ls_delay (listen ev ?s) = ls_delay ?s" "ls_stale (listen ev ?s) = ls_stale ?s"
        "ls_pending (listen ev ?s) = ls_pending ?s" "ls_waits (listen ev ?s) = ls_waits ?s"
        by (simp_all add: Unmount unmount_def)
      then show ?thesis using snoc.IH[OF h] by (simp only: step)
    qed
  qed
  then show ?thesis by blast
qed

theorem realtime_never_updates_witness:
  "ls_stale (listen_all [Message (heartbeat ''2026-01-01T00:00:00.000Z''), Failure, Timer, Message (heartbeat ''2026-01-01T00:00:15.000Z''), Failure]) = [] \<and>
   ls_delay (listen_all [Message (heartbeat ''2026-01-01T00:00:00.000Z''), Failure, Timer, Message (heartbeat ''2026-01-01T00:00:15.000Z''), Failure]) = 2000"
  using realtime_never_updates[of "[Message (heartbeat ''2026-01-01T00:00:00.000Z''), Failure, Timer, Message (heartbeat ''2026-01-01T00:00:15.000Z''), Failure]"]
  by (auto simp: only_heartbeats_def listen_all_def mounted_def connect_def on_message_def heartbeat_def send_event_def on_failure_def on_timer_def
      INITIAL_RECONNECT_DELAY_def MAX_RECONNECT_DELAY_def Let_def)

end
