(* ===== verification/LiveEvents.thy ===== *)
theory LiveEvents
  imports ApiServer Slo
begin

text \<open>
  The live parts of the REST server, \<open>control-plane/api-server/src/index.ts\<close>: the WebSocket streams of executions
  and of all events, with their pollers of the workflow engine, and the route of the service level objectives.
  What the workflow engine answers and when sockets close are events of a step function. The model takes the
  socket and the request as the handler is written for them.
\<close>

section \<open>Authentication of a socket\<close>

record ws_request =
  wr_authorization :: "string option"
  wr_token :: "string option"

text \<open>
  The subject of the verified token of the header, or else of the parameter. A token whose verification throws
  ends the handler when it comes from the header, and counts as absent when it comes from the address.
\<close>

definition verifyWebSocketAuth :: "(string \<Rightarrow> string \<Rightarrow> string) \<Rightarrow> int \<Rightarrow> string \<Rightarrow> ws_request \<Rightarrow> string + json option" where
  "verifyWebSocketAuth H now secret q =
     (let parameter = (if truthy (wr_token q)
            then (case verifyJWT H now (the (wr_token q)) secret None of
                    Inr claims \<Rightarrow> if json_truthy claims then Inr (jget (the claims) ''sub'') else Inr (Some JNull)
                  | Inl _ \<Rightarrow> Inr (Some JNull))
            else Inr (Some JNull))
      in case wr_authorization q of
           Some h \<Rightarrow>
             (if take 7 h = ''Bearer ''
              then (case verifyJWT H now (drop 7 h) secret None of
                      Inl e \<Rightarrow> Inl e
                    | Inr claims \<Rightarrow> if json_truthy claims then Inr (jget (the claims) ''sub'') else parameter)
              else parameter)
         | None \<Rightarrow> parameter)"

section \<open>State\<close>

datatype live_message =
    Refusal
  | Connected string string
  | Stream_error string
  | Welcome
  | Status_update string string
  | Execution_finished string string

record live =
  lv_subs :: "(string, nat list) js_map"
  lv_pollers :: "(nat \<times> string) list"
  lv_next :: nat
  lv_flights :: "(nat \<times> string) list"
  lv_open :: "nat list"
  lv_handled :: "(nat \<times> string) list"
  lv_global :: "nat list"
  lv_sent :: "(nat \<times> live_message) list"

definition send_to :: "nat \<Rightarrow> live_message \<Rightarrow> live \<Rightarrow> live" where
  "send_to i m s = (if i \<in> set (lv_open s) then s\<lparr>lv_sent := lv_sent s @ [(i, m)]\<rparr> else s)"

definition close_socket :: "nat \<Rightarrow> live \<Rightarrow> live" where
  "close_socket i s = s\<lparr>lv_open := filter (\<lambda>j. j \<noteq> i) (lv_open s)\<rparr>"

definition subscribers :: "string \<Rightarrow> live \<Rightarrow> nat list" where
  "subscribers e s = nullish (js_get (lv_subs s) e) []"

definition broadcastToExecution :: "string \<Rightarrow> live_message \<Rightarrow> live \<Rightarrow> live" where
  "broadcastToExecution e m s = fold (\<lambda>i. send_to i m) (subscribers e s) s"

text \<open>A set keeps its order and takes an element once.\<close>

definition set_add :: "nat \<Rightarrow> nat list \<Rightarrow> nat list" where
  "set_add i is = (if i \<in> set is then is else is @ [i])"

section \<open>Streams\<close>

definition connect_execution :: "nat \<Rightarrow> string \<Rightarrow> json option \<Rightarrow> live \<Rightarrow> live" where
  "connect_execution i e user s =
     (let s' = s\<lparr>lv_open := i # lv_open s\<rparr>
      in if \<not> json_truthy user then close_socket i (send_to i Refusal s')
         else s'\<lparr>lv_subs := js_set e (set_add i (subscribers e s)) (lv_subs s)\<rparr>)"

text \<open>The workflow engine answered the handler of a socket: the poller and the handler of its end are set up only now.\<close>

definition described :: "nat \<Rightarrow> string \<Rightarrow> string + string \<Rightarrow> live \<Rightarrow> live" where
  "described i e answer s =
     (case answer of
        Inl err \<Rightarrow> close_socket i (send_to i (Stream_error (''Failed to subscribe: '' @ err)) s)
      | Inr status \<Rightarrow>
          (let s' = send_to i (Connected e status) s
           in s'\<lparr>lv_pollers := lv_pollers s @ [(lv_next s, e)], lv_next := Suc (lv_next s), lv_handled := (i, e) # lv_handled s\<rparr>))"

definition statusMap :: "(string \<times> string) list" where
  "statusMap = [(''RUNNING'', ''running''), (''COMPLETED'', ''succeeded''), (''FAILED'', ''failed''), (''CANCELLED'', ''cancelled''),
     (''TERMINATED'', ''terminated''), (''TIMED_OUT'', ''timeout'')]"

definition is_terminal :: "string \<Rightarrow> bool" where
  "is_terminal status \<longleftrightarrow> status \<in> {''COMPLETED'', ''FAILED'', ''CANCELLED'', ''TERMINATED'', ''TIMED_OUT''}"

definition stop_poller :: "nat \<Rightarrow> live \<Rightarrow> live" where
  "stop_poller p s = s\<lparr>lv_pollers := filter (\<lambda>x. fst x \<noteq> p) (lv_pollers s)\<rparr>"

text \<open>A tick of a poller asks the workflow engine; the answer may come after the poller was stopped.\<close>

definition tick :: "nat \<Rightarrow> live \<Rightarrow> live" where
  "tick p s = (case map_of (lv_pollers s) p of None \<Rightarrow> s | Some e \<Rightarrow> s\<lparr>lv_flights := lv_flights s @ [(p, e)]\<rparr>)"

definition update_of :: "string \<Rightarrow> string \<Rightarrow> live_message" where
  "update_of e status = Status_update e (nullish (map_of statusMap status) (lower status))"

definition poll_answer :: "nat \<Rightarrow> string + string \<Rightarrow> live \<Rightarrow> live" where
  "poll_answer p answer s =
     (case map_of (lv_flights s) p of
        None \<Rightarrow> s
      | Some e \<Rightarrow>
          (let s0 = s\<lparr>lv_flights := remove1 (p, e) (lv_flights s)\<rparr>
           in case answer of
                Inl _ \<Rightarrow> stop_poller p s0
              | Inr status \<Rightarrow>
                  (let s' = broadcastToExecution e (update_of e status) s0
                   in if is_terminal status
                      then stop_poller p (broadcastToExecution e (Execution_finished e (nullish (map_of statusMap status) [])) s')
                      else s')))"

definition unsubscribe :: "nat \<Rightarrow> string \<Rightarrow> live \<Rightarrow> live" where
  "unsubscribe i e s =
     (case js_get (lv_subs s) e of
        None \<Rightarrow> s
      | Some is \<Rightarrow> (let is' = filter (\<lambda>j. j \<noteq> i) is
          in s\<lparr>lv_subs := (if is' = [] then js_del e (lv_subs s) else js_set e is' (lv_subs s))\<rparr>))"

text \<open>The end of a socket, for the handlers that were set up for it.\<close>

definition socket_closed :: "nat \<Rightarrow> live \<Rightarrow> live" where
  "socket_closed i s =
     (let s' = close_socket i s
      in fold (\<lambda>(j, e) t. if j = i then unsubscribe i e t else t) (lv_handled s') (s'\<lparr>lv_global := filter (\<lambda>j. j \<noteq> i) (lv_global s')\<rparr>))"

definition connect_events :: "nat \<Rightarrow> json option \<Rightarrow> live \<Rightarrow> live" where
  "connect_events i user s =
     (let s' = s\<lparr>lv_open := i # lv_open s\<rparr>
      in if \<not> json_truthy user then close_socket i (send_to i Refusal s')
         else send_to i Welcome (s'\<lparr>lv_global := set_add i (lv_global s)\<rparr>))"

datatype live_event =
    Connect_execution nat string "json option"
  | Described nat string "string + string"
  | Tick nat
  | Poll_answer nat "string + string"
  | Socket_closed nat
  | Connect_events nat "json option"

fun live_step :: "live_event \<Rightarrow> live \<Rightarrow> live" where
  "live_step (Connect_execution i e u) s = connect_execution i e u s"
| "live_step (Described i e a) s = described i e a s"
| "live_step (Tick p) s = tick p s"
| "live_step (Poll_answer p a) s = poll_answer p a s"
| "live_step (Socket_closed i) s = socket_closed i s"
| "live_step (Connect_events i u) s = connect_events i u s"

definition live_run :: "live_event list \<Rightarrow> live" where
  "live_run evs = fold live_step evs
     \<lparr>lv_subs = [], lv_pollers = [], lv_next = 0, lv_flights = [], lv_open = [], lv_handled = [], lv_global = [], lv_sent = []\<rparr>"

section \<open>Who is told what\<close>

lemma send_to_keeps [simp]:
  "lv_subs (send_to i m s) = lv_subs s" "lv_open (send_to i m s) = lv_open s" "lv_handled (send_to i m s) = lv_handled s"
  "lv_pollers (send_to i m s) = lv_pollers s" "lv_flights (send_to i m s) = lv_flights s" "lv_next (send_to i m s) = lv_next s"
  "lv_global (send_to i m s) = lv_global s"
  by (simp_all add: send_to_def)

lemma fold_send_keeps [simp]:
  "lv_subs (fold (\<lambda>i. send_to i m) is s) = lv_subs s" "lv_open (fold (\<lambda>i. send_to i m) is s) = lv_open s"
  "lv_handled (fold (\<lambda>i. send_to i m) is s) = lv_handled s" "lv_pollers (fold (\<lambda>i. send_to i m) is s) = lv_pollers s"
  "lv_flights (fold (\<lambda>i. send_to i m) is s) = lv_flights s" "lv_next (fold (\<lambda>i. send_to i m) is s) = lv_next s"
  "lv_global (fold (\<lambda>i. send_to i m) is s) = lv_global s"
  by (induction "is" arbitrary: s) simp_all

lemma fold_send_sent:
  "lv_sent (fold (\<lambda>i. send_to i m) is s) = lv_sent s @ map (\<lambda>i. (i, m)) (filter (\<lambda>i. i \<in> set (lv_open s)) is)"
  by (induction "is" arbitrary: s) (simp_all add: send_to_def)

lemmas broadcast_simps = broadcastToExecution_def fold_send_sent

definition told_of :: "live_message \<Rightarrow> string option" where
  "told_of m = (case m of Status_update e _ \<Rightarrow> Some e | Execution_finished e _ \<Rightarrow> Some e | _ \<Rightarrow> None)"

definition admitted :: "live_event list \<Rightarrow> nat \<Rightarrow> string \<Rightarrow> bool" where
  "admitted evs i e \<longleftrightarrow> (\<exists>u. Connect_execution i e u \<in> set evs \<and> json_truthy u)"

definition live_ok :: "live_event list \<Rightarrow> live \<Rightarrow> bool" where
  "live_ok evs s \<longleftrightarrow>
     (\<forall>e. \<forall>i \<in> set (subscribers e s). admitted evs i e) \<and>
     (\<forall>(i, m) \<in> set (lv_sent s). case told_of m of Some e \<Rightarrow> admitted evs i e | None \<Rightarrow> True)"

lemma admitted_more: "admitted evs i e \<Longrightarrow> admitted (evs @ vs) i e"
  by (auto simp: admitted_def)

lemma live_ok_more: "live_ok evs s \<Longrightarrow> live_ok (evs @ vs) s"
  by (fastforce simp: live_ok_def admitted_more split: option.splits)

lemma live_ok_cong:
  "live_ok evs s \<Longrightarrow> (\<And>e. set (subscribers e s') \<subseteq> set (subscribers e s)) \<Longrightarrow> lv_sent s' = lv_sent s \<Longrightarrow> live_ok evs s'"
  unfolding live_ok_def by (auto dest: subsetD)

lemma live_ok_send: "live_ok evs s \<Longrightarrow> told_of m = None \<Longrightarrow> live_ok evs (send_to i m s)"
  by (auto simp: live_ok_def send_to_def subscribers_def)

lemma live_ok_broadcast:
  assumes "live_ok evs s" "told_of m = Some e"
  shows "live_ok evs (broadcastToExecution e m s)"
proof -
  have "subscribers k (broadcastToExecution e m s) = subscribers k s" for k by (simp add: subscribers_def broadcast_simps)
  then show ?thesis using assms by (auto simp: live_ok_def broadcast_simps)
qed

lemma unsubscribe_subs: "set (subscribers k (unsubscribe i e s)) \<subseteq> set (subscribers k s)"
  by (auto simp: unsubscribe_def subscribers_def js_map_simps Let_def split: option.split if_splits)

lemma unsubscribe_sent [simp]: "lv_sent (unsubscribe i e s) = lv_sent s"
  by (simp add: unsubscribe_def Let_def split: option.split)

lemma fold_unsubscribe:
  "set (subscribers k (fold (\<lambda>(j, e) t. if j = i then unsubscribe i e t else t) hs s)) \<subseteq> set (subscribers k s) \<and>
   lv_sent (fold (\<lambda>(j, e) t. if j = i then unsubscribe i e t else t) hs s) = lv_sent s"
proof (induction hs arbitrary: s)
  case (Cons h hs)
  obtain j e where h: "h = (j, e)" by (cases h)
  show ?case
  proof (cases "j = i")
    case True
    have "set (subscribers k (fold (\<lambda>(j, e) t. if j = i then unsubscribe i e t else t) hs (unsubscribe i e s))) \<subseteq> set (subscribers k s)"
      using Cons[of "unsubscribe i e s"] unsubscribe_subs[of k i e s] by (meson subset_trans)
    then show ?thesis using Cons[of "unsubscribe i e s"] by (simp add: h True)
  next
    case False
    then show ?thesis using Cons[of s] by (simp add: h)
  qed
qed simp

lemma live_ok_same: "live_ok evs s \<Longrightarrow> lv_subs s' = lv_subs s \<Longrightarrow> lv_sent s' = lv_sent s \<Longrightarrow> live_ok evs s'"
  unfolding live_ok_def subscribers_def by simp

lemma live_ok_close: "live_ok evs s \<Longrightarrow> live_ok evs (close_socket i s)"
  by (erule live_ok_same) (simp_all add: close_socket_def)

lemma live_ok_stop: "live_ok evs s \<Longrightarrow> live_ok evs (stop_poller p s)"
  by (erule live_ok_same) (simp_all add: stop_poller_def)

lemma live_ok_connect:
  assumes "live_ok evs s" "json_truthy u \<Longrightarrow> admitted evs i e"
  shows "live_ok evs (connect_execution i e u s)"
proof (cases "json_truthy u")
  case True
  let ?s = "s\<lparr>lv_open := i # lv_open s, lv_subs := js_set e (set_add i (subscribers e s)) (lv_subs s)\<rparr>"
  have "subscribers k ?s = (if k = e then set_add i (subscribers e s) else subscribers k s)" for k
    by (simp add: subscribers_def js_map_simps)
  then have "live_ok evs ?s" using assms True by (auto simp: live_ok_def set_add_def split: if_splits)
  then show ?thesis using True by (simp add: connect_execution_def Let_def)
next
  case False
  have "live_ok evs (send_to i Refusal (s\<lparr>lv_open := i # lv_open s\<rparr>))"
    by (rule live_ok_send[OF live_ok_same[OF assms(1)]]) (simp_all add: told_of_def)
  then show ?thesis using False live_ok_close by (simp add: connect_execution_def Let_def)
qed

lemma live_ok_described:
  assumes "live_ok evs s"
  shows "live_ok evs (described i e a s)"
proof (cases a)
  case (Inl err)
  have "live_ok evs (send_to i (Stream_error (''Failed to subscribe: '' @ err)) s)"
    by (rule live_ok_send[OF assms]) (simp add: told_of_def)
  then show ?thesis unfolding described_def Inl sum.case by (rule live_ok_close)
next
  case (Inr status)
  have "live_ok evs (send_to i (Connected e status) s)" by (rule live_ok_send[OF assms]) (simp add: told_of_def)
  then show ?thesis by (rule live_ok_same) (simp_all add: described_def Inr Let_def)
qed

lemma live_ok_poll:
  assumes "live_ok evs s"
  shows "live_ok evs (poll_answer p a s)"
proof (cases "map_of (lv_flights s) p")
  case (Some e)
  let ?s0 = "s\<lparr>lv_flights := remove1 (p, e) (lv_flights s)\<rparr>"
  have s0: "live_ok evs ?s0" by (rule live_ok_same[OF assms]) simp_all
  have b: "live_ok evs (broadcastToExecution e (update_of e st) ?s0)" for st
    by (rule live_ok_broadcast[OF s0]) (simp add: told_of_def update_of_def)
  have "live_ok evs (broadcastToExecution e (Execution_finished e x) (broadcastToExecution e (update_of e st) ?s0))" for x st
    by (rule live_ok_broadcast[OF b]) (simp add: told_of_def)
  then show ?thesis using s0 b live_ok_stop by (cases a) (simp_all add: poll_answer_def Some Let_def)
qed (use assms in \<open>simp add: poll_answer_def\<close>)

lemma live_ok_closed:
  assumes "live_ok evs s"
  shows "live_ok evs (socket_closed i s)"
proof -
  let ?t = "(close_socket i s)\<lparr>lv_global := filter (\<lambda>j. j \<noteq> i) (lv_global (close_socket i s))\<rparr>"
  have t: "live_ok evs ?t" by (rule live_ok_same[OF live_ok_close[OF assms]]) simp_all
  show ?thesis unfolding socket_closed_def Let_def
    by (rule live_ok_cong[OF t]) (simp_all add: fold_unsubscribe)
qed

lemma live_ok_events:
  assumes "live_ok evs s"
  shows "live_ok evs (connect_events i u s)"
proof -
  have "live_ok evs (send_to i m t)" if "told_of m = None" "lv_subs t = lv_subs s" "lv_sent t = lv_sent s" for m t
    by (rule live_ok_send[OF live_ok_same[OF assms that(2,3)] that(1)])
  then show ?thesis using live_ok_close by (simp add: connect_events_def told_of_def Let_def)
qed

lemma live_ok_step:
  assumes "live_ok evs s"
  shows "live_ok (evs @ [ev]) (live_step ev s)"
proof -
  note more = live_ok_more[OF assms, of "[ev]"]
  show ?thesis
  proof (cases ev)
    case (Connect_execution i e u)
    then have "json_truthy u \<Longrightarrow> admitted (evs @ [ev]) i e" by (auto simp: admitted_def)
    from live_ok_connect[OF more this] show ?thesis by (simp add: Connect_execution)
  next
    case (Tick p)
    have "live_ok (evs @ [ev]) (tick p s)" by (rule live_ok_same[OF more]) (simp_all add: tick_def split: option.split)
    then show ?thesis by (simp add: Tick)
  qed (use live_ok_described[OF more] live_ok_poll[OF more] live_ok_closed[OF more] live_ok_events[OF more] in simp_all)
qed

lemma live_ok_run: "live_ok evs (live_run evs)"
proof (induction evs rule: rev_induct)
  case Nil
  show ?case by (simp add: live_run_def live_ok_def subscribers_def)
next
  case (snoc ev evs)
  then show ?case using live_ok_step by (simp add: live_run_def)
qed


section \<open>What stays behind\<close>

lemma subscribers_send [simp]: "subscribers e (send_to i m s) = subscribers e s"
  by (simp add: subscribers_def)

lemma subscribers_broadcast [simp]: "subscribers e (broadcastToExecution k m s) = subscribers e s"
  by (simp add: subscribers_def broadcast_simps)

lemma handled_broadcast [simp]: "lv_handled (broadcastToExecution k m s) = lv_handled s"
  by (simp add: broadcast_simps)

lemma unsubscribe_other: "i \<in> set (subscribers e s) \<Longrightarrow> j \<noteq> i \<or> k \<noteq> e \<Longrightarrow> i \<in> set (subscribers e (unsubscribe j k s))"
  by (auto simp: unsubscribe_def subscribers_def js_map_simps Let_def split: option.split)
    (metis (mono_tags, lifting) filter_empty_conv)+

lemma unsubscribe_handled [simp]: "lv_handled (unsubscribe j k s) = lv_handled s"
  by (simp add: unsubscribe_def Let_def split: option.split)

lemma fold_unsubscribe_other:
  "\<lbrakk>i \<in> set (subscribers e s); (i, e) \<notin> set hs\<rbrakk> \<Longrightarrow>
   i \<in> set (subscribers e (fold (\<lambda>(j, k) t. if j = c then unsubscribe c k t else t) hs s)) \<and>
   lv_handled (fold (\<lambda>(j, k) t. if j = c then unsubscribe c k t else t) hs s) = lv_handled s"
proof (induction hs arbitrary: s)
  case (Cons h hs)
  obtain j k where h: "h = (j, k)" by (cases h)
  show ?case
  proof (cases "j = c")
    case True
    have "i \<in> set (subscribers e (unsubscribe c k s))" using Cons.prems True by (intro unsubscribe_other) (auto simp: h)
    then show ?thesis using Cons.IH[of "unsubscribe c k s"] Cons.prems(2) by (simp add: h True)
  qed (use Cons in \<open>simp add: h\<close>)
qed simp

definition leaked :: "nat \<Rightarrow> string \<Rightarrow> live \<Rightarrow> bool" where
  "leaked i e s \<longleftrightarrow> i \<in> set (subscribers e s) \<and> (i, e) \<notin> set (lv_handled s)"

lemma leaked_step:
  assumes "leaked i e s" and "\<And>status. ev \<noteq> Described i e (Inr status)"
  shows "leaked i e (live_step ev s)"
proof (cases ev)
  case (Connect_execution j k u)
  then show ?thesis using assms(1)
    by (auto simp: leaked_def connect_execution_def close_socket_def subscribers_def js_map_simps set_add_def Let_def send_to_def)
next
  case (Described j k a)
  then show ?thesis using assms by (cases a) (auto simp: leaked_def described_def close_socket_def subscribers_def Let_def)
next
  case (Tick p)
  then show ?thesis using assms(1) by (auto simp: leaked_def tick_def subscribers_def split: option.split)
next
  case (Poll_answer p a)
  have "subscribers e (stop_poller p t) = subscribers e t" "lv_handled (stop_poller p t) = lv_handled t"
    "subscribers e (t\<lparr>lv_flights := f\<rparr>) = subscribers e t" for t f
    by (simp_all add: stop_poller_def subscribers_def)
  then show ?thesis using assms(1)
    by (cases a) (auto simp: Poll_answer leaked_def poll_answer_def Let_def split: option.split)
next
  case (Socket_closed j)
  let ?t = "(close_socket j s)\<lparr>lv_global := filter (\<lambda>x. x \<noteq> j) (lv_global (close_socket j s))\<rparr>"
  have "i \<in> set (subscribers e ?t)" "(i, e) \<notin> set (lv_handled s)" "lv_handled ?t = lv_handled s" "lv_handled (close_socket j s) = lv_handled s"
    using assms(1) by (simp_all add: leaked_def subscribers_def close_socket_def)
  then show ?thesis using fold_unsubscribe_other[of i e ?t "lv_handled s" j]
    by (simp add: Socket_closed leaked_def socket_closed_def Let_def)
next
  case (Connect_events j u)
  then show ?thesis using assms(1) by (auto simp: leaked_def connect_events_def close_socket_def subscribers_def Let_def send_to_def)
qed

text \<open>A subscription that fails leaves its socket among the subscribers for ever: the handler that would remove it is
  set up only after the workflow engine answered, so no later event, the end of the socket included, takes
  it out.\<close>

theorem failed_subscription_leaks:
  assumes "i \<in> set (subscribers e (live_run evs))" "(i, e) \<notin> set (lv_handled (live_run evs))"
    and "\<And>status. Described i e (Inr status) \<notin> set vs"
  shows "i \<in> set (subscribers e (live_run (evs @ vs)))"
proof -
  have "leaked i e (live_run (evs @ vs))" using assms(3)
  proof (induction vs rule: rev_induct)
    case Nil
    then show ?case using assms(1,2) by (simp add: leaked_def)
  next
    case (snoc v vs)
    then have "leaked i e (live_run (evs @ vs))" "\<And>status. v \<noteq> Described i e (Inr status)" by auto
    from leaked_step[OF this] show ?case by (simp add: live_run_def)
  qed
  then show ?thesis by (simp add: leaked_def)
qed

theorem failed_subscription_leaks_witness:
  "7 \<in> set (subscribers ''exec-1'' (live_run ([Connect_execution 7 ''exec-1'' (Some (JStr ''u''))] @
      [Described 7 ''exec-1'' (Inl ''workflow not found''), Socket_closed 7])))"
  by (rule failed_subscription_leaks) (simp_all add: live_run_def connect_execution_def json_truthy_def subscribers_def set_add_def Let_def)


section \<open>Copies\<close>

definition n_streams :: "nat \<Rightarrow> string \<Rightarrow> live_event list" where
  "n_streams n e = concat (map (\<lambda>i. [Connect_execution i e (Some (JStr ''u'')), Described i e (Inr ''RUNNING'')]) [0..<n])"

definition one_round :: "nat \<Rightarrow> live_event list" where
  "one_round n = concat (map (\<lambda>p. [Tick p, Poll_answer p (Inr ''RUNNING'')]) [0..<n])"

lemma n_streams_state:
  "\<exists>sent. live_run (n_streams n e) =
     \<lparr>lv_subs = (if n = 0 then [] else [(e, [0..<n])]), lv_pollers = map (\<lambda>p. (p, e)) [0..<n], lv_next = n, lv_flights = [],
      lv_open = rev [0..<n], lv_handled = rev (map (\<lambda>i. (i, e)) [0..<n]), lv_global = [], lv_sent = sent\<rparr> \<and>
     (\<forall>(i, m) \<in> set sent. told_of m = None)"
proof (induction n)
  case 0
  show ?case by (simp add: n_streams_def live_run_def)
next
  case (Suc n)
  then obtain sent where s: "live_run (n_streams n e) =
     \<lparr>lv_subs = (if n = 0 then [] else [(e, [0..<n])]), lv_pollers = map (\<lambda>p. (p, e)) [0..<n], lv_next = n, lv_flights = [],
      lv_open = rev [0..<n], lv_handled = rev (map (\<lambda>i. (i, e)) [0..<n]), lv_global = [], lv_sent = sent\<rparr>"
    and t: "\<forall>(i, m) \<in> set sent. told_of m = None" by blast
  have step: "live_run (n_streams (Suc n) e) = described n e (Inr ''RUNNING'') (connect_execution n e (Some (JStr ''u'')) (live_run (n_streams n e)))"
    by (simp add: live_run_def n_streams_def)
  have "live_run (n_streams (Suc n) e) =
     \<lparr>lv_subs = [(e, [0..<Suc n])], lv_pollers = map (\<lambda>p. (p, e)) [0..<Suc n], lv_next = Suc n, lv_flights = [],
      lv_open = rev [0..<Suc n], lv_handled = rev (map (\<lambda>i. (i, e)) [0..<Suc n]), lv_global = [], lv_sent = sent @ [(n, Connected e ''RUNNING'')]\<rparr>"
    unfolding step s by (simp add: described_def connect_execution_def json_truthy_def subscribers_def set_add_def send_to_def Let_def)
  then show ?case using t by (auto simp: told_of_def)
qed

lemma fold_send:
  "fold (\<lambda>i. send_to i m) is s = s\<lparr>lv_sent := lv_sent s @ map (\<lambda>i. (i, m)) (filter (\<lambda>i. i \<in> set (lv_open s)) is)\<rparr>"
  by (induction "is" arbitrary: s) (simp_all add: send_to_def)

text \<open>Every stream of an execution multiplies what all of them get: with n streams, one round of polling sends every one of them
  the same update n times.\<close>

theorem updates_multiplied:
  assumes "i < n"
  shows "length (filter (\<lambda>x. x = (i, Status_update e ''running'')) (lv_sent (live_run (n_streams n e @ one_round n)))) = n"
proof -
  obtain s sent where s: "live_run (n_streams n e) = s" and sub: "lv_subs s = [(e, [0..<n])]" "lv_pollers s = map (\<lambda>p. (p, e)) [0..<n]"
      "lv_open s = rev [0..<n]" "lv_flights s = []" "lv_sent s = sent" "\<forall>(i, m) \<in> set sent. told_of m = None"
    using n_streams_state[of n e] assms by auto
  let ?u = "map (\<lambda>i. (i, Status_update e ''running'')) [0..<n]"
  have m: "map_of (map (\<lambda>p. (p, e)) [0..<n]) k = Some e" if "k < n" for k
    using that by (auto simp: map_of_map_restrict)
  have "fold live_step (one_round k) s = s\<lparr>lv_sent := sent @ concat (replicate k ?u)\<rparr>" if "k \<le> n" for k
    using that
  proof (induction k)
    case 0
    then show ?case using sub(5) by (simp add: one_round_def)
  next
    case (Suc k)
    let ?s = "s\<lparr>lv_sent := sent @ concat (replicate k ?u)\<rparr>"
    have "fold live_step (one_round (Suc k)) s = poll_answer k (Inr ''RUNNING'') (tick k (fold live_step (one_round k) s))"
      by (simp add: one_round_def)
    also have "\<dots> = poll_answer k (Inr ''RUNNING'') (?s\<lparr>lv_flights := [(k, e)]\<rparr>)"
      using Suc m[of k] sub by (simp add: tick_def)
    also have "\<dots> = broadcastToExecution e (Status_update e ''running'') ?s"
    proof -
      have "?s\<lparr>lv_flights := []\<rparr> = ?s" using sub(4) by (cases s) simp
      then show ?thesis by (simp add: poll_answer_def update_of_def statusMap_def is_terminal_def Let_def)
    qed
    also have "\<dots> = ?s\<lparr>lv_sent := sent @ concat (replicate k ?u) @ ?u\<rparr>"
      using sub by (simp add: broadcastToExecution_def fold_send subscribers_def)
    also have "\<dots> = s\<lparr>lv_sent := sent @ concat (replicate (Suc k) ?u)\<rparr>"
      by (simp flip: replicate_append_same)
    finally show ?case .
  qed
  from this[of n] have "lv_sent (live_run (n_streams n e @ one_round n)) = sent @ concat (replicate n ?u)"
    by (simp add: live_run_def flip: s)
  moreover have "filter (\<lambda>x. x = (i, Status_update e ''running'')) sent = []"
    using sub(6) by (auto simp: filter_empty_conv told_of_def)
  moreover have "length (filter (\<lambda>x. x = (i, Status_update e ''running'')) (concat (replicate k ?u))) = k" for k
  proof (induction k)
    case (Suc k)
    have "length (filter (\<lambda>x. x = (i, Status_update e ''running'')) ?u) = card {j. j = i \<and> j < n}"
      by (simp add: filter_map comp_def distinct_length_filter Collect_conj_eq Int_commute atLeast0LessThan lessThan_def)
    also have "{j. j = i \<and> j < n} = {i}" using assms by auto
    finally show ?case using Suc by simp
  qed simp
  ultimately show ?thesis by simp
qed

theorem updates_multiplied_witness:
  "length (filter (\<lambda>x. x = (1, Status_update ''exec-1'' ''running'')) (lv_sent (live_run (n_streams 3 ''exec-1'' @ one_round 3)))) = 3"
  by (rule updates_multiplied) simp

section \<open>The token parameter, and the service levels\<close>

text \<open>The token in the address of a stream is of no use: a request that carries its token only there is refused before the
  handler of the stream runs, because the hook of all routes asks for a header or a cookie.\<close>

theorem token_parameter_useless:
  assumes "rq_url q = ''/api/ws/executions/'' @ rest" "rq_method q = ''GET''" "\<not> truthy (request_token (rq_call q))"
  shows "\<exists>r. pre_handler L q st = Some r \<and> (case r of Rest code _ \<Rightarrow> code = 401)"
  using assms by (simp add: pre_handler_def bad_content_type_def is_public_def public_urls_def authenticate_def api_error_def)

theorem token_parameter_useless_witness:
  "\<exists>r. pre_handler (li_auth demo_api_lib) (run_request\<lparr>rq_url := ''/api/ws/executions/exec-1?token=h.p.s'', rq_method := ''GET'', rq_call := demo_call\<rparr>) (sr_auth demo_api) = Some r \<and>
     (case r of Rest code _ \<Rightarrow> code = 401)"
proof (rule token_parameter_useless)
  show "rq_url (run_request\<lparr>rq_url := ''/api/ws/executions/exec-1?token=h.p.s'', rq_method := ''GET'', rq_call := demo_call\<rparr>) = ''/api/ws/executions/'' @ ''exec-1?token=h.p.s''"
    by simp
  have "request_token demo_call = None" by code_simp
  then show "\<not> truthy (request_token (rq_call (run_request\<lparr>rq_url := ''/api/ws/executions/exec-1?token=h.p.s'', rq_method := ''GET'', rq_call := demo_call\<rparr>)))"
    by (simp add: truthy_def)
qed simp

text \<open>The objectives that the server defines, with the names of their metrics, and their route. Nothing ever records a sample.\<close>

definition DEFAULT_SLO_DEFINITIONS :: "(string \<times> string \<times> slo_type) list" where
  "DEFAULT_SLO_DEFINITIONS =
     [(''api-availability'', ''api_availability'', Availability), (''api-latency-p95'', ''api_latency_p95'', Latency),
      (''grpc-availability'', ''grpc_availability'', Availability), (''grpc-latency-p95'', ''grpc_latency_p95'', Latency),
      (''agent-execution-success'', ''agent_execution_success_rate'', Availability), (''llm-latency-p99'', ''llm_latency_p99'', Latency)]"

definition slo_target :: "string \<Rightarrow> slo_type \<Rightarrow> num" where
  "slo_target metric ty = (case ty of Availability \<Rightarrow> rnd (999 / 1000) | Latency \<Rightarrow> if str_includes metric ''p99'' then Num 3000 else Num 1000)"

definition sloTracker :: slo_tracker where
  "sloTracker = fold (\<lambda>(name, metric, ty). define_slo name ty (slo_target metric ty)) DEFAULT_SLO_DEFINITIONS (tracker_new None)"

text \<open>\<open>window\<close> is the number that the parameter reads as.\<close>

definition slos_route :: "string \<Rightarrow> num \<Rightarrow> num \<Rightarrow> slo_snapshot" where
  "slos_route stamp now window = take_snapshot stamp now (Some (if window = Num 0 \<or> window = NNaN then Num 30 else window)) sloTracker"

lemma aggregate_empty: "aggregateSamples [] = \<lparr>ag_total = Num 0, ag_failed = Num 0, ag_histogram = [], ag_percentile = Num 0\<rparr>"
  by (simp add: aggregateSamples_def computePercentileFromBuckets_def)

lemma empty_compliant:
  "tk_history slo = [] \<Longrightarrow> (case tk_type slo of Availability \<Rightarrow> num_ge (Num 1) (tk_target slo) | Latency \<Rightarrow> num_le (Num 0) (tk_target slo)) \<Longrightarrow>
   os_compliant (computeStatus name slo w now)"
  by (simp add: computeStatus_def since_def aggregate_empty Let_def split: slo_type.splits)

lemma target_reachable: "num_le (rnd (999 / 1000)) (Num 1)"
  by code_simp

lemma sloTracker_empty:
  "list_all (\<lambda>(name, slo). tk_history slo = [] \<and> (case tk_type slo of Availability \<Rightarrow> num_ge (Num 1) (tk_target slo) | Latency \<Rightarrow> num_le (Num 0) (tk_target slo)))
     (tr_slos sloTracker)"
  by (simp add: sloTracker_def DEFAULT_SLO_DEFINITIONS_def define_slo_def tracker_new_def slo_target_def target_reachable num_ge_def)

text \<open>The route of the service levels always reports that every objective is met, at every time and for every window: the tracker
  defines six objectives and nothing ever records a sample.\<close>

theorem slos_always_met: "oz_compliant (slos_route stamp now window) \<and> length (oz_statuses (slos_route stamp now window)) = 6"
proof
  show "oz_compliant (slos_route stamp now window)"
    using sloTracker_empty empty_compliant by (auto simp: slos_route_def take_snapshot_def Let_def list_all_iff)
  have "length (tr_slos sloTracker) = 6"
    by (simp add: sloTracker_def DEFAULT_SLO_DEFINITIONS_def define_slo_def tracker_new_def)
  then show "length (oz_statuses (slos_route stamp now window)) = 6" by (simp add: slos_route_def take_snapshot_def Let_def)
qed

end
