(* ===== verification/Spec2Isabelle.thy ===== *)
theory Spec2Isabelle
  imports RateLimiter ReactWorkflow HitlGate Activities DeadLetter PolicyMiddleware ToolProxy Quota Errors Semaphore Budget AuditChain LlmRouter Lockout Executions Interceptors Memory SecretStore Slo Observability SandboxService StartupConfig Migrations LlmStream SandboxAgent ConsoleRoutes LiveEvents
begin

text \<open>
  A model of the control, execution, policy, memory and observability planes of the agent orchestration
  platform, a set of TypeScript services that speak gRPC and HTTP to each other. The theories below model the
  services' own logic; what they get from elsewhere enters as a parameter.

  \<^bold>\<open>How the program works.\<close> A person signs in at the REST interface
  (\<open>control-plane/api-server\<close>), which keeps the accounts, the agents with their versions, and the namespaces,
  and starts an agent as a Temporal workflow. The workflow (\<open>control-plane/workflow-engine\<close>) asks the policy
  plane for admission and for every tool, creates a sandbox (\<open>execution-plane/sandbox-runtime\<close>), and alternates
  LLM calls (\<open>execution-plane/llm-router\<close>) with tool calls (\<open>execution-plane/tool-proxy\<close>) under a quota,
  a budget and a limit of iterations; an approval gate is a workflow of its own. What ends badly goes to the
  dead-letter queue. Memory, secrets and spans are services over a table each. Interceptors guard every gRPC call.

  \<^bold>\<open>Foundations.\<close>
  \<^item> \<open>Prelude\<close>: ordered maps, nullish operators, decimal printing, the effect type of code that may throw.
  \<^item> \<open>JsNumber\<close>: IEEE doubles as rounded rationals; \<open>Json\<close>, \<open>JsonRoundtrip\<close>: values, \<open>stringify\<close>,
    \<open>parse\<close>, and their round trip; \<open>JsRegex\<close>: a backtracking matcher for the patterns the code uses.

  \<^bold>\<open>Components.\<close> Each theory has the names of the code's functions; records are its classes and rows.
  \<^item> Workflow engine: \<open>ReactWorkflow\<close> (\<open>workflows/react-workflow.ts\<close>: run, signals, queries over arbitrary
    activities), \<open>HitlGate\<close> (\<open>workflows/hitl-gate.ts\<close>), \<open>Activities\<close> and \<open>Classification\<close>
    (\<open>activities/index.ts\<close>, \<open>classification.ts\<close>), \<open>DeadLetter\<close>.
  \<^item> Shared library (\<open>packages/shared/src\<close>): \<open>RateLimiter\<close>, \<open>Quota\<close>, \<open>Budget\<close>, \<open>Semaphore\<close>, \<open>Errors\<close>,
    \<open>AuditChain\<close>, \<open>Crypto\<close>, \<open>Slo\<close>, \<open>Interceptors\<close> (namespace guard, service token, retries, metrics).
  \<^item> LLM router: \<open>PromptInjection\<close>, \<open>LlmProviders\<close>, \<open>LlmRouter\<close>. Tool proxy: \<open>ToolProxy\<close>.
  \<^item> Policy plane: \<open>PolicyPlane\<close> (breaker, cache, decisions), \<open>PolicyMiddleware\<close> (its interceptor).
  \<^item> API server: \<open>UserStore\<close>, \<open>Auth\<close>, \<open>Sessions\<close>, \<open>Lockout\<close> (\<open>auth/\<close>), \<open>AgentStore\<close>, \<open>AgentService\<close>
    (\<open>agents/\<close>), \<open>Namespaces\<close>, \<open>ApiServer\<close> and \<open>Executions\<close> (\<open>index.ts\<close>: hooks and routes).
  \<^item> Memory plane: \<open>MemoryQueue\<close>, \<open>Memory\<close>. Secrets: \<open>SecretStore\<close>. Spans: \<open>Observability\<close>.
  \<^item> Sandboxes: \<open>Sandbox\<close>, \<open>DockerDriver\<close>, \<open>K8sDriver\<close>, \<open>SandboxService\<close>; \<open>SandboxAgent\<close> is the program inside one.
  \<^item> Streaming: \<open>LlmStream\<close> (\<open>callLLMStream\<close>), \<open>LiveEvents\<close> (the WebSocket streams and service levels of \<open>index.ts\<close>).
  \<^item> Operation: \<open>StartupConfig\<close> with \<open>NumBounds\<close> (secrets at start-up), \<open>Migrations\<close> (\<open>scripts/migrate.mjs\<close>).
  \<^item> Admin console: \<open>ConsoleClient\<close> (\<open>lib/api\<close>), \<open>ConsoleRoutes\<close> (\<open>app/api\<close>, \<open>lib/realtime.ts\<close>).

  \<^bold>\<open>What is shown.\<close> For the workflow: bounds on LLM and tool calls, that nothing runs without admission, policy
  and budget, and that the sandbox is terminated on every path. For accounts: an invariant of the users table, what
  a session can do, and a bound on guesses, as a refinement of the login route to a counter with a lock. For the
  stores: round trips, order and loss of the write-ahead queue, rollback, and pages. For the limits: bounds in
  every window under arbitrary interleavings. For the policy plane: a refinement of the breaker to a history, and
  that an allowing decision rests on an allowing answer. For the streams: order, and an end, under every
  interleaving. For the migrations: a refinement to steps that take effect as a whole. Several theorems state
  behaviour that the code hardly intends; the manifest lists them as findings.

  \<^bold>\<open>Conventions.\<close> Asynchronous code is split at its suspensions into atomic steps, and sequences of steps are
  lists of events; sequential handlers are functions of the state and of what their calls answered. Errors are
  values of a sum. Loops are structural, or recursive with a measure; the loops that wait for others are
  \<open>partial_function\<close>, and that they return is a theorem (\<open>waitForQuota\<close>, the flush of the queue). Fuel occurs in
  the backtracking matcher (bounded by the length of the subject) and in the reader of JSON (by the length of the
  text), and is computed from the input there.

  \<^bold>\<open>Parameters.\<close> HMAC, SHA-256, scrypt, AES-GCM, random bytes, clocks, Redis, PostgreSQL's failures, the network,
  OPA, the model providers, Docker, Kubernetes, Temporal and the metadata checks of \<open>@grpc/grpc-js\<close> are arguments of
  the definitions that use them.

  \<^bold>\<open>Not modelled.\<close> The pages of the admin console (React, which render what the routes return), starting and stopping
  servers, TLS files, log and trace exporters, dashboards and shell scripts: they are input and output, or calls of
  libraries; the evaluation harness, which scores a running system. The WebSocket handlers are modelled as they are
  written, although the plugin that would call them is never registered. Tests,
  charts, Rego policies and generated protocol files are not the program's TypeScript.
\<close>

end
